(* ===== verification/Rust_Prelude.thy ===== *)
theory Rust_Prelude
  imports Main "HOL-Library.Word"
begin

unbundle bit_operations_syntax

text \<open>
  The vocabulary every component of the model shares.

  \<^item> machine integers are words of their width (\<open>u8\<close>, \<open>u16\<close>, \<open>u32\<close>, \<open>u64\<close>); \<open>usize\<close> values are
    natural numbers: they are buffer positions and lengths, and a length that is stored in a
    narrower field is truncated explicitly where the code writes \<open>as u8\<close>, \<open>as u16\<close> or \<open>as u32\<close>;
  \<^item> byte buffers (\<open>Vec<u8>\<close>, \<open>&[u8]\<close>, \<open>Bytes\<close>, \<open>BytesMut\<close> and the \<open>Buf\<close> cursors over them) are
    lists of bytes, a cursor being the list of the bytes that remain;
  \<^item> a Rust call ends in one of three ways, the type \<open>outcome\<close>: it returns, it returns an error
    value, or it panics. Every read that the language or the \<open>bytes\<close> crate leaves unchecked is
    \<open>Panic\<close> out of range, so that the absence of panics is a theorem and not a convention;
  \<^item> a Rust \<open>String\<close> is the list of its UTF-8 bytes, and \<open>String::from_utf8\<close> is the executable
    validity test of that encoding.
\<close>

section \<open>Types\<close>

type_synonym u8 = "8 word"
type_synonym u16 = "16 word"
type_synonym u32 = "32 word"
type_synonym u64 = "64 word"
type_synonym bytes = "u8 list"
type_synonym rstring = bytes

named_theorems no_panic_intros \<open>rules that show that a call does not panic\<close>
named_theorems wire_simps \<open>how the encoders and the primitive readers act on byte lists\<close>

section \<open>Outcomes of a call\<close>

datatype (dead 'e, 'a) outcome = Ret 'a | Err 'e | Panic

fun bnd :: "('e, 'a) outcome \<Rightarrow> ('a \<Rightarrow> ('e, 'b) outcome) \<Rightarrow> ('e, 'b) outcome" where
  "bnd (Ret x) f = f x"
| "bnd (Err e) f = Err e"
| "bnd Panic f = Panic"

fun map_err :: "('e \<Rightarrow> 'd) \<Rightarrow> ('e, 'a) outcome \<Rightarrow> ('d, 'a) outcome" where
  "map_err g (Ret x) = Ret x"
| "map_err g (Err e) = Err (g e)"
| "map_err g Panic = Panic"

definition ok_or :: "'e \<Rightarrow> 'a option \<Rightarrow> ('e, 'a) outcome" where
  "ok_or e x = (case x of None \<Rightarrow> Err e | Some v \<Rightarrow> Ret v)"

definition guard :: "bool \<Rightarrow> 'e \<Rightarrow> ('e, unit) outcome" where
  "guard bad e = (if bad then Err e else Ret ())"

definition no_panic :: "('e, 'a) outcome \<Rightarrow> bool" where
  "no_panic r \<longleftrightarrow> r \<noteq> Panic"

lemma ok_or_simps [simp]: "ok_or e None = Err e" "ok_or e (Some v) = Ret v"
  by (simp_all add: ok_or_def)

lemma guard_simps [simp]: "guard True e = Err e" "guard False e = Ret ()"
  by (simp_all add: guard_def)

lemma bnd_cong [fundef_cong]:
  "m = m' \<Longrightarrow> (\<And>x. m' = Ret x \<Longrightarrow> f x = g x) \<Longrightarrow> bnd m f = bnd m' g"
  by (cases m') auto

lemma bnd_Ret_iff: "bnd m f = Ret y \<longleftrightarrow> (\<exists>x. m = Ret x \<and> f x = Ret y)"
  by (cases m) auto

lemma bnd_assoc: "bnd (bnd m f) g = bnd m (\<lambda>x. bnd (f x) g)"
  by (cases m) auto

lemma bnd_Err_iff: "bnd m f = Err e \<longleftrightarrow> m = Err e \<or> (\<exists>x. m = Ret x \<and> f x = Err e)"
  by (cases m) auto

lemma bnd_Panic_iff: "bnd m f = Panic \<longleftrightarrow> m = Panic \<or> (\<exists>x. m = Ret x \<and> f x = Panic)"
  by (cases m) auto

lemma map_err_Ret_iff [simp]: "map_err g m = Ret x \<longleftrightarrow> m = Ret x"
  by (cases m) auto

lemma map_err_Panic_iff [simp]: "map_err g m = Panic \<longleftrightarrow> m = Panic"
  by (cases m) auto

lemma ok_or_Ret_iff [simp]: "ok_or e x = Ret v \<longleftrightarrow> x = Some v"
  by (cases x) auto

lemma ok_or_Panic_iff [simp]: "ok_or e x \<noteq> Panic"
  by (cases x) auto

lemma guard_Ret_iff [simp]: "guard bad e = Ret u \<longleftrightarrow> \<not> bad"
  by (simp add: guard_def)

lemma ok_or_Err_iff [simp]: "ok_or e x = Err d \<longleftrightarrow> x = None \<and> d = e"
  by (cases x) auto

lemma guard_Err_iff [simp]: "guard bad e = Err d \<longleftrightarrow> bad \<and> d = e"
  by (auto simp: guard_def)

lemma guard_Panic_iff [simp]: "guard bad e \<noteq> Panic"
  by (simp add: guard_def)

lemma no_panic_simps [simp]: "no_panic (Ret x)" "no_panic (Err e)" "\<not> no_panic Panic"
  by (simp_all add: no_panic_def)

lemma no_panic_bnd [no_panic_intros]:
  "no_panic m \<Longrightarrow> (\<And>x. m = Ret x \<Longrightarrow> no_panic (f x)) \<Longrightarrow> no_panic (bnd m f)"
  by (cases m) auto

lemma no_panic_guard [no_panic_intros]: "no_panic (guard bad e)"
  by (simp add: no_panic_def)

lemma no_panic_ok_or [no_panic_intros]: "no_panic (ok_or e x)"
  by (simp add: no_panic_def)

lemma no_panic_map_err [no_panic_intros]: "no_panic m \<Longrightarrow> no_panic (map_err g m)"
  by (simp add: no_panic_def)

lemma no_panic_if [no_panic_intros]:
  "(c \<Longrightarrow> no_panic a) \<Longrightarrow> (\<not> c \<Longrightarrow> no_panic b) \<Longrightarrow> no_panic (if c then a else b)"
  by simp

section \<open>Big-endian integers\<close>

definition be16 :: "u8 \<Rightarrow> u8 \<Rightarrow> u16" where
  "be16 a b = push_bit 8 (ucast a) OR ucast b"

definition u16_be :: "u16 \<Rightarrow> bytes" where
  "u16_be w = [ucast (drop_bit 8 w), ucast w]"

definition be24 :: "u8 \<Rightarrow> u8 \<Rightarrow> u8 \<Rightarrow> u32" where
  "be24 a b c = push_bit 16 (ucast a) OR push_bit 8 (ucast b) OR ucast c"

definition be32 :: "u8 \<Rightarrow> u8 \<Rightarrow> u8 \<Rightarrow> u8 \<Rightarrow> u32" where
  "be32 a b c d = push_bit 24 (ucast a) OR push_bit 16 (ucast b) OR push_bit 8 (ucast c) OR ucast d"

definition u32_be :: "u32 \<Rightarrow> bytes" where
  "u32_be w = [ucast (drop_bit 24 w), ucast (drop_bit 16 w), ucast (drop_bit 8 w), ucast w]"

definition u64_be :: "u64 \<Rightarrow> bytes" where
  "u64_be w = [ucast (drop_bit 56 w), ucast (drop_bit 48 w), ucast (drop_bit 40 w),
     ucast (drop_bit 32 w), ucast (drop_bit 24 w), ucast (drop_bit 16 w), ucast (drop_bit 8 w),
     ucast w]"

lemma be16_u16_be [simp]: "be16 (ucast (drop_bit 8 w)) (ucast w) = w"
  unfolding be16_def
  by (rule bit_word_eqI)
    (auto simp: bit_simps)

lemma be32_u32_be [simp]:
  "be32 (ucast (drop_bit 24 w)) (ucast (drop_bit 16 w)) (ucast (drop_bit 8 w)) (ucast w) = w"
proof (rule bit_word_eqI)
  fix n assume "n < LENGTH(32)"
  then consider "n < 8" | "8 \<le> n" "n < 16" | "16 \<le> n" "n < 24" | "24 \<le> n" "n < 32"
    by fastforce
  then show "bit (be32 (ucast (drop_bit 24 w)) (ucast (drop_bit 16 w)) (ucast (drop_bit 8 w))
      (ucast w)) n = bit w n"
    by cases (auto simp: be32_def bit_simps)
qed

lemma u16_be_be16 [simp]: "u16_be (be16 a b) = [a, b]"
proof -
  have "ucast (drop_bit 8 (be16 a b)) = a"
    by (rule bit_word_eqI) (auto simp: be16_def bit_simps dest: bit_imp_le_length)
  moreover have "ucast (be16 a b) = b"
    by (rule bit_word_eqI) (auto simp: be16_def bit_simps)
  ultimately show ?thesis by (simp add: u16_be_def)
qed

lemma unat_u8_less [simp]: "unat (b :: u8) < 256"
proof -
  have "unat b < 2 ^ LENGTH(8)" by (rule unsigned_less)
  then show ?thesis by simp
qed

lemma unat_u16_less [simp]: "unat (w :: u16) < 65536"
proof -
  have "unat w < 2 ^ LENGTH(16)" by (rule unsigned_less)
  then show ?thesis by simp
qed

lemma unat_of_nat_u8 [simp]: "n < 256 \<Longrightarrow> unat (word_of_nat n :: u8) = n"
  by (simp add: unat_of_nat take_bit_eq_mod)

lemma unat_of_nat_u16 [simp]: "n < 65536 \<Longrightarrow> unat (word_of_nat n :: u16) = n"
  by (simp add: unat_of_nat take_bit_eq_mod)

lemma unat_of_nat_u32 [simp]: "n < 4294967296 \<Longrightarrow> unat (word_of_nat n :: u32) = n"
  by (simp add: unat_of_nat take_bit_eq_mod)

lemma unat_be16: "unat (be16 a b) = 256 * unat a + unat b"
proof -
  have "be16 a b = push_bit 8 (ucast a) + ucast b"
    unfolding be16_def
    by (rule disjunctive_add [symmetric]) (auto simp: bit_simps dest: bit_imp_le_length)
  then have "be16 a b = word_of_nat (256 * unat a + unat b)"
    by (simp add: push_bit_eq_mult mult.commute)
  moreover have "256 * unat a + unat b < 65536"
    using unat_u8_less [of a] unat_u8_less [of b] by linarith
  ultimately show ?thesis
    by (simp only: unat_of_nat_u16)
qed

lemma be16_inject: "be16 a b = be16 c d \<longleftrightarrow> a = c \<and> b = d"
  by (metis u16_be_be16 list.inject)

lemma length_u16_be [simp]: "length (u16_be w) = 2"
  by (simp add: u16_be_def)

lemma u16_be_nonempty [simp]: "u16_be w \<noteq> []"
  by (simp add: u16_be_def)

lemma length_u32_be [simp]: "length (u32_be w) = 4"
  by (simp add: u32_be_def)

lemma length_u64_be [simp]: "length (u64_be w) = 8"
  by (simp add: u64_be_def)

section \<open>Reading from buffers\<close>

text \<open>
  The \<open>Buf\<close> methods consume bytes from the front and panic when too few remain; indexing and
  slicing panic out of range. The remaining bytes are the second component of the result.
\<close>

fun get_u8 :: "bytes \<Rightarrow> ('e, u8 \<times> bytes) outcome" where
  "get_u8 (a # r) = Ret (a, r)"
| "get_u8 [] = Panic"

fun get_u16 :: "bytes \<Rightarrow> ('e, u16 \<times> bytes) outcome" where
  "get_u16 (a # b # r) = Ret (be16 a b, r)"
| "get_u16 _ = Panic"

definition get_n :: "nat \<Rightarrow> bytes \<Rightarrow> ('e, bytes \<times> bytes) outcome" where
  "get_n n buf = (if n \<le> length buf then Ret (take n buf, drop n buf) else Panic)"

definition advance :: "nat \<Rightarrow> bytes \<Rightarrow> ('e, bytes) outcome" where
  "advance n buf = (if n \<le> length buf then Ret (drop n buf) else Panic)"

definition idx :: "'a list \<Rightarrow> nat \<Rightarrow> ('e, 'a) outcome" where
  "idx xs i = (if i < length xs then Ret (xs ! i) else Panic)"

definition slice :: "'a list \<Rightarrow> nat \<Rightarrow> nat \<Rightarrow> ('e, 'a list) outcome" where
  "slice xs i j = (if i \<le> j \<and> j \<le> length xs then Ret (take (j - i) (drop i xs)) else Panic)"

text \<open>\<open>copy_from_slice\<close> into an array of \<open>n\<close> bytes, and into the range \<open>i..j\<close> of a buffer: both panic
  unless the lengths agree.\<close>

definition copy_exact :: "nat \<Rightarrow> bytes \<Rightarrow> ('e, bytes) outcome" where
  "copy_exact n src = (if length src = n then Ret src else Panic)"

definition splice :: "bytes \<Rightarrow> nat \<Rightarrow> nat \<Rightarrow> bytes \<Rightarrow> ('e, bytes) outcome" where
  "splice xs i j src = (if i \<le> j \<and> j \<le> length xs \<and> length src = j - i
     then Ret (take i xs @ src @ drop j xs) else Panic)"

text \<open>A \<open>Cursor\<close> is a buffer with a position that may lie past its end; reading \<open>n\<close> bytes returns them
  with the new position.\<close>

definition cur_read :: "bytes \<Rightarrow> nat \<Rightarrow> nat \<Rightarrow> ('e, bytes \<times> nat) outcome" where
  "cur_read xs pos n = (if n \<le> length xs - pos then Ret (take n (drop pos xs), pos + n) else Panic)"

definition cur_u16 :: "bytes \<Rightarrow> nat \<Rightarrow> ('e, u16 \<times> nat) outcome" where
  "cur_u16 xs pos = (if 2 \<le> length xs - pos then Ret (be16 (xs ! pos) (xs ! (pos + 1)), pos + 2) else Panic)"

definition idx_be16 :: "bytes \<Rightarrow> nat \<Rightarrow> ('e, u16) outcome" where
  "idx_be16 xs i = bnd (idx xs i) (\<lambda>a. bnd (idx xs (i + 1)) (\<lambda>b. Ret (be16 a b)))"

lemma idx_not_Err [simp]: "idx xs i \<noteq> Err e"
  by (simp add: idx_def)

lemma slice_not_Err [simp]: "slice xs i j \<noteq> Err e"
  by (simp add: slice_def)

lemma idx_be16_not_Err [simp]: "idx_be16 xs i \<noteq> Err e"
  by (simp add: idx_be16_def idx_def)

lemma get_u8_Ret_iff: "get_u8 buf = Ret (a, r) \<longleftrightarrow> buf = a # r"
  by (cases buf) auto

lemma get_u16_Ret_iff: "get_u16 buf = Ret (w, r) \<longleftrightarrow> (\<exists>a b. buf = a # b # r \<and> w = be16 a b)"
  by (cases buf rule: get_u16.cases) auto

lemma get_u8_no_panic [no_panic_intros]: "1 \<le> length buf \<Longrightarrow> no_panic (get_u8 buf)"
  by (cases buf) auto

lemma get_u16_no_panic [no_panic_intros]: "2 \<le> length buf \<Longrightarrow> no_panic (get_u16 buf)"
  by (cases buf rule: get_u16.cases) auto

lemma get_n_no_panic [no_panic_intros]: "n \<le> length buf \<Longrightarrow> no_panic (get_n n buf)"
  by (simp add: get_n_def)

lemma advance_no_panic [no_panic_intros]: "n \<le> length buf \<Longrightarrow> no_panic (advance n buf)"
  by (simp add: advance_def)

lemma idx_no_panic [no_panic_intros]: "i < length xs \<Longrightarrow> no_panic (idx xs i)"
  by (simp add: idx_def)

lemma slice_no_panic [no_panic_intros]: "i \<le> j \<Longrightarrow> j \<le> length xs \<Longrightarrow> no_panic (slice xs i j)"
  by (simp add: slice_def)

lemma idx_be16_no_panic [no_panic_intros]: "i + 1 < length xs \<Longrightarrow> no_panic (idx_be16 xs i)"
  by (simp add: idx_be16_def idx_def)

lemma get_u16_append [simp]: "get_u16 (u16_be w @ r) = Ret (w, r)"
  by (simp add: u16_be_def)

lemma get_n_append [simp]: "n = length p \<Longrightarrow> get_n n (p @ r) = Ret (p, r)"
  by (simp add: get_n_def)

lemma advance_append [simp]: "n = length p \<Longrightarrow> advance n (p @ r) = Ret r"
  by (simp add: advance_def)

lemma five_bytes: "5 \<le> length buf \<Longrightarrow> \<exists>a b c d e q. buf = a # b # c # d # e # q"
  by (auto simp: numeral_eq_Suc Suc_le_length_iff)

section \<open>Strings\<close>

text \<open>
  \<open>lit\<close> is a byte-string or string literal of the source. \<open>utf8_valid\<close> follows the table of
  well-formed byte sequences that \<open>core::str::from_utf8\<close> implements.
\<close>

definition lit :: "string \<Rightarrow> bytes" where
  "lit s = map (\<lambda>c. word_of_nat (of_char c)) s"

definition cont_byte :: "u8 \<Rightarrow> bool" where
  "cont_byte b \<longleftrightarrow> 0x80 \<le> b \<and> b \<le> 0xBF"

fun utf8_valid :: "bytes \<Rightarrow> bool" where
  "utf8_valid [] = True"
| "utf8_valid (b # bs) =
     (if b < 0x80 then utf8_valid bs
      else if 0xC2 \<le> b \<and> b \<le> 0xDF then
        (case bs of c # r \<Rightarrow> cont_byte c \<and> utf8_valid r | _ \<Rightarrow> False)
      else if 0xE0 \<le> b \<and> b \<le> 0xEF then
        (case bs of c # d # r \<Rightarrow>
           (if b = 0xE0 then 0xA0 \<le> c \<and> c \<le> 0xBF
            else if b = 0xED then 0x80 \<le> c \<and> c \<le> 0x9F else cont_byte c)
           \<and> cont_byte d \<and> utf8_valid r | _ \<Rightarrow> False)
      else if 0xF0 \<le> b \<and> b \<le> 0xF4 then
        (case bs of c # d # e # r \<Rightarrow>
           (if b = 0xF0 then 0x90 \<le> c \<and> c \<le> 0xBF
            else if b = 0xF4 then 0x80 \<le> c \<and> c \<le> 0x8F else cont_byte c)
           \<and> cont_byte d \<and> cont_byte e \<and> utf8_valid r | _ \<Rightarrow> False)
      else False)"

definition from_utf8 :: "bytes \<Rightarrow> rstring option" where
  "from_utf8 bs = (if utf8_valid bs then Some bs else None)"

definition is_ascii :: "bytes \<Rightarrow> bool" where
  "is_ascii bs \<longleftrightarrow> list_all (\<lambda>b. b < 0x80) bs"

lemma utf8_valid_ascii: "is_ascii bs \<Longrightarrow> utf8_valid bs"
  by (induction bs) (auto simp: is_ascii_def)

lemma from_utf8_Some_iff [simp]: "from_utf8 bs = Some s \<longleftrightarrow> utf8_valid bs \<and> s = bs"
  by (auto simp: from_utf8_def)

lemma from_utf8_valid [simp]: "utf8_valid bs \<Longrightarrow> from_utf8 bs = Some bs"
  by simp

lemma length_lit [simp]: "length (lit s) = length s"
  by (simp add: lit_def)

section \<open>Wire formats\<close>

text \<open>
  The contract of a self-delimiting encoding: a decoder that reads the encoding of a valid value
  returns that value and leaves what follows untouched. Every framed message of the program
  (addresses, requests, TLS records, gRPC messages, datagram frames) provides it, and what a
  client of such a format relies on is proved here once.
\<close>

fun decode_many ::
  "(bytes \<Rightarrow> ('e, 'a \<times> bytes) outcome) \<Rightarrow> nat \<Rightarrow> bytes \<Rightarrow> ('e, 'a list \<times> bytes) outcome" where
  "decode_many dec 0 buf = Ret ([], buf)"
| "decode_many dec (Suc n) buf =
     bnd (dec buf) (\<lambda>(x, rest). bnd (decode_many dec n rest) (\<lambda>(xs, rest'). Ret (x # xs, rest')))"

locale wire_format =
  fixes wf_value :: "'a \<Rightarrow> bool"
    and enc :: "'a \<Rightarrow> bytes"
    and dec :: "bytes \<Rightarrow> ('e, 'a \<times> bytes) outcome"
  assumes dec_enc: "wf_value x \<Longrightarrow> dec (enc x @ rest) = Ret (x, rest)"
begin

lemma enc_unique:
  assumes "wf_value x" "wf_value y" "enc x @ r = enc y @ s"
  shows "x = y \<and> r = s"
proof -
  have "Ret (x, r) = (dec (enc x @ r) :: ('e, 'a \<times> bytes) outcome)"
    using assms(1) by (simp add: dec_enc)
  also have "\<dots> = Ret (y, s)"
    using assms(2,3) by (simp add: dec_enc)
  finally show ?thesis by simp
qed

lemma enc_prefix_free:
  assumes "wf_value x" "wf_value y" "enc y = enc x @ r"
  shows "x = y \<and> r = []"
  using enc_unique [of x y r "[]"] assms by simp

lemma decode_many_concat:
  "list_all wf_value xs \<Longrightarrow>
     decode_many dec (length xs) (concat (map enc xs) @ rest) = Ret (xs, rest)"
  by (induction xs) (simp_all add: dec_enc)

lemma enc_stream_inject:
  assumes "list_all wf_value xs" "list_all wf_value ys" "length xs = length ys"
    "concat (map enc xs) @ r = concat (map enc ys) @ s"
  shows "xs = ys \<and> r = s"
proof -
  have "Ret (xs, r) = decode_many dec (length xs) (concat (map enc xs) @ r)"
    using assms(1) by (simp add: decode_many_concat)
  also have "\<dots> = Ret (ys, s)"
    using assms(2-4) by (simp add: decode_many_concat)
  finally show ?thesis by simp
qed

end

end
