(* ===== verification/Rust_Std.thy ===== *)
theory Rust_Std
  imports Rust_Prelude
begin

text \<open>
  The parts of the Rust standard library the program calls on text: decimal and hexadecimal
  formatting of integers, parsing of integers, \<open>str::split\<close>, substring search, and the textual
  forms of \<open>Ipv4Addr\<close>, \<open>Ipv6Addr\<close> and \<open>SocketAddr\<close>. An \<open>Ipv4Addr\<close> is its four octets, an
  \<open>Ipv6Addr\<close> its sixteen octets, as \<open>octets()\<close> returns them.
\<close>

type_synonym ipv4 = bytes
type_synonym ipv6 = bytes

datatype ip_addr = V4 ipv4 | V6 ipv6

record socket_addr =
  sa_ip :: ip_addr
  sa_port :: u16

section \<open>Integers as text\<close>

definition is_digit :: "u8 \<Rightarrow> bool" where
  "is_digit b \<longleftrightarrow> 48 \<le> b \<and> b \<le> 57"

fun dec_str :: "nat \<Rightarrow> rstring" where
  "dec_str n = (if n < 10 then [48 + word_of_nat n]
                else dec_str (n div 10) @ [48 + word_of_nat (n mod 10)])"

declare dec_str.simps [simp del]

definition hex_digit :: "nat \<Rightarrow> u8" where
  "hex_digit n = (if n < 10 then 48 + word_of_nat n else 87 + word_of_nat n)"

fun hex_str :: "nat \<Rightarrow> rstring" where
  "hex_str n = (if n < 16 then [hex_digit n] else hex_str (n div 16) @ [hex_digit (n mod 16)])"

declare hex_str.simps [simp del]

text \<open>The value of a character in radix 10 or 16, as \<open>char::to_digit\<close>.\<close>

definition to_digit :: "nat \<Rightarrow> u8 \<Rightarrow> nat option" where
  "to_digit radix b =
     (let d = (if 48 \<le> b \<and> b \<le> 57 then Some (unat b - 48)
               else if 97 \<le> b \<and> b \<le> 122 then Some (unat b - 87)
               else if 65 \<le> b \<and> b \<le> 90 then Some (unat b - 55) else None)
      in case d of Some v \<Rightarrow> if v < radix then Some v else None | None \<Rightarrow> None)"

fun digits_value :: "nat \<Rightarrow> nat \<Rightarrow> bytes \<Rightarrow> nat" where
  "digits_value radix acc [] = acc"
| "digits_value radix acc (b # bs) =
     digits_value radix (acc * radix + (case to_digit radix b of Some d \<Rightarrow> d | None \<Rightarrow> 0)) bs"

text \<open>\<open>u16::from_str\<close>: an optional plus sign, then digits, at most 65535.\<close>

definition parse_u16 :: "rstring \<Rightarrow> u16 option" where
  "parse_u16 s =
     (let ds = (case s of b # r \<Rightarrow> if b = 43 then r else s | [] \<Rightarrow> [])
      in if ds \<noteq> [] \<and> list_all is_digit ds \<and> digits_value 10 0 ds < 65536
         then Some (word_of_nat (digits_value 10 0 ds)) else None)"

section \<open>Splitting and searching\<close>

text \<open>\<open>str::split\<close> on one character: always at least one piece.\<close>

fun split_on :: "u8 \<Rightarrow> rstring \<Rightarrow> rstring list" where
  "split_on c [] = [[]]"
| "split_on c (b # bs) =
     (if b = c then [] # split_on c bs
      else (case split_on c bs of p # ps \<Rightarrow> (b # p) # ps | [] \<Rightarrow> [[b]]))"

fun starts_with :: "'a list \<Rightarrow> 'a list \<Rightarrow> bool" where
  "starts_with xs [] = True"
| "starts_with [] (y # ys) = False"
| "starts_with (x # xs) (y # ys) = (x = y \<and> starts_with xs ys)"

text \<open>\<open>str::find\<close> and the \<open>windows(n).any\<close> idiom: the first position where the pattern occurs.\<close>

fun find_sub :: "'a list \<Rightarrow> 'a list \<Rightarrow> nat option" where
  "find_sub pat [] = (if pat = [] then Some 0 else None)"
| "find_sub pat (x # xs) =
     (if starts_with (x # xs) pat then Some 0 else map_option Suc (find_sub pat xs))"

definition contains_sub :: "'a list \<Rightarrow> 'a list \<Rightarrow> bool" where
  "contains_sub pat xs \<longleftrightarrow> find_sub pat xs \<noteq> None"

fun position :: "('a \<Rightarrow> bool) \<Rightarrow> 'a list \<Rightarrow> nat option" where
  "position P [] = None"
| "position P (x # xs) = (if P x then Some 0 else map_option Suc (position P xs))"

section \<open>IP addresses as text\<close>

definition ipv4_display :: "ipv4 \<Rightarrow> rstring" where
  "ipv4_display o4 = (case map (\<lambda>b. dec_str (unat b)) o4 of
      [] \<Rightarrow> [] | s # ss \<Rightarrow> s @ concat (map (\<lambda>t. 46 # t) ss))"

fun segments :: "ipv6 \<Rightarrow> u16 list" where
  "segments (a # b # r) = be16 a b # segments r"
| "segments _ = []"

text \<open>The longest run of zero segments, the first one of that length: (start, length).\<close>

fun zero_run :: "nat \<Rightarrow> u16 list \<Rightarrow> nat \<times> nat \<Rightarrow> nat \<times> nat \<Rightarrow> nat \<times> nat" where
  "zero_run i [] cur longest = longest"
| "zero_run i (s # ss) (cs, cl) longest =
     (if s = 0 then
        (let cur = (if cl = 0 then i else cs, cl + 1)
         in zero_run (i + 1) ss cur (if cl + 1 > snd longest then cur else longest))
      else zero_run (i + 1) ss (0, 0) longest)"

definition fmt_subslice :: "u16 list \<Rightarrow> rstring" where
  "fmt_subslice ss = (case map (\<lambda>w. hex_str (unat w)) ss of
      [] \<Rightarrow> [] | t # ts \<Rightarrow> t @ concat (map (\<lambda>u. 58 # u) ts))"

definition ipv6_display :: "ipv6 \<Rightarrow> rstring" where
  "ipv6_display o16 =
     (let ss = segments o16
      in if take 12 o16 = replicate 10 0 @ [0xff, 0xff]
         then lit ''::ffff:'' @ ipv4_display (drop 12 o16)
         else (let (st, ln) = zero_run 0 ss (0, 0) (0, 0)
               in if ln > 1
                  then fmt_subslice (take st ss) @ lit ''::'' @ fmt_subslice (drop (st + ln) ss)
                  else fmt_subslice ss))"

text \<open>
  \<open>read_number\<close> reads the maximal run of digits and fails, consuming nothing, when the run is
  empty, too long, has a forbidden leading zero, or is out of range for the target type.
\<close>

definition read_number :: "nat \<Rightarrow> nat \<Rightarrow> bool \<Rightarrow> nat \<Rightarrow> bytes \<Rightarrow> (nat \<times> bytes) option" where
  "read_number radix max_digits allow_zero_prefix limit s =
     (let ds = takeWhile (\<lambda>b. to_digit radix b \<noteq> None) s; v = digits_value radix 0 ds
      in if ds = [] \<or> length ds > max_digits
            \<or> (\<not> allow_zero_prefix \<and> hd ds = 48 \<and> length ds > 1) \<or> v \<ge> limit
         then None else Some (v, drop (length ds) s))"

definition read_given_char :: "u8 \<Rightarrow> bytes \<Rightarrow> bytes option" where
  "read_given_char c s = (case s of b # r \<Rightarrow> if b = c then Some r else None | [] \<Rightarrow> None)"

fun read_octets :: "nat \<Rightarrow> nat \<Rightarrow> bytes \<Rightarrow> (bytes \<times> bytes) option" where
  "read_octets i 0 s = Some ([], s)"
| "read_octets i (Suc n) s =
     (case (if i > 0 then read_given_char 46 s else Some s) of
        None \<Rightarrow> None
      | Some s' \<Rightarrow> (case read_number 10 3 False 256 s' of
          None \<Rightarrow> None
        | Some (v, r) \<Rightarrow> (case read_octets (Suc i) n r of
            None \<Rightarrow> None | Some (vs, r') \<Rightarrow> Some (word_of_nat v # vs, r'))))"

definition read_ipv4 :: "bytes \<Rightarrow> (ipv4 \<times> bytes) option" where
  "read_ipv4 s = read_octets 0 4 s"

definition parse_ipv4 :: "rstring \<Rightarrow> ipv4 option" where
  "parse_ipv4 s = (if length s > 15 then None
     else case read_ipv4 s of Some (a, []) \<Rightarrow> Some a | _ \<Rightarrow> None)"

text \<open>Group \<open>i\<close> of at most \<open>limit\<close>; the remaining count is the fuel. The flag says that an embedded
  IPv4 address ended the part.\<close>

fun read_groups :: "nat \<Rightarrow> nat \<Rightarrow> bytes \<Rightarrow> u16 list \<times> bool \<times> bytes" where
  "read_groups i 0 s = ([], False, s)"
| "read_groups i (Suc n) s =
     (let sep = (if i > 0 then read_given_char 58 s else Some s);
          v4 = (if n > 0 then (case sep of None \<Rightarrow> None | Some s' \<Rightarrow> read_ipv4 s') else None)
      in case v4 of
           Some (q, r) \<Rightarrow> (segments q, True, r)
         | None \<Rightarrow>
             (case (case sep of None \<Rightarrow> None | Some s' \<Rightarrow> read_number 16 4 True 65536 s') of
                None \<Rightarrow> ([], False, s)
              | Some (g, r) \<Rightarrow> (let (gs, f, r') = read_groups (Suc i) n r
                                 in (word_of_nat g # gs, f, r'))))"

definition octets_of_segments :: "u16 list \<Rightarrow> ipv6" where
  "octets_of_segments ss = concat (map u16_be ss)"

definition read_ipv6 :: "bytes \<Rightarrow> (ipv6 \<times> bytes) option" where
  "read_ipv6 s =
     (let (head, head_ipv4, r) = read_groups 0 8 s
      in if length head = 8 then Some (octets_of_segments head, r)
         else if head_ipv4 then None
         else (case read_given_char 58 r of None \<Rightarrow> None
               | Some r1 \<Rightarrow> (case read_given_char 58 r1 of None \<Rightarrow> None
                 | Some r2 \<Rightarrow>
                     (let (tail, _, r3) = read_groups 0 (8 - (length head + 1)) r2
                      in Some (octets_of_segments
                           (head @ replicate (8 - length head - length tail) 0 @ tail), r3)))))"

definition parse_ipv6 :: "rstring \<Rightarrow> ipv6 option" where
  "parse_ipv6 s = (case read_ipv6 s of Some (a, []) \<Rightarrow> Some a | _ \<Rightarrow> None)"

text \<open>\<open>SocketAddr::from_str\<close>: an IPv4 address and a port, or an IPv6 address in brackets, with an optional
  scope id, and a port.\<close>

definition read_port :: "bytes \<Rightarrow> (u16 \<times> bytes) option" where
  "read_port s =
     (case read_given_char 58 s of None \<Rightarrow> None
      | Some r \<Rightarrow> map_option (\<lambda>(v, r'). (word_of_nat v, r')) (read_number 10 (length r) True 65536 r))"

definition skip_scope :: "bytes \<Rightarrow> bytes" where
  "skip_scope s =
     (case read_given_char 37 s of None \<Rightarrow> s
      | Some r \<Rightarrow> (case read_number 10 (length r) True 4294967296 r of None \<Rightarrow> s | Some (_, r') \<Rightarrow> r'))"

definition read_socket_addr :: "bytes \<Rightarrow> (socket_addr \<times> bytes) option" where
  "read_socket_addr s =
     (let v4 = (case read_ipv4 s of None \<Rightarrow> None
                | Some (a, r) \<Rightarrow> map_option (\<lambda>(p, r'). (\<lparr>sa_ip = V4 a, sa_port = p\<rparr>, r')) (read_port r))
      in case v4 of Some x \<Rightarrow> Some x
         | None \<Rightarrow>
             (case read_given_char 91 s of None \<Rightarrow> None
              | Some r1 \<Rightarrow> (case read_ipv6 r1 of None \<Rightarrow> None
                | Some (a, r2) \<Rightarrow> (case read_given_char 93 (skip_scope r2) of None \<Rightarrow> None
                  | Some r3 \<Rightarrow> map_option (\<lambda>(p, r'). (\<lparr>sa_ip = V6 a, sa_port = p\<rparr>, r')) (read_port r3)))))"

definition parse_socket_addr :: "rstring \<Rightarrow> socket_addr option" where
  "parse_socket_addr s = (case read_socket_addr s of Some (a, []) \<Rightarrow> Some a | _ \<Rightarrow> None)"

section \<open>Round trips\<close>

lemma below_10:
  fixes d :: nat
  assumes "d < 10"
  shows "d = 0 \<or> d = 1 \<or> d = 2 \<or> d = 3 \<or> d = 4 \<or> d = 5 \<or> d = 6 \<or> d = 7 \<or> d = 8 \<or> d = 9"
  using assms by arith

lemma is_digit_byte: "d < 10 \<Longrightarrow> is_digit (48 + word_of_nat d)"
  by (drule below_10, elim disjE) (simp_all add: is_digit_def)

lemma to_digit_byte: "d < 10 \<Longrightarrow> to_digit 10 (48 + word_of_nat d) = Some d"
  by (drule below_10, elim disjE) (simp_all add: to_digit_def)

lemma zero_digit_byte: "d < 10 \<Longrightarrow> (word_of_nat d :: u8) = 0 \<longleftrightarrow> d = 0"
  by (drule below_10, elim disjE) simp_all

lemmas digit_byte = is_digit_byte to_digit_byte zero_digit_byte

lemma digits_value_append:
  "digits_value radix acc (xs @ ys) = digits_value radix (digits_value radix acc xs) ys"
  by (induction xs arbitrary: acc) simp_all

lemma dec_str_digits: "list_all is_digit (dec_str n)"
proof (induction n rule: dec_str.induct)
  case (1 n)
  then show ?case
    by (subst dec_str.simps) (auto simp: digit_byte)
qed

lemma dec_str_to_digit: "list_all (\<lambda>b. to_digit 10 b \<noteq> None) (dec_str n)"
proof (induction n rule: dec_str.induct)
  case (1 n)
  then show ?case
    by (subst dec_str.simps) (auto simp: digit_byte)
qed

lemma dec_str_value: "digits_value 10 0 (dec_str n) = n"
proof (induction n rule: dec_str.induct)
  case (1 n)
  then show ?case
    by (subst dec_str.simps) (auto simp: digit_byte digits_value_append)
qed

lemma dec_str_nonempty [simp]: "dec_str n \<noteq> []"
  by (subst dec_str.simps) simp

lemma dec_str_length: "n < 10 ^ Suc k \<Longrightarrow> length (dec_str n) \<le> Suc k"
proof (induction k arbitrary: n)
  case 0
  then show ?case by (subst dec_str.simps) simp
next
  case (Suc k)
  show ?case
  proof (cases "n < 10")
    case True
    then show ?thesis by (subst dec_str.simps) simp
  next
    case False
    have "n div 10 < 10 ^ Suc k"
      using Suc.prems by auto
    then have "length (dec_str (n div 10)) \<le> Suc k"
      by (rule Suc.IH)
    with False show ?thesis by (subst dec_str.simps) simp
  qed
qed

lemma hd_dec_str: "hd (dec_str n) = 48 \<longleftrightarrow> n = 0"
proof (induction n rule: dec_str.induct)
  case (1 n)
  then show ?case
    by (subst dec_str.simps) (auto simp: hd_append digit_byte)
qed

lemma parse_u16_dec_str: "parse_u16 (dec_str (unat w)) = Some w"
proof -
  obtain b r where br: "dec_str (unat w) = b # r"
    by (cases "dec_str (unat w)") auto
  have "b \<noteq> 43"
    using dec_str_digits [of "unat w"] br by (auto simp: is_digit_def)
  then show ?thesis
    using dec_str_digits [of "unat w"] dec_str_value [of "unat w"] br
    by (simp add: parse_u16_def)
qed

lemma takeWhile_run:
  "list_all P ds \<Longrightarrow> (rest = [] \<or> \<not> P (hd rest)) \<Longrightarrow> takeWhile P (ds @ rest) = ds"
  by (induction ds) (cases rest; auto)+

lemma read_number_dec_str:
  assumes "n < 256" "rest = [] \<or> to_digit 10 (hd rest) = None"
  shows "read_number 10 3 False 256 (dec_str n @ rest) = Some (n, rest)"
proof -
  have tw: "takeWhile (\<lambda>b. to_digit 10 b \<noteq> None) (dec_str n @ rest) = dec_str n"
    by (rule takeWhile_run) (use dec_str_to_digit assms(2) in auto)
  have "length (dec_str n) \<le> 3"
    using dec_str_length [of n 2] assms(1) by simp
  moreover have "hd (dec_str n) = 48 \<Longrightarrow> length (dec_str n) = 1"
    by (simp add: hd_dec_str) (subst dec_str.simps, simp)
  ultimately show ?thesis
    using assms(1) unfolding read_number_def tw Let_def dec_str_value by auto
qed

lemma dot_no_digit: "to_digit 10 46 = None"
  by (simp add: to_digit_def)

lemma read_octets_display:
  assumes "rest = [] \<or> to_digit 10 (hd rest) = None"
  shows "read_octets (Suc i) (length bs) (concat (map (\<lambda>b. 46 # dec_str (unat b)) bs) @ rest) = Some (bs, rest)"
proof (induction bs arbitrary: i)
  case (Cons b bs)
  let ?rest = "concat (map (\<lambda>b. 46 # dec_str (unat b)) bs) @ rest"
  have "?rest = [] \<or> to_digit 10 (hd ?rest) = None"
    using assms by (cases bs) (simp_all add: dot_no_digit)
  then have "read_number 10 3 False 256 (dec_str (unat b) @ ?rest) = Some (unat b, ?rest)"
    by (intro read_number_dec_str) simp_all
  with Cons.IH [of "Suc i"] show ?case
    by (simp add: read_given_char_def)
qed simp

lemma length_dec_str_u8: "length (dec_str (unat (x :: u8))) \<le> 3"
  using dec_str_length [of "unat x" 2] unat_u8_less [of x] by simp

lemma read_ipv4_display:
  assumes "length a = 4" and rest: "rest = [] \<or> to_digit 10 (hd rest) = None"
  shows "read_ipv4 (ipv4_display a @ rest) = Some (a, rest)"
proof -
  obtain p q r s where a: "a = [p, q, r, s]"
    using assms(1) by (auto simp: length_Suc_conv numeral_eq_Suc)
  let ?rest = "concat (map (\<lambda>b. 46 # dec_str (unat b)) [q, r, s]) @ rest"
  have disp: "ipv4_display a @ rest = dec_str (unat p) @ ?rest"
    by (simp add: a ipv4_display_def)
  have "read_number 10 3 False 256 (dec_str (unat p) @ ?rest) = Some (unat p, ?rest)"
    by (rule read_number_dec_str) (simp_all add: dot_no_digit)
  moreover have "read_octets (Suc 0) 3 ?rest = Some ([q, r, s], rest)"
    using read_octets_display [OF rest, of 0 "[q, r, s]"] by (simp add: numeral_3_eq_3)
  ultimately have "read_octets 0 (Suc 3) (dec_str (unat p) @ ?rest) = Some ([p, q, r, s], rest)"
    by (subst read_octets.simps(2)) (simp del: concat.simps list.map)
  then show ?thesis
    unfolding read_ipv4_def disp by (simp add: a del: concat.simps list.map)
qed

lemma length_ipv4_display: "length a = 4 \<Longrightarrow> length (ipv4_display a) \<le> 15"
proof -
  assume "length a = 4"
  then obtain p q r s where "a = [p, q, r, s]"
    by (auto simp: length_Suc_conv numeral_eq_Suc)
  then show ?thesis
    using length_dec_str_u8 [of p] length_dec_str_u8 [of q] length_dec_str_u8 [of r] length_dec_str_u8 [of s]
    by (simp add: ipv4_display_def)
qed

lemma parse_ipv4_display: "length a = 4 \<Longrightarrow> parse_ipv4 (ipv4_display a) = Some a"
  using read_ipv4_display [of a "[]"] length_ipv4_display [of a] by (simp add: parse_ipv4_def)

lemma parse_socket_addr_display:
  assumes "length a = 4"
  shows "parse_socket_addr (ipv4_display a @ 58 # dec_str (unat (p :: u16))) = Some \<lparr>sa_ip = V4 a, sa_port = p\<rparr>"
proof -
  let ?d = "dec_str (unat p)"
  have tw: "takeWhile (\<lambda>b. to_digit 10 b \<noteq> None) ?d = ?d"
    using takeWhile_run [of "\<lambda>b. to_digit 10 b \<noteq> None" ?d "[]"] dec_str_to_digit by auto
  have "read_number 10 (length ?d) True 65536 ?d = Some (unat p, [])"
    unfolding read_number_def tw Let_def dec_str_value by (simp add: not_le)
  then have "read_port (58 # ?d) = Some (p, [])"
    by (simp add: read_port_def read_given_char_def)
  moreover have "read_ipv4 (ipv4_display a @ 58 # ?d) = Some (a, 58 # ?d)"
    by (rule read_ipv4_display) (simp_all add: assms to_digit_def)
  ultimately show ?thesis
    by (simp add: parse_socket_addr_def read_socket_addr_def)
qed

lemma split_on_append:
  "c \<notin> set p \<Longrightarrow> split_on c (p @ c # r) = p # split_on c r"
  by (induction p) auto

lemma split_on_free: "c \<notin> set p \<Longrightarrow> split_on c p = [p]"
  by (induction p) auto

lemma starts_with_append [simp]: "starts_with (p @ r) p"
  by (induction p) auto

lemma starts_with_iff: "starts_with xs p \<longleftrightarrow> take (length p) xs = p"
  by (induction xs p rule: starts_with.induct) auto

lemma position_append: "\<not> list_ex P p \<Longrightarrow> P x \<Longrightarrow> position P (p @ x # r) = Some (length p)"
  by (induction p) auto

lemma position_Some:
  "position P xs = Some i \<Longrightarrow> i < length xs \<and> P (xs ! i) \<and> (\<forall>j < i. \<not> P (xs ! j))"
proof (induction xs arbitrary: i)
  case (Cons x xs)
  then show ?case
    by (cases i) (auto split: if_splits simp: less_Suc_eq_0_disj)
qed simp

end
