(* ===== verification/Vless_Address.thy ===== *)
theory Vless_Address
  imports Rust_Std
begin

text \<open>
  Target addresses of the VLESS protocol (\<open>src/protocol/vless/address.rs\<close>): the type \<open>Address\<close>, its
  wire format with the port first, and its textual form. The decoder works on the mutable buffer
  of the caller; an error carries the buffer as the failed call leaves it, because the caller
  inspects that buffer afterwards.
\<close>

section \<open>Data\<close>

datatype address =
    Ipv4 ipv4 u16
  | Ipv6 ipv6 u16
  | Domain rstring u16

datatype addr_error =
    PortTooShort
  | Ipv4TooShort
  | DomainLenTooShort
  | DomainTooShort
  | DomainUtf8
  | Ipv6TooShort
  | MuxTooShort
  | UnknownAddrType u8

section \<open>Operations\<close>

function decode_address :: "bytes \<Rightarrow> (addr_error \<times> bytes, address \<times> bytes) outcome" where
  "decode_address buf =
     bnd (guard (length buf < 3) (PortTooShort, buf)) (\<lambda>_.
     bnd (get_u16 buf) (\<lambda>(port, buf).
     bnd (get_u8 buf) (\<lambda>(addr_type, buf).
       if addr_type = 0x01 then
         bnd (guard (length buf < 4) (Ipv4TooShort, buf)) (\<lambda>_.
         bnd (get_n 4 buf) (\<lambda>(octets, buf). Ret (Ipv4 octets port, buf)))
       else if addr_type = 0x02 then
         bnd (guard (length buf < 1) (DomainLenTooShort, buf)) (\<lambda>_.
         bnd (get_u8 buf) (\<lambda>(len, buf).
         bnd (guard (length buf < unat len) (DomainTooShort, buf)) (\<lambda>_.
         bnd (get_n (unat len) buf) (\<lambda>(domain_bytes, buf).
         bnd (ok_or (DomainUtf8, buf) (from_utf8 domain_bytes)) (\<lambda>domain.
           Ret (Domain domain port, buf))))))
       else if addr_type = 0x03 then
         bnd (guard (length buf < 16) (Ipv6TooShort, buf)) (\<lambda>_.
         bnd (get_n 16 buf) (\<lambda>(octets, buf). Ret (Ipv6 octets port, buf)))
       else if addr_type = 0x00 then
         bnd (guard (length buf < 1) (MuxTooShort, buf)) (\<lambda>_.
         bnd (get_u8 buf) (\<lambda>(session_id, buf). decode_address buf))
       else Err (UnknownAddrType addr_type, buf))))"
  by pat_completeness auto
termination
  by (relation "measure length") (auto simp: get_u16_Ret_iff get_u8_Ret_iff)

declare decode_address.simps [simp del]

fun encode_address :: "address \<Rightarrow> bytes" where
  "encode_address (Ipv4 ip port) = u16_be port @ [0x01] @ ip"
| "encode_address (Domain domain port) =
     u16_be port @ [0x02] @ [word_of_nat (length domain)] @ domain"
| "encode_address (Ipv6 ip port) = u16_be port @ [0x03] @ ip"

fun address_port :: "address \<Rightarrow> u16" where
  "address_port (Ipv4 ip port) = port"
| "address_port (Ipv6 ip port) = port"
| "address_port (Domain domain port) = port"

fun address_to_string :: "address \<Rightarrow> rstring" where
  "address_to_string (Ipv4 ip port) = ipv4_display ip @ lit '':'' @ dec_str (unat port)"
| "address_to_string (Ipv6 ip port) =
     lit ''['' @ ipv6_display ip @ lit '']:'' @ dec_str (unat port)"
| "address_to_string (Domain domain port) = domain @ lit '':'' @ dec_str (unat port)"

text \<open>What the Rust types guarantee of an address (octet arrays have their length, a \<open>String\<close> is
  UTF-8), and the one thing they do not: a domain name whose length fits its length byte.\<close>

fun wf_address :: "address \<Rightarrow> bool" where
  "wf_address (Ipv4 ip port) = (length ip = 4)"
| "wf_address (Ipv6 ip port) = (length ip = 16)"
| "wf_address (Domain domain port) = (utf8_valid domain \<and> length domain < 256)"

section \<open>The decoder case by case\<close>

lemma decode_address_short: "length buf < 3 \<Longrightarrow> decode_address buf = Err (PortTooShort, buf)"
  by (subst decode_address.simps) simp

lemma decode_address_ipv4:
  "decode_address (a # b # 0x01 # r) =
     (if length r < 4 then Err (Ipv4TooShort, r)
      else Ret (Ipv4 (take 4 r) (be16 a b), drop 4 r))"
  by (subst decode_address.simps) (simp add: get_n_def)

lemma decode_address_ipv6:
  "decode_address (a # b # 0x03 # r) =
     (if length r < 16 then Err (Ipv6TooShort, r)
      else Ret (Ipv6 (take 16 r) (be16 a b), drop 16 r))"
  by (subst decode_address.simps) (simp add: get_n_def)

lemma decode_address_domain_none:
  "decode_address [a, b, 0x02] = Err (DomainLenTooShort, [])"
  by (subst decode_address.simps) simp

lemma decode_address_domain:
  "decode_address (a # b # 0x02 # l # r) =
     (if length r < unat l then Err (DomainTooShort, r)
      else if utf8_valid (take (unat l) r)
           then Ret (Domain (take (unat l) r) (be16 a b), drop (unat l) r)
           else Err (DomainUtf8, drop (unat l) r))"
  by (subst decode_address.simps) (simp add: get_n_def from_utf8_def)

lemma decode_address_mux_none: "decode_address [a, b, 0x00] = Err (MuxTooShort, [])"
  by (subst decode_address.simps) simp

lemma decode_address_mux: "decode_address (a # b # 0x00 # sid # r) = decode_address r"
  by (subst decode_address.simps) simp

lemma decode_address_unknown:
  "t \<noteq> 0 \<Longrightarrow> t \<noteq> 1 \<Longrightarrow> t \<noteq> 2 \<Longrightarrow> t \<noteq> 3 \<Longrightarrow>
     decode_address (a # b # t # r) = Err (UnknownAddrType t, r)"
  by (subst decode_address.simps) simp

lemmas decode_address_cases =
  decode_address_short decode_address_ipv4 decode_address_ipv6 decode_address_domain_none
  decode_address_domain decode_address_mux_none decode_address_mux decode_address_unknown

text \<open>The shapes a buffer can have, for case analysis along the decoder's branches.\<close>

lemma decode_address_induct [case_names short ipv4 ipv6 domain_none domain mux_none mux unknown]:
  fixes P :: "bytes \<Rightarrow> bool"
  assumes "\<And>buf. length buf < 3 \<Longrightarrow> P buf"
    and "\<And>a b r. P (a # b # 0x01 # r)"
    and "\<And>a b r. P (a # b # 0x03 # r)"
    and "\<And>a b. P [a, b, 0x02]"
    and "\<And>a b l r. P (a # b # 0x02 # l # r)"
    and "\<And>a b. P [a, b, 0x00]"
    and "\<And>a b sid r. P r \<Longrightarrow> P (a # b # 0x00 # sid # r)"
    and "\<And>a b t r. t \<noteq> 0 \<Longrightarrow> t \<noteq> 1 \<Longrightarrow> t \<noteq> 2 \<Longrightarrow> t \<noteq> 3 \<Longrightarrow> P (a # b # t # r)"
  shows "P buf"
proof (induction buf rule: measure_induct_rule [where f = length])
  case (less buf)
  show ?case
  proof (cases "length buf < 3")
    case True
    then show ?thesis by (rule assms(1))
  next
    case False
    then obtain a b t r where buf: "buf = a # b # t # r"
      by (auto simp: not_less numeral_3_eq_3 Suc_le_length_iff)
    have shorter: "P r'" if "r = sid # r'" for sid r'
      using less.IH that by (simp add: buf)
    consider "t = 0" | "t = 1" | "t = 2" | "t = 3" | "t \<noteq> 0" "t \<noteq> 1" "t \<noteq> 2" "t \<noteq> 3"
      by blast
    then show ?thesis
    proof cases
      case 1
      then show ?thesis using assms(6,7) shorter by (cases r) (simp_all add: buf)
    next
      case 3
      then show ?thesis using assms(4,5) by (cases r) (simp_all add: buf)
    qed (simp_all add: buf assms(2,3,8))
  qed
qed

section \<open>Properties\<close>

lemma decode_encode_address:
  "wf_address a \<Longrightarrow> decode_address (encode_address a @ rest) = Ret (a, rest)"
  by (cases a) (simp_all add: u16_be_def decode_address_cases)

interpretation address_wire: wire_format wf_address encode_address decode_address
  by unfold_locales (rule decode_encode_address)

lemma decode_address_no_panic: "no_panic (decode_address buf)"
  by (induction buf rule: decode_address_induct) (simp_all add: decode_address_cases)

lemma decode_address_wf: "decode_address buf = Ret (a, rest) \<Longrightarrow> wf_address a"
  by (induction buf rule: decode_address_induct)
    (auto simp: decode_address_cases split: if_splits)

text \<open>A successful decode consumes a prefix: the address header that encodes the result, possibly
  behind multiplexing headers of four bytes each.\<close>

fun mux_headers :: "bytes \<Rightarrow> bool" where
  "mux_headers [] = True"
| "mux_headers (a # b # t # sid # r) = (t = 0 \<and> mux_headers r)"
| "mux_headers _ = False"

lemma decode_address_mux_headers: "mux_headers m \<Longrightarrow> decode_address (m @ buf) = decode_address buf"
  by (induction m rule: mux_headers.induct) (simp_all add: decode_address_mux)

lemma u16_be_cons: "u16_be (be16 a b) @ r = a # b # r"
  by simp

lemma decode_address_consumes:
  "decode_address buf = Ret (a, rest) \<Longrightarrow> \<exists>m. mux_headers m \<and> buf = m @ encode_address a @ rest"
proof (induction buf rule: decode_address_induct)
  case (mux p q sid r)
  then obtain m where "mux_headers m" "r = m @ encode_address a @ rest"
    by (auto simp: decode_address_cases)
  then show ?case
    by (intro exI [of _ "p # q # 0 # sid # m"]) simp
next
  case (ipv4 p q r)
  then show ?case
    by (intro exI [of _ "[]"]) (auto simp: decode_address_cases split: if_splits)
next
  case (ipv6 p q r)
  then show ?case
    by (intro exI [of _ "[]"]) (auto simp: decode_address_cases split: if_splits)
next
  case (domain p q l r)
  then show ?case
    by (intro exI [of _ "[]"])
      (auto simp: decode_address_cases min_def split: if_splits)
qed (simp_all add: decode_address_cases)

text \<open>Decoding succeeds exactly on what an encoder, behind any number of multiplexing headers,
  can have written.\<close>

lemma decode_address_iff:
  "decode_address buf = Ret (a, rest) \<longleftrightarrow>
     wf_address a \<and> (\<exists>m. mux_headers m \<and> buf = m @ encode_address a @ rest)"
  by (auto simp: decode_address_mux_headers decode_encode_address
      dest: decode_address_wf decode_address_consumes)

section \<open>Correctness of the address codec\<close>

text \<open>C20. The address decoder never panics, and it accepts exactly the buffers that begin with the
  encoding of a well-formed address, possibly behind multiplexing headers of four bytes: it then
  returns that address and leaves precisely the bytes that follow.\<close>

theorem address_decode_exact:
  "decode_address buf \<noteq> Panic \<and>
   (decode_address buf = Ret (a, rest) \<longleftrightarrow>
     wf_address a \<and> (\<exists>m. mux_headers m \<and> buf = m @ encode_address a @ rest))"
  using decode_address_no_panic [of buf] decode_address_iff [of buf a rest]
  by (simp add: no_panic_def)

end
