(* ===== verification/Vless_Codec.thy ===== *)
theory Vless_Codec
  imports Vless_Address
begin

text \<open>
  VLESS requests, responses and the codec that holds the allowed clients
  (\<open>src/protocol/vless/request.rs\<close>, \<open>response.rs\<close>, \<open>codec.rs\<close>). A \<open>Uuid\<close> is its sixteen bytes, the
  value \<open>Uuid::from_bytes\<close> and \<open>as_bytes\<close> convert without change.
\<close>

section \<open>Data\<close>

type_synonym uuid = bytes

definition VLESS_VERSION :: u8 where
  "VLESS_VERSION = 0"

datatype command = Tcp | Udp | Mux

record vless_request =
  rq_version :: u8
  rq_uuid :: uuid
  rq_command :: command
  rq_address :: address
  rq_addon_length :: u8

record vless_response =
  rs_version :: u8
  rs_addon_length :: u8

datatype req_error =
    ReqTooShort
  | BadVersion u8
  | Unauthorized uuid
  | AddonTooShort
  | CommandTooShort
  | UnknownCommand u8
  | AddrError addr_error

record vless_codec =
  allowed_uuids :: "uuid list"

section \<open>Operations\<close>

definition command_from_u8 :: "u8 \<Rightarrow> (req_error, command) outcome" where
  "command_from_u8 value =
     (if value = 0x01 then Ret Tcp
      else if value = 0x02 then Ret Udp
      else if value = 0x03 then Ret Mux
      else Err (UnknownCommand value))"

fun command_as_u8 :: "command \<Rightarrow> u8" where
  "command_as_u8 Tcp = 0x01"
| "command_as_u8 Udp = 0x02"
| "command_as_u8 Mux = 0x03"

definition decode_request ::
  "bytes \<Rightarrow> uuid list \<Rightarrow> (req_error \<times> bytes, vless_request \<times> bytes) outcome" where
  "decode_request buf allowed =
     bnd (guard (length buf < 22) (ReqTooShort, buf)) (\<lambda>_.
     bnd (get_u8 buf) (\<lambda>(version, buf).
     bnd (guard (version \<noteq> VLESS_VERSION) (BadVersion version, buf)) (\<lambda>_.
     bnd (get_n 16 buf) (\<lambda>(uuid, buf).
     bnd (guard (uuid \<notin> set allowed) (Unauthorized uuid, buf)) (\<lambda>_.
     bnd (get_u8 buf) (\<lambda>(addon_length, buf).
     bnd (guard (length buf < unat addon_length) (AddonTooShort, buf)) (\<lambda>_.
     bnd (advance (unat addon_length) buf) (\<lambda>buf.
     bnd (guard (length buf < 1) (CommandTooShort, buf)) (\<lambda>_.
     bnd (get_u8 buf) (\<lambda>(value, buf).
     bnd (map_err (\<lambda>e. (e, buf)) (command_from_u8 value)) (\<lambda>command.
     bnd (map_err (\<lambda>(e, b). (AddrError e, b)) (decode_address buf)) (\<lambda>(address, buf).
       Ret (\<lparr>rq_version = version, rq_uuid = uuid, rq_command = command,
             rq_address = address, rq_addon_length = addon_length\<rparr>, buf)))))))))))))"

definition encode_request :: "vless_request \<Rightarrow> bytes" where
  "encode_request r =
     [rq_version r] @ rq_uuid r @ [0] @ [command_as_u8 (rq_command r)]
       @ encode_address (rq_address r)"

definition new_response :: vless_response where
  "new_response = \<lparr>rs_version = VLESS_VERSION, rs_addon_length = 0\<rparr>"

definition encode_response :: "vless_response \<Rightarrow> bytes" where
  "encode_response r = [rs_version r, rs_addon_length r]"

definition codec_new :: "uuid list \<Rightarrow> vless_codec" where
  "codec_new us = \<lparr>allowed_uuids = us\<rparr>"

definition codec_decode_request ::
  "vless_codec \<Rightarrow> bytes \<Rightarrow> (req_error \<times> bytes, vless_request \<times> bytes) outcome" where
  "codec_decode_request c buf = decode_request buf (allowed_uuids c)"

definition codec_encode_response :: "vless_codec \<Rightarrow> vless_response \<Rightarrow> bytes" where
  "codec_encode_response c r = encode_response r"

definition validate_uuid :: "vless_codec \<Rightarrow> uuid \<Rightarrow> bool" where
  "validate_uuid c u \<longleftrightarrow> u \<in> set (allowed_uuids c)"

definition add_uuid :: "vless_codec \<Rightarrow> uuid \<Rightarrow> vless_codec" where
  "add_uuid c u =
     (if u \<in> set (allowed_uuids c) then c
      else c\<lparr>allowed_uuids := allowed_uuids c @ [u]\<rparr>)"

text \<open>\<open>Vec::remove\<close> deletes the element at one position.\<close>

definition remove_at :: "nat \<Rightarrow> 'a list \<Rightarrow> 'a list" where
  "remove_at i xs = take i xs @ drop (Suc i) xs"

definition remove_uuid :: "vless_codec \<Rightarrow> uuid \<Rightarrow> bool \<times> vless_codec" where
  "remove_uuid c u =
     (case position (\<lambda>v. v = u) (allowed_uuids c) of
        Some pos \<Rightarrow> (True, c\<lparr>allowed_uuids := remove_at pos (allowed_uuids c)\<rparr>)
      | None \<Rightarrow> (False, c))"

section \<open>Requests\<close>

lemma command_roundtrip [simp]: "command_from_u8 (command_as_u8 c) = Ret c"
  by (cases c) (simp_all add: command_from_u8_def)

lemma command_from_u8_Ret_iff: "command_from_u8 v = Ret c \<longleftrightarrow> v = command_as_u8 c"
  by (cases c) (auto simp: command_from_u8_def split: if_splits)

lemma command_from_u8_no_panic [no_panic_intros]: "no_panic (command_from_u8 v)"
  by (simp add: command_from_u8_def)

definition wf_request :: "uuid list \<Rightarrow> vless_request \<Rightarrow> bool" where
  "wf_request allowed r \<longleftrightarrow> rq_version r = VLESS_VERSION \<and> length (rq_uuid r) = 16
     \<and> rq_uuid r \<in> set allowed \<and> wf_address (rq_address r) \<and> rq_addon_length r = 0"

lemma length_encode_address: "wf_address a \<Longrightarrow> 4 \<le> length (encode_address a)"
  by (cases a) (simp_all add: u16_be_def)

text \<open>The decoder on a buffer whose fields are laid out: the form every other fact about requests
  is read off.\<close>

lemma decode_request_layout:
  assumes "length u = 16" "u \<in> set allowed" "length addon = unat n" "4 \<le> length rest"
  shows "decode_request (0 # u @ n # addon @ v # rest) allowed =
    bnd (map_err (\<lambda>e. (e, rest)) (command_from_u8 v)) (\<lambda>command.
    bnd (map_err (\<lambda>(e, b). (AddrError e, b)) (decode_address rest)) (\<lambda>(address, buf).
      Ret (\<lparr>rq_version = 0, rq_uuid = u, rq_command = command,
            rq_address = address, rq_addon_length = n\<rparr>, buf)))"
  using assms by (simp add: decode_request_def VLESS_VERSION_def)

lemma decode_encode_request:
  assumes "wf_request allowed r"
  shows "decode_request (encode_request r @ rest) allowed = Ret (r, rest)"
proof -
  have r: "length (rq_uuid r) = 16" "rq_uuid r \<in> set allowed" "wf_address (rq_address r)"
    "rq_version r = 0" "rq_addon_length r = 0"
    using assms by (simp_all add: wf_request_def VLESS_VERSION_def)
  have "encode_request r @ rest =
      0 # rq_uuid r @ 0 # [] @ command_as_u8 (rq_command r) # encode_address (rq_address r) @ rest"
    by (simp add: encode_request_def r)
  moreover have "4 \<le> length (encode_address (rq_address r) @ rest)"
    using length_encode_address [OF r(3)] by simp
  ultimately have "decode_request (encode_request r @ rest) allowed =
      Ret (\<lparr>rq_version = 0, rq_uuid = rq_uuid r, rq_command = rq_command r,
            rq_address = rq_address r, rq_addon_length = 0\<rparr>, rest)"
    using decode_request_layout [of "rq_uuid r" allowed "[]" 0] r
    by (simp add: decode_encode_address)
  then show ?thesis
    using r by (metis (full_types) vless_request.surjective old.unit.exhaust)
qed

interpretation request_wire: wire_format "wf_request allowed" encode_request
  "\<lambda>buf. decode_request buf allowed" for allowed
  by unfold_locales (rule decode_encode_request)

lemma decode_request_no_panic: "no_panic (decode_request buf allowed)"
  unfolding decode_request_def
  by (intro no_panic_intros conjI)
    (auto simp: get_u8_Ret_iff get_n_def advance_def split: if_splits prod.splits
      intro!: no_panic_intros decode_address_no_panic)

text \<open>A request is accepted exactly when the buffer is laid out as the protocol says and the client
  is one of the allowed ones.\<close>

definition request_layout :: "uuid list \<Rightarrow> vless_request \<Rightarrow> bytes \<Rightarrow> bytes \<Rightarrow> bool" where
  "request_layout allowed r rest buf \<longleftrightarrow>
     rq_version r = VLESS_VERSION \<and> length (rq_uuid r) = 16 \<and> rq_uuid r \<in> set allowed
     \<and> wf_address (rq_address r)
     \<and> (\<exists>addon m. length addon = unat (rq_addon_length r) \<and> mux_headers m
         \<and> buf = VLESS_VERSION # rq_uuid r @ rq_addon_length r # addon
                   @ command_as_u8 (rq_command r) # m @ encode_address (rq_address r) @ rest)"

lemma decode_request_accepts:
  assumes "request_layout allowed r rest buf"
  shows "decode_request buf allowed = Ret (r, rest)"
proof -
  from assms obtain addon m where r: "length (rq_uuid r) = 16" "rq_uuid r \<in> set allowed"
    "wf_address (rq_address r)" "rq_version r = 0"
    and addon: "length addon = unat (rq_addon_length r)" and m: "mux_headers m"
    and buf: "buf = 0 # rq_uuid r @ rq_addon_length r # addon
                   @ command_as_u8 (rq_command r) # m @ encode_address (rq_address r) @ rest"
    by (auto simp: request_layout_def VLESS_VERSION_def)
  have "4 \<le> length (m @ encode_address (rq_address r) @ rest)"
    using length_encode_address [OF r(3)] by simp
  then have "decode_request buf allowed =
      Ret (\<lparr>rq_version = 0, rq_uuid = rq_uuid r, rq_command = rq_command r,
            rq_address = rq_address r, rq_addon_length = rq_addon_length r\<rparr>, rest)"
    unfolding buf using decode_request_layout [OF r(1,2) addon] r(3) m
    by (simp add: decode_address_mux_headers decode_encode_address)
  then show ?thesis
    using r by (metis (full_types) vless_request.surjective old.unit.exhaust)
qed

lemma decode_request_layout_of:
  assumes "decode_request buf allowed = Ret (r, rest)"
  shows "request_layout allowed r rest buf"
proof -
  from assms obtain b1 u b2 n b3 v b4 command address where
    buf: "buf = 0 # b1" and u: "16 \<le> length b1" "u = take 16 b1" "u \<in> set allowed"
    and b2: "drop 16 b1 = n # b2" and n: "unat n \<le> length b2"
    and b3: "drop (unat n) b2 = v # b3" and v: "v = command_as_u8 command"
    and a: "decode_address b3 = Ret (address, rest)"
    and r: "r = \<lparr>rq_version = 0, rq_uuid = u, rq_command = command,
             rq_address = address, rq_addon_length = n\<rparr>"
    unfolding decode_request_def
    by (auto simp: bnd_Ret_iff get_u8_Ret_iff get_n_def advance_def command_from_u8_Ret_iff
        VLESS_VERSION_def split: if_splits prod.splits)
  from decode_address_iff a obtain m where
    m: "wf_address address" "mux_headers m" "b3 = m @ encode_address address @ rest"
    by blast
  have "b1 = u @ n # take (unat n) b2 @ v # b3"
    using u(2) b2 b3 by (metis append_take_drop_id)
  then have "length (take (unat n) b2) = unat n \<and> mux_headers m \<and>
      buf = 0 # u @ n # take (unat n) b2 @ command_as_u8 command # m @ encode_address address @ rest"
    using n m v buf by simp
  moreover have "length u = 16" using u by simp
  ultimately show ?thesis
    unfolding request_layout_def r VLESS_VERSION_def using u(3) m(1)
    by (auto simp del: length_take)
qed

lemma decode_request_iff:
  "decode_request buf allowed = Ret (r, rest) \<longleftrightarrow> request_layout allowed r rest buf"
  by (blast intro: decode_request_accepts decode_request_layout_of)

lemma decode_request_unauthorized:
  assumes "22 \<le> length buf" "buf = VLESS_VERSION # u @ rest" "length u = 16" "u \<notin> set allowed"
  shows "decode_request buf allowed = Err (Unauthorized u, rest)"
  using assms by (simp add: decode_request_def)

section \<open>The set of allowed clients\<close>

lemma position_eq_None: "position P xs = None \<longleftrightarrow> \<not> list_ex P xs"
  by (induction xs) auto

lemma set_remove_at:
  assumes "position (\<lambda>v. v = u) xs = Some i" "distinct xs"
  shows "set (remove_at i xs) = set xs - {u}" "distinct (remove_at i xs)"
proof -
  from position_Some [OF assms(1)] have i: "i < length xs" "xs ! i = u" by auto
  then have xs: "xs = take i xs @ u # drop (Suc i) xs"
    using id_take_nth_drop by metis
  then have d: "distinct (take i xs @ u # drop (Suc i) xs)" using assms(2) by simp
  have "set xs = insert u (set (remove_at i xs))"
    using arg_cong [OF xs, of set] by (auto simp: remove_at_def)
  moreover have "u \<notin> set (remove_at i xs)"
    using d by (auto simp: remove_at_def)
  ultimately show "set (remove_at i xs) = set xs - {u}" by blast
  show "distinct (remove_at i xs)"
    using d by (simp add: remove_at_def)
qed

text \<open>A history of updates, additions (\<open>True\<close>) and removals (\<open>False\<close>), applied in order.\<close>

fun apply_updates ::
  "('s \<Rightarrow> 'u \<Rightarrow> 's) \<Rightarrow> ('s \<Rightarrow> 'u \<Rightarrow> bool \<times> 's) \<Rightarrow> 's \<Rightarrow> (bool \<times> 'u) list \<Rightarrow> 's" where
  "apply_updates add remove s [] = s"
| "apply_updates add remove s ((ins, u) # us) =
     apply_updates add remove (if ins then add s u else snd (remove s u)) us"

text \<open>The codec as a set of clients: an interface of lookups and updates whose laws hold as long as
  no client is listed twice.\<close>

locale client_set =
  fixes member :: "'s \<Rightarrow> 'u \<Rightarrow> bool"
    and add :: "'s \<Rightarrow> 'u \<Rightarrow> 's"
    and remove :: "'s \<Rightarrow> 'u \<Rightarrow> bool \<times> 's"
    and invar :: "'s \<Rightarrow> bool"
  assumes member_add: "member (add s u) v \<longleftrightarrow> v = u \<or> member s v"
    and member_remove: "invar s \<Longrightarrow> member (snd (remove s u)) v \<longleftrightarrow> v \<noteq> u \<and> member s v"
    and removed_iff: "fst (remove s u) \<longleftrightarrow> member s u"
    and invar_add: "invar s \<Longrightarrow> invar (add s u)"
    and invar_remove: "invar s \<Longrightarrow> invar (snd (remove s u))"
begin

text \<open>The clients allowed after a history are those whose last update was an addition, and those of
  the start that no update named.\<close>

lemma invar_updates: "invar s \<Longrightarrow> invar (apply_updates add remove s us)"
  by (induction us arbitrary: s) (auto simp: invar_add invar_remove)

lemma member_updates:
  "invar s \<Longrightarrow> member (apply_updates add remove s us) v \<longleftrightarrow>
     (case map_of (rev (map prod.swap us)) v of Some ins \<Rightarrow> ins | None \<Rightarrow> member s v)"
proof (induction us arbitrary: s)
  case (Cons x us)
  obtain ins u where x: "x = (ins, u)" by (cases x)
  let ?s = "if ins then add s u else snd (remove s u)"
  have "invar ?s" using Cons.prems by (simp add: invar_add invar_remove)
  then have "member (apply_updates add remove ?s us) v \<longleftrightarrow>
      (case map_of (rev (map prod.swap us)) v of Some ins \<Rightarrow> ins | None \<Rightarrow> member ?s v)"
    by (rule Cons.IH)
  then show ?case
    using Cons.prems
    by (auto simp: x map_add_def member_add member_remove split: option.splits if_splits)
qed simp

end

definition codec_invar :: "vless_codec \<Rightarrow> bool" where
  "codec_invar c \<longleftrightarrow> distinct (allowed_uuids c)"

interpretation codec_set: client_set validate_uuid add_uuid remove_uuid codec_invar
proof unfold_locales
  show "validate_uuid (add_uuid c u) v \<longleftrightarrow> v = u \<or> validate_uuid c v" for c u v
    by (auto simp: validate_uuid_def add_uuid_def)
  show "codec_invar c \<Longrightarrow>
      validate_uuid (snd (remove_uuid c u)) v \<longleftrightarrow> v \<noteq> u \<and> validate_uuid c v" for c u v
    by (auto simp: codec_invar_def validate_uuid_def remove_uuid_def position_eq_None list_ex_iff
        set_remove_at split: option.splits)
  show "fst (remove_uuid c u) \<longleftrightarrow> validate_uuid c u" for c u
    using position_Some [of "\<lambda>v. v = u" "allowed_uuids c"]
    by (auto simp: validate_uuid_def remove_uuid_def position_eq_None list_ex_iff
        split: option.splits)
  show "codec_invar c \<Longrightarrow> codec_invar (add_uuid c u)" for c u
    by (simp add: codec_invar_def add_uuid_def)
  show "codec_invar c \<Longrightarrow> codec_invar (snd (remove_uuid c u))" for c u
    by (auto simp: codec_invar_def remove_uuid_def set_remove_at split: option.splits)
qed

section \<open>Correctness of the codec\<close>

text \<open>C6. Decoding a request never panics and accepts exactly the buffers with the layout of the
  protocol whose client is one of the allowed ones: version 0, the sixteen UUID bytes, the addon
  with its length, the command byte and the target address. The bytes after the request stay in
  the buffer.\<close>

theorem request_decode_exact:
  "decode_request buf allowed \<noteq> Panic \<and>
   (decode_request buf allowed = Ret (r, rest) \<longleftrightarrow> request_layout allowed r rest buf)"
  using decode_request_no_panic [of buf allowed] decode_request_iff [of buf allowed r rest]
  by (simp add: no_panic_def)

text \<open>What a client encodes is what the server decodes: a well-formed request of an allowed
  client, followed by any payload, is decoded to itself with the payload left over, and a request
  of a client that is not allowed is refused with the client's UUID whatever it asks for.\<close>

lemma request_roundtrip:
  assumes "rq_version r = VLESS_VERSION" "length (rq_uuid r) = 16" "wf_address (rq_address r)"
    "rq_addon_length r = 0"
  shows "codec_decode_request (codec_new us) (encode_request r @ payload) =
    (if rq_uuid r \<in> set us then Ret (r, payload)
     else Err (Unauthorized (rq_uuid r), drop 17 (encode_request r @ payload)))"
proof (cases "rq_uuid r \<in> set us")
  case True
  then have "wf_request us r"
    using assms by (simp add: wf_request_def)
  then show ?thesis
    using True by (simp add: codec_decode_request_def codec_new_def decode_encode_request)
next
  case False
  let ?tail = "0 # command_as_u8 (rq_command r) # encode_address (rq_address r) @ payload"
  have "encode_request r @ payload = VLESS_VERSION # rq_uuid r @ ?tail"
    by (simp add: encode_request_def assms(1))
  moreover have "22 \<le> length (encode_request r @ payload)"
    using length_encode_address [OF assms(3)] assms(2) by (simp add: encode_request_def)
  ultimately show ?thesis
    using decode_request_unauthorized [of "encode_request r @ payload" "rq_uuid r" ?tail us]
      False assms(2) by (simp add: codec_decode_request_def codec_new_def)
qed



end
