(* ===== verification/Tls_Wire.thy ===== *)
theory Tls_Wire
  imports Rust_Std
begin

text \<open>
  The TLS wire format as the specifications of this development use it: extensions, server-name
  entries, key-share entries and whole ClientHello records, as encoders over structured values.
  Nothing here models code; the parsers of the program are proved against these encoders. The
  second part says how indexing and slicing act on a buffer that is known by its parts.
\<close>

section \<open>Reference encoders\<close>

definition enc_ext :: "u16 \<times> bytes \<Rightarrow> bytes" where
  "enc_ext e = u16_be (fst e) @ u16_be (word_of_nat (length (snd e))) @ snd e"

definition enc_exts :: "(u16 \<times> bytes) list \<Rightarrow> bytes" where
  "enc_exts es = concat (map enc_ext es)"

definition enc_name :: "u8 \<times> bytes \<Rightarrow> bytes" where
  "enc_name n = fst n # u16_be (word_of_nat (length (snd n))) @ snd n"

definition enc_names :: "(u8 \<times> bytes) list \<Rightarrow> bytes" where
  "enc_names ns = concat (map enc_name ns)"

definition sni_data :: "(u8 \<times> bytes) list \<Rightarrow> bytes" where
  "sni_data ns = u16_be (word_of_nat (length (enc_names ns))) @ enc_names ns"

definition ks_data :: "(u16 \<times> bytes) list \<Rightarrow> bytes" where
  "ks_data ks = u16_be (word_of_nat (length (enc_exts ks))) @ enc_exts ks"

record hello =
  h_version :: bytes
  h_random :: bytes
  h_session :: bytes
  h_ciphers :: bytes
  h_compression :: bytes
  h_exts :: "(u16 \<times> bytes) list"

definition enc_hello_tail :: "hello \<Rightarrow> bytes" where
  "enc_hello_tail h =
     word_of_nat (length (h_session h)) # h_session h
     @ u16_be (word_of_nat (length (h_ciphers h))) @ h_ciphers h
     @ word_of_nat (length (h_compression h)) # h_compression h
     @ u16_be (word_of_nat (length (enc_exts (h_exts h)))) @ enc_exts (h_exts h)"

definition enc_hello_body :: "hello \<Rightarrow> bytes" where
  "enc_hello_body h = h_version h @ h_random h @ enc_hello_tail h"

definition u24_be :: "nat \<Rightarrow> bytes" where
  "u24_be n = [word_of_nat (n div 65536), word_of_nat (n div 256), word_of_nat n]"

definition enc_hello_msg :: "hello \<Rightarrow> bytes" where
  "enc_hello_msg h = 0x01 # u24_be (length (enc_hello_body h)) @ enc_hello_body h"

definition enc_record :: "u8 \<Rightarrow> u16 \<Rightarrow> bytes \<Rightarrow> bytes" where
  "enc_record ty ver payload = ty # u16_be ver @ u16_be (word_of_nat (length payload)) @ payload"

definition wf_ext :: "u16 \<times> bytes \<Rightarrow> bool" where
  "wf_ext e \<longleftrightarrow> length (snd e) < 65536"

definition wf_name :: "u8 \<times> bytes \<Rightarrow> bool" where
  "wf_name n \<longleftrightarrow> length (snd n) < 65536"

definition wf_hello :: "hello \<Rightarrow> bool" where
  "wf_hello h \<longleftrightarrow> length (h_version h) = 2 \<and> length (h_random h) = 32
     \<and> length (h_session h) < 256 \<and> length (h_ciphers h) < 65536
     \<and> length (h_compression h) < 256 \<and> list_all wf_ext (h_exts h)
     \<and> length (enc_exts (h_exts h)) < 65536"

text \<open>A small hello on which the theorems about the parsers are evaluated.\<close>

definition sample_hello :: hello where
  "sample_hello = \<lparr>h_version = [3, 3], h_random = replicate 32 9, h_session = [], h_ciphers = [0x13, 1],
     h_compression = [0], h_exts = [(10, [0, 1]), (0, sni_data [(0, lit ''a.b'')])]\<rparr>"

lemma length_u24_be [simp]: "length (u24_be n) = 3"
  by (simp add: u24_be_def)

lemma enc_exts_simps [simp]: "enc_exts [] = []" "enc_exts (e # es) = enc_ext e @ enc_exts es"
  "enc_exts (es @ fs) = enc_exts es @ enc_exts fs"
  by (simp_all add: enc_exts_def)

lemma enc_names_simps [simp]: "enc_names [] = []" "enc_names (n # ns) = enc_name n @ enc_names ns"
  "enc_names (ns @ ms) = enc_names ns @ enc_names ms"
  by (simp_all add: enc_names_def)

lemma length_enc_ext [simp]: "length (enc_ext e) = 4 + length (snd e)"
  by (simp add: enc_ext_def)

lemma length_enc_name [simp]: "length (enc_name n) = 3 + length (snd n)"
  by (simp add: enc_name_def)

lemma length_enc_hello_tail:
  "length (enc_hello_tail h) = 6 + length (h_session h) + length (h_ciphers h)
     + length (h_compression h) + length (enc_exts (h_exts h))"
  by (simp add: enc_hello_tail_def)

section \<open>Reading a buffer known by its parts\<close>

lemma idx_shift: "i \<le> length xs \<Longrightarrow> idx xs (i + j) = idx (drop i xs) j"
  by (auto simp: idx_def)

lemma idx_be16_shift: "i \<le> length xs \<Longrightarrow> idx_be16 xs (i + j) = idx_be16 (drop i xs) j"
  by (simp only: idx_be16_def add.assoc idx_shift)

lemma idx_be16_shift_Suc:
  "i \<le> length xs \<Longrightarrow> idx_be16 xs (Suc (i + j)) = idx_be16 (drop i xs) (Suc j)"
  "i \<le> length xs \<Longrightarrow> idx_be16 xs (Suc (Suc (i + j))) = idx_be16 (drop i xs) (Suc (Suc j))"
  using idx_be16_shift [of i xs "Suc j"] idx_be16_shift [of i xs "Suc (Suc j)"] by simp_all

lemma slice_shift: "i \<le> length xs \<Longrightarrow> slice xs (i + a) (i + b) = slice (drop i xs) a b"
  by (auto simp: slice_def add.commute)

lemma idx_simps [simp]: "idx (x # xs) 0 = Ret x" "idx (x # xs) (Suc i) = idx xs i"
  by (simp_all add: idx_def)

lemma idx_numeral [simp]: "idx (x # xs) (numeral n) = idx xs (pred_numeral n)"
  by (simp add: numeral_eq_Suc)

lemma idx_append: "idx (p @ x # r) (length p) = Ret x"
  by (simp add: idx_def)

lemma idx_be16_append: "idx_be16 (p @ u16_be w @ r) (length p) = Ret w"
  by (simp add: idx_be16_def idx_def nth_append u16_be_def)

lemma idx_be16_0 [simp]: "idx_be16 (a # b # r) 0 = Ret (be16 a b)"
  by (simp add: idx_be16_def)

lemma idx_be16_Suc [simp]: "idx_be16 (a # r) (Suc i) = idx_be16 r i"
  by (simp add: idx_be16_def)

lemma idx_be16_u16_be [simp]: "idx_be16 (u16_be w @ r) 0 = Ret w"
  by (simp add: u16_be_def)

lemma idx_be16_skip [simp]: "idx_be16 (u16_be w @ r) (2 + i) = idx_be16 r i"
  by (simp add: u16_be_def)

lemma slice_append: "slice (p @ q @ r) (length p) (length p + length q) = Ret q"
  by (simp add: slice_def)

lemma cur_u16_shift: "i \<le> length xs \<Longrightarrow>
    cur_u16 xs (i + j) = bnd (cur_u16 (drop i xs) j) (\<lambda>(w, p). Ret (w, i + p))"
  by (auto simp: cur_u16_def add.assoc)

lemma cur_read_shift: "i \<le> length xs \<Longrightarrow>
    cur_read xs (i + j) n = bnd (cur_read (drop i xs) j n) (\<lambda>(b, p). Ret (b, i + p))"
  by (auto simp: cur_read_def add.commute)

lemma cur_u16_append: "pos = length p \<Longrightarrow> cur_u16 (p @ u16_be w @ r) pos = Ret (w, pos + 2)"
  by (simp add: cur_u16_def nth_append u16_be_def)

lemma cur_read_append:
  "pos = length p \<Longrightarrow> n = length q \<Longrightarrow> cur_read (p @ q @ r) pos n = Ret (q, pos + n)"
  by (simp add: cur_read_def)

lemma idx_append': "pos = length p \<Longrightarrow> idx (p @ x # r) pos = Ret x"
  by (simp add: idx_append)

end
