(* ===== verification/Sniffer.thy ===== *)
theory Sniffer
  imports Tls_Wire
begin

text \<open>
  The SNI sniffer (\<open>src/protocol/sniffer.rs\<close>), which reads the server name out of the first bytes of
  a proxied connection. The source walks the buffer by position; so does the model, and every
  indexing and slicing of the source that Rust checks at run time is a possible \<open>Panic\<close> here. A
  \<open>None\<close> of the source is \<open>Err ()\<close>, so that \<open>?\<close> on an option is the ordinary error path.
\<close>

section \<open>Operations\<close>

definition get_opt :: "'a list \<Rightarrow> nat \<Rightarrow> (unit, 'a) outcome" where
  "get_opt xs i = ok_or () (if i < length xs then Some (xs ! i) else None)"

text \<open>The loop over the entries of a server-name list: \<open>Ret None\<close> when it ends without a host name.\<close>

function sniff_names :: "bytes \<Rightarrow> nat \<Rightarrow> nat \<Rightarrow> (unit, rstring option) outcome" where
  "sniff_names data p2 end_list =
     (if p2 + 3 \<le> end_list then
        bnd (idx data p2) (\<lambda>name_type.
        bnd (idx_be16 data (p2 + 1)) (\<lambda>name_len.
          if p2 + 3 + unat name_len > end_list then Ret None
          else if name_type = 0x00 then
            bnd (slice data (p2 + 3) (p2 + 3 + unat name_len)) (\<lambda>s.
            bnd (ok_or () (from_utf8 s)) (\<lambda>name. Ret (Some name)))
          else sniff_names data (p2 + 3 + unat name_len) end_list))
      else Ret None)"
  by pat_completeness auto
termination
  by (relation "measure (\<lambda>(data, p2, end_list). end_list - p2)") auto

declare sniff_names.simps [simp del]

text \<open>The loop over the extensions.\<close>

function sniff_exts :: "bytes \<Rightarrow> nat \<Rightarrow> nat \<Rightarrow> (unit, rstring) outcome" where
  "sniff_exts data pos end_ext =
     (if pos + 4 \<le> end_ext then
        bnd (idx_be16 data pos) (\<lambda>ext_type.
        bnd (idx_be16 data (pos + 2)) (\<lambda>l.
          let len = unat l in
          if pos + 4 + len > end_ext then Err ()
          else if ext_type = 0x0000 then
            bnd (guard (len < 2) ()) (\<lambda>_.
            bnd (idx_be16 data (pos + 4)) (\<lambda>list_len.
            bnd (guard (pos + 4 + 2 + unat list_len > pos + 4 + len) ()) (\<lambda>_.
            bnd (sniff_names data (pos + 4 + 2) (pos + 4 + 2 + unat list_len)) (\<lambda>found.
              case found of Some name \<Rightarrow> Ret name
              | None \<Rightarrow> sniff_exts data (pos + 4 + len) end_ext))))
          else sniff_exts data (pos + 4 + len) end_ext))
      else Err ())"
  by pat_completeness auto
termination
  by (relation "measure (\<lambda>(data, pos, end_ext). end_ext - pos)") auto

declare sniff_exts.simps [simp del]

definition sniff_tls_sni :: "bytes \<Rightarrow> (unit, rstring) outcome" where
  "sniff_tls_sni data =
     bnd (guard (length data < 43) ()) (\<lambda>_.
     bnd (get_opt data 0) (\<lambda>content_type.
     bnd (guard (content_type \<noteq> 0x16) ()) (\<lambda>_.
     bnd (get_opt data 5) (\<lambda>handshake_type.
     bnd (guard (handshake_type \<noteq> 0x01) ()) (\<lambda>_.
     bnd (get_opt data 43) (\<lambda>sess_id_len.
     let pos = 43 + 1 + unat sess_id_len in
     bnd (guard (pos + 2 > length data) ()) (\<lambda>_.
     bnd (idx_be16 data pos) (\<lambda>cipher_len.
     let pos = pos + 2 + unat cipher_len in
     bnd (guard (pos + 1 > length data) ()) (\<lambda>_.
     bnd (get_opt data pos) (\<lambda>comp_len.
     let pos = pos + 1 + unat comp_len in
     bnd (guard (pos + 2 > length data) ()) (\<lambda>_.
     bnd (idx_be16 data pos) (\<lambda>ext_len.
     let pos = pos + 2; end_ext = pos + unat ext_len in
     bnd (guard (end_ext > length data) ()) (\<lambda>_.
       sniff_exts data pos end_ext)))))))))))))"

section \<open>No read is out of range\<close>

lemma get_opt_no_panic [no_panic_intros]: "no_panic (get_opt xs i)"
  by (simp add: get_opt_def no_panic_ok_or)

lemma sniff_names_no_panic:
  "end_list \<le> length data \<Longrightarrow> no_panic (sniff_names data p2 end_list)"
proof (induction data p2 end_list rule: sniff_names.induct)
  case (1 data p2 end_list)
  show ?case
    by (subst sniff_names.simps) (use 1 in \<open>auto intro!: no_panic_intros\<close>)
qed

lemma sniff_exts_no_panic:
  "end_ext \<le> length data \<Longrightarrow> no_panic (sniff_exts data pos end_ext)"
proof (induction data pos end_ext rule: sniff_exts.induct)
  case (1 data pos end_ext)
  show ?case
    by (subst sniff_exts.simps)
      (use 1 in \<open>auto simp: Let_def split: option.splits
         intro!: no_panic_intros sniff_names_no_panic\<close>)
qed

lemma sniff_no_panic: "no_panic (sniff_tls_sni data)"
  unfolding sniff_tls_sni_def Let_def
  by (auto intro!: no_panic_intros sniff_exts_no_panic)

section \<open>What the sniffer finds\<close>

text \<open>Both loops depend only on the bytes from their position on.\<close>

lemma sniff_names_shift:
  "i \<le> length data \<Longrightarrow> sniff_names data (i + p) (i + e) = sniff_names (drop i data) p e"
proof (induction "drop i data" p e rule: sniff_names.induct)
  case (1 p e)
  then show ?case
    by (subst (1 2) sniff_names.simps)
      (auto simp: idx_shift idx_be16_shift idx_be16_shift_Suc slice_shift add.assoc intro!: bnd_cong)
qed

lemma sniff_exts_shift:
  "i \<le> length data \<Longrightarrow> sniff_exts data (i + p) (i + e) = sniff_exts (drop i data) p e"
proof (induction "drop i data" p e rule: sniff_exts.induct)
  case (1 p e)
  then show ?case
    by (subst (1 2) sniff_exts.simps)
      (auto simp: Let_def idx_be16_shift idx_be16_shift_Suc sniff_names_shift add.assoc add.left_commute
        split: option.splits intro!: bnd_cong)
qed

lemma sniff_names_step:
  assumes "wf_name n"
  shows "sniff_names (enc_name n @ rest) 0 (length (enc_name n) + e) =
    (if fst n = 0 then bnd (ok_or () (from_utf8 (snd n))) (\<lambda>name. Ret (Some name))
     else sniff_names rest 0 e)"
proof -
  let ?d = "enc_name n @ rest"
  have *: "idx ?d 0 = Ret (fst n)" "idx_be16 ?d (0 + 1) = Ret (word_of_nat (length (snd n)))"
    by (simp_all add: enc_name_def u16_be_def)
  have s: "slice ?d 3 (3 + length (snd n)) = Ret (snd n)"
    by (simp add: slice_def enc_name_def)
  have len: "unat (word_of_nat (length (snd n)) :: u16) = length (snd n)"
    using assms by (simp add: wf_name_def)
  have skip: "sniff_names ?d (3 + length (snd n)) (3 + length (snd n) + e) = sniff_names rest 0 e"
    using sniff_names_shift [of "3 + length (snd n)" ?d 0 e] by simp
  show ?thesis
    by (subst sniff_names.simps) (simp only: * bnd.simps len, simp add: s skip)
qed

lemma sniff_names_found:
  assumes "list_all wf_name npre" "list_all (\<lambda>n. fst n \<noteq> 0) npre" "wf_name (0, host)"
    "utf8_valid host"
  shows "sniff_names (enc_names (npre @ (0, host) # npost) @ rest) 0
      (length (enc_names (npre @ (0, host) # npost))) = Ret (Some host)"
  using assms(1,2)
proof (induction npre)
  case Nil
  then show ?case
    using sniff_names_step [OF assms(3), of "enc_names npost @ rest" "length (enc_names npost)"]
      assms(4) by simp
next
  case (Cons n npre)
  then show ?case
    using sniff_names_step [of n "enc_names (npre @ (0, host) # npost) @ rest"
        "length (enc_names (npre @ (0, host) # npost))"] by (simp add: add.assoc)
qed

lemma sniff_exts_step:
  assumes "wf_ext e" "fst e \<noteq> 0"
  shows "sniff_exts (enc_ext e @ rest) 0 (length (enc_ext e) + k) = sniff_exts rest 0 k"
proof -
  let ?d = "enc_ext e @ rest"
  have *: "idx_be16 ?d 0 = Ret (fst e)" "idx_be16 ?d (2 + 0) = Ret (word_of_nat (length (snd e)))"
    unfolding enc_ext_def append_assoc by (simp_all only: idx_be16_u16_be idx_be16_skip)
  have pos: "(0::nat) + 2 = 2 + 0" by simp
  have len: "unat (word_of_nat (length (snd e)) :: u16) = length (snd e)"
    using assms by (simp add: wf_ext_def)
  have skip: "sniff_exts ?d (4 + length (snd e)) (4 + length (snd e) + k) = sniff_exts rest 0 k"
    using sniff_exts_shift [of "4 + length (snd e)" ?d 0 k] by simp
  show ?thesis
    by (subst sniff_exts.simps) (simp only: pos * bnd.simps len Let_def, simp add: skip assms(2))
qed

lemma length_sni_data: "length (sni_data ns) = 2 + length (enc_names ns)"
  by (simp add: sni_data_def)

lemma sniff_exts_sni:
  assumes "sniff_names (enc_names ns @ rest) 0 (length (enc_names ns)) = Ret (Some host)"
    "wf_ext (0, sni_data ns)"
  shows "sniff_exts (enc_ext (0, sni_data ns) @ rest) 0 (length (enc_ext (0, sni_data ns)) + k)
    = Ret host"
proof -
  let ?d = "enc_ext (0, sni_data ns) @ rest"
  let ?n = "length (enc_names ns)"
  have n: "?n + 2 < 65536"
    using assms(2) by (simp add: wf_ext_def sni_data_def)
  have d: "?d = u16_be 0 @ u16_be (word_of_nat (2 + ?n)) @ u16_be (word_of_nat ?n) @ enc_names ns @ rest"
    by (simp add: enc_ext_def sni_data_def)
  have *: "idx_be16 ?d 0 = Ret 0" "idx_be16 ?d (2 + 0) = Ret (word_of_nat (2 + ?n))"
    "idx_be16 ?d (2 + (2 + 0)) = Ret (word_of_nat ?n)"
    unfolding d by (simp_all only: idx_be16_u16_be idx_be16_skip)
  have pos: "(0::nat) + 2 = 2 + 0" "(0::nat) + 4 = 2 + (2 + 0)" by simp_all
  have len: "unat (word_of_nat (2 + ?n) :: u16) = 2 + ?n" "unat (word_of_nat ?n :: u16) = ?n"
    by (rule unat_of_nat_u16, use n in simp)+
  have names: "sniff_names ?d (0 + 4 + 2) (0 + 4 + 2 + ?n) = Ret (Some host)"
    using sniff_names_shift [of 6 ?d 0 ?n] assms(1) by (simp add: d)
  show ?thesis
    by (subst sniff_exts.simps)
      (simp only: pos * bnd.simps len Let_def, simp add: names [simplified] length_sni_data)
qed

lemma sniff_exts_found:
  assumes "list_all wf_ext epre" "list_all (\<lambda>e. fst e \<noteq> 0) epre" "wf_ext (0, sni_data ns)"
    "\<And>rest. sniff_names (enc_names ns @ rest) 0 (length (enc_names ns)) = Ret (Some host)"
  shows "sniff_exts (enc_exts (epre @ (0, sni_data ns) # epost) @ rest) 0
      (length (enc_exts (epre @ (0, sni_data ns) # epost))) = Ret host"
  using assms(1,2)
proof (induction epre)
  case Nil
  then show ?case
    using sniff_exts_sni [OF assms(4) assms(3), of "enc_exts epost @ rest"
        "length (enc_exts epost)"] by simp
next
  case (Cons e epre)
  then show ?case
    using sniff_exts_step [of e "enc_exts (epre @ (0, sni_data ns) # epost) @ rest"
        "length (enc_exts (epre @ (0, sni_data ns) # epost))"] by (simp add: add.assoc)
qed

text \<open>A ClientHello record as it stands at the head of a buffer, whatever its record version, the
  length fields the sniffer skips, and what follows it.\<close>

lemma sniff_hello_tail:
  assumes "wf_hello h" "length pre = 43" "pre ! 0 = 0x16" "pre ! 5 = 0x01"
  shows "sniff_tls_sni (pre @ enc_hello_tail h @ rest) =
    sniff_exts (enc_exts (h_exts h) @ rest) 0 (length (enc_exts (h_exts h)))"
proof -
  let ?s = "h_session h" and ?c = "h_ciphers h" and ?m = "h_compression h"
  let ?x = "enc_exts (h_exts h)"
  let ?ls = "word_of_nat (length ?s)" and ?lc = "u16_be (word_of_nat (length ?c))"
    and ?lm = "word_of_nat (length ?m)" and ?lx = "u16_be (word_of_nat (length ?x))"
  let ?p1 = "43 + 1 + length ?s" let ?p2 = "?p1 + 2 + length ?c" let ?p3 = "?p2 + 1 + length ?m"
  define d where "d = pre @ ?ls # ?s @ ?lc @ ?c @ ?lm # ?m @ ?lx @ ?x @ rest"
  have wf: "unat (?ls :: u8) = length ?s" "unat (word_of_nat (length ?c) :: u16) = length ?c"
    "unat (?lm :: u8) = length ?m" "unat (word_of_nat (length ?x) :: u16) = length ?x"
    using assms(1) by (simp_all add: wf_hello_def)
  have ld: "length d = ?p3 + 2 + length ?x + length rest"
    by (simp add: d_def assms(2))
  have i0: "get_opt d 0 = Ret 0x16" "get_opt d 5 = Ret 0x01"
    using assms(2-4) by (simp_all add: get_opt_def d_def nth_append)
  have i1: "get_opt d 43 = Ret ?ls"
    by (simp add: get_opt_def d_def nth_append assms(2))
  have i2: "idx_be16 d ?p1 = Ret (word_of_nat (length ?c))"
    using idx_be16_append [of "pre @ ?ls # ?s"] by (simp add: d_def assms(2))
  have i3: "get_opt d ?p2 = Ret ?lm"
    using nth_append_length [of "pre @ ?ls # ?s @ ?lc @ ?c" ?lm] ld
    by (simp add: get_opt_def d_def assms(2) add.assoc)
  have i4: "idx_be16 d ?p3 = Ret (word_of_nat (length ?x))"
    using idx_be16_append [of "pre @ ?ls # ?s @ ?lc @ ?c @ ?lm # ?m"]
    by (simp add: d_def assms(2) add.assoc)
  have "d = (pre @ ?ls # ?s @ ?lc @ ?c @ ?lm # ?m @ ?lx) @ ?x @ rest"
    "length (pre @ ?ls # ?s @ ?lc @ ?c @ ?lm # ?m @ ?lx) = ?p3 + 2"
    by (simp_all add: d_def assms(2))
  then have "drop (?p3 + 2) d = ?x @ rest"
    by (metis append_eq_conv_conj)
  then have fin: "sniff_exts d (?p3 + 2) (?p3 + 2 + length ?x) = sniff_exts (?x @ rest) 0 (length ?x)"
    using sniff_exts_shift [of "?p3 + 2" d 0 "length ?x"] ld by simp
  have "sniff_tls_sni d = sniff_exts d (?p3 + 2) (?p3 + 2 + length ?x)"
    unfolding sniff_tls_sni_def Let_def
    by (simp only: i0 i1 i2 i3 i4 bnd.simps wf, simp add: ld)
  then show ?thesis
    using fin by (simp add: d_def enc_hello_tail_def)
qed

lemma sniff_client_hello:
  assumes "wf_hello h" "length hdr = 4" "length hl = 3"
    and "h_exts h = epre @ (0, sni_data (npre @ (0, host) # npost)) # epost"
    and "list_all (\<lambda>e. fst e \<noteq> 0) epre"
    and "list_all wf_name npre" "list_all (\<lambda>n. fst n \<noteq> 0) npre" "utf8_valid host"
  shows "sniff_tls_sni (0x16 # hdr @ 0x01 # hl @ enc_hello_body h @ rest) = Ret host"
proof -
  let ?ns = "npre @ (0, host) # npost"
  have e: "list_all wf_ext epre" "wf_ext (0, sni_data ?ns)"
    using assms(1,4) by (simp_all add: wf_hello_def)
  then have "wf_name (0, host)"
    by (simp add: wf_ext_def wf_name_def length_sni_data)
  then have "sniff_exts (enc_exts (h_exts h) @ rest) 0 (length (enc_exts (h_exts h))) = Ret host"
    unfolding assms(4) using sniff_exts_found [OF e(1) assms(5) e(2)]
      sniff_names_found [OF assms(6,7) _ assms(8)] by blast
  moreover have "length (h_version h) = 2" "length (h_random h) = 32"
    using assms(1) by (simp_all add: wf_hello_def)
  ultimately show ?thesis
    using sniff_hello_tail [OF assms(1), of "0x16 # hdr @ 0x01 # hl @ h_version h @ h_random h" rest]
      assms(2,3) by (simp add: enc_hello_body_def nth_append nth_Cons')
qed

section \<open>Correctness of the sniffer\<close>

text \<open>No input makes the sniffer index or slice its buffer out of range. On a buffer that begins with a ClientHello record the sniffer returns the first host name
  of the first server-name extension, whatever extensions and names of other types precede it,
  whatever follows the record, and whatever the record version and the length fields it skips are.\<close>

lemma sniff_finds_host:
  assumes "wf_hello h" "length hdr = 4" "length hl = 3"
    and "h_exts h = epre @ (0, sni_data (npre @ (0, host) # npost)) # epost"
    and "list_all (\<lambda>e. fst e \<noteq> 0) epre"
    and "list_all wf_name npre" "list_all (\<lambda>n. fst n \<noteq> 0) npre" "utf8_valid host"
  shows "sniff_tls_sni (0x16 # hdr @ 0x01 # hl @ enc_hello_body h @ rest) = Ret host
    \<and> sniff_tls_sni data \<noteq> Panic"
  using sniff_client_hello [OF assms] sniff_no_panic [of data] by (simp add: no_panic_def)

end
