(* ===== verification/Proxy_Protocol.thy ===== *)
theory Proxy_Protocol
  imports Tls_Wire
begin

text \<open>
  The PROXY protocol headers that a load balancer puts in front of a connection
  (\<open>src/protocol/proxy_protocol.rs\<close>): the text form (version 1) and the binary form (version 2).
  A parser returns the header and the number of bytes it takes. The server then slices its read
  buffer at that number, so the bound proved here is what keeps the server from panicking.
\<close>

section \<open>Data\<close>

record proxy_header =
  source_addr :: socket_addr
  dest_addr :: socket_addr

datatype proxy_error =
    InvalidHeader | NoCrlf | BadLineEnd | LineNotUtf8 | V1Format | BadPort | BadAddress
  | UnknownProtocol rstring | V2TooShort | V2Incomplete | V2Ipv4Length | V2Ipv6Length

definition PROXY_V1_SIGNATURE :: bytes where
  "PROXY_V1_SIGNATURE = lit ''PROXY ''"

definition PROXY_V2_SIGNATURE :: bytes where
  "PROXY_V2_SIGNATURE = [0x0D, 0x0A, 0x0D, 0x0A, 0x00, 0x0D, 0x0A, 0x51, 0x55, 0x49, 0x54, 0x0A]"

section \<open>Operations\<close>

definition unspecified :: socket_addr where
  "unspecified = \<lparr>sa_ip = V4 [0, 0, 0, 0], sa_port = 0\<rparr>"

definition v1_addresses ::
  "rstring \<Rightarrow> rstring \<Rightarrow> rstring \<Rightarrow> u16 \<Rightarrow> u16 \<Rightarrow> (proxy_error, socket_addr \<times> socket_addr) outcome" where
  "v1_addresses protocol src_ip dst_ip src_port dst_port =
     (if protocol = lit ''TCP4'' \<or> protocol = lit ''UDP4'' then
        bnd (ok_or BadAddress (parse_ipv4 src_ip)) (\<lambda>src.
        bnd (ok_or BadAddress (parse_ipv4 dst_ip)) (\<lambda>dst.
          Ret (\<lparr>sa_ip = V4 src, sa_port = src_port\<rparr>, \<lparr>sa_ip = V4 dst, sa_port = dst_port\<rparr>)))
      else if protocol = lit ''TCP6'' \<or> protocol = lit ''UDP6'' then
        bnd (ok_or BadAddress (parse_ipv6 src_ip)) (\<lambda>src.
        bnd (ok_or BadAddress (parse_ipv6 dst_ip)) (\<lambda>dst.
          Ret (\<lparr>sa_ip = V6 src, sa_port = src_port\<rparr>, \<lparr>sa_ip = V6 dst, sa_port = dst_port\<rparr>)))
      else if protocol = lit ''UNKNOWN'' then Ret (unspecified, unspecified)
      else Err (UnknownProtocol protocol))"

definition parse_v1 :: "bytes \<Rightarrow> (proxy_error, proxy_header \<times> nat) outcome" where
  "parse_v1 data =
     bnd (ok_or NoCrlf (position (\<lambda>b. b = 0x0D) data)) (\<lambda>cr.
     bnd (if length data < cr + 2 then Err BadLineEnd
          else bnd (idx data (cr + 1)) (\<lambda>b. guard (b \<noteq> 0x0A) BadLineEnd)) (\<lambda>_.
     bnd (slice data 0 cr) (\<lambda>raw.
     bnd (ok_or LineNotUtf8 (from_utf8 raw)) (\<lambda>line.
     let parts = split_on 0x20 line in
     bnd (guard (length parts < 6) V1Format) (\<lambda>_.
     bnd (idx parts 1) (\<lambda>protocol.
     bnd (idx parts 2) (\<lambda>src_ip.
     bnd (idx parts 3) (\<lambda>dst_ip.
     bnd (idx parts 4) (\<lambda>sp.
     bnd (ok_or BadPort (parse_u16 sp)) (\<lambda>src_port.
     bnd (idx parts 5) (\<lambda>dp.
     bnd (ok_or BadPort (parse_u16 dp)) (\<lambda>dst_port.
     bnd (v1_addresses protocol src_ip dst_ip src_port dst_port) (\<lambda>(src_addr, dst_addr).
       Ret (\<lparr>source_addr = src_addr, dest_addr = dst_addr\<rparr>, cr + 2))))))))))))))"

definition v2_addresses ::
  "bytes \<Rightarrow> u8 \<Rightarrow> nat \<Rightarrow> (proxy_error, socket_addr \<times> socket_addr) outcome" where
  "v2_addresses data family addr_len =
     (if family = 0x1 then
        bnd (guard (addr_len < 12) V2Ipv4Length) (\<lambda>_.
        bnd (slice data 16 20) (\<lambda>src.
        bnd (slice data 20 24) (\<lambda>dst.
        bnd (idx_be16 data 24) (\<lambda>src_port.
        bnd (idx_be16 data 26) (\<lambda>dst_port.
          Ret (\<lparr>sa_ip = V4 src, sa_port = src_port\<rparr>, \<lparr>sa_ip = V4 dst, sa_port = dst_port\<rparr>))))))
      else if family = 0x2 then
        bnd (guard (addr_len < 36) V2Ipv6Length) (\<lambda>_.
        bnd (slice data 16 32) (\<lambda>src.
        bnd (slice data 32 48) (\<lambda>dst.
        bnd (idx_be16 data 48) (\<lambda>src_port.
        bnd (idx_be16 data 50) (\<lambda>dst_port.
          Ret (\<lparr>sa_ip = V6 src, sa_port = src_port\<rparr>, \<lparr>sa_ip = V6 dst, sa_port = dst_port\<rparr>))))))
      else Ret (unspecified, unspecified))"

definition parse_v2 :: "bytes \<Rightarrow> (proxy_error, proxy_header \<times> nat) outcome" where
  "parse_v2 data =
     bnd (guard (length data < 16) V2TooShort) (\<lambda>_.
     bnd (idx data 12) (\<lambda>ver_cmd.
     bnd (idx data 13) (\<lambda>fam_prot.
     let family = drop_bit 4 fam_prot AND 0x0F in
     bnd (idx_be16 data 14) (\<lambda>l.
     let addr_len = unat l in
     bnd (guard (length data < 16 + addr_len) V2Incomplete) (\<lambda>_.
     bnd (v2_addresses data family addr_len) (\<lambda>(src_addr, dst_addr).
       Ret (\<lparr>source_addr = src_addr, dest_addr = dst_addr\<rparr>, 16 + addr_len)))))))"

definition is_proxy_protocol :: "bytes \<Rightarrow> bool" where
  "is_proxy_protocol data \<longleftrightarrow> starts_with data PROXY_V1_SIGNATURE
     \<or> (length data \<ge> 12 \<and> take 12 data = PROXY_V2_SIGNATURE)"

definition parse_proxy_protocol :: "bytes \<Rightarrow> (proxy_error, proxy_header \<times> nat) outcome" where
  "parse_proxy_protocol data =
     (if starts_with data PROXY_V1_SIGNATURE then parse_v1 data
      else if length data \<ge> 12 \<and> take 12 data = PROXY_V2_SIGNATURE then parse_v2 data
      else Err InvalidHeader)"

text \<open>What a load balancer sends: the encoders of the two forms. They are the specification the
  parsers are proved against.\<close>

definition enc_v1_tcp4 :: "ipv4 \<Rightarrow> ipv4 \<Rightarrow> u16 \<Rightarrow> u16 \<Rightarrow> bytes" where
  "enc_v1_tcp4 src dst sp dp = lit ''PROXY TCP4 '' @ ipv4_display src @ 0x20 # ipv4_display dst
     @ 0x20 # dec_str (unat sp) @ 0x20 # dec_str (unat dp) @ [0x0D, 0x0A]"

definition enc_v2 :: "u8 \<Rightarrow> u8 \<Rightarrow> bytes \<Rightarrow> bytes \<Rightarrow> u16 \<Rightarrow> u16 \<Rightarrow> bytes \<Rightarrow> bytes" where
  "enc_v2 ver_cmd fam_prot src dst sp dp tlvs =
     (let addr = src @ dst @ u16_be sp @ u16_be dp @ tlvs
      in PROXY_V2_SIGNATURE @ [ver_cmd, fam_prot] @ u16_be (word_of_nat (length addr)) @ addr)"

section \<open>No panic, and never past the buffer\<close>

lemma v1_addresses_no_panic [no_panic_intros]: "no_panic (v1_addresses p s d sp dp)"
  unfolding v1_addresses_def by (auto intro!: no_panic_intros)

lemma parse_v1_no_panic: "no_panic (parse_v1 data)"
  unfolding parse_v1_def Let_def
  by (auto intro!: no_panic_intros split: if_splits)

lemma parse_v1_bound:
  "parse_v1 data = Ret (h, n) \<Longrightarrow> n \<le> length data \<and> 2 \<le> n"
  unfolding parse_v1_def Let_def by (auto simp: bnd_Ret_iff split: if_splits)

lemma parse_v2_no_panic: "no_panic (parse_v2 data)"
  unfolding parse_v2_def v2_addresses_def Let_def
  by (auto intro!: no_panic_intros)

lemma parse_v2_bound:
  "parse_v2 data = Ret (h, n) \<Longrightarrow> n \<le> length data \<and> 16 \<le> n"
  unfolding parse_v2_def Let_def by (auto simp: bnd_Ret_iff)

lemma parse_v1_not_invalid: "parse_v1 data \<noteq> Err InvalidHeader"
  unfolding parse_v1_def v1_addresses_def Let_def
  by (auto simp: bnd_Err_iff)

lemma parse_v2_not_invalid: "parse_v2 data \<noteq> Err InvalidHeader"
  unfolding parse_v2_def v2_addresses_def Let_def
  by (auto simp: bnd_Err_iff)

section \<open>What the parsers return\<close>

lemma dec_str_plain: "b \<in> set (dec_str n) \<Longrightarrow> 48 \<le> b \<and> b \<le> 57"
  using dec_str_digits [of n] by (auto simp: list_all_iff is_digit_def)

lemma ipv4_display_plain:
  assumes "b \<in> set (ipv4_display a)"
  shows "46 \<le> b \<and> b \<le> 57"
proof -
  have "b = 46 \<or> (\<exists>n. b \<in> set (dec_str n))"
    using assms by (cases a) (auto simp: ipv4_display_def split: if_splits)
  then show ?thesis
    using dec_str_plain order_trans [of 46 48 b] by auto
qed

lemma plain_free:
  assumes "\<And>b. b \<in> set s \<Longrightarrow> 46 \<le> (b :: u8) \<and> b \<le> 57"
  shows "0x20 \<notin> set s" "0x0D \<notin> set s" "list_all (\<lambda>b. b < 0x80) s"
proof -
  have "b < 0x80" if "b \<in> set s" for b
    using assms [OF that] le_less_trans [of b 57 "0x80"] by simp
  then show "list_all (\<lambda>b. b < 0x80) s" by (simp add: list_all_iff)
qed (use assms in fastforce)+

lemmas ipv4_display_free = plain_free [OF ipv4_display_plain]

lemma dec_str_free: "0x20 \<notin> set (dec_str n)" "0x0D \<notin> set (dec_str n)"
  "list_all (\<lambda>b. b < 0x80) (dec_str n)"
proof -
  have *: "46 \<le> b \<and> b \<le> 57" if "b \<in> set (dec_str n)" for b
    using dec_str_plain [OF that] order_trans [of 46 48 b] by simp
  show "0x20 \<notin> set (dec_str n)" "0x0D \<notin> set (dec_str n)" "list_all (\<lambda>b. b < 0x80) (dec_str n)"
    by (rule plain_free, rule *, assumption)+
qed

lemma parse_v1_line:
  assumes "0x0D \<notin> set line" "is_ascii line"
    and "split_on 0x20 line = [p0, protocol, s, d, sp, dp]"
  shows "parse_v1 (line @ [0x0D, 0x0A] @ rest) =
     bnd (ok_or BadPort (parse_u16 sp)) (\<lambda>src_port.
     bnd (ok_or BadPort (parse_u16 dp)) (\<lambda>dst_port.
     bnd (v1_addresses protocol s d src_port dst_port) (\<lambda>(src_addr, dst_addr).
       Ret (\<lparr>source_addr = src_addr, dest_addr = dst_addr\<rparr>, length line + 2))))"
proof -
  have "position (\<lambda>b. b = 0x0D) (line @ [0x0D, 0x0A] @ rest) = Some (length line)"
    using assms(1) by (subst append_Cons, subst position_append) (auto simp: list_ex_iff)
  then show ?thesis
    using utf8_valid_ascii [OF assms(2)] assms(3)
    by (simp add: parse_v1_def idx_def slice_def nth_append)
qed

lemma parse_v1_tcp4:
  assumes "length src = 4" "length dst = 4"
  shows "parse_v1 (enc_v1_tcp4 src dst sp dp @ rest) =
    Ret (\<lparr>source_addr = \<lparr>sa_ip = V4 src, sa_port = sp\<rparr>, dest_addr = \<lparr>sa_ip = V4 dst, sa_port = dp\<rparr>\<rparr>,
         length (enc_v1_tcp4 src dst sp dp))"
proof -
  let ?line = "lit ''PROXY'' @ 0x20 # lit ''TCP4'' @ 0x20 # ipv4_display src @ 0x20 # ipv4_display dst
     @ 0x20 # dec_str (unat sp) @ 0x20 # dec_str (unat dp)"
  have enc: "enc_v1_tcp4 src dst sp dp = ?line @ [0x0D, 0x0A]"
    by (simp add: enc_v1_tcp4_def lit_def)
  have "0x20 \<notin> set (lit ''PROXY'')" "0x20 \<notin> set (lit ''TCP4'')"
    by (simp_all add: lit_def)
  then have "split_on 0x20 ?line = [lit ''PROXY'', lit ''TCP4'', ipv4_display src, ipv4_display dst,
      dec_str (unat sp), dec_str (unat dp)]"
    by (simp add: split_on_append split_on_free ipv4_display_free dec_str_free)
  moreover have "0x0D \<notin> set ?line" "is_ascii ?line"
    by (simp_all add: lit_def is_ascii_def ipv4_display_free dec_str_free)
  ultimately show ?thesis
    using parse_v1_line [of ?line _ _ _ _ _ _ rest] unfolding enc
    by (simp add: parse_u16_dec_str v1_addresses_def parse_ipv4_display assms)
qed

lemma parse_v2_enc:
  assumes "data = PROXY_V2_SIGNATURE @ [ver_cmd, fam_prot] @ u16_be (word_of_nat (length addr)) @ addr @ rest"
    and "length addr < 65536"
  shows "parse_v2 data =
    bnd (v2_addresses data (drop_bit 4 fam_prot AND 0x0F) (length addr)) (\<lambda>(s, d).
      Ret (\<lparr>source_addr = s, dest_addr = d\<rparr>, 16 + length addr))"
proof -
  have "data ! 12 = ver_cmd" "data ! 13 = fam_prot"
    "be16 (data ! 14) (data ! 15) = word_of_nat (length addr)"
    by (simp_all add: assms(1) PROXY_V2_SIGNATURE_def u16_be_def)
  moreover have "16 + length addr \<le> length data"
    by (simp add: assms(1) PROXY_V2_SIGNATURE_def)
  ultimately show ?thesis
    using assms(2) by (simp add: parse_v2_def idx_def idx_be16_def Let_def)
qed

lemma v2_addresses_parts:
  assumes "data = pre @ src @ dst @ u16_be sp @ u16_be dp @ rest" "length pre = 16"
  shows "family = 1 \<Longrightarrow> length src = 4 \<Longrightarrow> length dst = 4 \<Longrightarrow> 12 \<le> n \<Longrightarrow>
      v2_addresses data family n =
        Ret (\<lparr>sa_ip = V4 src, sa_port = sp\<rparr>, \<lparr>sa_ip = V4 dst, sa_port = dp\<rparr>)"
    and "family = 2 \<Longrightarrow> length src = 16 \<Longrightarrow> length dst = 16 \<Longrightarrow> 36 \<le> n \<Longrightarrow>
      v2_addresses data family n =
        Ret (\<lparr>sa_ip = V6 src, sa_port = sp\<rparr>, \<lparr>sa_ip = V6 dst, sa_port = dp\<rparr>)"
  using assms(2) by (simp_all add: assms(1) v2_addresses_def slice_def idx_be16_def idx_def
      nth_append u16_be_def)

lemma parse_v2_sender:
  assumes "length (src @ dst @ tlvs) + 4 < 65536"
    and "drop_bit 4 fam_prot AND 0x0F = (1::u8) \<and> length src = 4 \<and> length dst = 4 \<and> k = V4
       \<or> drop_bit 4 fam_prot AND 0x0F = (2::u8) \<and> length src = 16 \<and> length dst = 16 \<and> k = V6"
  shows "parse_v2 (enc_v2 ver_cmd fam_prot src dst sp dp tlvs @ rest) =
    Ret (\<lparr>source_addr = \<lparr>sa_ip = k src, sa_port = sp\<rparr>, dest_addr = \<lparr>sa_ip = k dst, sa_port = dp\<rparr>\<rparr>,
         length (enc_v2 ver_cmd fam_prot src dst sp dp tlvs))"
proof -
  let ?addr = "src @ dst @ u16_be sp @ u16_be dp @ tlvs"
  let ?pre = "PROXY_V2_SIGNATURE @ [ver_cmd, fam_prot] @ u16_be (word_of_nat (length ?addr))"
  let ?d = "enc_v2 ver_cmd fam_prot src dst sp dp tlvs @ rest"
  have d: "?d = ?pre @ ?addr @ rest" "?d = PROXY_V2_SIGNATURE @ [ver_cmd, fam_prot] @
      u16_be (word_of_nat (length ?addr)) @ ?addr @ rest"
    by (simp_all only: enc_v2_def Let_def append_assoc)
  have l: "length ?pre = 16" "length (enc_v2 ver_cmd fam_prot src dst sp dp tlvs) = 16 + length ?addr"
    by (simp_all add: enc_v2_def Let_def PROXY_V2_SIGNATURE_def)
  have "v2_addresses ?d (drop_bit 4 fam_prot AND 0x0F) (length ?addr) =
      Ret (\<lparr>sa_ip = k src, sa_port = sp\<rparr>, \<lparr>sa_ip = k dst, sa_port = dp\<rparr>)"
    using v2_addresses_parts [of ?d ?pre src dst sp dp "tlvs @ rest"] assms(2) d(1) l(1) by auto
  then show ?thesis
    using parse_v2_enc [OF d(2)] assms(1) l(2) by simp
qed

lemma enc_v1_signature: "starts_with (enc_v1_tcp4 src dst sp dp @ rest) PROXY_V1_SIGNATURE"
  by (simp add: enc_v1_tcp4_def PROXY_V1_SIGNATURE_def lit_def)

lemma enc_v2_signature: "take 12 (enc_v2 vc fp src dst sp dp tlvs @ rest) = PROXY_V2_SIGNATURE"
  "\<not> starts_with (enc_v2 vc fp src dst sp dp tlvs @ rest) PROXY_V1_SIGNATURE"
  "12 \<le> length (enc_v2 vc fp src dst sp dp tlvs @ rest)"
  by (simp_all add: enc_v2_def Let_def PROXY_V2_SIGNATURE_def PROXY_V1_SIGNATURE_def lit_def)

lemma parse_proxy_enc_v1:
  "parse_proxy_protocol (enc_v1_tcp4 src dst sp dp @ rest) = parse_v1 (enc_v1_tcp4 src dst sp dp @ rest)"
  by (simp only: parse_proxy_protocol_def enc_v1_signature if_True)

lemma parse_proxy_enc_v2:
  "parse_proxy_protocol (enc_v2 vc fp src dst sp dp tlvs @ rest) =
     parse_v2 (enc_v2 vc fp src dst sp dp tlvs @ rest)"
  by (simp only: parse_proxy_protocol_def enc_v2_signature if_True if_False simp_thms)

lemma parse_proxy_bound: "parse_proxy_protocol data = Ret (h, n) \<Longrightarrow> 2 \<le> n \<and> n \<le> length data"
  using parse_v1_bound [of data h n] parse_v2_bound [of data h n]
  by (auto simp: parse_proxy_protocol_def split: if_splits)

lemma parse_proxy_no_panic: "parse_proxy_protocol data \<noteq> Panic"
  using parse_v1_no_panic [of data] parse_v2_no_panic [of data]
  by (auto simp: parse_proxy_protocol_def no_panic_def)

section \<open>Correctness of the header parser\<close>

text \<open>Parsing a PROXY header never panics. A parsed header takes at least two and at most all of
  the bytes of the buffer, so that the server may slice the buffer there. The parser rejects a buffer
  as carrying no header exactly when the server's own test says so.\<close>

lemma proxy_header_within_buffer:
  "parse_proxy_protocol data \<noteq> Panic \<and>
   (parse_proxy_protocol data = Ret (h, n) \<longrightarrow> 2 \<le> n \<and> n \<le> length data) \<and>
   (parse_proxy_protocol data = Err InvalidHeader \<longleftrightarrow> \<not> is_proxy_protocol data)"
  using parse_proxy_no_panic [of data] parse_proxy_bound [of data h n]
  by (auto simp: parse_proxy_protocol_def is_proxy_protocol_def parse_v1_not_invalid parse_v2_not_invalid)

text \<open>The addresses a load balancer announces are the ones the server uses, and the payload
  behind the header is left exactly: for the text form with IPv4 addresses, and for the binary form
  with IPv4 and IPv6 addresses and any additional TLV fields, whatever version and command nibbles
  the binary header has.\<close>

lemma proxy_header_roundtrip:
  assumes "length src = 4" "length dst = 4" "length src6 = 16" "length dst6 = 16"
    "length tlvs < 65500"
  shows "parse_proxy_protocol (enc_v1_tcp4 src dst sp dp @ payload) =
      Ret (\<lparr>source_addr = \<lparr>sa_ip = V4 src, sa_port = sp\<rparr>, dest_addr = \<lparr>sa_ip = V4 dst, sa_port = dp\<rparr>\<rparr>,
           length (enc_v1_tcp4 src dst sp dp)) \<and>
    parse_proxy_protocol (enc_v2 vc 0x11 src dst sp dp tlvs @ payload) =
      Ret (\<lparr>source_addr = \<lparr>sa_ip = V4 src, sa_port = sp\<rparr>, dest_addr = \<lparr>sa_ip = V4 dst, sa_port = dp\<rparr>\<rparr>,
           length (enc_v2 vc 0x11 src dst sp dp tlvs)) \<and>
    parse_proxy_protocol (enc_v2 vc 0x21 src6 dst6 sp dp tlvs @ payload) =
      Ret (\<lparr>source_addr = \<lparr>sa_ip = V6 src6, sa_port = sp\<rparr>, dest_addr = \<lparr>sa_ip = V6 dst6, sa_port = dp\<rparr>\<rparr>,
           length (enc_v2 vc 0x21 src6 dst6 sp dp tlvs))"
proof -
  have "drop_bit 4 0x11 AND 0x0F = (1::u8)" "drop_bit 4 0x21 AND 0x0F = (2::u8)"
    by simp_all
  then show ?thesis
    using assms by (simp add: parse_proxy_enc_v1 parse_proxy_enc_v2 parse_v1_tcp4
        parse_v2_sender [where k = V4] parse_v2_sender [where k = V6])
qed

end
