(* ===== verification/Hello_Parser.thy ===== *)
theory Hello_Parser
  imports Tls_Wire
begin

text \<open>
  The ClientHello pre-check of the Reality transport (\<open>src/transport/reality/hello_parser.rs\<close>): from
  the bytes read so far it extracts the session id, the client random, the X25519 key share and
  the server name. \<open>Ret None\<close> says that the bytes are not yet a complete ClientHello record (or not
  one at all), and the accept loop then reads on; \<open>Err\<close> is a malformed message. The source works on
  \<open>Buf\<close> cursors, which are the byte lists that remain.
\<close>

section \<open>Data\<close>

record client_hello_info =
  chi_session_id :: bytes
  chi_client_random :: bytes
  chi_public_key :: "bytes option"
  chi_server_name :: "rstring option"

datatype hello_error =
    ShortBuffer | ShortVersion | ShortRandom | ShortSessionIdLen | ShortSessionId
  | ShortCipherSuitesLen | ShortCipherSuites | ShortCompressionLen | ShortCompression
  | ShortExtensions

section \<open>Operations\<close>

text \<open>The loop over a server-name list; the result is the new value of \<open>server_name\<close>.\<close>

function hello_names :: "bytes \<Rightarrow> rstring option \<Rightarrow> (hello_error, rstring option) outcome" where
  "hello_names list server_name =
     (if list = [] \<or> length list < 3 then Ret server_name
      else
        bnd (get_u8 list) (\<lambda>(name_type, r1).
        bnd (get_u16 r1) (\<lambda>(name_len, r2).
          if length r2 < unat name_len then Ret server_name
          else if name_type = 0x00 then
            bnd (get_n (unat name_len) r2) (\<lambda>(name_bytes, _).
              case from_utf8 name_bytes of Some s \<Rightarrow> Ret (Some s) | None \<Rightarrow> Ret server_name)
          else bnd (advance (unat name_len) r2) (\<lambda>r3. hello_names r3 server_name))))"
  by pat_completeness auto
termination
  by (relation "measure (\<lambda>(l, _). length l)")
    (auto simp: get_u8_Ret_iff get_u16_Ret_iff advance_def split: if_splits)

declare hello_names.simps [simp del]

text \<open>The loop over the key shares; the result is the new value of \<open>public_key\<close>.\<close>

function hello_shares :: "bytes \<Rightarrow> bytes option \<Rightarrow> (hello_error, bytes option) outcome" where
  "hello_shares shares public_key =
     (if shares = [] \<or> length shares < 4 then Ret public_key
      else
        bnd (get_u16 shares) (\<lambda>(group, r1).
        bnd (get_u16 r1) (\<lambda>(key_len, r2).
          if length r2 < unat key_len then Ret public_key
          else if group = 0x001d \<and> unat key_len = 32 then
            bnd (get_n 32 r2) (\<lambda>(key, _). Ret (Some key))
          else bnd (advance (unat key_len) r2) (\<lambda>r3. hello_shares r3 public_key))))"
  by pat_completeness auto
termination
  by (relation "measure (\<lambda>(l, _). length l)")
    (auto simp: get_u16_Ret_iff advance_def split: if_splits)

declare hello_shares.simps [simp del]

text \<open>The body of the server-name branch.\<close>

definition hello_sni :: "bytes \<Rightarrow> rstring option \<Rightarrow> (hello_error, rstring option) outcome" where
  "hello_sni ext_data server_name =
     (if length ext_data \<ge> 2 then
        bnd (get_u16 ext_data) (\<lambda>(list_len, r).
          if length r \<ge> unat list_len then
            bnd (slice r 0 (unat list_len)) (\<lambda>list. hello_names list server_name)
          else Ret server_name)
      else Ret server_name)"

text \<open>The body of the key-share branch: \<open>Ret None\<close> is a \<open>continue\<close> of the extension loop.\<close>

definition hello_key_share ::
  "bytes \<Rightarrow> bytes option \<Rightarrow> (hello_error, bytes option option) outcome" where
  "hello_key_share ext_data public_key =
     (if length ext_data < 2 then Ret None
      else
        bnd (get_u16 ext_data) (\<lambda>(shares_len, r).
          if length r < unat shares_len then Ret None
          else
            bnd (slice r 0 (unat shares_len)) (\<lambda>shares.
            bnd (hello_shares shares public_key) (\<lambda>k. Ret (Some k)))))"

text \<open>The loop over the extensions; the result is the final pair (\<open>public_key\<close>, \<open>server_name\<close>).\<close>

function hello_exts :: "bytes \<Rightarrow> bytes option \<Rightarrow> rstring option \<Rightarrow>
    (hello_error, bytes option \<times> rstring option) outcome" where
  "hello_exts extensions public_key server_name =
     (if extensions = [] \<or> length extensions < 4 then Ret (public_key, server_name)
      else
        bnd (get_u16 extensions) (\<lambda>(ext_type, r1).
        bnd (get_u16 r1) (\<lambda>(ext_len, r2).
          if length r2 < unat ext_len then Ret (public_key, server_name)
          else
            bnd (slice r2 0 (unat ext_len)) (\<lambda>ext_data.
            bnd (advance (unat ext_len) r2) (\<lambda>r3.
            bnd (if ext_type = 0x0000 then hello_sni ext_data server_name else Ret server_name)
              (\<lambda>server_name'.
            bnd (if ext_type = 0x0033 then hello_key_share ext_data public_key
                 else Ret (Some public_key)) (\<lambda>k.
              case k of
                None \<Rightarrow> hello_exts r3 public_key server_name'
              | Some public_key' \<Rightarrow>
                  if public_key' \<noteq> None \<and> server_name' \<noteq> None
                  then Ret (public_key', server_name')
                  else hello_exts r3 public_key' server_name')))))))"
  by pat_completeness auto
termination
  by (relation "measure (\<lambda>(l, _). length l)")
    (auto simp: get_u16_Ret_iff advance_def split: if_splits)

declare hello_exts.simps [simp del]

definition parse_client_hello :: "bytes \<Rightarrow> (hello_error, client_hello_info option) outcome" where
  "parse_client_hello buf =
     bnd (if length buf < 5 then Ret True else bnd (idx buf 0) (\<lambda>b. Ret (b \<noteq> 0x16))) (\<lambda>no_tls.
     if no_tls then Ret None
     else
     bnd (idx_be16 buf 3) (\<lambda>record_len.
     if length buf < 5 + unat record_len then Ret None
     else
     bnd (slice buf 5 (length buf)) (\<lambda>cursor.
     bnd (guard (length cursor < 4) ShortBuffer) (\<lambda>_.
     bnd (get_u8 cursor) (\<lambda>(msg_type, cursor).
     if msg_type \<noteq> 0x01 then Ret None
     else
     bnd (advance 3 cursor) (\<lambda>cursor.
     bnd (guard (length cursor < 2) ShortVersion) (\<lambda>_.
     bnd (advance 2 cursor) (\<lambda>cursor.
     bnd (guard (length cursor < 32) ShortRandom) (\<lambda>_.
     bnd (get_n 32 cursor) (\<lambda>(client_random, cursor).
     bnd (guard (length cursor < 1) ShortSessionIdLen) (\<lambda>_.
     bnd (get_u8 cursor) (\<lambda>(session_id_len, cursor).
     bnd (guard (length cursor < unat session_id_len) ShortSessionId) (\<lambda>_.
     bnd (get_n (unat session_id_len) cursor) (\<lambda>(session_id, cursor).
     bnd (guard (length cursor < 2) ShortCipherSuitesLen) (\<lambda>_.
     bnd (get_u16 cursor) (\<lambda>(cipher_suites_len, cursor).
     bnd (guard (length cursor < unat cipher_suites_len) ShortCipherSuites) (\<lambda>_.
     bnd (advance (unat cipher_suites_len) cursor) (\<lambda>cursor.
     bnd (guard (length cursor < 1) ShortCompressionLen) (\<lambda>_.
     bnd (get_u8 cursor) (\<lambda>(compression_methods_len, cursor).
     bnd (guard (length cursor < unat compression_methods_len) ShortCompression) (\<lambda>_.
     bnd (advance (unat compression_methods_len) cursor) (\<lambda>cursor.
     if length cursor < 2 then
       Ret (Some \<lparr>chi_session_id = session_id, chi_client_random = client_random,
                  chi_public_key = None, chi_server_name = None\<rparr>)
     else
     bnd (get_u16 cursor) (\<lambda>(extensions_len, cursor).
     bnd (guard (length cursor < unat extensions_len) ShortExtensions) (\<lambda>_.
     bnd (slice cursor 0 (unat extensions_len)) (\<lambda>extensions.
     bnd (hello_exts extensions None None) (\<lambda>(public_key, server_name).
       Ret (Some \<lparr>chi_session_id = session_id, chi_client_random = client_random,
                  chi_public_key = public_key, chi_server_name = server_name\<rparr>)
     ))))))))))))))))))))))))))"

section \<open>No panic\<close>

lemma hello_names_no_panic: "no_panic (hello_names list sn)"
proof (induction list sn rule: hello_names.induct)
  case (1 list sn)
  show ?case
    by (subst hello_names.simps)
      (use 1 in \<open>auto simp: get_u8_Ret_iff get_u16_Ret_iff split: option.splits intro!: no_panic_intros\<close>)
qed

lemma hello_shares_no_panic: "no_panic (hello_shares shares pk)"
proof (induction shares pk rule: hello_shares.induct)
  case (1 shares pk)
  show ?case
    by (subst hello_shares.simps)
      (use 1 in \<open>auto simp: get_u16_Ret_iff simp del: imp_disjL intro!: no_panic_intros, blast+\<close>)
qed

lemma hello_sni_no_panic [no_panic_intros]: "no_panic (hello_sni d sn)"
  unfolding hello_sni_def by (auto intro!: no_panic_intros hello_names_no_panic)

lemma hello_key_share_no_panic [no_panic_intros]: "no_panic (hello_key_share d pk)"
  unfolding hello_key_share_def by (auto intro!: no_panic_intros hello_shares_no_panic)

lemma hello_exts_no_panic [no_panic_intros]: "no_panic (hello_exts e pk sn)"
proof (induction e pk sn rule: hello_exts.induct)
  case (1 e pk sn)
  show ?case
    by (subst hello_exts.simps)
      (use 1 in \<open>auto simp: get_u16_Ret_iff split: option.splits intro!: no_panic_intros\<close>)
qed

lemma parse_client_hello_no_panic: "no_panic (parse_client_hello buf)"
  unfolding parse_client_hello_def
  by (auto simp: advance_def get_u8_Ret_iff get_u16_Ret_iff Suc_le_eq split: if_splits
      intro!: no_panic_intros)

section \<open>What the parser finds\<close>

lemma hello_names_step:
  assumes "wf_name n"
  shows "hello_names (enc_name n @ rest) sn =
    (if fst n = 0 then Ret (if utf8_valid (snd n) then Some (snd n) else sn)
     else hello_names rest sn)"
  using assms
  by (subst hello_names.simps) (simp add: enc_name_def wf_name_def from_utf8_def)

lemma hello_names_found:
  assumes "list_all wf_name npre" "list_all (\<lambda>n. fst n \<noteq> 0) npre" "wf_name (0, host)"
    "utf8_valid host"
  shows "hello_names (enc_names (npre @ (0, host) # npost)) sn = Ret (Some host)"
  using assms(1,2)
  by (induction npre) (simp_all add: hello_names_step assms(3,4))

lemma hello_shares_step:
  assumes "wf_ext k"
  shows "hello_shares (enc_ext k @ rest) pk =
    (if fst k = 0x001d \<and> length (snd k) = 32 then Ret (Some (snd k)) else hello_shares rest pk)"
  using assms
  by (subst hello_shares.simps) (simp add: enc_ext_def wf_ext_def)

lemma hello_shares_found:
  assumes "list_all wf_ext kpre" "list_all (\<lambda>k. fst k \<noteq> 0x001d \<or> length (snd k) \<noteq> 32) kpre"
    "length key = 32"
  shows "hello_shares (enc_exts (kpre @ (0x001d, key) # kpost)) pk = Ret (Some key)"
  using assms(1,2)
proof (induction kpre)
  case Nil
  have "wf_ext (0x001d, key)"
    using assms(3) by (simp add: wf_ext_def)
  then show ?case
    using assms(3) by (simp add: hello_shares_step)
qed (auto simp: hello_shares_step)

lemma hello_sni_found:
  assumes "list_all wf_name npre" "list_all (\<lambda>n. fst n \<noteq> 0) npre" "utf8_valid host"
    "length (sni_data (npre @ (0, host) # npost)) < 65536"
  shows "hello_sni (sni_data (npre @ (0, host) # npost)) sn = Ret (Some host)"
proof -
  have "length (enc_names (npre @ (0, host) # npost)) < 65536" "wf_name (0, host)"
    using assms(4) by (simp_all add: sni_data_def wf_name_def)
  then show ?thesis
    using hello_names_found [OF assms(1,2) _ assms(3)]
    by (simp add: hello_sni_def sni_data_def slice_def del: enc_names_simps)
qed

lemma hello_key_share_found:
  assumes "list_all wf_ext kpre" "list_all (\<lambda>k. fst k \<noteq> 0x001d \<or> length (snd k) \<noteq> 32) kpre"
    "length key = 32" "length (ks_data (kpre @ (0x001d, key) # kpost)) < 65536"
  shows "hello_key_share (ks_data (kpre @ (0x001d, key) # kpost)) pk = Ret (Some (Some key))"
proof -
  have "length (enc_exts (kpre @ (0x001d, key) # kpost)) < 65536"
    using assms(4) by (simp add: ks_data_def)
  then show ?thesis
    using hello_shares_found [OF assms(1,2,3)]
    by (simp add: hello_key_share_def ks_data_def slice_def del: enc_exts_simps)
qed

lemma hello_exts_step:
  assumes "wf_ext e"
  shows "hello_exts (enc_ext e @ rest) pk sn =
    bnd (if fst e = 0x0000 then hello_sni (snd e) sn else Ret sn) (\<lambda>sn'.
    bnd (if fst e = 0x0033 then hello_key_share (snd e) pk else Ret (Some pk)) (\<lambda>k.
      case k of None \<Rightarrow> hello_exts rest pk sn'
      | Some pk' \<Rightarrow> if pk' \<noteq> None \<and> sn' \<noteq> None then Ret (pk', sn') else hello_exts rest pk' sn'))"
  using assms
  by (subst hello_exts.simps) (simp add: enc_ext_def wf_ext_def slice_def)

text \<open>Extensions of other types are skipped while either result is missing.\<close>

definition other_ext :: "u16 \<times> bytes \<Rightarrow> bool" where
  "other_ext e \<longleftrightarrow> wf_ext e \<and> fst e \<noteq> 0x0000 \<and> fst e \<noteq> 0x0033"

lemma hello_exts_other:
  assumes "list_all other_ext es" "pk = None \<or> sn = None"
  shows "hello_exts (enc_exts es @ rest) pk sn = hello_exts rest pk sn"
  using assms by (induction es) (auto simp: other_ext_def hello_exts_step)

lemma hello_exts_nil [simp]: "hello_exts [] pk sn = Ret (pk, sn)"
  by (simp add: hello_exts.simps)

lemma hello_exts_both:
  assumes "list_all other_ext e1" "list_all other_ext e2"
    and sni: "wf_ext (0x0000, sd)" "\<And>sn. hello_sni sd sn = Ret (Some host)"
    and ks: "wf_ext (0x0033, kd)" "\<And>pk. hello_key_share kd pk = Ret (Some (Some key))"
  shows "hello_exts (enc_exts (e1 @ (0x0000, sd) # e2 @ (0x0033, kd) # e3)) None None =
      Ret (Some key, Some host)"
    and "hello_exts (enc_exts (e1 @ (0x0033, kd) # e2 @ (0x0000, sd) # e3)) None None =
      Ret (Some key, Some host)"
  using assms by (simp_all add: hello_exts_other hello_exts_step)

lemma parse_client_hello_record:
  assumes "wf_hello h" "length (enc_hello_msg h) < 65536"
  shows "parse_client_hello (enc_record 0x16 ver (enc_hello_msg h) @ rest) =
    bnd (hello_exts (enc_exts (h_exts h)) None None) (\<lambda>(pk, sn).
      Ret (Some \<lparr>chi_session_id = h_session h, chi_client_random = h_random h,
                 chi_public_key = pk, chi_server_name = sn\<rparr>))"
proof -
  define b where "b = enc_record 0x16 ver (enc_hello_msg h) @ rest"
  define n where "n = length (enc_hello_msg h)"
  have wf: "length (h_version h) = 2" "length (h_random h) = 32" "length (h_session h) < 256"
    "length (h_ciphers h) < 65536" "length (h_compression h) < 256"
    "length (enc_exts (h_exts h)) < 65536"
    using assms(1) by (simp_all add: wf_hello_def)
  have head: "b ! 0 = 0x16" "be16 (b ! 3) (b ! 4) = word_of_nat n" "length b = 5 + n + length rest"
    by (simp_all add: b_def n_def enc_record_def u16_be_def)
  have dr: "drop 5 b = enc_hello_msg h @ rest"
    by (simp add: b_def enc_record_def)
  have tk: "take (n + length rest) (enc_hello_msg h @ rest) = enc_hello_msg h @ rest"
    by (simp add: n_def)
  have "n < 65536" "42 \<le> n"
    using assms(2) wf by (simp_all add: n_def enc_hello_msg_def enc_hello_body_def enc_hello_tail_def)
  then have "parse_client_hello b =
    bnd (hello_exts (enc_exts (h_exts h)) None None) (\<lambda>(pk, sn).
      Ret (Some \<lparr>chi_session_id = h_session h, chi_client_random = h_random h,
                 chi_public_key = pk, chi_server_name = sn\<rparr>))"
    unfolding parse_client_hello_def idx_def idx_be16_def slice_def using wf
    by (simp add: head dr tk del: take_append) (simp add: enc_hello_msg_def enc_hello_body_def enc_hello_tail_def)
  then show ?thesis by (simp add: b_def)
qed

lemma parse_client_hello_waits:
  assumes "k < length (enc_record 0x16 ver msg)" "length msg < 65536"
  shows "parse_client_hello (take k (enc_record 0x16 ver msg)) = Ret None"
proof (cases "k < 5")
  case True
  then have "length (take k (enc_record 0x16 ver msg)) < 5" by simp
  then show ?thesis by (simp only: parse_client_hello_def if_True bnd.simps)
next
  case False
  let ?b = "take k (enc_record 0x16 ver msg)"
  have "?b ! 0 = 0x16" "be16 (?b ! 3) (?b ! 4) = word_of_nat (length msg)"
    using False by (simp_all add: enc_record_def u16_be_def)
  then show ?thesis
    using assms False by (simp add: parse_client_hello_def idx_def idx_be16_def enc_record_def)
qed

section \<open>Correctness of the pre-check\<close>

text \<open>For a complete ClientHello that offers an X25519 key and a server name, the pre-check
  returns the session id, the client random, that key and that name. The two extensions may come in
  either order among extensions of other types, the key behind shares of other groups, and the
  name behind names of other types; bytes after the record do not matter. As long as the record is
  incomplete it asks for more instead of failing or deciding early, and no bytes make it panic.\<close>

lemma hello_precheck_finds:
  assumes "wf_hello h" "length (enc_hello_msg h) < 65536"
    and "h_exts h = e1 @ (0x0000, sni_data (npre @ (0, host) # npost))
           # e2 @ (0x0033, ks_data (kpre @ (0x001d, key) # kpost)) # e3
       \<or> h_exts h = e1 @ (0x0033, ks_data (kpre @ (0x001d, key) # kpost))
           # e2 @ (0x0000, sni_data (npre @ (0, host) # npost)) # e3"
    and "list_all other_ext e1" "list_all other_ext e2"
    and "list_all wf_name npre" "list_all (\<lambda>n. fst n \<noteq> 0) npre" "utf8_valid host"
    and "list_all wf_ext kpre" "list_all (\<lambda>k. fst k \<noteq> 0x001d \<or> length (snd k) \<noteq> 32) kpre"
    and "length key = 32"
  shows "parse_client_hello (enc_record 0x16 ver (enc_hello_msg h) @ rest) =
    Ret (Some \<lparr>chi_session_id = h_session h, chi_client_random = h_random h,
               chi_public_key = Some key, chi_server_name = Some host\<rparr>)
    \<and> (\<forall>k < length (enc_record 0x16 ver (enc_hello_msg h)).
          parse_client_hello (take k (enc_record 0x16 ver (enc_hello_msg h))) = Ret None)
    \<and> parse_client_hello buf \<noteq> Panic"
proof -
  let ?sd = "sni_data (npre @ (0, host) # npost)"
  let ?kd = "ks_data (kpre @ (0x001d, key) # kpost)"
  have wf: "wf_ext (0x0000, ?sd)" "wf_ext (0x0033, ?kd)"
    using assms(1,3) by (auto simp: wf_hello_def)
  then have "hello_sni ?sd sn = Ret (Some host)" "hello_key_share ?kd pk = Ret (Some (Some key))" for sn pk
    using hello_sni_found [OF assms(6-8)] hello_key_share_found [OF assms(9-11)]
    by (simp_all add: wf_ext_def)
  then have "hello_exts (enc_exts (h_exts h)) None None = Ret (Some key, Some host)"
    using assms(3) hello_exts_both [OF assms(4,5) wf(1) _ wf(2)] by metis
  then show ?thesis
    using parse_client_hello_no_panic [of buf] parse_client_hello_waits [OF _ assms(2)]
    by (simp add: parse_client_hello_record [OF assms(1,2)] no_panic_def)
qed

end
