(* ===== verification/Framing.thy ===== *)
theory Framing
  imports Rust_Std
begin

text \<open>
  The contract of an incremental parser and what follows from it. Every framed stream of the
  program (TLS records, encrypted records, gRPC messages, datagram frames) is consumed the same way: bytes are
  appended to a buffer as the network delivers them, and a parser is called on the buffer until it
  asks for more. A parser step has a state (a sequence number, or nothing), and answers with a
  message and the bytes left, with a request for more bytes, or with an error.

  The locale states what such a parser must promise; its conclusion is that the messages do not
  depend on how the network cuts the stream.
\<close>

section \<open>Running an incremental parser\<close>

type_synonym ('s, 'e, 'a) step_parser = "'s \<Rightarrow> bytes \<Rightarrow> ('e, ('a \<times> 's \<times> bytes) option) outcome"

text \<open>Messages, the error that ended the stream, the state, and the bytes not yet consumed.\<close>

type_synonym ('s, 'e, 'a) drained = "'a list \<times> 'e option \<times> 's \<times> bytes"

fun drain :: "('s, 'e, 'a) step_parser \<Rightarrow> nat \<Rightarrow> 's \<Rightarrow> bytes \<Rightarrow> ('s, 'e, 'a) drained" where
  "drain p 0 s buf = ([], None, s, buf)"
| "drain p (Suc n) s buf =
     (case p s buf of
        Ret (Some (x, s', rest)) \<Rightarrow> (let (xs, q) = drain p n s' rest in (x # xs, q))
      | Err e \<Rightarrow> ([], Some e, s, buf)
      | _ \<Rightarrow> ([], None, s, buf))"

text \<open>Each message takes at least one byte, so the length of the buffer is enough fuel.\<close>

definition drain_all :: "('s, 'e, 'a) step_parser \<Rightarrow> 's \<Rightarrow> bytes \<Rightarrow> ('s, 'e, 'a) drained" where
  "drain_all p s buf = drain p (Suc (length buf)) s buf"

text \<open>Once an error has occurred the connection is over and later bytes only pile up.\<close>

fun feed :: "('s, 'e, 'a) step_parser \<Rightarrow> ('s, 'e, 'a) drained \<Rightarrow> bytes \<Rightarrow> ('s, 'e, 'a) drained" where
  "feed p (xs, None, s, buf) chunk = (let (ys, q) = drain_all p s (buf @ chunk) in (xs @ ys, q))"
| "feed p (xs, Some e, s, buf) chunk = (xs, Some e, s, buf @ chunk)"

text \<open>The bytes of a sequence of messages, each encoded in the state the ones before it lead to.\<close>

fun enc_stream :: "('s \<Rightarrow> 'a \<Rightarrow> bytes) \<Rightarrow> ('s \<Rightarrow> 'a \<Rightarrow> 's) \<Rightarrow> 's \<Rightarrow> 'a list \<Rightarrow> bytes" where
  "enc_stream enc nxt s [] = []"
| "enc_stream enc nxt s (x # xs) = enc s x @ enc_stream enc nxt (nxt s x) xs"

fun ok_stream :: "('s \<Rightarrow> 'a \<Rightarrow> bool) \<Rightarrow> ('s \<Rightarrow> 'a \<Rightarrow> 's) \<Rightarrow> 's \<Rightarrow> 'a list \<Rightarrow> bool" where
  "ok_stream ok nxt s [] = True"
| "ok_stream ok nxt s (x # xs) = (ok s x \<and> ok_stream ok nxt (nxt s x) xs)"

text \<open>What every step keeps of the state holds at the end.\<close>

lemma drain_state:
  assumes "drain p n s buf = (xs, e, s', rest)" "I s"
    and "\<And>s buf x s' rest. I s \<Longrightarrow> p s buf = Ret (Some (x, s', rest)) \<Longrightarrow> I s'"
  shows "I s'"
  using assms(1,2)
proof (induction n arbitrary: s buf xs)
  case (Suc n)
  then show ?case
    using assms(3) by (auto simp: Let_def split: outcome.splits option.splits prod.splits)
qed simp

section \<open>The contract\<close>

locale incremental =
  fixes p :: "('s, 'e, 'a) step_parser"
  assumes progress: "p s buf = Ret (Some (x, s', rest)) \<Longrightarrow> length rest < length buf"
    and stable: "p s buf = Ret (Some (x, s', rest)) \<Longrightarrow> p s (buf @ extra) = Ret (Some (x, s', rest @ extra))"
    and stable_err: "p s buf = Err e \<Longrightarrow> p s (buf @ extra) = Err e"
    and no_panics: "p s buf \<noteq> Panic"
    and idle: "p s [] = Ret None"
begin

lemma drain_fuel:
  "length buf < n \<Longrightarrow> drain p n s buf = drain_all p s buf"
proof (induction "length buf" arbitrary: n s buf rule: less_induct)
  case less
  obtain m where n: "n = Suc m"
    using less.prems by (cases n) auto
  show ?case
  proof (cases "\<exists>x s' rest. p s buf = Ret (Some (x, s', rest))")
    case True
    then obtain x s' rest where p: "p s buf = Ret (Some (x, s', rest))" by blast
    have l: "length rest < length buf" by (rule progress [OF p])
    then have "drain p m s' rest = drain p (length buf) s' rest"
      using less.hyps [OF l, of m s'] less.hyps [OF l, of "length buf" s'] less.prems n by simp
    then show ?thesis
      by (simp add: drain_all_def n p)
  next
    case False
    then show ?thesis
      by (auto simp: drain_all_def n split: outcome.splits option.splits)
  qed
qed

lemma drain_all_step:
  "drain_all p s buf =
    (case p s buf of
       Ret (Some (x, s', rest)) \<Rightarrow> (let (xs, q) = drain_all p s' rest in (x # xs, q))
     | Err e \<Rightarrow> ([], Some e, s, buf)
     | _ \<Rightarrow> ([], None, s, buf))"
  using drain_fuel progress
  by (auto simp: drain_all_def [of p s] split: outcome.splits option.splits)

lemma drain_all_append:
  "drain_all p s (buf @ extra) = feed p (drain_all p s buf) extra"
proof (induction "length buf" arbitrary: s buf rule: less_induct)
  case less
  consider (msg) x s' rest where "p s buf = Ret (Some (x, s', rest))"
    | (wait) "p s buf = Ret None" | (err) e where "p s buf = Err e"
    using no_panics [of s buf] by (metis outcome.exhaust option.exhaust prod_cases3)
  then show ?case
  proof cases
    case msg
    have IH: "drain_all p s' (rest @ extra) = feed p (drain_all p s' rest) extra"
      by (rule less, rule progress [OF msg])
    obtain xs e t r where d: "drain_all p s' rest = (xs, e, t, r)"
      by (cases "drain_all p s' rest") auto
    have "drain_all p s buf = (x # xs, e, t, r)"
      by (subst drain_all_step) (simp add: msg d)
    moreover have "drain_all p s (buf @ extra) = (let (ys, q) = feed p (xs, e, t, r) extra in (x # ys, q))"
      by (subst drain_all_step) (simp add: stable [OF msg] IH d)
    ultimately show ?thesis
      by (cases e) (simp_all add: Let_def split: prod.splits)
  next
    case wait
    have "drain_all p s buf = ([], None, s, buf)"
      by (subst drain_all_step) (simp add: wait)
    then show ?thesis by (simp add: Let_def split: prod.splits)
  next
    case err
    have "drain_all p s buf = ([], Some e, s, buf)" "drain_all p s (buf @ extra) = ([], Some e, s, buf @ extra)"
      by (subst drain_all_step, simp add: err stable_err [OF err])+
    then show ?thesis by simp
  qed
qed

lemma feed_feed: "feed p (feed p q c) d = feed p q (c @ d)"
proof -
  obtain xs e s buf where q: "q = (xs, e, s, buf)" by (cases q) auto
  show ?thesis
  proof (cases e)
    case None
    obtain ys e' s' r where d: "drain_all p s (buf @ c) = (ys, e', s', r)"
      by (cases "drain_all p s (buf @ c)") auto
    have "drain_all p s ((buf @ c) @ d) = feed p (ys, e', s', r) d"
      by (subst drain_all_append) (simp only: d)
    then show ?thesis
      by (cases e') (simp_all add: q None d Let_def split: prod.splits)
  qed (simp add: q)
qed

text \<open>However the stream is cut into chunks, the same messages come out, the same error ends it, and
  the same bytes are left waiting.\<close>

lemma feed_chunks:
  "foldl (feed p) (feed p q c) cs = feed p q (c @ concat cs)"
  by (induction cs arbitrary: c) (simp_all add: feed_feed)

lemma chunk_independent:
  "foldl (feed p) ([], None, s, []) cs = drain_all p s (concat cs)"
proof (cases cs)
  case Nil
  then show ?thesis by (simp add: drain_all_step [of s "[]"] idle)
next
  case (Cons c cs')
  then show ?thesis by (simp add: feed_chunks Let_def del: feed.simps) (simp add: Let_def split: prod.splits)
qed

text \<open>A stream of encoded messages gives back those messages and nothing else.\<close>

lemma drain_stream:
  assumes "\<And>s x rest. ok s x \<Longrightarrow> p s (enc s x @ rest) = Ret (Some (x, nxt s x, rest))"
  shows "ok_stream ok nxt s xs \<Longrightarrow>
    drain_all p s (enc_stream enc nxt s xs @ rest) =
      (let (ys, q) = drain_all p (foldl nxt s xs) rest in (xs @ ys, q))"
proof (induction xs arbitrary: s)
  case (Cons x xs)
  then show ?case
    by (subst drain_all_step) (simp add: assms Let_def split: prod.splits)
qed simp

end

end
