(* ===== verification/Reality_Auth.thy ===== *)
theory Reality_Auth
  imports Rust_Std
begin

text \<open>
  The authentication tag the server hides in its random (\<open>src/transport/reality/auth.rs\<close>, and the
  copy of the same operation in the patched TLS library, \<open>rustls-reality/rustls/src/reality.rs\<close>).
  HMAC-SHA256 and the two Base64 decoders are library code: they are arguments of the operations.
  What the code relies on is that an HMAC-SHA256 tag has 32 bytes.
\<close>

section \<open>Data\<close>

record reality_auth =
  private_key_bytes :: bytes

record server_hello_modifier =
  shm_auth :: reality_auth

datatype auth_error = BadKeyFormat | BadKeyLength nat | ServerHelloTooShort | NotServerHello

record reality_config =
  rc_private_key :: bytes
  rc_verify_client :: bool
  rc_dest :: "rstring option"
  rc_short_ids :: "bytes list"

datatype rustls_error = General rstring

text \<open>The configuration of the transport, as the server's configuration file gives it.\<close>

record reality_conf =
  cf_dest :: rstring
  cf_server_names :: "rstring list"
  cf_private_key :: rstring
  cf_public_key :: "rstring option"
  cf_short_ids :: "rstring list"
  cf_fingerprint :: rstring

section \<open>Operations of auth.rs\<close>

definition reality_auth_new ::
  "(rstring \<Rightarrow> bytes option) \<Rightarrow> (rstring \<Rightarrow> bytes option) \<Rightarrow> rstring \<Rightarrow> (auth_error, reality_auth) outcome" where
  "reality_auth_new b64_standard b64_url_safe_no_pad private_key =
     bnd (case b64_standard private_key of
            Some decoded \<Rightarrow> Ret decoded
          | None \<Rightarrow> (case b64_url_safe_no_pad private_key of
                       Some decoded \<Rightarrow> Ret decoded
                     | None \<Rightarrow> Err BadKeyFormat)) (\<lambda>key.
     bnd (guard (length key \<noteq> 32) (BadKeyLength (length key))) (\<lambda>_.
       Ret \<lparr>private_key_bytes = key\<rparr>))"

definition generate_auth_tag ::
  "(bytes \<Rightarrow> bytes \<Rightarrow> bytes) \<Rightarrow> reality_auth \<Rightarrow> bytes \<Rightarrow> bytes \<Rightarrow> ('e, bytes) outcome" where
  "generate_auth_tag hmac self client_random server_random_20 =
     copy_exact 32 (hmac (private_key_bytes self) (server_random_20 @ client_random))"

definition inject_auth_into_random ::
  "(bytes \<Rightarrow> bytes \<Rightarrow> bytes) \<Rightarrow> reality_auth \<Rightarrow> bytes \<Rightarrow> bytes \<Rightarrow> ('e, bytes) outcome" where
  "inject_auth_into_random hmac self original_random client_random =
     bnd (slice original_random 0 20) (\<lambda>head.
     bnd (generate_auth_tag hmac self client_random head) (\<lambda>auth_tag.
     bnd (splice (replicate 32 0) 0 20 head) (\<lambda>modified_random.
     bnd (slice auth_tag 0 12) (\<lambda>tag.
       splice modified_random 20 32 tag))))"

definition verify_client_auth ::
  "(bytes \<Rightarrow> bytes \<Rightarrow> bytes) \<Rightarrow> reality_auth \<Rightarrow> bytes \<Rightarrow> bytes \<Rightarrow> ('e, bool) outcome" where
  "verify_client_auth hmac self client_random session_id =
     (if length session_id < 8 then Ret False
      else
        bnd (slice (hmac (private_key_bytes self) client_random) 0 8) (\<lambda>expected.
        bnd (slice session_id 0 8) (\<lambda>given.
          Ret (expected = given))))"

definition server_hello_modifier_new ::
  "(rstring \<Rightarrow> bytes option) \<Rightarrow> (rstring \<Rightarrow> bytes option) \<Rightarrow> rstring \<Rightarrow>
     (auth_error, server_hello_modifier) outcome" where
  "server_hello_modifier_new b64_standard b64_url_safe_no_pad private_key =
     bnd (reality_auth_new b64_standard b64_url_safe_no_pad private_key) (\<lambda>auth.
       Ret \<lparr>shm_auth = auth\<rparr>)"

definition modify_server_hello ::
  "(bytes \<Rightarrow> bytes \<Rightarrow> bytes) \<Rightarrow> server_hello_modifier \<Rightarrow> bytes \<Rightarrow> bytes \<Rightarrow> (auth_error, bytes) outcome" where
  "modify_server_hello hmac self server_hello_data client_random =
     bnd (guard (length server_hello_data < 38) ServerHelloTooShort) (\<lambda>_.
     bnd (idx server_hello_data 0) (\<lambda>ty.
     bnd (guard (ty \<noteq> 0x02) NotServerHello) (\<lambda>_.
     let random_offset = 6 in
     bnd (slice server_hello_data random_offset (random_offset + 32)) (\<lambda>r.
     bnd (copy_exact 32 r) (\<lambda>original_random.
     bnd (inject_auth_into_random hmac (shm_auth self) original_random client_random) (\<lambda>modified_random.
       splice server_hello_data random_offset (random_offset + 32) modified_random))))))"

section \<open>Operations of the TLS library\<close>

definition reality_config_new :: "bytes \<Rightarrow> reality_config" where
  "reality_config_new private_key =
     \<lparr>rc_private_key = private_key, rc_verify_client = True, rc_dest = None, rc_short_ids = []\<rparr>"

definition with_verify_client :: "reality_config \<Rightarrow> bool \<Rightarrow> reality_config" where
  "with_verify_client self verify = self \<lparr>rc_verify_client := verify\<rparr>"

definition with_dest :: "reality_config \<Rightarrow> rstring \<Rightarrow> reality_config" where
  "with_dest self dest = self \<lparr>rc_dest := Some dest\<rparr>"

definition with_short_ids :: "reality_config \<Rightarrow> bytes list \<Rightarrow> reality_config" where
  "with_short_ids self short_ids = self \<lparr>rc_short_ids := short_ids\<rparr>"

definition config_validate :: "reality_config \<Rightarrow> (rustls_error, unit) outcome" where
  "config_validate self = guard (length (rc_private_key self) \<noteq> 32)
     (General (lit ''Reality private key must be 32 bytes''))"

definition inject_auth ::
  "(bytes \<Rightarrow> bytes \<Rightarrow> bytes) \<Rightarrow> bytes \<Rightarrow> reality_config \<Rightarrow> bytes \<Rightarrow> (rustls_error, bytes) outcome" where
  "inject_auth hmac server_random config client_random =
     bnd (config_validate config) (\<lambda>_.
     bnd (slice server_random 0 20) (\<lambda>head.
     let tag = hmac (rc_private_key config) (head @ client_random) in
     bnd (slice tag 0 12) (\<lambda>t.
       splice server_random 20 32 t)))"

definition verify_client :: "bytes \<Rightarrow> bytes \<Rightarrow> reality_config \<Rightarrow> bool" where
  "verify_client session_id client_random config \<longleftrightarrow>
     length (rc_private_key config) = 32 \<and> length session_id = 32"

text \<open>What a client checks of the random it receives: the last twelve bytes are the tag of the
  first twenty under the shared key. This is the specification of the tag.\<close>

definition tag_valid :: "(bytes \<Rightarrow> bytes \<Rightarrow> bytes) \<Rightarrow> bytes \<Rightarrow> bytes \<Rightarrow> bytes \<Rightarrow> bool" where
  "tag_valid hmac key client_random r \<longleftrightarrow>
     length r = 32 \<and> drop 20 r = take 12 (hmac key (take 20 r @ client_random))"

definition tagged_random :: "(bytes \<Rightarrow> bytes \<Rightarrow> bytes) \<Rightarrow> bytes \<Rightarrow> bytes \<Rightarrow> bytes \<Rightarrow> bytes" where
  "tagged_random hmac key r client_random = take 20 r @ take 12 (hmac key (take 20 r @ client_random))"

text \<open>A function with the length of a tag, on which the theorems are evaluated.\<close>

definition sample_mac :: "bytes \<Rightarrow> bytes \<Rightarrow> bytes" where
  "sample_mac k m = take 32 (m @ k @ replicate 32 0)"

lemma length_sample_mac [simp]: "length (sample_mac k m) = 32"
  by (simp add: sample_mac_def)

section \<open>The tag\<close>

lemma inject_auth_into_random_eq:
  assumes "length r = 32" "\<And>k m. length (hmac k m) = 32"
  shows "inject_auth_into_random hmac self r cr = Ret (tagged_random hmac (private_key_bytes self) r cr)"
  using assms by (simp add: inject_auth_into_random_def generate_auth_tag_def slice_def splice_def
      copy_exact_def tagged_random_def)

lemma inject_auth_eq:
  assumes "length r = 32" "length (rc_private_key cfg) = 32" "\<And>k m. length (hmac k m) = 32"
  shows "inject_auth hmac r cfg cr = Ret (tagged_random hmac (rc_private_key cfg) r cr)"
  using assms by (simp add: inject_auth_def config_validate_def slice_def splice_def
      tagged_random_def Let_def)

lemma length_tagged_random:
  "length r = 32 \<Longrightarrow> length (hmac k (take 20 r @ cr)) = 32 \<Longrightarrow> length (tagged_random hmac k r cr) = 32"
  by (simp add: tagged_random_def)

lemma tagged_random_valid:
  assumes "length r = 32" "\<And>k m. length (hmac k m) = 32"
  shows "tag_valid hmac k cr (tagged_random hmac k r cr)"
  using assms by (simp add: tag_valid_def tagged_random_def)

lemma tag_valid_iff:
  assumes "length r = 32"
  shows "tag_valid hmac k cr r \<longleftrightarrow> tagged_random hmac k r cr = r"
  using assms by (metis append_take_drop_id append_eq_append_conv tag_valid_def tagged_random_def)

lemma modify_server_hello_eq:
  assumes "38 \<le> length d" "d ! 0 = 0x02" "\<And>k m. length (hmac k m) = 32"
  shows "modify_server_hello hmac self d cr =
    Ret (take 6 d @ tagged_random hmac (private_key_bytes (shm_auth self)) (take 32 (drop 6 d)) cr
         @ drop 38 d)"
  using assms by (auto simp: modify_server_hello_def idx_def slice_def copy_exact_def splice_def
      inject_auth_into_random_eq length_tagged_random)

lemma modify_server_hello_no_panic:
  assumes "\<And>k m. length (hmac k m) = 32"
  shows "no_panic (modify_server_hello hmac self d cr)"
proof (cases "38 \<le> length d \<and> d ! 0 = 0x02")
  case True
  then show ?thesis using assms by (simp add: modify_server_hello_eq)
next
  case False
  then show ?thesis
    by (auto simp: modify_server_hello_def idx_def intro!: no_panic_intros)
qed

lemma reality_auth_new_length:
  "reality_auth_new b1 b2 s = Ret a \<Longrightarrow> length (private_key_bytes a) = 32"
  by (auto simp: reality_auth_new_def bnd_Ret_iff split: option.splits)

section \<open>Correctness of the tag\<close>

text \<open>The two implementations of the tag agree: on a 32-byte random and a 32-byte key, the server's
  own injection and the one in the TLS library give the same random. It keeps the first
  twenty bytes, and it is a random on which the client's check of the tag succeeds; a random that
  already carries the tag is left as it is.\<close>

lemma auth_tag_injected:
  assumes "length r = 32" "length key = 32" "\<And>k m. length (hmac k m) = 32"
  shows "inject_auth hmac r ((reality_config_new key) \<lparr>rc_dest := dst, rc_short_ids := ids\<rparr>) cr =
      Ret (tagged_random hmac key r cr) \<and>
    inject_auth_into_random hmac \<lparr>private_key_bytes = key\<rparr> r cr =
      (Ret (tagged_random hmac key r cr) :: (rustls_error, bytes) outcome) \<and>
    take 20 (tagged_random hmac key r cr) = take 20 r \<and>
    tag_valid hmac key cr (tagged_random hmac key r cr) \<and>
    (tag_valid hmac key cr r \<longleftrightarrow> tagged_random hmac key r cr = r)"
proof -
  have "take 20 (tagged_random hmac key r cr) = take 20 r"
    using assms(1) by (simp add: tagged_random_def)
  then show ?thesis
    using tagged_random_valid [OF assms(1,3)] tag_valid_iff [OF assms(1)] assms
    by (simp add: inject_auth_eq inject_auth_into_random_eq reality_config_new_def)
qed

text \<open>Rewriting a ServerHello in place never panics, fails exactly on a message that is too short
  or of another type, and otherwise changes nothing but the twelve bytes from offset 26 on, which
  become the tag; the length of the message stays.\<close>

lemma server_hello_tagged_in_place:
  assumes "\<And>k m. length (hmac k m) = 32"
  shows "modify_server_hello hmac self d cr \<noteq> Panic \<and>
    (modify_server_hello hmac self d cr = Err ServerHelloTooShort \<longleftrightarrow> length d < 38) \<and>
    (modify_server_hello hmac self d cr = Err NotServerHello \<longleftrightarrow> 38 \<le> length d \<and> hd d \<noteq> 0x02) \<and>
    (38 \<le> length d \<and> hd d = 0x02 \<longrightarrow>
      (\<exists>d'. modify_server_hello hmac self d cr = Ret d' \<and> length d' = length d
        \<and> take 26 d' = take 26 d \<and> drop 38 d' = drop 38 d
        \<and> tag_valid hmac (private_key_bytes (shm_auth self)) cr (take 32 (drop 6 d'))))"
proof (cases "38 \<le> length d \<and> hd d = 0x02")
  case True
  then have d: "38 \<le> length d" "d ! 0 = 0x02"
    by (cases d; simp)+
  let ?r = "take 32 (drop 6 d)"
  let ?t = "tagged_random hmac (private_key_bytes (shm_auth self)) ?r cr"
  have r: "length ?r = 32" using d by simp
  have t: "length ?t = 32"
    using r assms by (rule length_tagged_random)
  have "take 20 ?t = take 20 (drop 6 d)"
    using d by (simp add: tagged_random_def min_def)
  then have "take 26 (take 6 d @ ?t @ drop 38 d) = take 26 d"
    using d t take_add [of 6 20 d] by simp
  then show ?thesis
    using modify_server_hello_eq [OF d, of hmac self cr] assms d t tagged_random_valid [OF r assms] True
    by (auto simp: min_def)
next
  case False
  then have "d ! 0 = hd d \<or> length d < 38" by (cases d) auto
  then show ?thesis
    using False modify_server_hello_no_panic [of hmac self d cr] assms
    by (auto simp: modify_server_hello_def idx_def guard_def)
qed

end
