(* ===== verification/Tls_Records.thy ===== *)
theory Tls_Records
  imports Tls_Wire Framing Reality_Auth
begin

text \<open>
  The TLS messages of the hand-written Reality handshake (\<open>src/transport/reality/tls.rs\<close>): records,
  the ClientHello with its extensions, and the ServerHello the server builds. The ClientHello parser
  reads through a \<open>Cursor\<close> without checking what remains; each such read is a possible \<open>Panic\<close>.
\<close>

section \<open>Data\<close>

datatype content_type = ChangeCipherSpec | Alert | Handshake | ApplicationData

datatype handshake_type =
    ClientHello | ServerHello | NewSessionTicket | Certificate | ServerKeyExchange
  | CertificateRequest | ServerHelloDone | CertificateVerify | ClientKeyExchange | Finished

datatype tls_error = UnknownContentType u8 | UnknownHandshakeType u8 | NotClientHello

record tls_record =
  tr_content_type :: content_type
  tr_version :: u16
  tr_payload :: bytes

record extension =
  extension_type :: u16
  ext_data :: bytes

record client_hello =
  ch_version :: u16
  ch_random :: bytes
  ch_session_id :: bytes
  ch_cipher_suites :: "u16 list"
  ch_compression_methods :: bytes
  ch_extensions :: "extension list"
  ch_raw_data :: bytes

record server_hello =
  sh_raw_data :: bytes

section \<open>Content and handshake types\<close>

fun content_type_as_u8 :: "content_type \<Rightarrow> u8" where
  "content_type_as_u8 ChangeCipherSpec = 20"
| "content_type_as_u8 Alert = 21"
| "content_type_as_u8 Handshake = 22"
| "content_type_as_u8 ApplicationData = 23"

definition content_type_from_u8 :: "u8 \<Rightarrow> (tls_error, content_type) outcome" where
  "content_type_from_u8 v =
     (if v = 20 then Ret ChangeCipherSpec else if v = 21 then Ret Alert
      else if v = 22 then Ret Handshake else if v = 23 then Ret ApplicationData
      else Err (UnknownContentType v))"

fun handshake_type_as_u8 :: "handshake_type \<Rightarrow> u8" where
  "handshake_type_as_u8 ClientHello = 1"
| "handshake_type_as_u8 ServerHello = 2"
| "handshake_type_as_u8 NewSessionTicket = 4"
| "handshake_type_as_u8 Certificate = 11"
| "handshake_type_as_u8 ServerKeyExchange = 12"
| "handshake_type_as_u8 CertificateRequest = 13"
| "handshake_type_as_u8 ServerHelloDone = 14"
| "handshake_type_as_u8 CertificateVerify = 15"
| "handshake_type_as_u8 ClientKeyExchange = 16"
| "handshake_type_as_u8 Finished = 20"

definition handshake_type_from_u8 :: "u8 \<Rightarrow> (tls_error, handshake_type) outcome" where
  "handshake_type_from_u8 v =
     (if v = 1 then Ret ClientHello else if v = 2 then Ret ServerHello
      else if v = 4 then Ret NewSessionTicket else if v = 11 then Ret Certificate
      else if v = 12 then Ret ServerKeyExchange else if v = 13 then Ret CertificateRequest
      else if v = 14 then Ret ServerHelloDone else if v = 15 then Ret CertificateVerify
      else if v = 16 then Ret ClientKeyExchange else if v = 20 then Ret Finished
      else Err (UnknownHandshakeType v))"

section \<open>Records\<close>

text \<open>The result carries the buffer as the call leaves it; an error leaves it untouched.\<close>

definition tls_record_parse :: "bytes \<Rightarrow> (tls_error, tls_record option \<times> bytes) outcome" where
  "tls_record_parse buf =
     (if length buf < 5 then Ret (None, buf)
      else
        bnd (idx buf 0) (\<lambda>b0.
        bnd (content_type_from_u8 b0) (\<lambda>content_type.
        bnd (idx_be16 buf 1) (\<lambda>version.
        bnd (idx_be16 buf 3) (\<lambda>l.
        let len = unat l in
        if length buf < 5 + len then Ret (None, buf)
        else
          bnd (advance 5 buf) (\<lambda>buf'.
          bnd (get_n len buf') (\<lambda>(payload, buf'').
            Ret (Some \<lparr>tr_content_type = content_type, tr_version = version, tr_payload = payload\<rparr>, buf''))))))))"

definition tls_record_encode :: "tls_record \<Rightarrow> bytes" where
  "tls_record_encode r = content_type_as_u8 (tr_content_type r) # u16_be (tr_version r)
     @ u16_be (word_of_nat (length (tr_payload r))) @ tr_payload r"

section \<open>Extensions\<close>

function ext_parse_loop :: "bytes \<Rightarrow> nat \<Rightarrow> (tls_error, extension list) outcome" where
  "ext_parse_loop data pos =
     (if pos < length data then
        bnd (cur_u16 data pos) (\<lambda>(ty, pos1).
        bnd (cur_u16 data pos1) (\<lambda>(len, pos2).
        bnd (cur_read data pos2 (unat len)) (\<lambda>(d, pos3).
        bnd (ext_parse_loop data pos3) (\<lambda>exts.
          Ret (\<lparr>extension_type = ty, ext_data = d\<rparr> # exts)))))
      else Ret [])"
  by pat_completeness auto
termination
  by (relation "measure (\<lambda>(data, pos). length data - pos)")
    (auto simp: cur_u16_def cur_read_def split: if_splits)

declare ext_parse_loop.simps [simp del]

definition ext_parse_all :: "bytes \<Rightarrow> (tls_error, extension list) outcome" where
  "ext_parse_all data = ext_parse_loop data 0"

definition parse_sni :: "bytes \<Rightarrow> ('e, rstring option) outcome" where
  "parse_sni data =
     (if length data < 5 then Ret None
      else
        bnd (idx_be16 data 3) (\<lambda>l.
          let name_length = unat l in
          if length data < 5 + name_length then Ret None
          else bnd (slice data 5 (5 + name_length)) (\<lambda>s. Ret (from_utf8 s))))"

function key_share_loop :: "bytes \<Rightarrow> nat \<Rightarrow> (tls_error, bytes option) outcome" where
  "key_share_loop data pos =
     (if pos < length data then
        if length data - pos < 2 then Ret None
        else
          bnd (cur_u16 data pos) (\<lambda>(group, pos1).
          if length data - pos1 < 2 then Ret None
          else
            bnd (cur_u16 data pos1) (\<lambda>(l, pos2).
            let len = unat l in
            if length data - pos2 < len then Ret None
            else if group = 0x001d then bnd (cur_read data pos2 len) (\<lambda>(key, _). Ret (Some key))
            else key_share_loop data (pos2 + len)))
      else Ret None)"
  by pat_completeness auto
termination
  by (relation "measure (\<lambda>(data, pos). length data - pos)") (auto simp: cur_u16_def split: if_splits)

declare key_share_loop.simps [simp del]

definition parse_client_key_share :: "bytes \<Rightarrow> (tls_error, bytes option) outcome" where
  "parse_client_key_share data = (if length data < 2 then Ret None else key_share_loop data 2)"

section \<open>ClientHello\<close>

fun read_suites :: "bytes \<Rightarrow> nat \<Rightarrow> nat \<Rightarrow> (tls_error, u16 list \<times> nat) outcome" where
  "read_suites data pos 0 = Ret ([], pos)"
| "read_suites data pos (Suc n) =
     bnd (cur_u16 data pos) (\<lambda>(suite, pos1).
     bnd (read_suites data pos1 n) (\<lambda>(suites, pos2). Ret (suite # suites, pos2)))"

definition client_hello_parse :: "bytes \<Rightarrow> (tls_error, client_hello) outcome" where
  "client_hello_parse data =
     bnd (idx data 0) (\<lambda>handshake_type.
     bnd (guard (handshake_type \<noteq> handshake_type_as_u8 ClientHello) NotClientHello) (\<lambda>_.
     let pos = 4 in
     bnd (cur_u16 data pos) (\<lambda>(version, pos).
     bnd (cur_read data pos 32) (\<lambda>(random, pos).
     bnd (idx data pos) (\<lambda>session_id_len.
     bnd (cur_read data (pos + 1) (unat session_id_len)) (\<lambda>(session_id, pos).
     bnd (cur_u16 data pos) (\<lambda>(cipher_suites_len, pos).
     bnd (read_suites data pos (unat cipher_suites_len div 2)) (\<lambda>(cipher_suites, pos).
     bnd (idx data pos) (\<lambda>compression_methods_len.
     bnd (cur_read data (pos + 1) (unat compression_methods_len)) (\<lambda>(compression_methods, pos).
     bnd (if pos < length data then
            bnd (cur_u16 data pos) (\<lambda>(extensions_len, start).
            bnd (slice data start (start + unat extensions_len)) (\<lambda>extensions_data.
              ext_parse_all extensions_data))
          else Ret []) (\<lambda>extensions.
       Ret \<lparr>ch_version = version, ch_random = random, ch_session_id = session_id,
            ch_cipher_suites = cipher_suites, ch_compression_methods = compression_methods,
            ch_extensions = extensions, ch_raw_data = data\<rparr>)))))))))))"

definition get_sni :: "client_hello \<Rightarrow> ('e, rstring option) outcome" where
  "get_sni self = (case find (\<lambda>ext. extension_type ext = 0) (ch_extensions self) of
     Some ext \<Rightarrow> parse_sni (ext_data ext) | None \<Rightarrow> Ret None)"

definition get_reality_short_id :: "client_hello \<Rightarrow> ('e, bytes option) outcome" where
  "get_reality_short_id self =
     (if length (ch_session_id self) \<ge> 8 then bnd (slice (ch_session_id self) 0 8) (\<lambda>s. Ret (Some s))
      else Ret None)"

definition get_random :: "client_hello \<Rightarrow> bytes" where
  "get_random self = ch_random self"

definition get_key_share :: "client_hello \<Rightarrow> (tls_error, bytes option) outcome" where
  "get_key_share self = (case find (\<lambda>ext. extension_type ext = 0x0033) (ch_extensions self) of
     Some ext \<Rightarrow> parse_client_key_share (ext_data ext) | None \<Rightarrow> Ret None)"

section \<open>ServerHello\<close>

definition server_hello_from_raw :: "bytes \<Rightarrow> server_hello" where
  "server_hello_from_raw data = \<lparr>sh_raw_data = data\<rparr>"

definition modify_for_reality ::
  "(rstring \<Rightarrow> bytes option) \<Rightarrow> (rstring \<Rightarrow> bytes option) \<Rightarrow> (bytes \<Rightarrow> bytes \<Rightarrow> bytes) \<Rightarrow>
     server_hello \<Rightarrow> rstring \<Rightarrow> bytes \<Rightarrow> (auth_error, server_hello) outcome" where
  "modify_for_reality b64_standard b64_url_safe_no_pad hmac self private_key client_random =
     bnd (server_hello_modifier_new b64_standard b64_url_safe_no_pad private_key) (\<lambda>modifier.
     bnd (modify_server_hello hmac modifier (sh_raw_data self) client_random) (\<lambda>raw.
       Ret (self \<lparr>sh_raw_data := raw\<rparr>)))"

definition new_reality :: "bytes \<Rightarrow> bytes \<Rightarrow> bytes \<Rightarrow> server_hello" where
  "new_reality client_session_id random key_share_data =
     (let extensions_block =
            u16_be 0x002b @ u16_be 2 @ u16_be 0x0304
            @ u16_be 0x0033 @ u16_be (word_of_nat (4 + length key_share_data)) @ u16_be 0x001d
            @ u16_be (word_of_nat (length key_share_data)) @ key_share_data;
          payload =
            [handshake_type_as_u8 ServerHello, 0, 0, 0] @ u16_be 0x0303 @ random
            @ [word_of_nat (length client_session_id)] @ client_session_id
            @ u16_be 0x1301 @ [0]
            @ u16_be (word_of_nat (length extensions_block)) @ extensions_block;
          len_bytes = u32_be (word_of_nat (length payload - 4))
      in \<lparr>sh_raw_data = payload[1 := len_bytes ! 1, 2 := len_bytes ! 2, 3 := len_bytes ! 3]\<rparr>)"

definition server_hello_encode :: "server_hello \<Rightarrow> bytes" where
  "server_hello_encode self = content_type_as_u8 Handshake # u16_be 0x0303
     @ u16_be (word_of_nat (length (sh_raw_data self))) @ sh_raw_data self"

definition handshake_payload :: "server_hello \<Rightarrow> bytes" where
  "handshake_payload self = sh_raw_data self"

text \<open>Specification vocabulary: the record parser as an incremental parser without state, the
  records that fit the length field, and an extension as the reference encoder has it.\<close>

definition record_step :: "(unit, tls_error, tls_record) step_parser" where
  "record_step s buf = bnd (tls_record_parse buf) (\<lambda>(r, rest). Ret (map_option (\<lambda>r. (r, s, rest)) r))"

definition wf_record :: "tls_record \<Rightarrow> bool" where
  "wf_record r \<longleftrightarrow> length (tr_payload r) < 65536"

definition to_ext :: "u16 \<times> bytes \<Rightarrow> extension" where
  "to_ext e = \<lparr>extension_type = fst e, ext_data = snd e\<rparr>"

definition enc_server_hello :: "bytes \<Rightarrow> bytes \<Rightarrow> bytes \<Rightarrow> bytes" where
  "enc_server_hello sid random key =
     (let body = u16_be 0x0303 @ random @ word_of_nat (length sid) # sid @ u16_be 0x1301 @ [0]
        @ ks_data [(0x002b, u16_be 0x0304), (0x0033, enc_ext (0x001d, key))]
      in 2 # u24_be (length body) @ body)"

text \<open>The cipher suites of a list of bytes, in pairs.\<close>

definition suites_of :: "bytes \<Rightarrow> u16 list" where
  "suites_of cs = map (\<lambda>i. be16 (cs ! (2 * i)) (cs ! (2 * i + 1))) [0..<length cs div 2]"

section \<open>Records on the wire\<close>

lemma content_type_roundtrip [simp]: "content_type_from_u8 (content_type_as_u8 t) = Ret t"
  by (cases t) (simp_all add: content_type_from_u8_def)

lemma content_type_from_u8_Ret: "content_type_from_u8 v = Ret t \<longleftrightarrow> v = content_type_as_u8 t"
  by (cases t) (auto simp: content_type_from_u8_def)

lemma handshake_type_roundtrip [simp]: "handshake_type_from_u8 (handshake_type_as_u8 t) = Ret t"
  by (cases t) (simp_all add: handshake_type_from_u8_def)

lemma content_type_no_panic [no_panic_intros]: "no_panic (content_type_from_u8 v)"
  by (simp add: content_type_from_u8_def)

lemma tls_record_no_panic: "no_panic (tls_record_parse buf)"
  unfolding tls_record_parse_def Let_def
  by (auto simp: advance_def intro!: no_panic_intros)

lemma tls_record_roundtrip:
  "wf_record r \<Longrightarrow> tls_record_parse (tls_record_encode r @ rest) = Ret (Some r, rest)"
  by (cases r) (simp add: wf_record_def tls_record_parse_def tls_record_encode_def
      idx_be16_def u16_be_def advance_def get_n_def Let_def)

lemma tls_record_parse_Some:
  "tls_record_parse buf = Ret (Some r, rest) \<longleftrightarrow> wf_record r \<and> buf = tls_record_encode r @ rest"
proof
  assume a: "tls_record_parse buf = Ret (Some r, rest)"
  then have "5 \<le> length buf" by (simp add: tls_record_parse_def split: if_splits)
  then obtain b0 b1 b2 b3 b4 q where b: "buf = b0 # b1 # b2 # b3 # b4 # q"
    using five_bytes by blast
  show "wf_record r \<and> buf = tls_record_encode r @ rest"
    using a unat_u16_less [of "be16 b3 b4"]
    by (auto simp: b tls_record_parse_def bnd_Ret_iff Let_def idx_be16_def advance_def get_n_def
        wf_record_def tls_record_encode_def content_type_from_u8_Ret min_def split: if_splits)
qed (simp add: tls_record_roundtrip)

lemma tls_record_parse_None: "tls_record_parse buf = Ret (None, rest) \<Longrightarrow> rest = buf"
  by (auto simp: tls_record_parse_def bnd_Ret_iff Let_def split: if_splits)

lemma tls_record_parse_err:
  "tls_record_parse buf = Err e \<longleftrightarrow> 5 \<le> length buf \<and> content_type_from_u8 (buf ! 0) = Err e"
  by (auto simp: tls_record_parse_def bnd_Err_iff Let_def idx_def idx_be16_def advance_def get_n_def
      not_less)

lemma record_step_Some: "record_step s buf = Ret (Some (r, s', rest)) \<longleftrightarrow>
    wf_record r \<and> buf = tls_record_encode r @ rest"
  by (auto simp: record_step_def bnd_Ret_iff tls_record_parse_Some)

lemma record_step_Err: "record_step s buf = Err e \<longleftrightarrow>
    5 \<le> length buf \<and> content_type_from_u8 (buf ! 0) = Err e"
  by (auto simp: record_step_def bnd_Err_iff tls_record_parse_err)

interpretation record_stream: incremental record_step
proof unfold_locales
  show "record_step s buf \<noteq> Panic" for s buf
    using tls_record_no_panic [of buf] by (auto simp: record_step_def no_panic_def bnd_Panic_iff)
  show "record_step s buf = Err e \<Longrightarrow> record_step s (buf @ extra) = Err e" for s buf e extra
    by (auto simp: record_step_Err nth_append)
  show "record_step s [] = Ret None" for s
    by (simp add: record_step_def tls_record_parse_def)
qed (auto simp: record_step_Some tls_record_encode_def)

interpretation record_wire: wire_format wf_record tls_record_encode
  "\<lambda>buf. bnd (tls_record_parse buf) (\<lambda>(r, rest). bnd (ok_or (UnknownContentType 0) r) (\<lambda>r. Ret (r, rest)))"
  by unfold_locales (simp add: tls_record_roundtrip)

section \<open>Extensions and the ClientHello\<close>

lemma ext_parse_loop_shift:
  "i \<le> length data \<Longrightarrow> ext_parse_loop data (i + p) = ext_parse_loop (drop i data) p"
proof (induction "drop i data" p rule: ext_parse_loop.induct)
  case (1 p)
  then show ?case
    by (subst (1 2) ext_parse_loop.simps)
      (auto simp: cur_u16_shift cur_read_shift bnd_assoc case_prod_beta intro!: bnd_cong [OF refl])
qed

lemma ext_parse_loop_step:
  assumes "wf_ext e"
  shows "ext_parse_loop (enc_ext e @ rest) 0 = bnd (ext_parse_loop rest 0) (\<lambda>xs. Ret (to_ext e # xs))"
proof -
  let ?d = "enc_ext e @ rest"
  have d: "?d = u16_be (fst e) @ u16_be (word_of_nat (length (snd e))) @ snd e @ rest"
    by (simp add: enc_ext_def)
  have l: "unat (word_of_nat (length (snd e)) :: u16) = length (snd e)"
    using assms by (simp add: wf_ext_def)
  have c: "cur_u16 ?d 0 = Ret (fst e, 2)" "cur_u16 ?d 2 = Ret (word_of_nat (length (snd e)), 4)"
    "cur_read ?d 4 (length (snd e)) = Ret (snd e, 4 + length (snd e))"
    unfolding d by (simp_all add: cur_u16_def cur_read_def u16_be_def nth_append)
  have "ext_parse_loop ?d (4 + length (snd e)) = ext_parse_loop rest 0"
    using ext_parse_loop_shift [of "4 + length (snd e)" ?d 0] by simp
  then show ?thesis
    by (subst ext_parse_loop.simps) (simp add: c l to_ext_def)
qed

lemma ext_parse_all_enc:
  "list_all wf_ext es \<Longrightarrow> ext_parse_all (enc_exts es) = Ret (map to_ext es)"
proof (induction es)
  case Nil
  then show ?case by (simp add: ext_parse_all_def ext_parse_loop.simps)
qed (simp_all add: ext_parse_all_def ext_parse_loop_step)

lemma read_suites_ok:
  "2 * n \<le> length data - pos \<Longrightarrow>
    read_suites data pos n = Ret (map (\<lambda>i. be16 (data ! (pos + 2 * i)) (data ! (pos + 2 * i + 1))) [0..<n], pos + 2 * n)"
proof (induction n arbitrary: pos)
  case (Suc n)
  have "read_suites data (pos + 2) n =
      Ret (map (\<lambda>i. be16 (data ! (pos + 2 + 2 * i)) (data ! (pos + 2 + 2 * i + 1))) [0..<n], pos + 2 + 2 * n)"
    using Suc by simp
  then show ?case
    using Suc.prems by (simp add: cur_u16_def map_upt_Suc del: upt_Suc)
qed simp

lemma read_suites_append:
  assumes "pos = length p" "even (length cs)"
  shows "read_suites (p @ cs @ r) pos (length cs div 2) = Ret (suites_of cs, pos + length cs)"
proof -
  have "(p @ cs @ r) ! (pos + 2 * i) = cs ! (2 * i)" "(p @ cs @ r) ! (pos + 2 * i + 1) = cs ! (2 * i + 1)"
    if "i < length cs div 2" for i
    using that assms by (auto simp: nth_append)
  then show ?thesis
    using assms by (subst read_suites_ok) (auto simp: suites_of_def)
qed

lemma client_hello_parse_msg:
  assumes "wf_hello h" "even (length (h_ciphers h))"
  shows "client_hello_parse (enc_hello_msg h) =
    Ret \<lparr>ch_version = be16 (h_version h ! 0) (h_version h ! 1), ch_random = h_random h,
         ch_session_id = h_session h, ch_cipher_suites = suites_of (h_ciphers h),
         ch_compression_methods = h_compression h, ch_extensions = map to_ext (h_exts h),
         ch_raw_data = enc_hello_msg h\<rparr>"
proof -
  let ?s = "h_session h" and ?c = "h_ciphers h" and ?m = "h_compression h"
  let ?x = "enc_exts (h_exts h)" and ?r = "h_random h"
  let ?ls = "word_of_nat (length ?s)" and ?lc = "u16_be (word_of_nat (length ?c))"
    and ?lm = "word_of_nat (length ?m)" and ?lx = "u16_be (word_of_nat (length ?x))"
  let ?p1 = "38 + 1 + length ?s" let ?p2 = "?p1 + 2 + length ?c" let ?p3 = "?p2 + 1 + length ?m"
  obtain v0 v1 where v: "h_version h = [v0, v1]"
    using assms(1) by (auto simp: wf_hello_def numeral_2_eq_2 length_Suc_conv)
  have wf: "unat (?ls :: u8) = length ?s" "unat (word_of_nat (length ?c) :: u16) = length ?c"
    "unat (?lm :: u8) = length ?m" "unat (word_of_nat (length ?x) :: u16) = length ?x"
    "length ?r = 32" "list_all wf_ext (h_exts h)"
    using assms(1) by (simp_all add: wf_hello_def)
  define pre where "pre = 0x01 # u24_be (length (enc_hello_body h))"
  have lp: "length pre = 4" by (simp add: pre_def)
  define d where "d = pre @ [v0, v1] @ ?r @ ?ls # ?s @ ?lc @ ?c @ ?lm # ?m @ ?lx @ ?x"
  have d: "enc_hello_msg h = d"
    by (simp add: d_def pre_def enc_hello_msg_def enc_hello_body_def enc_hello_tail_def v)
  have i0: "idx d 0 = Ret 0x01" "cur_u16 d 4 = Ret (be16 v0 v1, 6)"
    by (simp_all add: d_def pre_def idx_def cur_u16_def u24_be_def)
  have i1: "cur_read d 6 32 = Ret (?r, 38)"
    using cur_read_append [of 6 "pre @ [v0, v1]" 32 ?r] lp wf(5) by (simp add: d_def)
  have i2: "idx d 38 = Ret ?ls"
    using idx_append' [of 38 "pre @ [v0, v1] @ ?r"] lp wf(5) by (simp add: d_def)
  have i3: "cur_read d (38 + 1) (length ?s) = Ret (?s, ?p1)"
    using cur_read_append [of "38 + 1" "pre @ [v0, v1] @ ?r @ [?ls]" "length ?s" ?s] lp wf(5)
    by (simp add: d_def)
  have i4: "cur_u16 d ?p1 = Ret (word_of_nat (length ?c), ?p1 + 2)"
    using cur_u16_append [of ?p1 "pre @ [v0, v1] @ ?r @ ?ls # ?s"] lp wf(5) by (simp add: d_def)
  have i5: "read_suites d (?p1 + 2) (length ?c div 2) = Ret (suites_of ?c, ?p2)"
    using read_suites_append [of "?p1 + 2" "pre @ [v0, v1] @ ?r @ ?ls # ?s @ ?lc" ?c] assms(2) lp wf(5)
    by (simp add: d_def)
  have i6: "idx d ?p2 = Ret ?lm"
    using idx_append' [of ?p2 "pre @ [v0, v1] @ ?r @ ?ls # ?s @ ?lc @ ?c"] lp wf(5) by (simp add: d_def)
  have i7: "cur_read d (?p2 + 1) (length ?m) = Ret (?m, ?p3)"
    using cur_read_append [of "?p2 + 1" "pre @ [v0, v1] @ ?r @ ?ls # ?s @ ?lc @ ?c @ [?lm]" "length ?m" ?m]
      lp wf(5) by (simp add: d_def)
  have i8: "cur_u16 d ?p3 = Ret (word_of_nat (length ?x), ?p3 + 2)"
    using cur_u16_append [of ?p3 "pre @ [v0, v1] @ ?r @ ?ls # ?s @ ?lc @ ?c @ ?lm # ?m"] lp wf(5)
    by (simp add: d_def)
  have i9: "slice d (?p3 + 2) (?p3 + 2 + length ?x) = Ret ?x"
    using slice_append [of "pre @ [v0, v1] @ ?r @ ?ls # ?s @ ?lc @ ?c @ ?lm # ?m @ ?lx" ?x "[]"] lp wf(5)
    by (simp add: d_def)
  have "?p3 < length d"
    using lp wf(5) by (simp add: d_def)
  then show ?thesis
    unfolding d client_hello_parse_def Let_def
    by (simp only: i0 i1 i2 i3 i4 i5 i6 i7 i8 i9 bnd.simps wf handshake_type_as_u8.simps prod.case
        guard_simps if_True ext_parse_all_enc simp_thms, simp add: v)
qed

section \<open>The ServerHello\<close>

lemma ucast_drop_bit_u32: "(ucast (drop_bit k (w :: u32)) :: u8) = word_of_nat (unat w div 2 ^ k)"
proof -
  have "take_bit 32 (unat w) = unat w"
    using unsigned_less [of w, where ?'a = nat] by (simp add: take_bit_nat_eq_self_iff)
  then have "unat (drop_bit k w) = drop_bit k (unat w)"
    by (simp add: unsigned_drop_bit_eq)
  also have "\<dots> = unat w div 2 ^ k"
    by (simp add: drop_bit_eq_div)
  finally show ?thesis by (metis of_nat_unat)
qed

lemma u32_be_low:
  assumes "n < 16777216"
  shows "u32_be (word_of_nat n) = [0, word_of_nat (n div 65536), word_of_nat (n div 256), word_of_nat n]"
proof -
  have u: "unat (word_of_nat n :: u32) = n" using assms by simp
  have "(ucast (word_of_nat n :: u32) :: u8) = word_of_nat n"
    using ucast_drop_bit_u32 [of 0 "word_of_nat n"] u by simp
  then show ?thesis
    using assms by (simp add: u32_be_def ucast_drop_bit_u32 u del: of_nat_unat)
qed

lemma new_reality_layout:
  assumes "length r = 32" "length sid < 256" "length key < 65000"
  shows "sh_raw_data (new_reality sid r key) = enc_server_hello sid r key"
proof -
  let ?x = "u16_be 0x002b @ u16_be 2 @ u16_be 0x0304 @ u16_be 0x0033
      @ u16_be (word_of_nat (4 + length key)) @ u16_be 0x001d @ u16_be (word_of_nat (length key)) @ key"
  let ?body = "u16_be 0x0303 @ r @ [word_of_nat (length sid)] @ sid @ u16_be 0x1301 @ [0]
      @ u16_be (word_of_nat (length ?x)) @ ?x"
  have x: "enc_exts [(0x002b, u16_be 0x0304), (0x0033, enc_ext (0x001d, key))] = ?x"
    by (simp add: enc_ext_def)
  have n: "length ?body < 16777216"
    using assms by simp
  have "sh_raw_data (new_reality sid r key) = 2 # [u32_be (word_of_nat (length ?body)) ! 1,
      u32_be (word_of_nat (length ?body)) ! 2, u32_be (word_of_nat (length ?body)) ! 3] @ ?body"
    by (simp add: new_reality_def Let_def)
  also have "\<dots> = 2 # u24_be (length ?body) @ ?body"
    by (simp only: u32_be_low [OF n] u24_be_def) simp
  also have "\<dots> = enc_server_hello sid r key"
    by (simp only: enc_server_hello_def Let_def ks_data_def x) simp
  finally show ?thesis .
qed

lemma enc_server_hello_parts:
  assumes "length r = 32"
  shows "\<exists>p q. length p = 6 \<and> hd p = 2 \<and> (\<forall>r'. length r' = 32 \<longrightarrow> enc_server_hello sid r' key = p @ r' @ q)"
proof -
  let ?q = "word_of_nat (length sid) # sid @ u16_be 0x1301 @ [0]
      @ ks_data [(0x002b, u16_be 0x0304), (0x0033, enc_ext (0x001d, key))]"
  have "enc_server_hello sid r' key = (2 # u24_be (34 + length ?q) @ u16_be 0x0303) @ r' @ ?q"
    if "length r' = 32" for r'
    using that by (simp add: enc_server_hello_def Let_def)
  then show ?thesis
    by (intro exI [of _ "2 # u24_be (34 + length ?q) @ u16_be 0x0303"] exI [of _ ?q]) simp
qed

lemma new_reality_tagged:
  assumes "length r = 32" "length sid < 256" "length key < 65000" "\<And>k m. length (hmac k m) = 32"
  shows "sh_raw_data (new_reality sid r key) = enc_server_hello sid r key \<and>
    modify_server_hello hmac \<lparr>shm_auth = \<lparr>private_key_bytes = pk\<rparr>\<rparr>
        (handshake_payload (new_reality sid r key)) cr =
      Ret (handshake_payload (new_reality sid (tagged_random hmac pk r cr) key))"
proof -
  obtain p q where pq: "length p = 6" "hd p = 2"
    "\<And>r'. length r' = 32 \<Longrightarrow> enc_server_hello sid r' key = p @ r' @ q"
    using enc_server_hello_parts [OF assms(1)] by blast
  have t: "length (tagged_random hmac pk r cr) = 32"
    using assms(1,4) by (simp add: length_tagged_random)
  have "p ! 0 = 2" using pq(1,2) by (cases p) auto
  then show ?thesis
    using pq t assms
    by (simp add: handshake_payload_def new_reality_layout modify_server_hello_eq nth_append)
qed

lemma client_hello_session_length:
  "client_hello_parse data = Ret ch \<Longrightarrow> length (ch_session_id ch) < 256"
  by (auto simp: client_hello_parse_def bnd_Ret_iff Let_def cur_read_def split: if_splits)

section \<open>Correctness\<close>

text \<open>A stream of records survives any segmentation of the network: however the bytes of a
  sequence of records are cut into reads, parsing after each read returns exactly those records in
  order, with no error and no byte left over.\<close>

lemma record_stream_roundtrip:
  assumes "list_all wf_record rs" "concat chunks = concat (map tls_record_encode rs)"
  shows "foldl (feed record_step) ([], None, (), []) chunks = (rs, None, (), [])"
proof -
  have e: "enc_stream (\<lambda>_. tls_record_encode) (\<lambda>_ _. ()) () rs = concat (map tls_record_encode rs)"
    by (induction rs) simp_all
  have "ok_stream (\<lambda>_. wf_record) (\<lambda>_ _. ()) () rs"
    using assms(1) by (induction rs) simp_all
  then have "drain_all record_step () (enc_stream (\<lambda>_. tls_record_encode) (\<lambda>_ _. ()) () rs @ []) =
      (let (ys, q) = drain_all record_step (foldl (\<lambda>_ _. ()) () rs) [] in (rs @ ys, q))"
    by (rule record_stream.drain_stream [rotated]) (simp add: record_step_def tls_record_roundtrip)
  moreover have "drain_all record_step () [] = ([], None, (), [])"
    by (simp add: drain_all_def record_step_def tls_record_parse_def)
  ultimately show ?thesis
    using record_stream.chunk_independent [of "()" chunks] by (simp add: e assms(2))
qed

text \<open>The hand-written ClientHello parser reads back every field of a well-formed ClientHello:
  version, random, session id, cipher suites, compression methods and the list of extensions, in
  order, and keeps the raw message.\<close>

lemma client_hello_fields:
  assumes "wf_hello h" "even (length (h_ciphers h))"
  shows "client_hello_parse (enc_hello_msg h) =
    Ret \<lparr>ch_version = be16 (h_version h ! 0) (h_version h ! 1), ch_random = h_random h,
         ch_session_id = h_session h, ch_cipher_suites = suites_of (h_ciphers h),
         ch_compression_methods = h_compression h, ch_extensions = map to_ext (h_exts h),
         ch_raw_data = enc_hello_msg h\<rparr>"
  using assms by (rule client_hello_parse_msg)


text \<open>The ServerHello the server builds has the layout of the protocol (type, the 24-bit length of
  what follows, legacy version, the random, the echoed session id, the cipher suite, no compression,
  and the supported-versions and key-share extensions with their lengths). Rewriting its random in
  place gives the message built with the authenticated random, so the two ways the code has to
  authenticate a ServerHello agree.\<close>

lemma server_hello_built:
  assumes "length r = 32" "length sid < 256" "length key < 65000" "\<And>k m. length (hmac k m) = 32"
  shows "sh_raw_data (new_reality sid r key) = enc_server_hello sid r key \<and>
    modify_server_hello hmac \<lparr>shm_auth = \<lparr>private_key_bytes = pk\<rparr>\<rparr>
        (handshake_payload (new_reality sid r key)) cr =
      Ret (handshake_payload (new_reality sid (tagged_random hmac pk r cr) key))"
  by (rule new_reality_tagged [OF assms])

end
