(* ===== verification/Io.thy ===== *)
theory Io
  imports Rust_Std
begin

text \<open>
  Byte sinks and HTTP/2 send streams as values. A sink collects what is written to it and, when
  \<open>sk_left\<close> is \<open>Some k\<close>, fails after \<open>k\<close> more writes: the peer is gone. A theorem that quantifies over
  the sink therefore covers a failure at every point. The same holds for the frames sent on an
  HTTP/2 stream.
\<close>

section \<open>Sinks\<close>

record sink =
  sk_data :: bytes
  sk_left :: "nat option"

definition use_up :: "nat option \<Rightarrow> nat option option" where
  "use_up n = (case n of None \<Rightarrow> Some None | Some 0 \<Rightarrow> None | Some (Suc k) \<Rightarrow> Some (Some k))"

definition write_all :: "sink \<Rightarrow> bytes \<Rightarrow> sink option" where
  "write_all s d = map_option (\<lambda>n. \<lparr>sk_data = sk_data s @ d, sk_left = n\<rparr>) (use_up (sk_left s))"

definition open_sink :: sink where
  "open_sink = \<lparr>sk_data = [], sk_left = None\<rparr>"

lemma use_up_None [simp]: "use_up None = Some None"
  by (simp add: use_up_def)

lemma write_all_open:
  "sk_left s = None \<Longrightarrow> write_all s d = Some \<lparr>sk_data = sk_data s @ d, sk_left = None\<rparr>"
  by (simp add: write_all_def)

lemma write_all_data: "write_all s d = Some s' \<Longrightarrow> sk_data s' = sk_data s @ d"
  by (auto simp: write_all_def)

section \<open>HTTP/2 send streams\<close>

type_synonym header = "rstring \<times> rstring"

datatype frame =
    Response nat "header list" bool
  | DataFrame bytes bool
  | Trailers "header list"

record h2_out =
  ho_frames :: "frame list"
  ho_left :: "nat option"

definition send_frame :: "h2_out \<Rightarrow> frame \<Rightarrow> h2_out option" where
  "send_frame out f = map_option (\<lambda>n. \<lparr>ho_frames = ho_frames out @ [f], ho_left = n\<rparr>) (use_up (ho_left out))"

fun frame_data :: "frame \<Rightarrow> bytes" where
  "frame_data (DataFrame d eos) = d"
| "frame_data _ = []"

definition sent_data :: "h2_out \<Rightarrow> bytes" where
  "sent_data out = concat (map frame_data (ho_frames out))"

lemma send_frame_open:
  "ho_left out = None \<Longrightarrow> send_frame out f = Some \<lparr>ho_frames = ho_frames out @ [f], ho_left = None\<rparr>"
  by (simp add: send_frame_def)

lemma send_frame_frames: "send_frame out f = Some out' \<Longrightarrow> ho_frames out' = ho_frames out @ [f]"
  by (auto simp: send_frame_def)

lemma sent_data_frame: "send_frame out f = Some out' \<Longrightarrow> sent_data out' = sent_data out @ frame_data f"
  by (auto simp: sent_data_def dest: send_frame_frames)

end
