(* ===== verification/Grpc.thy ===== *)
theory Grpc
  imports Framing Io
begin

text \<open>
  The gRPC message format, headers, status codes and trailers of the XHTTP transport
  (\<open>src/transport/xhttp/grpc.rs\<close>). A \<open>None\<close> of the decoder is \<open>Err ()\<close>.
\<close>

section \<open>Data\<close>

record grpc_message =
  gm_compressed :: bool
  gm_data :: bytes



record grpc_headers =
  gh_headers :: "header list"

datatype grpc_status =
    Ok | Cancelled | Unknown | InvalidArgument | DeadlineExceeded | NotFound | AlreadyExists
  | PermissionDenied | ResourceExhausted | FailedPrecondition | Aborted | OutOfRange
  | Unimplemented | Internal | Unavailable | DataLoss | Unauthenticated

record grpc_trailer =
  gt_status :: grpc_status
  gt_message :: "rstring option"

section \<open>Messages\<close>

definition grpc_new :: "bytes \<Rightarrow> grpc_message" where
  "grpc_new data = \<lparr>gm_compressed = False, gm_data = data\<rparr>"

definition grpc_encode :: "grpc_message \<Rightarrow> bytes" where
  "grpc_encode self =
     (if gm_compressed self then 1 else 0) # u32_be (word_of_nat (length (gm_data self))) @ gm_data self"

definition grpc_decode :: "bytes \<Rightarrow> (unit, grpc_message) outcome" where
  "grpc_decode data =
     bnd (guard (length data < 5) ()) (\<lambda>_.
     bnd (idx data 0) (\<lambda>flag.
     bnd (idx data 1) (\<lambda>b1. bnd (idx data 2) (\<lambda>b2. bnd (idx data 3) (\<lambda>b3. bnd (idx data 4) (\<lambda>b4.
     let len = unat (be32 b1 b2 b3 b4) in
     bnd (guard (length data < 5 + len) ()) (\<lambda>_.
     bnd (slice data 5 (5 + len)) (\<lambda>message_data.
       Ret \<lparr>gm_compressed = (flag \<noteq> 0), gm_data = message_data\<rparr>))))))))"

definition grpc_empty :: bytes where
  "grpc_empty = [0, 0, 0, 0, 0]"

section \<open>Headers, status and trailers\<close>

definition headers_new :: grpc_headers where
  "headers_new = \<lparr>gh_headers = []\<rparr>"

definition with_grpc_defaults :: "grpc_headers \<Rightarrow> grpc_headers" where
  "with_grpc_defaults self = self \<lparr>gh_headers := gh_headers self
     @ [(lit ''content-type'', lit ''application/grpc'')]
     @ [(lit ''grpc-encoding'', lit ''identity'')]
     @ [(lit ''grpc-accept-encoding'', lit ''gzip'')]\<rparr>"

definition add_header :: "grpc_headers \<Rightarrow> rstring \<Rightarrow> rstring \<Rightarrow> grpc_headers" where
  "add_header self key value = self \<lparr>gh_headers := gh_headers self @ [(key, value)]\<rparr>"

definition headers_build :: "grpc_headers \<Rightarrow> header list" where
  "headers_build self = gh_headers self"

fun status_code :: "grpc_status \<Rightarrow> nat" where
  "status_code Ok = 0"
| "status_code Cancelled = 1"
| "status_code Unknown = 2"
| "status_code InvalidArgument = 3"
| "status_code DeadlineExceeded = 4"
| "status_code NotFound = 5"
| "status_code AlreadyExists = 6"
| "status_code PermissionDenied = 7"
| "status_code ResourceExhausted = 8"
| "status_code FailedPrecondition = 9"
| "status_code Aborted = 10"
| "status_code OutOfRange = 11"
| "status_code Unimplemented = 12"
| "status_code Internal = 13"
| "status_code Unavailable = 14"
| "status_code DataLoss = 15"
| "status_code Unauthenticated = 16"

fun status_as_str :: "grpc_status \<Rightarrow> rstring" where
  "status_as_str Ok = lit ''0''"
| "status_as_str Cancelled = lit ''1''"
| "status_as_str Unknown = lit ''2''"
| "status_as_str InvalidArgument = lit ''3''"
| "status_as_str DeadlineExceeded = lit ''4''"
| "status_as_str NotFound = lit ''5''"
| "status_as_str AlreadyExists = lit ''6''"
| "status_as_str PermissionDenied = lit ''7''"
| "status_as_str ResourceExhausted = lit ''8''"
| "status_as_str FailedPrecondition = lit ''9''"
| "status_as_str Aborted = lit ''10''"
| "status_as_str OutOfRange = lit ''11''"
| "status_as_str Unimplemented = lit ''12''"
| "status_as_str Internal = lit ''13''"
| "status_as_str Unavailable = lit ''14''"
| "status_as_str DataLoss = lit ''15''"
| "status_as_str Unauthenticated = lit ''16''"

fun status_message :: "grpc_status \<Rightarrow> rstring" where
  "status_message Ok = lit ''OK''"
| "status_message Cancelled = lit ''Cancelled''"
| "status_message Unknown = lit ''Unknown''"
| "status_message InvalidArgument = lit ''Invalid argument''"
| "status_message DeadlineExceeded = lit ''Deadline exceeded''"
| "status_message NotFound = lit ''Not found''"
| "status_message AlreadyExists = lit ''Already exists''"
| "status_message PermissionDenied = lit ''Permission denied''"
| "status_message ResourceExhausted = lit ''Resource exhausted''"
| "status_message FailedPrecondition = lit ''Failed precondition''"
| "status_message Aborted = lit ''Aborted''"
| "status_message OutOfRange = lit ''Out of range''"
| "status_message Unimplemented = lit ''Unimplemented''"
| "status_message Internal = lit ''Internal error''"
| "status_message Unavailable = lit ''Unavailable''"
| "status_message DataLoss = lit ''Data loss''"
| "status_message Unauthenticated = lit ''Unauthenticated''"

definition trailer_ok :: grpc_trailer where
  "trailer_ok = \<lparr>gt_status = Ok, gt_message = None\<rparr>"

definition trailer_error :: "grpc_status \<Rightarrow> rstring \<Rightarrow> grpc_trailer" where
  "trailer_error status message = \<lparr>gt_status = status, gt_message = Some message\<rparr>"

definition trailer_build :: "grpc_trailer \<Rightarrow> header list" where
  "trailer_build self = [(lit ''grpc-status'', status_as_str (gt_status self))]
     @ (case gt_message self of Some msg \<Rightarrow> [(lit ''grpc-message'', msg)] | None \<Rightarrow> [])"

section \<open>The message format\<close>

lemma grpc_decode_no_panic: "no_panic (grpc_decode data)"
  unfolding grpc_decode_def Let_def by (auto intro!: no_panic_intros)

lemma grpc_decode_encode:
  assumes "length (gm_data m) < 4294967296"
  shows "grpc_decode (grpc_encode m @ rest) = Ret m"
  using assms by (cases m) (simp add: grpc_decode_def grpc_encode_def u32_be_def idx_def slice_def Let_def)

lemma grpc_decode_prefix:
  assumes "length (gm_data m) < 4294967296" "k < length (grpc_encode m)"
  shows "grpc_decode (take k (grpc_encode m)) = Err ()"
proof (cases "k < 5")
  case True
  then have "length (take k (grpc_encode m)) < 5" by simp
  then show ?thesis by (simp only: grpc_decode_def guard_simps bnd.simps)
next
  case False
  let ?d = "take k (grpc_encode m)"
  have "?d ! 1 = grpc_encode m ! 1" "?d ! 2 = grpc_encode m ! 2" "?d ! 3 = grpc_encode m ! 3"
    "?d ! 4 = grpc_encode m ! 4" "\<not> length ?d < 5"
    using False assms(2) by simp_all
  then show ?thesis
    using assms by (simp add: grpc_decode_def grpc_encode_def u32_be_def idx_def Let_def)
qed

lemma status_as_str_dec: "status_as_str s = dec_str (status_code s)"
  by (cases s) (simp_all add: dec_str.simps lit_def)

section \<open>Correctness\<close>

text \<open>The gRPC codec: a message that fits the 32-bit length decodes to itself whatever follows it,
  every proper prefix of its encoding is recognised as incomplete, and no input makes the decoder
  panic.\<close>

lemma grpc_roundtrip:
  assumes "length (gm_data m) < 4294967296"
  shows "grpc_decode (grpc_encode m @ rest) = Ret m \<and>
    (\<forall>k < length (grpc_encode m). grpc_decode (take k (grpc_encode m)) = Err ()) \<and>
    grpc_decode any \<noteq> Panic"
  using grpc_decode_encode [OF assms] grpc_decode_prefix [OF assms] grpc_decode_no_panic [of any]
  by (simp add: no_panic_def)

text \<open>The trailer announces the numeric code of its status in decimal, as gRPC requires, and no
  two statuses share a code.\<close>

lemma trailer_status:
  "hd (trailer_build t) = (lit ''grpc-status'', dec_str (status_code (gt_status t))) \<and>
   (status_as_str s = status_as_str s' \<longleftrightarrow> s = s')"
proof -
  have "status_code s = status_code s' \<longleftrightarrow> s = s'"
    by (cases s; cases s') simp_all
  moreover have "dec_str m = dec_str n \<longleftrightarrow> m = n" for m n
    by (metis dec_str_value)
  ultimately show ?thesis
    by (simp add: trailer_build_def status_as_str_dec)
qed

end
