(* ===== verification/Xhttp_Data.thy ===== *)
theory Xhttp_Data
  imports Grpc
begin

text \<open>
  The data path of the XHTTP transport (\<open>src/transport/xhttp/h2.rs\<close>, \<open>mod.rs\<close>, \<open>server.rs\<close>): the
  random padding of a response, the shredding of outgoing data into frames of random size, and the
  two tasks of a standalone request, which share the flag that says whether messages are framed as
  gRPC. The random number generator is library code: \<open>gen_range\<close> and \<open>fill\<close> are arguments, and the
  chunk sizes one call of the shredder draws are a list, whose length is the fuel of its loop.

  The tasks run concurrently; a run is a sequence of events, each handled by the task it belongs
  to, in any interleaving.
\<close>

section \<open>Configuration\<close>

datatype xhttp_mode = Auto | StreamUp | StreamDown | StreamOne

fun mode_as_str :: "xhttp_mode \<Rightarrow> rstring" where
  "mode_as_str Auto = lit ''auto''"
| "mode_as_str StreamUp = lit ''stream-up''"
| "mode_as_str StreamDown = lit ''stream-down''"
| "mode_as_str StreamOne = lit ''stream-one''"

record xhttp_config =
  xc_mode :: xhttp_mode
  xc_path :: rstring
  xc_host :: rstring

record h2_handler =
  hh_config :: xhttp_config
  hh_traffic_counter :: u64

record xhttp_server =
  xs_config :: xhttp_config
  xs_h2_handler :: h2_handler

datatype xhttp_error = EmptyPath

definition h2_handler_new :: "xhttp_config \<Rightarrow> h2_handler" where
  "h2_handler_new config = \<lparr>hh_config = config, hh_traffic_counter = 0\<rparr>"

definition xhttp_server_new :: "xhttp_config \<Rightarrow> (xhttp_error, xhttp_server) outcome" where
  "xhttp_server_new config =
     bnd (guard (xc_path config = []) EmptyPath) (\<lambda>_.
       Ret \<lparr>xs_config = config, xs_h2_handler = h2_handler_new config\<rparr>)"

definition server_mode :: "xhttp_server \<Rightarrow> xhttp_mode" where
  "server_mode self = xc_mode (xs_config self)"

definition server_path :: "xhttp_server \<Rightarrow> rstring" where
  "server_path self = xc_path (xs_config self)"

definition server_host :: "xhttp_server \<Rightarrow> rstring" where
  "server_host self = xc_host (xs_config self)"

section \<open>Padding\<close>

definition pad_byte :: "u8 \<Rightarrow> u8" where
  "pad_byte b0 =
     (let b = b0 mod 62 + 48; b = (if b > 57 then b + 7 else b) in if b > 90 then b + 6 else b)"

definition gen_adaptive_padding :: "(nat \<Rightarrow> nat \<Rightarrow> nat) \<Rightarrow> (nat \<Rightarrow> bytes) \<Rightarrow> u64 \<Rightarrow> rstring" where
  "gen_adaptive_padding gen_range fill traffic =
     (let (mn, mx) = (if traffic < 1048576 then (64, 512) else (16, 32));
          len = gen_range mn mx
      in map pad_byte (fill len))"

section \<open>Shredding\<close>

text \<open>The result is the source buffer, the stream and the counter as the call leaves them, and whether
  it returned \<open>Ok\<close>; \<open>None\<close> says that the list of draws was too short to finish.\<close>

fun send_split_data :: "nat list \<Rightarrow> bytes \<Rightarrow> h2_out \<Rightarrow> u64 \<Rightarrow> (bytes \<times> h2_out \<times> u64 \<times> bool) option" where
  "send_split_data [] src out counter = (if src = [] then Some (src, out, counter, True) else None)"
| "send_split_data (chunk_size # draws) src out counter =
     (if src = [] then Some (src, out, counter, True)
      else
        let split_len = min (length src) chunk_size;
            counter = counter + word_of_nat split_len;
            chunk = take split_len src; src = drop split_len src
        in case send_frame out (DataFrame chunk False) of
             None \<Rightarrow> Some (src, out, counter, False)
           | Some out \<Rightarrow> send_split_data draws src out counter)"

section \<open>Standalone requests\<close>

record standalone =
  st_grpc :: bool
  st_first_chunk :: bool
  st_leftover :: bytes
  st_client_write :: sink
  st_buf :: bytes
  st_send_stream :: h2_out
  st_counter :: u64
  st_up_done :: bool
  st_down_done :: bool

definition ok_headers :: "rstring \<Rightarrow> header list" where
  "ok_headers padding =
     [(lit ''content-type'', lit ''application/octet-stream''), (lit ''server'', lit ''nginx/1.26.0''),
      (lit ''cache-control'', lit ''no-store, no-cache, must-revalidate, proxy-revalidate, max-age=0''),
      (lit ''x-padding'', padding)]"

definition standalone_start :: "rstring \<Rightarrow> bool \<Rightarrow> u64 \<Rightarrow> sink \<Rightarrow> h2_out \<Rightarrow> standalone option" where
  "standalone_start padding is_grpc counter client_write respond =
     map_option (\<lambda>send_stream.
       \<lparr>st_grpc = is_grpc, st_first_chunk = True, st_leftover = [], st_client_write = client_write,
        st_buf = [], st_send_stream = send_stream, st_counter = counter, st_up_done = False,
        st_down_done = False\<rparr>)
       (send_frame respond (Response 200 (ok_headers padding) False))"

text \<open>The inner loop of the upstream task: the bytes left over, the flag, the sink, and whether every
  write succeeded.\<close>

function grpc_loop :: "bytes \<Rightarrow> bool \<Rightarrow> sink \<Rightarrow> bytes \<times> bool \<times> sink \<times> bool" where
  "grpc_loop leftover use_grpc client_write =
     (if length leftover \<ge> 5 then
        let msg_len = unat (be32 (leftover ! 1) (leftover ! 2) (leftover ! 3) (leftover ! 4)) in
        if msg_len > 65535 then
          (case write_all client_write leftover of
             None \<Rightarrow> (leftover, False, client_write, False)
           | Some w \<Rightarrow> ([], False, w, True))
        else if length leftover \<ge> 5 + msg_len then
          let rest = drop 5 leftover; data = take msg_len rest; leftover' = drop msg_len rest in
          (case write_all client_write data of
             None \<Rightarrow> (leftover', use_grpc, client_write, False)
           | Some w \<Rightarrow> grpc_loop leftover' use_grpc w)
        else (leftover, use_grpc, client_write, True)
      else (leftover, use_grpc, client_write, True))"
  by pat_completeness auto
termination
  by (relation "measure (\<lambda>(l, _). length l)") auto

declare grpc_loop.simps [simp del]

datatype body_event = BodyData bytes | BodyErr | BodyEnd

definition up_chunk :: "standalone \<Rightarrow> bytes \<Rightarrow> standalone" where
  "up_chunk st chunk =
     (let len = length chunk;
          st = st \<lparr>st_counter := st_counter st + word_of_nat len\<rparr>;
          st = (if st_first_chunk st \<and> st_grpc st then
                  let st = st \<lparr>st_first_chunk := False\<rparr> in
                  if len > 0 \<and> chunk ! 0 \<noteq> 0x00 \<and> chunk ! 0 \<noteq> 0x01 then st \<lparr>st_grpc := False\<rparr> else st
                else st)
      in if st_grpc st then
           (let (l, g, w, ok) = grpc_loop (st_leftover st @ chunk) True (st_client_write st)
            in st \<lparr>st_leftover := l, st_grpc := g, st_client_write := w, st_up_done := \<not> ok\<rparr>)
         else
           (case write_all (st_client_write st) chunk of
              None \<Rightarrow> st \<lparr>st_up_done := True\<rparr>
            | Some w \<Rightarrow> st \<lparr>st_client_write := w\<rparr>))"

fun up_step :: "standalone \<Rightarrow> body_event \<Rightarrow> standalone" where
  "up_step st (BodyData chunk) = (if st_up_done st then st else up_chunk st chunk)"
| "up_step st BodyErr = st \<lparr>st_up_done := True\<rparr>"
| "up_step st BodyEnd = st \<lparr>st_up_done := True\<rparr>"

text \<open>A read of the downstream task returns some bytes, none at the end of the stream, or an error.\<close>

datatype read_event = ReadData bytes | ReadErr

definition down_frame :: "bytes \<Rightarrow> nat \<Rightarrow> bytes" where
  "down_frame buf n = [0] @ u32_be (word_of_nat n) @ take n buf"

definition down_end :: "standalone \<Rightarrow> standalone" where
  "down_end st =
     (case send_frame (st_send_stream st)
             (if st_grpc st then Trailers [(lit ''grpc-status'', lit ''0'')] else DataFrame [] True) of
        None \<Rightarrow> st \<lparr>st_down_done := True\<rparr>
      | Some out \<Rightarrow> st \<lparr>st_send_stream := out, st_down_done := True\<rparr>)"

fun down_step :: "nat list \<Rightarrow> standalone \<Rightarrow> read_event \<Rightarrow> standalone option" where
  "down_step draws st ReadErr = Some (st \<lparr>st_down_done := True\<rparr>)"
| "down_step draws st (ReadData d) =
     (if st_down_done st then Some st
      else
        let n = length d; buf = st_buf st @ d in
        if n = 0 then Some (down_end st)
        else if st_grpc st then
          map_option (\<lambda>(_, out, c, ok). st \<lparr>st_buf := drop n buf, st_send_stream := out,
              st_counter := c, st_down_done := \<not> ok\<rparr>)
            (send_split_data draws (down_frame buf n) (st_send_stream st) (st_counter st))
        else
          map_option (\<lambda>(rest, out, c, ok). st \<lparr>st_buf := rest, st_send_stream := out,
              st_counter := c, st_down_done := \<not> ok\<rparr>)
            (send_split_data draws buf (st_send_stream st) (st_counter st)))"

datatype standalone_event = Up body_event | Down "nat list" read_event

fun standalone_step :: "standalone \<Rightarrow> standalone_event \<Rightarrow> standalone option" where
  "standalone_step st (Up ev) = Some (up_step st ev)"
| "standalone_step st (Down draws ev) = down_step draws st ev"

fun standalone_run :: "standalone \<Rightarrow> standalone_event list \<Rightarrow> standalone option" where
  "standalone_run st [] = Some st"
| "standalone_run st (ev # evs) =
     (case standalone_step st ev of None \<Rightarrow> None | Some st' \<Rightarrow> standalone_run st' evs)"

section \<open>Specification vocabulary\<close>

text \<open>What the shredder may draw, and enough draws for \<open>n\<close> bytes: every chunk but the last takes at
  least 8192 of them.\<close>

definition enough_draws :: "nat list \<Rightarrow> nat \<Rightarrow> bool" where
  "enough_draws draws n \<longleftrightarrow> list_all (\<lambda>d. 8192 \<le> d \<and> d < 16384) draws \<and> n \<le> 8192 * length draws"

definition shred_frame :: "frame \<Rightarrow> bool" where
  "shred_frame f \<longleftrightarrow> (case f of DataFrame d eos \<Rightarrow> d \<noteq> [] \<and> length d < 16384 \<and> \<not> eos | _ \<Rightarrow> False)"

text \<open>Removing the gRPC framing from a byte string: the payload, whether framing is still on, and the
  bytes of an incomplete message. A message longer than 65535 bytes turns framing off, and from its
  header on the bytes are payload.\<close>

function deframe :: "bytes \<Rightarrow> bytes \<times> bool \<times> bytes" where
  "deframe l =
     (if length l \<ge> 5 then
        let n = unat (be32 (l ! 1) (l ! 2) (l ! 3) (l ! 4)) in
        if n > 65535 then (l, False, [])
        else if length l \<ge> 5 + n then
          (let (d, g, r) = deframe (drop (5 + n) l) in (take n (drop 5 l) @ d, g, r))
        else ([], True, l)
      else ([], True, l))"
  by pat_completeness auto
termination
  by (relation "measure length") auto

declare deframe.simps [simp del]

definition grpc_like :: "bytes \<Rightarrow> bool" where
  "grpc_like bs \<longleftrightarrow> (case bs of b # _ \<Rightarrow> b = 0x00 \<or> b = 0x01 | [] \<Rightarrow> True)"

text \<open>The upstream half of a state, and the upstream events of a run.\<close>

definition up_part :: "standalone \<Rightarrow> bool \<times> bool \<times> bytes \<times> sink \<times> bool" where
  "up_part st = (st_grpc st, st_first_chunk st, st_leftover st, st_client_write st, st_up_done st)"

fun ups :: "standalone_event list \<Rightarrow> body_event list" where
  "ups [] = []"
| "ups (Up ev # evs) = ev # ups evs"
| "ups (Down draws ev # evs) = ups evs"

definition is_alnum :: "u8 \<Rightarrow> bool" where
  "is_alnum b \<longleftrightarrow> 48 \<le> b \<and> b \<le> 57 \<or> 65 \<le> b \<and> b \<le> 90 \<or> 97 \<le> b \<and> b \<le> 122"

section \<open>Padding is text\<close>

lemma pad_byte_alnum: "is_alnum (pad_byte b)"
proof -
  have "list_all (\<lambda>b. is_alnum (pad_byte b)) (map word_of_nat [0..<62])"
    by code_simp
  moreover have "unat b mod 62 < 62" by simp
  ultimately have "is_alnum (pad_byte (word_of_nat (unat b mod 62)))"
    by (auto simp: list_all_iff)
  moreover have "unat b mod 62 < 256"
    using mod_less_divisor [of 62 "unat b"] by linarith
  then have "word_of_nat (unat b mod 62) = b mod 62"
    by (simp add: word_unat_eq_iff unat_mod_distrib)
  moreover have "b mod 62 mod 62 = b mod 62"
    by (simp add: word_unat_eq_iff unat_mod_distrib)
  ultimately show ?thesis
    by (simp add: pad_byte_def)
qed

lemma is_alnum_ascii: "is_alnum b \<Longrightarrow> b < 0x80"
  by (auto simp: is_alnum_def intro: le_less_trans)

section \<open>The shredder loses nothing\<close>

lemma enough_draws_Cons:
  "enough_draws (d # ds) n \<Longrightarrow> 8192 \<le> d \<and> d < 16384 \<and> enough_draws ds (n - min n d)"
  by (auto simp: enough_draws_def)

lemma send_split_data_frames:
  assumes "enough_draws draws (length src)"
  shows "\<exists>src' out' c' ok fs.
    send_split_data draws src out c = Some (src', out', c', ok) \<and>
    ho_frames out' = ho_frames out @ fs \<and> list_all shred_frame fs \<and>
    (\<exists>k. concat (map frame_data fs) = take k src) \<and>
    (ok \<longrightarrow> src' = [] \<and> concat (map frame_data fs) = src \<and> c' = c + word_of_nat (length src)) \<and>
    (ho_left out = None \<longrightarrow> ok \<and> ho_left out' = None)"
  using assms
proof (induction draws src out c rule: send_split_data.induct)
  case (1 src out c)
  then show ?case by (auto simp: enough_draws_def)
next
  case (2 d ds src out c)
  let ?n = "min (length src) d"
  show ?case
  proof (cases "src = []")
    case True
    then show ?thesis by auto
  next
    case False
    have d: "8192 \<le> d" "d < 16384" "enough_draws ds (length (drop ?n src))"
      using enough_draws_Cons [OF 2(2)] by simp_all
    let ?c = "c + word_of_nat ?n"
    let ?f = "DataFrame (take ?n src) False"
    have f: "shred_frame ?f"
      using False d(1,2) by (auto simp: shred_frame_def)
    show ?thesis
    proof (cases "send_frame out ?f")
      case None
      then have "ho_left out \<noteq> None"
        by (cases "ho_left out") (auto simp: send_frame_open)
      moreover have "send_split_data (d # ds) src out c = Some (drop ?n src, out, ?c, False)"
        using None False by (simp add: Let_def)
      ultimately show ?thesis
        by (intro exI [of _ "drop ?n src"] exI [of _ out] exI [of _ ?c] exI [of _ False]
            exI [of _ "[]"] conjI exI [of _ 0]) simp_all
    next
      case (Some out1)
      obtain src' out' c' ok fs k where IH:
        "send_split_data ds (drop ?n src) out1 ?c = Some (src', out', c', ok)"
        "ho_frames out' = ho_frames out1 @ fs" "list_all shred_frame fs"
        "concat (map frame_data fs) = take k (drop ?n src)"
        "ok \<longrightarrow> src' = [] \<and> concat (map frame_data fs) = drop ?n src
             \<and> c' = ?c + word_of_nat (length (drop ?n src))"
        "ho_left out1 = None \<longrightarrow> ok \<and> ho_left out' = None"
        using 2(1) [OF False refl refl refl refl Some d(3)] by (elim exE conjE) (rule that; assumption)
      have "(word_of_nat ?n + word_of_nat (length (drop ?n src)) :: u64) = word_of_nat (length src)"
        by (simp flip: of_nat_add)
      then have c: "ok \<Longrightarrow> c' = c + word_of_nat (length src)"
        using IH(5) by (simp add: add.assoc)
      have h1: "send_split_data (d # ds) src out c = Some (src', out', c', ok)"
        using False Some IH(1) by (simp add: Let_def)
      have h2: "ho_frames out' = ho_frames out @ (?f # fs)"
        using IH(2) send_frame_frames [OF Some] by simp
      have h3: "list_all shred_frame (?f # fs)"
        using f IH(3) by simp
      have h4: "concat (map frame_data (?f # fs)) = take (?n + k) src"
        using IH(4) by (simp add: take_add)
      have h5: "ok \<longrightarrow> src' = [] \<and> concat (map frame_data (?f # fs)) = src \<and> c' = c + word_of_nat (length src)"
        using IH(5) c by simp
      have h6: "ho_left out = None \<longrightarrow> ok \<and> ho_left out' = None"
        using IH(6) Some by (auto simp: send_frame_open)
      show ?thesis
        by (rule exI [of _ src'], rule exI [of _ out'], rule exI [of _ c'], rule exI [of _ ok],
            rule exI [of _ "?f # fs"]) (intro conjI h1 h2 h3 h5 h6 exI [of _ "?n + k"] h4)
    qed
  qed
qed

section \<open>Removing the framing does not depend on the chunks\<close>

lemma grpc_loop_open:
  "sk_left w = None \<Longrightarrow> grpc_loop l True w =
    (let (d, g, r) = deframe l in (r, g, \<lparr>sk_data = sk_data w @ d, sk_left = None\<rparr>, True))"
proof (induction l arbitrary: w rule: deframe.induct)
  case (1 l)
  show ?case
    by (subst grpc_loop.simps, subst deframe.simps)
      (use 1 in \<open>auto simp: Let_def write_all_open add.commute split: prod.splits\<close>)
qed

lemma deframe_append:
  "deframe (l @ x) =
    (let (d, g, r) = deframe l
     in if g then (let (d', g', r') = deframe (r @ x) in (d @ d', g', r')) else (d @ x, False, []))"
proof (induction l rule: deframe.induct)
  case (1 l)
  define n where "n = unat (be32 (l ! 1) (l ! 2) (l ! 3) (l ! 4))"
  consider (short) "length l < 5 \<or> \<not> n > 65535 \<and> length l < 5 + n"
    | (big) "5 \<le> length l" "n > 65535"
    | (msg) "5 \<le> length l" "\<not> n > 65535" "5 + n \<le> length l"
    by linarith
  then show ?case
  proof cases
    case short
    then have "deframe l = ([], True, l)"
      by (subst deframe.simps) (auto simp: Let_def n_def)
    then show ?thesis by (simp add: Let_def)
  next
    case big
    then have "deframe l = (l, False, [])" "deframe (l @ x) = (l @ x, False, [])"
      by (subst deframe.simps, simp add: Let_def nth_append n_def)+
    then show ?thesis by simp
  next
    case msg
    obtain d g r where d: "deframe (drop (5 + n) l) = (d, g, r)"
      by (metis prod_cases3)
    obtain d' g' r' where d': "deframe (r @ x) = (d', g', r')"
      by (metis prod_cases3)
    have "deframe (drop (5 + n) l @ x) = (if g then (d @ d', g', r') else (d @ x, False, []))"
      using 1 [OF _ n_def] msg d d' by simp
    then have "deframe (l @ x) = (take n (drop 5 l) @ d @ (if g then d' else x), g \<and> g', if g then r' else [])"
      using msg by (subst deframe.simps) (simp add: Let_def nth_append flip: n_def One_nat_def)
    moreover have "deframe l = (take n (drop 5 l) @ d, g, r)"
      using msg d by (subst deframe.simps) (simp add: Let_def flip: n_def One_nat_def)
    ultimately show ?thesis
      using d' by simp
  qed
qed

lemma deframe_rest: "deframe l = (d, False, r) \<Longrightarrow> r = []"
proof (induction l arbitrary: d rule: deframe.induct)
  case (1 l)
  show ?case
    using 1(2) by (subst (asm) deframe.simps)
      (use 1(1) in \<open>auto simp: Let_def split: if_splits prod.splits\<close>)
qed

lemma deframe_nil [simp]: "deframe [] = ([], True, [])"
  by (simp add: deframe.simps)

text \<open>The states the upstream task passes through when every write succeeds: all bytes so far are
  \<open>bs\<close>, and their framing is removed as far as it goes.\<close>

definition up_after :: "bytes \<Rightarrow> standalone \<Rightarrow> bool" where
  "up_after bs st \<longleftrightarrow> \<not> st_first_chunk st \<and> \<not> st_up_done st \<and> sk_left (st_client_write st) = None \<and>
     (if grpc_like bs then deframe bs else (bs, False, [])) =
       (sk_data (st_client_write st), st_grpc st, st_leftover st)"

lemma up_after_chunk:
  assumes "up_after bs st" "bs \<noteq> []"
  shows "up_after (bs @ chunk) (up_step st (BodyData chunk))"
proof -
  have st: "\<not> st_first_chunk st" "\<not> st_up_done st" "sk_left (st_client_write st) = None"
    using assms(1) by (simp_all add: up_after_def)
  have like: "grpc_like (bs @ chunk) = grpc_like bs"
    using assms(2) by (cases bs) (simp_all add: grpc_like_def)
  show ?thesis
  proof (cases "st_grpc st")
    case True
    then have l: "grpc_like bs" and d: "deframe bs = (sk_data (st_client_write st), True, st_leftover st)"
      using assms(1) by (auto simp: up_after_def split: if_splits)
    obtain d' g' r' where d': "deframe (st_leftover st @ chunk) = (d', g', r')"
      by (metis prod_cases3)
    have "deframe (bs @ chunk) = (sk_data (st_client_write st) @ d', g', r')"
      by (simp add: deframe_append [of bs chunk] d d')
    then show ?thesis
      using st True l like d' by (simp add: up_after_def up_chunk_def Let_def grpc_loop_open)
  next
    case False
    have r: "st_leftover st = []"
      using assms(1) False deframe_rest [of bs] by (auto simp: up_after_def split: if_splits)
    have "(if grpc_like bs then deframe (bs @ chunk) else (bs @ chunk, False, [])) =
        (sk_data (st_client_write st) @ chunk, False, [])"
    proof (cases "grpc_like bs")
      case True
      then have "deframe bs = (sk_data (st_client_write st), False, [])"
        using assms(1) False r by (simp add: up_after_def)
      then show ?thesis using True by (simp add: deframe_append [of bs chunk])
    next
      case f: False
      then show ?thesis using assms(1) by (simp add: up_after_def)
    qed
    then show ?thesis
      using st False like r by (simp add: up_after_def up_chunk_def Let_def write_all_open)
  qed
qed

lemma up_after_chunks:
  "up_after bs st \<Longrightarrow> bs \<noteq> [] \<Longrightarrow> up_after (bs @ concat cs) (foldl up_step st (map BodyData cs))"
proof (induction cs arbitrary: bs st)
  case (Cons c cs)
  then show ?case
    using up_after_chunk [of bs st c] Cons.IH [of "bs @ c" "up_step st (BodyData c)"] by simp
qed simp

lemma up_after_first:
  assumes "c \<noteq> []" "st_first_chunk st" "\<not> st_up_done st" "st_grpc st" "st_leftover st = []"
    "st_client_write st = open_sink"
  shows "up_after c (up_step st (BodyData c))"
  using assms by (cases c) (auto simp: up_after_def up_chunk_def Let_def open_sink_def grpc_like_def
      grpc_loop_open write_all_open split: prod.splits)

lemma up_raw_chunks:
  "\<not> st_grpc st \<Longrightarrow> \<not> st_up_done st \<Longrightarrow> sk_left (st_client_write st) = None \<Longrightarrow>
    sk_data (st_client_write (foldl up_step st (map BodyData cs))) =
      sk_data (st_client_write st) @ concat cs"
  by (induction cs arbitrary: st) (simp_all add: up_chunk_def Let_def write_all_open)

text \<open>The downstream task does not touch what the upstream task works on.\<close>

lemma down_step_up_part: "down_step draws st ev = Some st' \<Longrightarrow> up_part st' = up_part st"
  by (cases ev) (auto simp: up_part_def down_end_def Let_def split: if_splits option.splits)

lemma up_step_up_part: "up_part st = up_part t \<Longrightarrow> up_part (up_step st ev) = up_part (up_step t ev)"
  by (cases ev) (auto simp: up_part_def up_chunk_def Let_def split: option.splits prod.splits)

lemma foldl_up_part:
  "up_part st = up_part t \<Longrightarrow> up_part (foldl up_step st evs) = up_part (foldl up_step t evs)"
proof (induction evs arbitrary: st t)
  case (Cons e evs)
  show ?case
    using Cons.IH [OF up_step_up_part [OF Cons.prems]] by simp
qed simp

lemma standalone_run_up_part:
  "standalone_run st evs = Some st' \<Longrightarrow> up_part st' = up_part (foldl up_step st (ups evs))"
proof (induction evs arbitrary: st)
  case (Cons ev evs)
  show ?case
  proof (cases ev)
    case (Up e)
    then show ?thesis using Cons by simp
  next
    case (Down draws e)
    then obtain t where t: "down_step draws st e = Some t" "standalone_run t evs = Some st'"
      using Cons.prems by (auto split: option.splits)
    then show ?thesis
      using Cons.IH [OF t(2)] foldl_up_part [OF down_step_up_part [OF t(1)]] Down by simp
  qed
qed simp

section \<open>The downstream task\<close>

text \<open>What one read becomes on the wire.\<close>

definition wire_form :: "bool \<Rightarrow> bytes \<Rightarrow> bytes" where
  "wire_form grpc d = (if grpc then down_frame d (length d) else d)"

definition down_ready :: "standalone \<Rightarrow> bool" where
  "down_ready st \<longleftrightarrow> \<not> st_down_done st \<and> st_buf st = [] \<and> ho_left (st_send_stream st) = None"

lemma length_wire_form: "length (wire_form g d) \<le> length d + 5"
  by (simp add: wire_form_def down_frame_def)

lemma down_step_read:
  assumes "down_ready st" "d \<noteq> []" "enough_draws draws (length d + 5)"
  shows "\<exists>st'. down_step draws st (ReadData d) = Some st' \<and> down_ready st' \<and> st_grpc st' = st_grpc st \<and>
    sent_data (st_send_stream st') = sent_data (st_send_stream st) @ wire_form (st_grpc st) d"
proof -
  have "enough_draws draws (length (wire_form (st_grpc st) d))"
    using assms(3) length_wire_form [of "st_grpc st" d] by (auto simp: enough_draws_def)
  from send_split_data_frames [OF this, of "st_send_stream st" "st_counter st"]
  obtain out' c' fs where s: "send_split_data draws (wire_form (st_grpc st) d) (st_send_stream st)
      (st_counter st) = Some ([], out', c', True)" "ho_frames out' = ho_frames (st_send_stream st) @ fs"
    "concat (map frame_data fs) = wire_form (st_grpc st) d" "ho_left out' = None"
    using assms(1) by (elim exE conjE) (simp add: down_ready_def)
  let ?st' = "st \<lparr>st_buf := [], st_send_stream := out', st_counter := c', st_down_done := False\<rparr>"
  have "down_step draws st (ReadData d) = Some ?st'"
    using s(1) assms(1,2) by (cases "st_grpc st") (simp_all add: down_ready_def wire_form_def Let_def)
  then show ?thesis
    using s assms(1) by (intro exI [of _ ?st']) (simp add: down_ready_def sent_data_def)
qed

lemma down_reads:
  assumes "list_all (\<lambda>(draws, d). d \<noteq> [] \<and> enough_draws draws (length d + 5)) rs" "down_ready st"
  shows "\<exists>st'. standalone_run st (map (\<lambda>(draws, d). Down draws (ReadData d)) rs) = Some st' \<and>
    down_ready st' \<and> st_grpc st' = st_grpc st \<and>
    sent_data (st_send_stream st') =
      sent_data (st_send_stream st) @ concat (map (wire_form (st_grpc st) \<circ> snd) rs)"
  using assms
proof (induction rs arbitrary: st)
  case (Cons r rs)
  obtain draws d where r: "r = (draws, d)" by (cases r)
  obtain st1 where s1: "down_step draws st (ReadData d) = Some st1" "down_ready st1"
    "st_grpc st1 = st_grpc st"
    "sent_data (st_send_stream st1) = sent_data (st_send_stream st) @ wire_form (st_grpc st) d"
    using down_step_read [of st d draws] Cons.prems r by auto
  then show ?case
    using Cons.IH [of st1] Cons.prems(1) r by auto
qed simp

lemma standalone_run_append:
  "standalone_run st (es @ fs) =
    (case standalone_run st es of None \<Rightarrow> None | Some st' \<Rightarrow> standalone_run st' fs)"
  by (induction es arbitrary: st) (auto split: option.split)

lemma deframe_wire_form:
  assumes "length d \<le> 65535"
  shows "deframe (wire_form True d @ rest) = (let (d', g, r) = deframe rest in (d @ d', g, r))"
proof -
  let ?l = "wire_form True d @ rest"
  have "length (wire_form True d) = 5 + length d"
    by (simp add: wire_form_def down_frame_def)
  then have "drop (5 + length d) ?l = rest" "5 + length d \<le> length ?l"
    by simp_all
  moreover have "take (length d) (drop 5 ?l) = d"
    by (simp add: wire_form_def down_frame_def)
  moreover have "unat (be32 (?l ! 1) (?l ! 2) (?l ! 3) (?l ! 4)) = length d"
    using assms by (simp add: wire_form_def down_frame_def u32_be_def)
  ultimately show ?thesis
    using assms by (subst deframe.simps) (simp only: Let_def, simp)
qed

lemma deframe_wire_forms:
  "list_all (\<lambda>d. length d \<le> 65535) ds \<Longrightarrow>
    deframe (concat (map (wire_form True) ds)) = (concat ds, True, [])"
  by (induction ds) (simp_all add: deframe_wire_form)

section \<open>Correctness\<close>

text \<open>Every byte of the padding is a letter or a digit, so that building a string from the bytes
  without checking them is sound; its length lies in the range announced for the amount of traffic:
  64 to 511 below one megabyte, 16 to 31 above.\<close>

lemma padding_is_text:
  assumes "\<And>lo hi. lo < hi \<Longrightarrow> lo \<le> gen_range lo hi \<and> gen_range lo hi < hi"
    and "\<And>n. length (fill n) = n"
  shows "list_all is_alnum (gen_adaptive_padding gen_range fill traffic) \<and>
    utf8_valid (gen_adaptive_padding gen_range fill traffic) \<and>
    (if traffic < 1048576
     then 64 \<le> length (gen_adaptive_padding gen_range fill traffic)
       \<and> length (gen_adaptive_padding gen_range fill traffic) < 512
     else 16 \<le> length (gen_adaptive_padding gen_range fill traffic)
       \<and> length (gen_adaptive_padding gen_range fill traffic) < 32)"
proof -
  let ?p = "gen_adaptive_padding gen_range fill traffic"
  have "list_all is_alnum ?p"
    by (auto simp: gen_adaptive_padding_def Let_def list_all_iff pad_byte_alnum)
  moreover from this have "utf8_valid ?p"
    by (intro utf8_valid_ascii) (auto simp: is_ascii_def list_all_iff intro: is_alnum_ascii)
  ultimately show ?thesis
    using assms(1) [of 64 512] assms(1) [of 16 32]
    by (simp add: gen_adaptive_padding_def Let_def assms(2))
qed

text \<open>C22. The shredder loses, reorders and duplicates nothing. With enough random draws the call returns.
  The frames it adds to the stream are non-empty, below the frame limit of 16384 bytes and
  not marked as the last; their contents are a prefix of the data, and when the call succeeds they are
  all of it, the buffer is empty and the traffic counter has grown by its length. It succeeds
  whenever the stream accepts the frames.\<close>

theorem shredder_exact:
  assumes "enough_draws draws (length src)"
  shows "\<exists>src' out' c' ok fs.
    send_split_data draws src out c = Some (src', out', c', ok) \<and>
    ho_frames out' = ho_frames out @ fs \<and> list_all shred_frame fs \<and>
    (\<exists>k. concat (map frame_data fs) = take k src) \<and>
    (ok \<longrightarrow> src' = [] \<and> concat (map frame_data fs) = src \<and> c' = c + word_of_nat (length src)) \<and>
    (ho_left out = None \<longrightarrow> ok \<and> ho_left out' = None)"
  using assms by (rule send_split_data_frames)

theorem shredder_exact_witness:
  "\<exists>out'. send_split_data [9000] [5, 6, 7] \<lparr>ho_frames = [], ho_left = None\<rparr> 7 =
     Some ([], out', 10, True) \<and> concat (map frame_data (ho_frames out')) = [5, 6, 7]"
proof -
  have "enough_draws [9000] (length [5, 6, 7 :: u8])"
    by (simp add: enough_draws_def)
  from shredder_exact [OF this, of "\<lparr>ho_frames = [], ho_left = None\<rparr>" 7]
  obtain src' out' c' ok fs where
    "send_split_data [9000] [5, 6, 7] \<lparr>ho_frames = [], ho_left = None\<rparr> 7 = Some (src', out', c', ok)"
    "ho_frames out' = fs" "ok" "src' = []" "concat (map frame_data fs) = [5, 6, 7]" "c' = 10"
    by (elim exE conjE) simp
  then show ?thesis by (intro exI [of _ out']) simp
qed



text \<open>The downstream task sends every byte the VLESS handler produces, in order: the data frames of
  the response carry the reads one after the other, each behind a gRPC header when framing is on, and
  the stream is closed behind them. A peer that removes the framing gets exactly the handler's
  bytes back, for reads of at most 65535 bytes.\<close>

lemma downstream_exact:
  assumes "standalone_start padding is_grpc counter sk \<lparr>ho_frames = [], ho_left = None\<rparr> = Some st"
    and "list_all (\<lambda>(draws, d). d \<noteq> [] \<and> length d \<le> 65535 \<and> enough_draws draws (length d + 5)) rs"
  shows "\<exists>st'. standalone_run st (map (\<lambda>(draws, d). Down draws (ReadData d)) rs @ [Down [] (ReadData [])])
      = Some st' \<and>
    (if is_grpc then deframe (sent_data (st_send_stream st')) = (concat (map snd rs), True, [])
       \<and> last (ho_frames (st_send_stream st')) = Trailers [(lit ''grpc-status'', lit ''0'')]
     else sent_data (st_send_stream st') = concat (map snd rs)
       \<and> last (ho_frames (st_send_stream st')) = DataFrame [] True)"
proof -
  have st: "down_ready st" "st_grpc st = is_grpc" "sent_data (st_send_stream st) = []"
    using assms(1) by (auto simp: standalone_start_def send_frame_open down_ready_def sent_data_def)
  have rs: "list_all (\<lambda>(draws, d). d \<noteq> [] \<and> enough_draws draws (length d + 5)) rs"
    "list_all (\<lambda>d. length d \<le> 65535) (map snd rs)"
    using assms(2) by (auto simp: list_all_iff)
  obtain st1 where s1: "standalone_run st (map (\<lambda>(draws, d). Down draws (ReadData d)) rs) = Some st1"
    "down_ready st1" "st_grpc st1 = is_grpc"
    "sent_data (st_send_stream st1) = concat (map (wire_form is_grpc) (map snd rs))"
    using down_reads [OF rs(1) st(1)] st(2,3) by auto
  have "standalone_run st (map (\<lambda>(draws, d). Down draws (ReadData d)) rs @ [Down [] (ReadData [])])
      = Some (down_end st1)"
    using s1 by (simp add: standalone_run_append down_ready_def)
  moreover have "concat (map (wire_form False) ds) = concat ds" for ds
    by (induction ds) (simp_all add: wire_form_def)
  ultimately show ?thesis
    using s1(2-4) deframe_wire_forms [OF rs(2)]
    by (intro exI [of _ "down_end st1"])
      (simp add: down_end_def down_ready_def send_frame_open sent_data_def del: map_map)
qed

end
