(* ===== verification/Xhttp_Sessions.thy ===== *)
theory Xhttp_Sessions
  imports Xhttp_Data
begin

text \<open>
  The control side of the XHTTP transport (\<open>src/transport/xhttp/h2.rs\<close>): the accept loop of an HTTP/2
  connection with its idle watchdog, the routing of a request, the table of sessions that pairs the
  download request of a client with its upload requests, and the split handlers for the two.

  The accept loop and the session table are transition systems: the enabled transitions of a state
  are the interleavings the runtime may choose. Accesses to the shared session table by
  a request that is being routed are numbered; the table each of them sees is an argument, so that
  other requests may change it in between.
\<close>

section \<open>The accept loop\<close>

text \<open>\<open>Waiting idle\<close> is the \<open>select!\<close> with the value of \<open>is_idle\<close> that was read at the top of the loop.\<close>

datatype loop_phase = Top | Waiting bool | Closed

record h2_conn =
  hc_phase :: loop_phase
  hc_active :: nat

datatype conn_event = LoopTop | Accept | AcceptErr | AcceptNone | Watchdog | StreamDone

definition conn_start :: h2_conn where
  "conn_start = \<lparr>hc_phase = Top, hc_active = 0\<rparr>"

fun conn_step :: "h2_conn \<Rightarrow> conn_event \<Rightarrow> h2_conn option" where
  "conn_step c LoopTop =
     (if hc_phase c = Top then Some (c \<lparr>hc_phase := Waiting (hc_active c = 0)\<rparr>) else None)"
| "conn_step c Accept =
     (case hc_phase c of Waiting _ \<Rightarrow> Some (c \<lparr>hc_active := hc_active c + 1, hc_phase := Top\<rparr>) | _ \<Rightarrow> None)"
| "conn_step c AcceptErr =
     (case hc_phase c of Waiting _ \<Rightarrow> Some (c \<lparr>hc_phase := Closed\<rparr>) | _ \<Rightarrow> None)"
| "conn_step c AcceptNone =
     (case hc_phase c of Waiting _ \<Rightarrow> Some (c \<lparr>hc_phase := Closed\<rparr>) | _ \<Rightarrow> None)"
| "conn_step c Watchdog =
     (if hc_phase c = Waiting True then Some (c \<lparr>hc_phase := Closed\<rparr>) else None)"
| "conn_step c StreamDone =
     (if hc_active c > 0 then Some (c \<lparr>hc_active := hc_active c - 1\<rparr>) else None)"

inductive conn_reach :: "h2_conn \<Rightarrow> bool" where
  conn_init: "conn_reach conn_start"
| conn_next: "conn_reach c \<Longrightarrow> conn_step c ev = Some c' \<Longrightarrow> conn_reach c'"

section \<open>Routing\<close>

record h2_request =
  hr_path :: rstring
  hr_method :: rstring
  hr_user_agent :: "rstring option"
  hr_content_type :: "rstring option"

type_synonym sessions = "rstring \<Rightarrow> nat option"

text \<open>The wait for the download request: at most \<open>n\<close> looks at the table, the first one being access
  \<open>k\<close>; the result is the number of the next access.\<close>

fun wait_paired :: "nat \<Rightarrow> nat \<Rightarrow> (nat \<Rightarrow> sessions) \<Rightarrow> rstring \<Rightarrow> nat" where
  "wait_paired 0 k table path = k"
| "wait_paired (Suc n) k table path =
     (if table k path \<noteq> None then Suc k else wait_paired n (Suc k) table path)"

datatype decision = Reject nat | DoGet rstring | DoPost nat | DoStandalone bool

definition handle_request :: "xhttp_config \<Rightarrow> h2_request \<Rightarrow> (nat \<Rightarrow> sessions) \<Rightarrow> decision" where
  "handle_request config request table =
     (let path = hr_path request; method = hr_method request in
      if \<not> starts_with path (xc_path config) then Reject 404
      else if method = lit ''GET'' then DoGet path
      else if method = lit ''POST'' then
        let user_agent = (case hr_user_agent request of Some v \<Rightarrow> v | None \<Rightarrow> []);
            is_pc = contains_sub (lit ''Go-http-client'') user_agent;
            k = (if \<not> is_pc then wait_paired 40 0 table path else 0)
        in case table k path of
             Some tx \<Rightarrow> DoPost tx
           | None \<Rightarrow>
               let content_type = (case hr_content_type request of Some v \<Rightarrow> v | None \<Rightarrow> [])
               in DoStandalone (contains_sub (lit ''grpc'') content_type)
      else Reject 405)"

definition send_error_response :: "h2_out \<Rightarrow> nat \<Rightarrow> h2_out option" where
  "send_error_response respond status =
     send_frame respond (Response status [(lit ''server'', lit ''nginx/1.26.0'')] True)"

section \<open>The session table\<close>

text \<open>A download request registers a channel under its path, serves it, and removes the path twice: when
  the download ends, and when its guard is dropped. Channels are numbered; \<open>ss_sent\<close> is what has been
  sent on a channel.\<close>

datatype get_phase = Serving | Draining

record session_state =
  ss_table :: sessions
  ss_gets :: "nat \<Rightarrow> (rstring \<times> get_phase) option"
  ss_next :: nat
  ss_sent :: "nat \<Rightarrow> bytes list"

definition sessions_start :: session_state where
  "sessions_start = \<lparr>ss_table = Map.empty, ss_gets = Map.empty, ss_next = 0, ss_sent = (\<lambda>_. [])\<rparr>"

definition sess_remove :: "session_state \<Rightarrow> rstring \<Rightarrow> session_state" where
  "sess_remove s path = s \<lparr>ss_table := (ss_table s)(path := None)\<rparr>"

definition get_register :: "session_state \<Rightarrow> rstring \<Rightarrow> session_state" where
  "get_register s path =
     (let sid = ss_next s in
      s \<lparr>ss_table := (ss_table s)(path \<mapsto> sid), ss_gets := (ss_gets s)(sid \<mapsto> (path, Serving)),
         ss_next := sid + 1\<rparr>)"

text \<open>The guard is dropped with the handler, on success, error and panic alike.\<close>

definition guard_drop :: "session_state \<Rightarrow> nat \<Rightarrow> rstring \<Rightarrow> session_state" where
  "guard_drop s sid path = (sess_remove s path) \<lparr>ss_gets := (ss_gets s)(sid := None)\<rparr>"

datatype session_event = GetStart rstring | GetDownEnd nat | GetFinish nat | GetAbort nat
  | PostChunk nat bytes

fun session_step :: "session_state \<Rightarrow> session_event \<Rightarrow> session_state option" where
  "session_step s (GetStart path) = Some (get_register s path)"
| "session_step s (GetDownEnd sid) =
     (case ss_gets s sid of
        Some (path, Serving) \<Rightarrow>
          Some ((sess_remove s path) \<lparr>ss_gets := (ss_gets s)(sid \<mapsto> (path, Draining))\<rparr>)
      | _ \<Rightarrow> None)"
| "session_step s (GetFinish sid) =
     (case ss_gets s sid of Some (path, Draining) \<Rightarrow> Some (guard_drop s sid path) | _ \<Rightarrow> None)"
| "session_step s (GetAbort sid) =
     (case ss_gets s sid of Some (path, Serving) \<Rightarrow> Some (guard_drop s sid path) | _ \<Rightarrow> None)"
| "session_step s (PostChunk sid chunk) =
     Some (s \<lparr>ss_sent := (ss_sent s)(sid := ss_sent s sid @ [chunk])\<rparr>)"

inductive sess_reach :: "(session_state \<Rightarrow> session_event \<Rightarrow> bool) \<Rightarrow> session_state \<Rightarrow> bool"
  for allowed :: "session_state \<Rightarrow> session_event \<Rightarrow> bool" where
  sess_init: "sess_reach allowed sessions_start"
| sess_next: "sess_reach allowed s \<Longrightarrow> allowed s ev \<Longrightarrow> session_step s ev = Some s' \<Longrightarrow> sess_reach allowed s'"

section \<open>The split handlers\<close>

record get_state =
  gs_buf :: bytes
  gs_send_stream :: h2_out
  gs_transferred :: u64
  gs_counter :: u64

datatype timed_read = TData bytes | TErr | TTimeout

definition get_response :: "rstring \<Rightarrow> u64 \<Rightarrow> h2_out \<Rightarrow> get_state option" where
  "get_response padding counter respond =
     map_option (\<lambda>send_stream. \<lparr>gs_buf = [], gs_send_stream = send_stream, gs_transferred = 0,
         gs_counter = counter\<rparr>)
       (send_frame respond (Response 200 (ok_headers padding) False))"

text \<open>The download task: the state at its end and whether it returned \<open>Ok\<close>. \<open>None\<close> says that it has not
  ended with the events given, or that the draws were too few.\<close>

fun get_downstream :: "get_state \<Rightarrow> (nat list \<times> timed_read) list \<Rightarrow> (get_state \<times> bool) option" where
  "get_downstream st [] = None"
| "get_downstream st ((draws, TErr) # evs) = Some (st, False)"
| "get_downstream st ((draws, TTimeout) # evs) =
     (case send_frame (gs_send_stream st) (DataFrame [] True) of
        None \<Rightarrow> Some (st, False) | Some out \<Rightarrow> Some (st \<lparr>gs_send_stream := out\<rparr>, True))"
| "get_downstream st ((draws, TData d) # evs) =
     (let n = length d; buf = gs_buf st @ d in
      if n = 0 then
        (case send_frame (gs_send_stream st) (DataFrame [] True) of
           None \<Rightarrow> Some (st, False) | Some out \<Rightarrow> Some (st \<lparr>gs_send_stream := out\<rparr>, True))
      else
        (case send_split_data draws buf (gs_send_stream st) (gs_counter st) of
           None \<Rightarrow> None
         | Some (rest, out, c, ok) \<Rightarrow>
             let st' = st \<lparr>gs_buf := rest, gs_send_stream := out, gs_counter := c,
                           gs_transferred := gs_transferred st + word_of_nat n\<rparr>
             in if ok then get_downstream st' evs else Some (st', False)))"

text \<open>The upload task of the download request: it forwards what arrives on its channel.\<close>

datatype channel_event = Received bytes | ChannelClosed | ChannelTimeout

fun get_upstream :: "sink \<Rightarrow> channel_event list \<Rightarrow> sink \<times> bool" where
  "get_upstream w [] = (w, True)"
| "get_upstream w (Received data # evs) =
     (case write_all w data of None \<Rightarrow> (w, False) | Some w' \<Rightarrow> get_upstream w' evs)"
| "get_upstream w (ChannelClosed # evs) = (w, True)"
| "get_upstream w (ChannelTimeout # evs) = (w, True)"

text \<open>The upload request: what it sends on the channel, the counter, and its response. A chunk sent to a
  channel whose receiver is gone is lost silently, which is not visible here.\<close>

definition post_headers :: "rstring \<Rightarrow> header list" where
  "post_headers padding =
     [(lit ''server'', lit ''nginx/1.26.0''),
      (lit ''cache-control'', lit ''no-store, no-cache, must-revalidate, proxy-revalidate, max-age=0''),
      (lit ''x-padding'', padding)]"

fun handle_xhttp_post :: "(u64 \<Rightarrow> rstring) \<Rightarrow> body_event list \<Rightarrow> bytes list \<Rightarrow> u64 \<Rightarrow> h2_out \<Rightarrow>
    bytes list \<times> u64 \<times> h2_out option" where
  "handle_xhttp_post padding (BodyData chunk # evs) sent counter respond =
     handle_xhttp_post padding evs (sent @ [chunk]) (counter + word_of_nat (length chunk)) respond"
| "handle_xhttp_post padding (BodyErr # evs) sent counter respond = (sent, counter, None)"
| "handle_xhttp_post padding _ sent counter respond =
     (sent, counter, send_frame respond (Response 200 (post_headers (padding counter)) True))"

text \<open>An upload of a client that names no user agent.\<close>

definition sample_upload :: h2_request where
  "sample_upload = \<lparr>hr_path = lit ''/x/1'', hr_method = lit ''POST'', hr_user_agent = None, hr_content_type = None\<rparr>"

section \<open>The watchdog\<close>

lemma conn_invariant: "conn_reach c \<Longrightarrow> hc_phase c = Waiting True \<longrightarrow> hc_active c = 0"
proof (induction rule: conn_reach.induct)
  case (conn_next c ev c')
  then show ?case
    by (cases ev) (auto split: if_splits loop_phase.splits)
qed (simp add: conn_start_def)

section \<open>Routing\<close>

lemma wait_paired_bounds: "k \<le> wait_paired n k table path \<and> wait_paired n k table path \<le> k + n"
proof (induction n arbitrary: k)
  case (Suc n)
  have "Suc k \<le> wait_paired n (Suc k) table path \<and> wait_paired n (Suc k) table path \<le> Suc k + n"
    by (rule Suc)
  then show ?case by simp
qed simp

lemma wait_paired_never:
  "(\<And>j. k \<le> j \<Longrightarrow> j < k + n \<Longrightarrow> table j path = None) \<Longrightarrow> wait_paired n k table path = k + n"
  by (induction n arbitrary: k) auto

lemma wait_paired_at:
  "\<lbrakk>\<And>j. k \<le> j \<Longrightarrow> j < i \<Longrightarrow> table j path = None; table i path \<noteq> None; k \<le> i; i < k + n\<rbrakk>
    \<Longrightarrow> wait_paired n k table path = Suc i"
proof (induction n arbitrary: k)
  case (Suc n)
  show ?case
  proof (cases "k = i")
    case False
    then have "wait_paired n (Suc k) table path = Suc i"
      using Suc.prems by (intro Suc.IH) auto
    then show ?thesis
      using Suc.prems False by auto
  qed (use Suc.prems in auto)
qed simp

section \<open>Sessions\<close>

text \<open>Every path in the table belongs to a download request that is still alive, and channel numbers
  are not reused.\<close>

definition sess_invar :: "session_state \<Rightarrow> bool" where
  "sess_invar s \<longleftrightarrow>
     (\<forall>path sid. ss_table s path = Some sid \<longrightarrow> (\<exists>ph. ss_gets s sid = Some (path, ph))) \<and>
     (\<forall>sid \<ge> ss_next s. ss_gets s sid = None)"

lemma sess_invar_table:
  "sess_invar s \<Longrightarrow> ss_table s path = Some sid \<Longrightarrow> \<exists>ph. ss_gets s sid = Some (path, ph)"
  by (simp add: sess_invar_def)

lemma sess_invar_fresh: "sess_invar s \<Longrightarrow> ss_next s \<le> sid \<Longrightarrow> ss_gets s sid = None"
  by (simp add: sess_invar_def)

lemma sess_invar_register:
  assumes "sess_invar s"
  shows "sess_invar (get_register s path)"
  unfolding sess_invar_def
proof (intro conjI allI impI)
  fix p sid assume "ss_table (get_register s path) p = Some sid"
  then show "\<exists>ph. ss_gets (get_register s path) sid = Some (p, ph)"
    using sess_invar_table [OF assms, of p sid] sess_invar_fresh [OF assms, of sid]
    by (auto simp: get_register_def Let_def split: if_splits)
qed (use sess_invar_fresh [OF assms] in \<open>auto simp: get_register_def Let_def\<close>)

lemma sess_invar_remove:
  assumes "sess_invar s" "ss_gets s sid = Some (path, ph)"
    "v = None \<or> v = Some (path, ph')"
  shows "sess_invar ((sess_remove s path) \<lparr>ss_gets := (ss_gets s)(sid := v)\<rparr>)"
  unfolding sess_invar_def
proof (intro conjI allI impI)
  let ?s = "(sess_remove s path) \<lparr>ss_gets := (ss_gets s)(sid := v)\<rparr>"
  show "\<exists>ph. ss_gets ?s i = Some (p, ph)" if "ss_table ?s p = Some i" for p i
    using that sess_invar_table [OF assms(1), of p i] assms(2)
    by (auto simp: sess_remove_def split: if_splits)
  show "ss_gets ?s i = None" if "ss_next ?s \<le> i" for i
    using that sess_invar_fresh [OF assms(1), of i] assms(2) by (auto simp: sess_remove_def)
qed

lemma sess_invar_step:
  assumes "sess_invar s" "session_step s ev = Some s'"
  shows "sess_invar s'"
  using assms(2)
proof (cases ev)
  case (PostChunk sid chunk)
  then show ?thesis using assms by (auto simp: sess_invar_def)
qed (use assms(1) in \<open>auto simp: guard_drop_def sess_invar_register sess_invar_remove
    split: option.splits prod.splits get_phase.splits\<close>)

lemma sess_reach_invar: "sess_reach allowed s \<Longrightarrow> sess_invar s"
  by (induction rule: sess_reach.induct)
    (auto simp: sessions_start_def sess_invar_def [of "\<lparr>ss_table = _, ss_gets = _, ss_next = _, ss_sent = _\<rparr>"]
      intro: sess_invar_step)

text \<open>Clients that do not open a second download on a path before the first one is finished.\<close>

definition one_per_path :: "session_state \<Rightarrow> session_event \<Rightarrow> bool" where
  "one_per_path s ev \<longleftrightarrow> (case ev of
     GetStart path \<Rightarrow> (\<forall>sid < ss_next s. \<forall>ph. ss_gets s sid \<noteq> Some (path, ph)) | _ \<Rightarrow> True)"

definition registered :: "session_state \<Rightarrow> bool" where
  "registered s \<longleftrightarrow>
     (\<forall>sid path. ss_gets s sid = Some (path, Serving) \<longrightarrow> ss_table s path = Some sid) \<and>
     (\<forall>i j path p q. ss_gets s i = Some (path, p) \<longrightarrow> ss_gets s j = Some (path, q) \<longrightarrow> i = j)"

lemma registered_step:
  assumes "registered s" "sess_invar s" "one_per_path s ev" "session_step s ev = Some s'"
  shows "registered s'"
proof (cases ev)
  case (GetStart path)
  have "ss_gets s i \<noteq> Some (path, ph)" for i ph
    using assms(2,3) GetStart by (cases "i < ss_next s") (auto simp: one_per_path_def sess_invar_def)
  moreover have "s' = get_register s path"
    using assms(4) GetStart by simp
  moreover have "ss_table s p = Some i" if "ss_gets s i = Some (p, Serving)" for i p
    using assms(1) that by (simp add: registered_def)
  moreover have "i = j" if "ss_gets s i = Some (p, x)" "ss_gets s j = Some (p, y)" for i j p x y
    using assms(1) that unfolding registered_def by blast
  ultimately show ?thesis
    unfolding registered_def by (auto simp: get_register_def Let_def split: if_splits)
next
  case (GetDownEnd sid)
  then obtain path where p: "ss_gets s sid = Some (path, Serving)"
    "s' = (sess_remove s path) \<lparr>ss_gets := (ss_gets s)(sid \<mapsto> (path, Draining))\<rparr>"
    using assms(4) by (auto split: option.splits prod.splits get_phase.splits)
  show ?thesis
    using assms(1) p unfolding registered_def by (auto simp: sess_remove_def)
next
  case (GetFinish sid)
  then obtain path where p: "ss_gets s sid = Some (path, Draining)" "s' = guard_drop s sid path"
    using assms(4) by (auto split: option.splits prod.splits get_phase.splits)
  show ?thesis
    using assms(1) p unfolding registered_def by (auto simp: guard_drop_def sess_remove_def)
next
  case (GetAbort sid)
  then obtain path where p: "ss_gets s sid = Some (path, Serving)" "s' = guard_drop s sid path"
    using assms(4) by (auto split: option.splits prod.splits get_phase.splits)
  show ?thesis
    using assms(1) p unfolding registered_def by (auto simp: guard_drop_def sess_remove_def)
next
  case (PostChunk sid chunk)
  then show ?thesis
    using assms(1,4) by (auto simp: registered_def)
qed

lemma sess_reach_registered: "sess_reach one_per_path s \<Longrightarrow> registered s"
proof (induction rule: sess_reach.induct)
  case sess_init
  then show ?case by (simp add: registered_def sessions_start_def)
next
  case (sess_next s ev s')
  then show ?case using registered_step sess_reach_invar by blast
qed

lemma sess_run:
  "sess_reach allowed s \<Longrightarrow> allowed s ev \<Longrightarrow> session_step s ev = Some s' \<Longrightarrow> sess_reach allowed s'"
  by (rule sess_next)

lemma get_upstream_all:
  "sk_left w = None \<Longrightarrow>
    get_upstream w (map Received cs @ [ChannelClosed]) = (\<lparr>sk_data = sk_data w @ concat cs, sk_left = None\<rparr>, True)"
  by (induction cs arbitrary: w) (auto simp: write_all_open)

lemma post_sends:
  "handle_xhttp_post padding (map BodyData cs @ [BodyEnd]) sent counter respond =
    (sent @ cs, counter + word_of_nat (length (concat cs)),
     send_frame respond
       (Response 200 (post_headers (padding (counter + word_of_nat (length (concat cs))))) True))"
  by (induction cs arbitrary: sent counter) (simp_all add: add.assoc)

lemma get_downstream_all:
  assumes "list_all (\<lambda>(draws, d). d \<noteq> [] \<and> enough_draws draws (length d)) rs"
    "gs_buf st = []" "ho_left (gs_send_stream st) = None" "last_ev = TData [] \<or> last_ev = TTimeout"
  shows "\<exists>st'. get_downstream st (map (\<lambda>(draws, d). (draws, TData d)) rs @ [([], last_ev)]) = Some (st', True) \<and>
    sent_data (gs_send_stream st') = sent_data (gs_send_stream st) @ concat (map snd rs) \<and>
    last (ho_frames (gs_send_stream st')) = DataFrame [] True"
  using assms
proof (induction rs arbitrary: st)
  case Nil
  then show ?case by (auto simp: send_frame_open sent_data_def)
next
  case (Cons r rs)
  obtain draws d where r: "r = (draws, d)" by (cases r)
  have d: "d \<noteq> []" "enough_draws draws (length d)"
    using Cons.prems(1) r by simp_all
  from send_split_data_frames [OF d(2), of "gs_send_stream st" "gs_counter st"]
  obtain out' c' fs where s: "send_split_data draws d (gs_send_stream st) (gs_counter st) = Some ([], out', c', True)"
    "ho_frames out' = ho_frames (gs_send_stream st) @ fs" "concat (map frame_data fs) = d" "ho_left out' = None"
    using Cons.prems(3) by (elim exE conjE) simp
  let ?st = "st \<lparr>gs_buf := [], gs_send_stream := out', gs_counter := c',
      gs_transferred := gs_transferred st + word_of_nat (length d)\<rparr>"
  obtain st' where st': "get_downstream ?st (map (\<lambda>(draws, d). (draws, TData d)) rs @ [([], last_ev)]) = Some (st', True)"
    "sent_data (gs_send_stream st') = sent_data out' @ concat (map snd rs)"
    "last (ho_frames (gs_send_stream st')) = DataFrame [] True"
    using Cons.IH [of ?st] Cons.prems(1,4) s(4) by auto
  have "get_downstream st (map (\<lambda>(draws, d). (draws, TData d)) (r # rs) @ [([], last_ev)]) = Some (st', True)"
    using st'(1) s(1) d(1) Cons.prems(2) by (simp add: r Let_def)
  then show ?case
    using st'(2,3) s(2,3) by (intro exI [of _ st']) (simp add: r sent_data_def)
qed

section \<open>Correctness\<close>

text \<open>C24. The idle watchdog never cuts a connection with a live stream: whenever it may fire, no stream is
  active. It does not always fire on an idle connection, though: there is a reachable state
  with no active stream in which it cannot fire, and nothing but a new event from the network
  changes that state. (The idle flag is read once at the top of the loop, when the accepted
  stream is still active, and is not read again when the stream ends.)\<close>

theorem watchdog:
  "(\<forall>c. conn_reach c \<and> conn_step c Watchdog \<noteq> None \<longrightarrow> hc_active c = 0) \<and>
   (\<exists>c. conn_reach c \<and> hc_active c = 0 \<and> hc_phase c \<noteq> Closed \<and>
     (\<forall>ev. ev \<notin> {Accept, AcceptErr, AcceptNone} \<longrightarrow> conn_step c ev = None))"
proof (intro conjI allI impI)
  fix c assume "conn_reach c \<and> conn_step c Watchdog \<noteq> None"
  then show "hc_active c = 0"
    using conn_invariant [of c] by (auto split: if_splits)
next
  let ?c = "\<lparr>hc_phase = Waiting False, hc_active = 0\<rparr>"
  have "conn_reach \<lparr>hc_phase = Waiting True, hc_active = 0\<rparr>"
    by (rule conn_next [OF conn_init, of LoopTop]) (simp add: conn_start_def)
  then have "conn_reach \<lparr>hc_phase = Top, hc_active = 1\<rparr>"
    by (rule conn_next [where ev = Accept]) simp
  then have "conn_reach \<lparr>hc_phase = Waiting False, hc_active = 1\<rparr>"
    by (rule conn_next [where ev = LoopTop]) simp
  then have "conn_reach ?c"
    by (rule conn_next [where ev = StreamDone]) simp
  moreover have "conn_step ?c ev = None" if "ev \<notin> {Accept, AcceptErr, AcceptNone}" for ev
    using that by (cases ev) simp_all
  ultimately show "\<exists>c. conn_reach c \<and> hc_active c = 0 \<and> hc_phase c \<noteq> Closed \<and>
      (\<forall>ev. ev \<notin> {Accept, AcceptErr, AcceptNone} \<longrightarrow> conn_step c ev = None)"
    by (intro exI [of _ ?c]) simp
qed

theorem watchdog_witness:
  "conn_reach \<lparr>hc_phase = Waiting True, hc_active = 0\<rparr> \<and>
   conn_step \<lparr>hc_phase = Waiting True, hc_active = 0\<rparr> Watchdog \<noteq> None \<and>
   hc_active \<lparr>hc_phase = Waiting True, hc_active = 0\<rparr> = 0"
proof -
  have r: "conn_reach \<lparr>hc_phase = Waiting True, hc_active = 0\<rparr>"
    by (rule conn_next [OF conn_init, of LoopTop]) (simp add: conn_start_def)
  moreover have "hc_active \<lparr>hc_phase = Waiting True, hc_active = 0\<rparr> = 0"
    by (rule watchdog [THEN conjunct1, rule_format]) (simp add: r)
  ultimately show ?thesis by simp
qed



text \<open>C17. The session table holds no entry of a download that is over, whatever the clients do: without
  a live download it is empty. As long as no client opens a second download on a path before the
  first one is finished, every download that is being served is found under its path. Without that
  restriction it need not be: the end of an older download removes the entry of a newer one.\<close>

theorem session_table:
  "(sess_reach allowed s \<and> ss_table s path = Some sid \<longrightarrow> (\<exists>ph. ss_gets s sid = Some (path, ph))) \<and>
   (sess_reach one_per_path t \<and> ss_gets t sid = Some (path, Serving) \<longrightarrow> ss_table t path = Some sid) \<and>
   (\<exists>u. sess_reach (\<lambda>_ _. True) u \<and> ss_gets u 1 = Some (p, Serving) \<and> ss_table u p = None)"
proof (intro conjI impI)
  show "\<exists>ph. ss_gets s sid = Some (path, ph)" if "sess_reach allowed s \<and> ss_table s path = Some sid"
    using that sess_reach_invar sess_invar_table by blast
  show "ss_table t path = Some sid" if "sess_reach one_per_path t \<and> ss_gets t sid = Some (path, Serving)"
    using that sess_reach_registered by (auto simp: registered_def)
next
  let ?A = "\<lambda>_ _. True"
  let ?s2 = "get_register (get_register sessions_start p) p"
  let ?u = "(sess_remove ?s2 p) \<lparr>ss_gets := (ss_gets ?s2)(0 \<mapsto> (p, Draining))\<rparr>"
  have "sess_reach ?A (get_register sessions_start p)"
    by (rule sess_run [OF sess_init, of _ "GetStart p"]) simp_all
  then have r: "sess_reach ?A ?s2"
    by (rule sess_run [where ev = "GetStart p"]) simp_all
  have "sess_reach ?A ?u"
    by (rule sess_run [OF r, of "GetDownEnd 0"])
      (simp_all add: get_register_def sessions_start_def Let_def)
  then show "\<exists>u. sess_reach ?A u \<and> ss_gets u 1 = Some (p, Serving) \<and> ss_table u p = None"
    by (intro exI [of _ ?u]) (simp add: get_register_def sessions_start_def sess_remove_def Let_def)
qed

theorem session_table_witness:
  "ss_table (get_register sessions_start [1]) [1] = Some 0"
proof -
  have "sess_reach one_per_path (get_register sessions_start [1])"
    by (rule sess_run [OF sess_init, of _ "GetStart [1]"]) (simp_all add: one_per_path_def sessions_start_def)
  then show ?thesis
    using session_table [where t = "get_register sessions_start [1]" and path = "[1]" and sid = 0]
    by (simp add: get_register_def sessions_start_def Let_def)
qed

text \<open>A paired connection carries the bytes of both directions unchanged. What an upload request
  sends on the channel is its body, chunk by chunk, and the download request writes exactly those bytes to
  the VLESS handler; the upload is answered once, with the size of its padding chosen by the traffic
  so far. The download response carries everything the handler produces and is closed at its end or
  after an idle period.\<close>

lemma split_transfer:
  assumes "get_response pad counter \<lparr>ho_frames = [], ho_left = None\<rparr> = Some st"
    and "list_all (\<lambda>(draws, d). d \<noteq> [] \<and> enough_draws draws (length d)) rs"
    and "last_ev = TData [] \<or> last_ev = TTimeout"
  shows "(\<exists>out. handle_xhttp_post padding (map BodyData cs @ [BodyEnd]) [] c \<lparr>ho_frames = [], ho_left = None\<rparr> =
      (cs, c + word_of_nat (length (concat cs)), Some out) \<and>
      ho_frames out = [Response 200 (post_headers (padding (c + word_of_nat (length (concat cs))))) True]) \<and>
    get_upstream open_sink (map Received cs @ [ChannelClosed]) = (\<lparr>sk_data = concat cs, sk_left = None\<rparr>, True) \<and>
    (\<exists>st'. get_downstream st (map (\<lambda>(draws, d). (draws, TData d)) rs @ [([], last_ev)]) = Some (st', True) \<and>
      sent_data (gs_send_stream st') = concat (map snd rs) \<and>
      last (ho_frames (gs_send_stream st')) = DataFrame [] True)"
proof -
  have "gs_buf st = []" "ho_left (gs_send_stream st) = None" "sent_data (gs_send_stream st) = []"
    using assms(1) by (auto simp: get_response_def send_frame_open sent_data_def)
  then show ?thesis
    using get_downstream_all [OF assms(2), of st last_ev] assms(3) get_upstream_all [of open_sink cs]
    by (simp add: post_sends send_frame_open open_sink_def)
qed

end
