(* ===== verification/Connection.thy ===== *)
theory Connection
  imports Io
begin

text \<open>
  Relaying (\<open>src/network/connection.rs\<close>): the pool of buffers, the two copy loops of a proxied
  connection, their concurrent composition, and the count of active connections. A copy loop is
  driven by the results of its reads; a relay is driven by a sequence of such results, tagged with
  the direction they belong to.
\<close>

section \<open>The buffer pool\<close>

definition BUFFER_SIZE :: nat where
  "BUFFER_SIZE = 16 * 1024"

text \<open>The pool is the stack of free buffers; a poisoned lock is treated as an empty pool.\<close>

type_synonym pool = "bytes list"

definition pool_get :: "bool \<Rightarrow> pool \<Rightarrow> bytes \<times> pool" where
  "pool_get poisoned pool =
     (if \<not> poisoned \<and> pool \<noteq> [] then (last pool, butlast pool) else (replicate BUFFER_SIZE 0, pool))"

definition pool_drop :: "bool \<Rightarrow> pool \<Rightarrow> bytes \<Rightarrow> pool" where
  "pool_drop poisoned pool buf =
     (if \<not> poisoned \<and> length pool < 512 then pool @ [buf] else pool)"

section \<open>Relaying\<close>

datatype read_result = ReadOk bytes | ReadFailed | IdleTimeout

datatype copy_status = Copying | CopyDone | CopyFailed

text \<open>One direction: the buffer, the writer, whether the writer has been shut down, and the status. A read
  of no bytes is the end of the stream; \<open>cd_shutdown_ok\<close> says whether shutting the writer down succeeds.\<close>

record copy_dir =
  cd_buf :: bytes
  cd_writer :: sink
  cd_shut :: bool
  cd_shutdown_ok :: bool
  cd_status :: copy_status

definition copy_start :: "sink \<Rightarrow> bool \<Rightarrow> copy_dir" where
  "copy_start w shutdown_ok =
     \<lparr>cd_buf = [], cd_writer = w, cd_shut = False, cd_shutdown_ok = shutdown_ok, cd_status = Copying\<rparr>"

fun copy_step :: "copy_dir \<Rightarrow> read_result \<Rightarrow> copy_dir" where
  "copy_step d ReadFailed = d \<lparr>cd_status := CopyFailed\<rparr>"
| "copy_step d IdleTimeout = d \<lparr>cd_status := CopyDone\<rparr>"
| "copy_step d (ReadOk data) =
     (if data = [] then
        (if cd_shutdown_ok d then d \<lparr>cd_shut := True, cd_status := CopyDone\<rparr>
         else d \<lparr>cd_status := CopyFailed\<rparr>)
      else
        let buf = cd_buf d @ data in
        case write_all (cd_writer d) buf of
          None \<Rightarrow> d \<lparr>cd_buf := buf, cd_status := CopyFailed\<rparr>
        | Some w \<Rightarrow> d \<lparr>cd_buf := [], cd_writer := w\<rparr>)"

record relay =
  rl_up :: copy_dir
  rl_down :: copy_dir

datatype relay_event = ClientRead read_result | RemoteRead read_result

text \<open>\<open>try_join!\<close> polls both loops until both are done or one of them fails; a loop that is done is
  not polled again.\<close>

datatype relay_result = RelayRunning | RelayOk | RelayErr

definition relay_result_of :: "relay \<Rightarrow> relay_result" where
  "relay_result_of r =
     (if cd_status (rl_up r) = CopyFailed \<or> cd_status (rl_down r) = CopyFailed then RelayErr
      else if cd_status (rl_up r) = CopyDone \<and> cd_status (rl_down r) = CopyDone then RelayOk
      else RelayRunning)"

fun relay_step :: "relay \<Rightarrow> relay_event \<Rightarrow> relay" where
  "relay_step r (ClientRead ev) =
     (if relay_result_of r = RelayRunning \<and> cd_status (rl_up r) = Copying
      then r \<lparr>rl_up := copy_step (rl_up r) ev\<rparr> else r)"
| "relay_step r (RemoteRead ev) =
     (if relay_result_of r = RelayRunning \<and> cd_status (rl_down r) = Copying
      then r \<lparr>rl_down := copy_step (rl_down r) ev\<rparr> else r)"

definition relay_start :: "sink \<Rightarrow> sink \<Rightarrow> bool \<Rightarrow> bool \<Rightarrow> relay" where
  "relay_start client remote client_shut_ok remote_shut_ok =
     \<lparr>rl_up = copy_start remote remote_shut_ok, rl_down = copy_start client client_shut_ok\<rparr>"

definition relay_run :: "relay \<Rightarrow> relay_event list \<Rightarrow> relay" where
  "relay_run r evs = foldl relay_step r evs"

section \<open>The connection manager\<close>

record connection_manager =
  active_connections :: u64

definition manager_new :: connection_manager where
  "manager_new = \<lparr>active_connections = 0\<rparr>"

definition active_count :: "connection_manager \<Rightarrow> u64" where
  "active_count m = active_connections m"

text \<open>A connection is counted from before its relay starts until after it has ended, whatever its result.\<close>

datatype manager_event = ConnectionOpened | ConnectionClosed relay_result

fun manager_step :: "connection_manager \<Rightarrow> manager_event \<Rightarrow> connection_manager" where
  "manager_step m ConnectionOpened = m \<lparr>active_connections := active_connections m + 1\<rparr>"
| "manager_step m (ConnectionClosed result) = m \<lparr>active_connections := active_connections m - 1\<rparr>"

section \<open>Specification vocabulary\<close>

fun client_reads :: "relay_event list \<Rightarrow> read_result list" where
  "client_reads [] = []"
| "client_reads (ClientRead e # es) = e # client_reads es"
| "client_reads (RemoteRead e # es) = client_reads es"

fun remote_reads :: "relay_event list \<Rightarrow> read_result list" where
  "remote_reads [] = []"
| "remote_reads (RemoteRead e # es) = e # remote_reads es"
| "remote_reads (ClientRead e # es) = remote_reads es"

text \<open>The bytes a reader delivers before its stream ends.\<close>

fun delivered :: "read_result list \<Rightarrow> bytes" where
  "delivered (ReadOk d # es) = (if d = [] then [] else d @ delivered es)"
| "delivered _ = []"

definition pool_ok :: "pool \<Rightarrow> bool" where
  "pool_ok pool \<longleftrightarrow> length pool \<le> 512 \<and> list_all (\<lambda>b. length b = BUFFER_SIZE) pool"

definition is_opened :: "manager_event \<Rightarrow> bool" where
  "is_opened ev \<longleftrightarrow> ev = ConnectionOpened"

text \<open>What a copy loop has written is a prefix of what it has read, and all of it unless it failed.\<close>

definition copied :: "bytes \<Rightarrow> read_result list \<Rightarrow> copy_dir \<Rightarrow> bool" where
  "copied w0 es d \<longleftrightarrow>
     (\<exists>k. sk_data (cd_writer d) = w0 @ take k (delivered es)) \<and>
     (cd_status d \<noteq> CopyFailed \<longrightarrow> cd_buf d = [] \<and> sk_data (cd_writer d) = w0 @ delivered es)"

definition plain_reads :: "read_result list \<Rightarrow> bool" where
  "plain_reads es \<longleftrightarrow> list_all (\<lambda>e. \<exists>d. e = ReadOk d \<and> d \<noteq> []) es"

definition dir_ok :: "bytes \<Rightarrow> bool \<Rightarrow> read_result list \<Rightarrow> copy_dir \<Rightarrow> bool" where
  "dir_ok w0 err es d \<longleftrightarrow>
     (\<exists>k. sk_data (cd_writer d) = w0 @ take k (delivered es)) \<and>
     (\<not> err \<longrightarrow> copied w0 es d \<and> (cd_status d = Copying \<longleftrightarrow> plain_reads es))"

section \<open>Copying\<close>

lemma delivered_append: "plain_reads es \<Longrightarrow> delivered (es @ fs) = delivered es @ delivered fs"
  by (induction es) (auto simp: plain_reads_def)

lemma delivered_cut: "\<not> plain_reads es \<Longrightarrow> delivered (es @ fs) = delivered es"
  by (induction es rule: delivered.induct) (auto simp: plain_reads_def)

lemma copy_step_status:
  "cd_status (copy_step d ev) = Copying \<Longrightarrow> cd_status d = Copying \<Longrightarrow> \<exists>x. ev = ReadOk x \<and> x \<noteq> []"
  by (cases ev) (auto split: if_splits)

lemma copied_step:
  assumes "copied w0 es d" "cd_status d = Copying" "plain_reads es"
  shows "copied w0 (es @ [ev]) (copy_step d ev)"
proof (cases ev)
  case (ReadOk x)
  have w: "sk_data (cd_writer d) = w0 @ delivered es" "cd_buf d = []"
    using assms(1,2) by (simp_all add: copied_def)
  have dl: "delivered (es @ [ev]) = delivered es @ x"
    using delivered_append [OF assms(3), of "[ev]"] ReadOk by simp
  have pre: "\<exists>k. delivered es = take k (delivered es @ x)"
    by (rule exI [of _ "length (delivered es)"]) simp
  show ?thesis
  proof (cases "x = [] \<or> write_all (cd_writer d) x = None")
    case True
    then show ?thesis
      using w dl pre assms(2) ReadOk by (auto simp: copied_def Let_def)
  next
    case False
    then obtain w' where w': "write_all (cd_writer d) x = Some w'" by auto
    then show ?thesis
      using False w dl ReadOk write_all_data [OF w'] by (auto simp: copied_def Let_def intro: exI [of _ "length (delivered es @ x)"])
  qed
next
  case ReadFailed
  then show ?thesis
    using assms(1,2) delivered_append [OF assms(3), of "[ev]"]
    by (auto simp: copied_def intro: exI [of _ "length (delivered es)"])
next
  case IdleTimeout
  then show ?thesis
    using assms(1,2) delivered_append [OF assms(3), of "[ev]"]
    by (auto simp: copied_def intro: exI [of _ "length (delivered es)"])
qed

lemma delivered_prefix: "\<exists>k'. take k (delivered es) = take k' (delivered (es @ fs))"
proof (cases "plain_reads es")
  case True
  then have "take k (delivered es) = take (min k (length (delivered es))) (delivered (es @ fs))"
    by (simp add: delivered_append min_def)
  then show ?thesis by blast
qed (auto simp: delivered_cut)

lemma dir_ok_ignored:
  assumes "dir_ok w0 err es d" "err \<or> cd_status d \<noteq> Copying"
  shows "dir_ok w0 err (es @ [ev]) d"
proof -
  obtain k where k: "sk_data (cd_writer d) = w0 @ take k (delivered es)"
    using assms(1) by (auto simp: dir_ok_def)
  obtain k' where "take k (delivered es) = take k' (delivered (es @ [ev]))"
    using delivered_prefix by blast
  moreover have "plain_reads (es @ [ev]) \<Longrightarrow> plain_reads es"
    by (simp add: plain_reads_def)
  ultimately show ?thesis
    using assms k by (auto simp: dir_ok_def copied_def delivered_cut)
qed

lemma dir_ok_step:
  assumes "dir_ok w0 False es d" "cd_status d = Copying"
  shows "dir_ok w0 (cd_status (copy_step d ev) = CopyFailed) (es @ [ev]) (copy_step d ev)"
proof -
  have "copied w0 (es @ [ev]) (copy_step d ev)" and p: "plain_reads es"
    using assms copied_step by (auto simp: dir_ok_def)
  moreover have "cd_status (copy_step d ev) = Copying \<longleftrightarrow> plain_reads (es @ [ev])"
    if "cd_status (copy_step d ev) \<noteq> CopyFailed"
    using that p assms(2) by (cases ev) (auto simp: plain_reads_def Let_def split: if_splits option.splits)
  ultimately show ?thesis
    by (auto simp: dir_ok_def copied_def)
qed

lemma dir_ok_err: "dir_ok w0 err es d \<Longrightarrow> dir_ok w0 True es d"
  by (simp add: dir_ok_def)

lemma reads_snoc [simp]:
  "client_reads (es @ [ClientRead e]) = client_reads es @ [e]"
  "client_reads (es @ [RemoteRead e]) = client_reads es"
  "remote_reads (es @ [RemoteRead e]) = remote_reads es @ [e]"
  "remote_reads (es @ [ClientRead e]) = remote_reads es"
  by (induction es rule: client_reads.induct) simp_all

lemma relay_result_err:
  "relay_result_of r = RelayErr \<longleftrightarrow> cd_status (rl_up r) = CopyFailed \<or> cd_status (rl_down r) = CopyFailed"
  by (simp add: relay_result_of_def)

lemma relay_run_ok:
  assumes "r = relay_run (relay_start client remote cs rs) evs"
  shows "dir_ok (sk_data remote) (relay_result_of r = RelayErr) (client_reads evs) (rl_up r) \<and>
    dir_ok (sk_data client) (relay_result_of r = RelayErr) (remote_reads evs) (rl_down r)"
  using assms
proof (induction evs arbitrary: r rule: rev_induct)
  case Nil
  then show ?case
    by (simp add: relay_run_def relay_start_def copy_start_def dir_ok_def copied_def plain_reads_def)
next
  case (snoc ev evs)
  define q where "q = relay_run (relay_start client remote cs rs) evs"
  have IH: "dir_ok (sk_data remote) (relay_result_of q = RelayErr) (client_reads evs) (rl_up q)"
    "dir_ok (sk_data client) (relay_result_of q = RelayErr) (remote_reads evs) (rl_down q)"
    using snoc.IH [OF q_def] by simp_all
  have r: "r = relay_step q ev"
    using snoc.prems by (simp add: relay_run_def q_def)
  show ?case
  proof (cases ev)
    case (ClientRead e)
    show ?thesis
    proof (cases "relay_result_of q = RelayRunning \<and> cd_status (rl_up q) = Copying")
      case True
      then show ?thesis
        using IH dir_ok_step [of "sk_data remote" "client_reads evs" "rl_up q" e]
        by (auto simp: r ClientRead relay_result_of_def split: if_splits dest: dir_ok_err)
    next
      case False
      then have "relay_result_of q = RelayErr \<or> cd_status (rl_up q) \<noteq> Copying"
        by (auto simp: relay_result_of_def split: if_splits)
      then show ?thesis
        using IH False dir_ok_ignored [OF IH(1), of e] by (auto simp: r ClientRead)
    qed
  next
    case (RemoteRead e)
    show ?thesis
    proof (cases "relay_result_of q = RelayRunning \<and> cd_status (rl_down q) = Copying")
      case True
      then show ?thesis
        using IH dir_ok_step [of "sk_data client" "remote_reads evs" "rl_down q" e]
        by (auto simp: r RemoteRead relay_result_of_def split: if_splits dest: dir_ok_err)
    next
      case False
      then have "relay_result_of q = RelayErr \<or> cd_status (rl_down q) \<noteq> Copying"
        by (auto simp: relay_result_of_def split: if_splits)
      then show ?thesis
        using IH False dir_ok_ignored [OF IH(2), of e] by (auto simp: r RemoteRead)
    qed
  qed
qed

section \<open>Correctness\<close>



text \<open>The count of active connections is the number of connections opened and not yet closed,
  whatever their order and results. The buffer pool never holds more than 512 buffers, and every
  buffer it hands out has the full size.\<close>

lemma connection_accounting:
  "active_count (foldl manager_step manager_new evs) =
     word_of_nat (length (filter is_opened evs)) - word_of_nat (length (filter (\<lambda>e. \<not> is_opened e) evs)) \<and>
   (pool_ok pool \<longrightarrow> pool_ok (snd (pool_get poisoned pool)) \<and>
      length (fst (pool_get poisoned pool)) = BUFFER_SIZE \<and>
      pool_ok (pool_drop poisoned pool (fst (pool_get poisoned pool))))"
proof (intro conjI impI)
  show "active_count (foldl manager_step manager_new evs) =
     word_of_nat (length (filter is_opened evs)) - word_of_nat (length (filter (\<lambda>e. \<not> is_opened e) evs))"
  proof (induction evs rule: rev_induct)
    case Nil
    then show ?case by (simp add: active_count_def manager_new_def)
  next
    case (snoc ev evs)
    then show ?case
      by (cases ev) (simp_all add: active_count_def is_opened_def algebra_simps)
  qed
next
  assume p: "pool_ok pool"
  show "length (fst (pool_get poisoned pool)) = BUFFER_SIZE"
    using p by (auto simp: pool_get_def pool_ok_def list_all_iff)
  then show "pool_ok (pool_drop poisoned pool (fst (pool_get poisoned pool)))"
    using p by (auto simp: pool_drop_def pool_ok_def)
  show "pool_ok (snd (pool_get poisoned pool))"
    using p by (auto simp: pool_get_def pool_ok_def list_all_iff dest: in_set_butlastD)
qed

end
