(* ===== verification/Handler.thy ===== *)
theory Handler
  imports Vless_Codec Sniffer Connection Framing
begin

text \<open>
  The VLESS session (\<open>src/handler.rs\<close>): reading the request, answering HTTP probes, sniffing the
  server name, connecting and relaying for TCP, and the datagram session for UDP. What the
  environment does (the results of reads and connection attempts, the addresses a name resolves to,
  the bytes and datagrams that arrive) is the argument of type \<open>serve_world\<close>; everything the handler
  does is in its result. A read of no bytes is the end of the stream.
\<close>

section \<open>UDP sessions\<close>

text \<open>The datagram that came with the request. Bytes behind it are dropped with the buffer.\<close>

definition udp_initial :: "bytes \<Rightarrow> bytes list" where
  "udp_initial buf =
     (if length buf \<ge> 2 then
        let len = 256 * unat (buf ! 0) + unat (buf ! 1) in
        if length buf \<ge> 2 + len then [take len (drop 2 buf)] else []
      else [])"

record udp_session =
  us_target :: socket_addr
  us_buf :: bytes
  us_sent :: "bytes list"
  us_send_left :: "nat option"
  us_client :: sink
  us_flush_ok :: bool
  us_done :: bool

text \<open>Client to network: \<open>us_buf\<close> holds the bytes of the stream not yet read by the loop.\<close>

function udp_send_loop :: "bytes \<Rightarrow> bytes list \<Rightarrow> nat option \<Rightarrow> bytes \<times> bytes list \<times> nat option \<times> bool" where
  "udp_send_loop buf sent left =
     (if length buf < 2 then (buf, sent, left, False)
      else
        let len = 256 * unat (buf ! 0) + unat (buf ! 1) in
        if len = 0 \<or> len > 16384 then (buf, sent, left, True)
        else if length buf < 2 + len then (buf, sent, left, False)
        else
          (case use_up left of
             None \<Rightarrow> (drop (2 + len) buf, sent, left, True)
           | Some left' \<Rightarrow> udp_send_loop (drop (2 + len) buf) (sent @ [take len (drop 2 buf)]) left'))"
  by pat_completeness auto
termination
  by (relation "measure (\<lambda>(buf, _). length buf)") auto

declare udp_send_loop.simps [simp del]

definition udp_frame :: "bytes \<Rightarrow> bytes" where
  "udp_frame d =
     (let n = length d in [word_of_nat (n div 256), word_of_nat (n mod 256)] @ d)"

datatype udp_event =
    ClientBytes bytes | ClientEnd | ClientTimeout
  | Datagram bytes | UdpError | UdpTimeout

fun udp_step :: "udp_session \<Rightarrow> udp_event \<Rightarrow> udp_session" where
  "udp_step s (ClientBytes d) =
     (if us_done s then s
      else
        let (buf, sent, left, stop) = udp_send_loop (us_buf s @ d) (us_sent s) (us_send_left s)
        in s \<lparr>us_buf := buf, us_sent := sent, us_send_left := left, us_done := stop\<rparr>)"
| "udp_step s ClientEnd = s \<lparr>us_done := True\<rparr>"
| "udp_step s ClientTimeout = (if length (us_buf s) < 2 then s \<lparr>us_done := True\<rparr> else s)"
| "udp_step s (Datagram d) =
     (if us_done s then s
      else
        let n = min (length d) 16384 in
        if n = 0 then s \<lparr>us_done := True\<rparr>
        else
          (case write_all (us_client s) (udp_frame (take n d)) of
             None \<Rightarrow> s \<lparr>us_done := True\<rparr>
           | Some w \<Rightarrow> s \<lparr>us_client := w, us_done := \<not> us_flush_ok s\<rparr>))"
| "udp_step s UdpError = s \<lparr>us_done := True\<rparr>"
| "udp_step s UdpTimeout = s \<lparr>us_done := True\<rparr>"

section \<open>Serving a client\<close>

datatype tcp_connect = Connected sink | ConnectErr | ConnectTimeout

record serve_world =
  sw_first_read :: read_result
  sw_client :: sink
  sw_flush_ok :: bool
  sw_sniff_read :: read_result
  sw_connect :: "rstring \<Rightarrow> tcp_connect"
  sw_client_shut_ok :: bool
  sw_remote_shut_ok :: bool
  sw_relay :: "relay_event list"
  sw_udp_bind_ok :: bool
  sw_udp_socket_ok :: bool
  sw_lookup :: "rstring \<Rightarrow> socket_addr list option"
  sw_udp_send_left :: "nat option"
  sw_udp :: "udp_event list"

datatype serve_error =
    ReadError | ReadTimeout | Refused req_error | ResponseFailed
  | ConnectFailed rstring | ConnectTimedOut rstring | InitialDataFailed rstring | RelayFailed relay
  | UdpBindFailed | UdpSocketFailed | DnsFailed rstring

datatype served =
    ClosedEarly | ProbeAnswered sink | TcpServed rstring bytes relay | UdpServed udp_session | MuxIgnored

definition is_http_probe :: "bytes \<Rightarrow> bool" where
  "is_http_probe buf \<longleftrightarrow> (contains_sub (lit ''GET '') buf \<or> contains_sub (lit ''POST'') buf)
     \<or> contains_sub (lit ''HEAD'') buf"

definition read_bytes :: "read_result \<Rightarrow> bytes" where
  "read_bytes r = (case r of ReadOk d \<Rightarrow> d | _ \<Rightarrow> [])"

text \<open>The data that came with the request, or else, when sniffing, what one more read within half a
  second brings; and the target, replaced by the sniffed name.\<close>

definition sniff_target :: "bool \<Rightarrow> rstring \<Rightarrow> bytes \<Rightarrow> read_result \<Rightarrow> (serve_error, rstring \<times> bytes) outcome" where
  "sniff_target sniffing_enabled target_address initial_data extra_read =
     (if sniffing_enabled then
        let initial_data = (if initial_data = [] then read_bytes (case extra_read of ReadOk d \<Rightarrow> ReadOk (take 16384 d) | r \<Rightarrow> r)
                            else initial_data) in
        if initial_data \<noteq> [] then
          (case sniff_tls_sni initial_data of
             Ret sni \<Rightarrow> Ret (sni @ lit '':443'', initial_data)
           | Err _ \<Rightarrow> Ret (target_address, initial_data)
           | Panic \<Rightarrow> Panic)
        else Ret (target_address, initial_data)
      else Ret (target_address, initial_data))"

definition serve_tcp :: "bool \<Rightarrow> serve_world \<Rightarrow> sink \<Rightarrow> vless_request \<Rightarrow> bytes \<Rightarrow> (serve_error, served) outcome" where
  "serve_tcp sniffing_enabled world client request buf =
     bnd (sniff_target sniffing_enabled (address_to_string (rq_address request)) buf (sw_sniff_read world))
       (\<lambda>(target_address, initial_data).
     bnd (case sw_connect world target_address of
            Connected s \<Rightarrow> Ret s
          | ConnectErr \<Rightarrow> Err (ConnectFailed target_address)
          | ConnectTimeout \<Rightarrow> Err (ConnectTimedOut target_address)) (\<lambda>remote.
     bnd (if initial_data \<noteq> [] then ok_or (InitialDataFailed target_address) (write_all remote initial_data)
          else Ret remote) (\<lambda>remote.
     let relay = relay_run (relay_start client remote (sw_client_shut_ok world) (sw_remote_shut_ok world))
                   (sw_relay world)
     in if relay_result_of relay = RelayErr then Err (RelayFailed relay)
        else Ret (TcpServed target_address initial_data relay))))"

definition serve_udp :: "serve_world \<Rightarrow> sink \<Rightarrow> vless_request \<Rightarrow> bytes \<Rightarrow> (serve_error, served) outcome" where
  "serve_udp world client request buf =
     bnd (guard (\<not> sw_udp_bind_ok world) UdpBindFailed) (\<lambda>_.
     bnd (guard (\<not> sw_udp_socket_ok world) UdpSocketFailed) (\<lambda>_.
     let target_addr = address_to_string (rq_address request) in
     bnd (case sw_lookup world target_addr of
            Some (addr # _) \<Rightarrow> Ret addr
          | _ \<Rightarrow> Err (DnsFailed target_addr)) (\<lambda>initial_target.
     let (sent, left) =
           (case use_up (sw_udp_send_left world) of
              Some left \<Rightarrow> if udp_initial buf = [] then ([], sw_udp_send_left world) else (udp_initial buf, left)
            | None \<Rightarrow> ([], sw_udp_send_left world));
         session = \<lparr>us_target = initial_target, us_buf = [], us_sent = sent, us_send_left = left,
                    us_client = client, us_flush_ok = sw_flush_ok world, us_done = False\<rparr>
     in Ret (UdpServed (foldl udp_step session (sw_udp world))))))"

definition serve_vless :: "vless_codec \<Rightarrow> bool \<Rightarrow> serve_world \<Rightarrow> (serve_error, served) outcome" where
  "serve_vless codec sniffing_enabled world =
     (case sw_first_read world of
        ReadFailed \<Rightarrow> Err ReadError
      | IdleTimeout \<Rightarrow> Err ReadTimeout
      | ReadOk buf \<Rightarrow>
          if buf = [] then Ret ClosedEarly
          else
            (case codec_decode_request codec buf of
               Panic \<Rightarrow> Panic
             | Err (e, buf) \<Rightarrow>
                 if is_http_probe buf then
                   Ret (ProbeAnswered (case write_all (sw_client world) (lit ''HTTP/1.1 204 No Content'' @ [13, 10, 13, 10])
                          of Some w \<Rightarrow> w | None \<Rightarrow> sw_client world))
                 else Err (Refused e)
             | Ret (request, buf) \<Rightarrow>
                 bnd (ok_or ResponseFailed (write_all (sw_client world) (codec_encode_response codec new_response)))
                   (\<lambda>client.
                 bnd (guard (\<not> sw_flush_ok world) ResponseFailed) (\<lambda>_.
                 case rq_command request of
                   Tcp \<Rightarrow> serve_tcp sniffing_enabled world client request buf
                 | Udp \<Rightarrow> serve_udp world client request buf
                 | Mux \<Rightarrow> Ret MuxIgnored))))"

section \<open>Specification vocabulary\<close>

text \<open>The datagram framing as an incremental parser; an error is a frame that ends the session.\<close>

definition udp_frame_step :: "(unit, unit, bytes) step_parser" where
  "udp_frame_step s buf =
     (if length buf < 2 then Ret None
      else
        let len = 256 * unat (buf ! 0) + unat (buf ! 1) in
        if len = 0 \<or> len > 16384 then Err ()
        else if length buf < 2 + len then Ret None
        else Ret (Some (take len (drop 2 buf), s, drop (2 + len) buf)))"

fun client_bytes :: "udp_event list \<Rightarrow> bytes" where
  "client_bytes [] = []"
| "client_bytes (ClientBytes d # es) = d @ client_bytes es"
| "client_bytes (_ # es) = client_bytes es"

fun datagrams :: "udp_event list \<Rightarrow> bytes list" where
  "datagrams [] = []"
| "datagrams (Datagram d # es) = d # datagrams es"
| "datagrams (_ # es) = datagrams es"

definition live_event :: "udp_event \<Rightarrow> bool" where
  "live_event e \<longleftrightarrow> (case e of ClientBytes d \<Rightarrow> True | Datagram d \<Rightarrow> d \<noteq> [] | _ \<Rightarrow> False)"

definition wf_datagram :: "bytes \<Rightarrow> bool" where
  "wf_datagram d \<longleftrightarrow> d \<noteq> [] \<and> length d \<le> 16384"

text \<open>An allowed client's TCP request with three bytes of payload, and a world that serves it.\<close>

definition sample_request :: vless_request where
  "sample_request = \<lparr>rq_version = 0, rq_uuid = replicate 16 7, rq_command = Tcp,
     rq_address = Ipv4 [127, 0, 0, 1] 80, rq_addon_length = 0\<rparr>"

definition sample_world :: serve_world where
  "sample_world = \<lparr>sw_first_read = ReadOk (encode_request sample_request @ [1, 2, 3]),
     sw_client = open_sink, sw_flush_ok = True, sw_sniff_read = IdleTimeout,
     sw_connect = (\<lambda>_. Connected open_sink), sw_client_shut_ok = True, sw_remote_shut_ok = True,
     sw_relay = [ClientRead (ReadOk [4]), RemoteRead (ReadOk [5, 6])],
     sw_udp_bind_ok = True, sw_udp_socket_ok = True, sw_lookup = (\<lambda>_. None),
     sw_udp_send_left = None, sw_udp = []\<rparr>"

section \<open>Datagram framing\<close>

lemma udp_frame_head:
  assumes "length d < 65536"
  shows "256 * unat (udp_frame d ! 0) + unat (udp_frame d ! 1) = length d"
proof -
  have "length d div 256 < 256" using assms by simp
  moreover have "length d mod 256 < 256" by simp
  ultimately have "unat (word_of_nat (length d div 256) :: u8) = length d div 256"
    "unat (word_of_nat (length d mod 256) :: u8) = length d mod 256"
    by (simp_all only: unat_of_nat_u8)
  then show ?thesis
    by (simp add: udp_frame_def Let_def)
qed

lemma length_udp_frame [simp]: "length (udp_frame d) = 2 + length d"
  by (simp add: udp_frame_def Let_def)

lemma udp_frame_step_frame:
  assumes "wf_datagram d"
  shows "udp_frame_step s (udp_frame d @ rest) = Ret (Some (d, s, rest))"
proof -
  have "drop 2 (udp_frame d @ rest) = d @ rest"
    by (simp add: udp_frame_def Let_def)
  moreover have "drop (2 + length d) (udp_frame d @ rest) = rest"
    by (metis append_eq_conv_conj length_udp_frame)
  ultimately show ?thesis
    using assms udp_frame_head [of d] by (simp add: udp_frame_step_def wf_datagram_def nth_append Let_def)
qed

lemma udp_frame_step_Some:
  assumes "udp_frame_step s buf = Ret (Some (x, s', rest))"
  defines "n \<equiv> 256 * unat (buf ! 0) + unat (buf ! 1)"
  shows "0 < n" "n \<le> 16384" "2 + n \<le> length buf" "x = take n (drop 2 buf)" "rest = drop (2 + n) buf" "s' = s"
  using assms by (auto simp: udp_frame_step_def Let_def split: if_splits)

interpretation udp_stream: incremental udp_frame_step
proof unfold_locales
  show "udp_frame_step s buf = Ret (Some (x, s', rest)) \<Longrightarrow> length rest < length buf" for s buf x s' rest
    using udp_frame_step_Some(3,5) [of s buf x s' rest] by simp
  show "udp_frame_step s (buf @ extra) = Ret (Some (x, s', rest @ extra))"
    if "udp_frame_step s buf = Ret (Some (x, s', rest))" for s buf x s' rest extra
    using that by (auto simp: udp_frame_step_def Let_def nth_append split: if_splits)
  show "udp_frame_step s buf = Err e \<Longrightarrow> udp_frame_step s (buf @ extra) = Err e" for s buf e extra
    by (auto simp: udp_frame_step_def Let_def nth_append split: if_splits)
  show "udp_frame_step s buf \<noteq> Panic" for s buf
    by (simp add: udp_frame_step_def Let_def)
  show "udp_frame_step s [] = Ret None" for s
    by (simp add: udp_frame_step_def)
qed

lemma udp_send_loop_drain:
  "drain_all udp_frame_step () buf = (ds, None, (), r) \<Longrightarrow>
    udp_send_loop buf sent None = (r, sent @ ds, None, False)"
proof (induction buf arbitrary: sent ds rule: length_induct)
  case (1 buf)
  show ?case
  proof (cases "udp_frame_step () buf")
    case (Ret m)
    show ?thesis
    proof (cases m)
      case None
      then have "ds = []" "r = buf"
        using 1(2) Ret by (simp_all add: udp_stream.drain_all_step [of "()" buf])
      then show ?thesis
        using Ret None by (subst udp_send_loop.simps) (auto simp: udp_frame_step_def Let_def split: if_splits)
    next
      case (Some y)
      then obtain x rest where y: "udp_frame_step () buf = Ret (Some (x, (), rest))"
        using Ret by (cases y) auto
      obtain xs q where q: "drain_all udp_frame_step () rest = (xs, q)" "ds = x # xs" "q = (None, (), r)"
        using 1(2) by (cases "drain_all udp_frame_step () rest")
          (simp add: udp_stream.drain_all_step [of "()" buf] y)
      define n where "n = 256 * unat (buf ! 0) + unat (buf ! 1)"
      have f: "0 < n" "n \<le> 16384" "2 + n \<le> length buf" "x = take n (drop 2 buf)" "rest = drop (2 + n) buf"
        using udp_frame_step_Some [OF y] by (simp_all add: n_def)
      have "length rest < length buf" by (rule udp_stream.progress [OF y])
      then have IH: "udp_send_loop rest (sent @ [x]) None = (r, (sent @ [x]) @ xs, None, False)"
        using 1(1) q by blast
      have "udp_send_loop buf sent None = udp_send_loop rest (sent @ [x]) None"
        using f by (subst udp_send_loop.simps) (simp add: Let_def flip: n_def One_nat_def)
      then show ?thesis
        using IH q(2) by simp
    qed
  next
    case (Err e)
    then show ?thesis using 1(2) by (simp add: udp_stream.drain_all_step [of "()" buf])
  next
    case Panic
    then show ?thesis by (simp add: udp_frame_step_def Let_def split: if_splits)
  qed
qed

lemma drain_nil: "drain_all udp_frame_step () [] = ([], None, (), [])"
  by (simp add: drain_all_def udp_frame_step_def)

lemma drain_frames:
  assumes "list_all wf_datagram ds"
  shows "drain_all udp_frame_step () (concat (map udp_frame ds)) = (ds, None, (), [])"
proof -
  have "enc_stream (\<lambda>_. udp_frame) (\<lambda>_ _. ()) () ds = concat (map udp_frame ds)"
    by (induction ds) simp_all
  moreover have "ok_stream (\<lambda>_. wf_datagram) (\<lambda>_ _. ()) () ds"
    using assms by (induction ds) simp_all
  then have "drain_all udp_frame_step () (enc_stream (\<lambda>_. udp_frame) (\<lambda>_ _. ()) () ds @ []) =
      (let (ys, q) = drain_all udp_frame_step (foldl (\<lambda>_ _. ()) () ds) [] in (ds @ ys, q))"
    by (rule udp_stream.drain_stream [rotated]) (simp add: udp_frame_step_frame)
  ultimately show ?thesis by (simp add: drain_nil)
qed

lemma client_bytes_snoc [simp]: "client_bytes (es @ [e]) = client_bytes es @ client_bytes [e]"
  by (induction es rule: client_bytes.induct) simp_all

lemma datagrams_snoc [simp]: "datagrams (es @ [e]) = datagrams es @ datagrams [e]"
  by (induction es rule: datagrams.induct) simp_all

lemma udp_session_run:
  assumes "list_all live_event evs" "\<not> us_done s" "us_buf s = []" "us_send_left s = None"
    "sk_left (us_client s) = None" "us_flush_ok s"
    "drain_all udp_frame_step () (client_bytes evs) = (ds, None, (), r)"
  shows "\<exists>s'. foldl udp_step s evs = s' \<and> \<not> us_done s' \<and> us_buf s' = r \<and> us_send_left s' = None \<and>
    us_flush_ok s' \<and> us_sent s' = us_sent s @ ds \<and>
    us_client s' = \<lparr>sk_data = sk_data (us_client s)
       @ concat (map (\<lambda>d. udp_frame (take 16384 d)) (datagrams evs)), sk_left = None\<rparr>"
  using assms(1,7)
proof (induction evs arbitrary: ds r rule: rev_induct)
  case Nil
  then show ?case
    using assms(2-6) by (simp add: drain_nil)
next
  case (snoc ev evs)
  obtain ds0 e0 r0 where d0: "drain_all udp_frame_step () (client_bytes evs) = (ds0, e0, (), r0)"
    by (cases "drain_all udp_frame_step () (client_bytes evs)") auto
  have fd: "feed udp_frame_step (ds0, e0, (), r0) (client_bytes [ev]) = (ds, None, (), r)"
    using snoc.prems(2) d0 udp_stream.drain_all_append [of "()" "client_bytes evs" "client_bytes [ev]"]
    by simp
  then have e0: "e0 = None" by (cases e0) auto
  obtain s' where s': "foldl udp_step s evs = s'" "\<not> us_done s'" "us_buf s' = r0" "us_send_left s' = None"
    "us_flush_ok s'" "us_sent s' = us_sent s @ ds0"
    "us_client s' = \<lparr>sk_data = sk_data (us_client s)
       @ concat (map (\<lambda>d. udp_frame (take 16384 d)) (datagrams evs)), sk_left = None\<rparr>"
    using snoc.IH [OF _ d0 [unfolded e0]] snoc.prems(1) by auto
  obtain ds1 r1 where d1: "drain_all udp_frame_step () (r0 @ client_bytes [ev]) = (ds1, None, (), r1)"
    "ds = ds0 @ ds1" "r = r1"
    using fd e0 by (auto split: prod.splits)
  show ?case
  proof (cases ev)
    case (ClientBytes d)
    then show ?thesis
      using s' d1 udp_send_loop_drain [of "r0 @ d" ds1 r1 "us_sent s @ ds0"] by simp
  next
    case (Datagram d)
    then have "d \<noteq> []" using snoc.prems(1) by (simp add: live_event_def)
    moreover have "ds1 = []" "r1 = r0"
      using snoc.prems(2) d0 e0 d1 Datagram by simp_all
    moreover have "min (length d) 16384 = 0 \<longleftrightarrow> d = []"
      by (auto simp: min_def)
    moreover have "take (min (length d) 16384) d = take 16384 d"
      by (auto simp: min_def)
    ultimately show ?thesis
      using s' d1(2,3) Datagram by (simp add: write_all_open Let_def)
  qed (use snoc.prems(1) in \<open>simp_all add: live_event_def\<close>)
qed

lemma udp_initial_frame: "length d < 65536 \<Longrightarrow> udp_initial (udp_frame d @ extra) = [d]"
  using udp_frame_head [of d] by (simp add: udp_initial_def Let_def nth_append) (simp add: udp_frame_def Let_def)

section \<open>Serving\<close>

lemma sniff_target_no_panic [no_panic_intros]: "no_panic (sniff_target sn t d r)"
  using sniff_no_panic unfolding sniff_target_def no_panic_def
  by (auto simp: Let_def split: outcome.splits)

lemma serve_vless_no_panic: "no_panic (serve_vless codec sn world)"
proof -
  have "codec_decode_request codec buf \<noteq> Panic" for buf
    using decode_request_no_panic by (simp add: codec_decode_request_def no_panic_def)
  then show ?thesis
    unfolding serve_vless_def serve_tcp_def serve_udp_def
    by (auto simp: Let_def split: read_result.splits outcome.splits command.splits tcp_connect.splits
        option.splits list.splits prod.splits intro!: no_panic_intros)
qed

text \<open>What it takes to be served.\<close>

lemma serve_vless_accepted:
  assumes "serve_vless codec sn world = Ret res" "res \<noteq> ClosedEarly" "\<And>w. res \<noteq> ProbeAnswered w"
  shows "\<exists>buf request rest client. sw_first_read world = ReadOk buf \<and>
    codec_decode_request codec buf = Ret (request, rest) \<and>
    write_all (sw_client world) (codec_encode_response codec new_response) = Some client \<and>
    (case rq_command request of
       Tcp \<Rightarrow> serve_tcp sn world client request rest = Ret res
     | Udp \<Rightarrow> serve_udp world client request rest = Ret res
     | Mux \<Rightarrow> res = MuxIgnored)"
  using assms unfolding serve_vless_def
  by (auto simp: bnd_Ret_iff split: read_result.splits outcome.splits command.splits if_splits prod.splits)

lemma serve_tcp_served:
  assumes "serve_tcp sn world client request rest = Ret res"
  shows "\<exists>target init remote remote' relay. res = TcpServed target init relay \<and>
    sniff_target sn (address_to_string (rq_address request)) rest (sw_sniff_read world) = Ret (target, init) \<and>
    sw_connect world target = Connected remote \<and>
    (if init = [] then remote' = remote else write_all remote init = Some remote') \<and>
    relay = relay_run (relay_start client remote' (sw_client_shut_ok world) (sw_remote_shut_ok world))
      (sw_relay world) \<and> relay_result_of relay \<noteq> RelayErr"
proof -
  obtain target init where t: "sniff_target sn (address_to_string (rq_address request)) rest
      (sw_sniff_read world) = Ret (target, init)"
    using assms unfolding serve_tcp_def by (auto simp: bnd_Ret_iff)
  obtain remote where c: "sw_connect world target = Connected remote"
    using assms t unfolding serve_tcp_def by (cases "sw_connect world target") auto
  obtain remote' where r: "if init = [] then remote' = remote else write_all remote init = Some remote'"
    using assms t c unfolding serve_tcp_def by (cases "init = []"; cases "write_all remote init") auto
  then show ?thesis
    using assms t c unfolding serve_tcp_def
    by (cases "init = []") (auto simp: Let_def split: if_splits)
qed

lemma sniff_target_spec:
  "sniff_target sn addr rest r = Ret (target, init) \<Longrightarrow>
    (rest \<noteq> [] \<longrightarrow> init = rest) \<and>
    (target = addr \<or> sn \<and> (\<exists>sni. sniff_tls_sni init = Ret sni \<and> target = sni @ lit '':443''))"
  by (auto simp: sniff_target_def Let_def split: if_splits outcome.splits)

lemma response_bytes: "codec_encode_response codec new_response = [0, 0]"
  by (simp add: codec_encode_response_def encode_response_def new_response_def VLESS_VERSION_def)

lemma serve_vless_tcp:
  assumes "wf_request (allowed_uuids codec) r" "rq_command r = Tcp"
    and "sw_first_read world = ReadOk (encode_request r @ payload)" "payload \<noteq> []"
    and "write_all (sw_client world) [0, 0] = Some client" "sw_flush_ok world"
    and "sw_connect world (address_to_string (rq_address r)) = Connected remote"
    and "write_all remote payload = Some remote'"
  defines "relay \<equiv> relay_run (relay_start client remote' (sw_client_shut_ok world) (sw_remote_shut_ok world))
     (sw_relay world)"
  shows "serve_vless codec False world =
    (if relay_result_of relay = RelayErr then Err (RelayFailed relay)
     else Ret (TcpServed (address_to_string (rq_address r)) payload relay))"
proof -
  have "codec_decode_request codec (encode_request r @ payload) = Ret (r, payload)"
    by (simp add: codec_decode_request_def decode_encode_request [OF assms(1)])
  then show ?thesis
    using assms(2-8)
    by (simp add: serve_vless_def response_bytes serve_tcp_def sniff_target_def Let_def relay_def)
qed

lemma sample_served:
  "\<exists>relay. serve_vless (codec_new [replicate 16 7]) False sample_world =
     Ret (TcpServed (address_to_string (Ipv4 [127, 0, 0, 1] 80)) [1, 2, 3] relay)"
proof -
  have "wf_request (allowed_uuids (codec_new [replicate 16 7])) sample_request"
    by (simp add: wf_request_def sample_request_def codec_new_def VLESS_VERSION_def)
  from serve_vless_tcp [OF this, of sample_world "[1, 2, 3]" "\<lparr>sk_data = [0, 0], sk_left = None\<rparr>" open_sink
      "\<lparr>sk_data = [1, 2, 3], sk_left = None\<rparr>"]
  show ?thesis
    by (simp add: sample_world_def sample_request_def open_sink_def write_all_open relay_run_def
        relay_start_def copy_start_def relay_result_of_def Let_def)
qed

section \<open>Correctness\<close>

text \<open>C5. A VLESS session never panics, and serves only allowed clients: whenever a session is served
  (TCP, UDP or multiplexing), the first bytes read were a request in the layout of the protocol with
  the UUID of an allowed client, and the client was sent the two-byte response.\<close>

theorem session_authorized:
  "serve_vless codec sn world \<noteq> Panic \<and>
   (serve_vless codec sn world = Ret res \<and> (\<exists>t i r s. res = TcpServed t i r \<or> res = UdpServed s \<or> res = MuxIgnored) \<longrightarrow>
     (\<exists>buf request rest. sw_first_read world = ReadOk buf \<and>
        request_layout (allowed_uuids codec) request rest buf \<and>
        validate_uuid codec (rq_uuid request) \<and>
        (\<exists>w. write_all (sw_client world) [0, 0] = Some w)))"
proof (intro conjI impI)
  show "serve_vless codec sn world \<noteq> Panic"
    using serve_vless_no_panic by (simp add: no_panic_def)
next
  assume a: "serve_vless codec sn world = Ret res \<and> (\<exists>t i r s. res = TcpServed t i r \<or> res = UdpServed s \<or> res = MuxIgnored)"
  then obtain buf request rest client where "sw_first_read world = ReadOk buf"
    "codec_decode_request codec buf = Ret (request, rest)"
    "write_all (sw_client world) [0, 0] = Some client"
    using serve_vless_accepted [of codec sn world res] by (auto simp: response_bytes)
  then show "\<exists>buf request rest. sw_first_read world = ReadOk buf \<and>
      request_layout (allowed_uuids codec) request rest buf \<and> validate_uuid codec (rq_uuid request) \<and>
      (\<exists>w. write_all (sw_client world) [0, 0] = Some w)"
    by (auto simp: codec_decode_request_def decode_request_iff validate_uuid_def request_layout_def)
qed

theorem session_authorized_witness:
  "\<exists>target relay. serve_vless (codec_new [replicate 16 7]) False sample_world =
     Ret (TcpServed target [1, 2, 3] relay) \<and> validate_uuid (codec_new [replicate 16 7]) (replicate 16 7)"
proof -
  obtain target relay where s: "serve_vless (codec_new [replicate 16 7]) False sample_world =
      Ret (TcpServed target [1, 2, 3] relay)"
    using sample_served by blast
  then show ?thesis
    using session_authorized [of "codec_new [replicate 16 7]" False sample_world "TcpServed target [1, 2, 3] relay"]
    by (auto simp: validate_uuid_def codec_new_def)
qed





text \<open>C13. Datagrams survive the byte stream: however the client's bytes are cut into reads and interleaved
  with datagrams from the network, the framed datagrams the client sends after its request are sent
  out one by one, and every datagram from the network (cut at 16384 bytes) is framed back to the
  client. Of the bytes that arrive together with the request, however, only the first datagram is
  sent; whatever follows it in that read is lost.\<close>

theorem udp_session_exact:
  assumes "list_all live_event evs" "client_bytes evs = concat (map udp_frame ds)" "list_all wf_datagram ds"
    and "s = \<lparr>us_target = t, us_buf = [], us_sent = udp_initial buf, us_send_left = None,
              us_client = c, us_flush_ok = True, us_done = False\<rparr>" "sk_left c = None"
    and "length d < 65536"
  shows "us_sent (foldl udp_step s evs) = udp_initial buf @ ds \<and>
    sk_data (us_client (foldl udp_step s evs)) =
      sk_data c @ concat (map (\<lambda>d. udp_frame (take 16384 d)) (datagrams evs)) \<and>
    udp_initial (udp_frame d @ extra) = [d]"
proof -
  have "drain_all udp_frame_step () (client_bytes evs) = (ds, None, (), [])"
    using drain_frames [OF assms(3)] assms(2) by simp
  then show ?thesis
    using udp_session_run [OF assms(1), of s ds "[]"] assms(4,5) udp_initial_frame [OF assms(6)] by auto
qed

theorem udp_session_exact_witness:
  "us_sent (foldl udp_step \<lparr>us_target = \<lparr>sa_ip = V4 [1, 1, 1, 1], sa_port = 53\<rparr>, us_buf = [],
        us_sent = udp_initial [], us_send_left = None, us_client = open_sink, us_flush_ok = True,
        us_done = False\<rparr> [ClientBytes [0], Datagram [9], ClientBytes [2, 7, 8]]) = [[7, 8]]"
  using udp_session_exact [of "[ClientBytes [0], Datagram [9], ClientBytes [2, 7, 8]]" "[[7, 8]]"
      _ "\<lparr>sa_ip = V4 [1, 1, 1, 1], sa_port = 53\<rparr>" "[]" open_sink "[]"]
  by (simp add: live_event_def udp_frame_def wf_datagram_def open_sink_def udp_initial_def)

end
