(* ===== verification/Tls_Crypto.thy ===== *)
theory Tls_Crypto
  imports Reality_Auth
begin

text \<open>
  The TLS 1.3 key schedule and record protection of \<open>src/transport/reality/crypto.rs\<close>. The primitives
  it takes from the \<open>ring\<close> and \<open>x25519_dalek\<close> packages are the fields of one record; a key of
  the AEAD is its bytes, and so is a pseudo-random key of HKDF. What the theorems need of the primitives is stated
  as predicates on the record: the standards that define them.
\<close>

section \<open>Primitives\<close>

record prims =
  sha256 :: "bytes \<Rightarrow> bytes"
  hmac_sha256 :: "bytes \<Rightarrow> bytes \<Rightarrow> bytes"
  hkdf_extract :: "bytes \<Rightarrow> bytes \<Rightarrow> bytes"
  hkdf_expand :: "bytes \<Rightarrow> bytes \<Rightarrow> nat \<Rightarrow> bytes option"
  aead_seal :: "bytes \<Rightarrow> bytes \<Rightarrow> bytes \<Rightarrow> bytes \<Rightarrow> bytes option"
  aead_open :: "bytes \<Rightarrow> bytes \<Rightarrow> bytes \<Rightarrow> bytes \<Rightarrow> bytes option"
  x25519 :: "bytes \<Rightarrow> bytes \<Rightarrow> bytes"
  x25519_base :: "bytes \<Rightarrow> bytes"

datatype crypto_error = NonceErr | EncryptFail | DecryptionFailed | EmptyPlaintext
  | HkdfExpandFailed | ManualHkdfLimit | UnboundKeyFailed | BadPublicKeyLength

section \<open>Transcript and key agreement\<close>

definition hash_transcript :: "prims \<Rightarrow> bytes list \<Rightarrow> bytes" where
  "hash_transcript c messages = sha256 c (concat messages)"

record reality_crypto =
  my_secret :: bytes

definition reality_crypto_new :: "bytes \<Rightarrow> reality_crypto" where
  "reality_crypto_new random = \<lparr>my_secret = random\<rparr>"

definition get_public_key :: "prims \<Rightarrow> reality_crypto \<Rightarrow> bytes" where
  "get_public_key c self = x25519_base c (my_secret self)"

definition derive_shared_secret :: "prims \<Rightarrow> reality_crypto \<Rightarrow> bytes \<Rightarrow> (crypto_error, bytes) outcome" where
  "derive_shared_secret c self peer_public_bytes =
     bnd (guard (length peer_public_bytes \<noteq> 32) BadPublicKeyLength) (\<lambda>_.
     Ret (x25519 c (my_secret self) peer_public_bytes))"

section \<open>Labelled expansion\<close>

definition label_info :: "bytes \<Rightarrow> bytes \<Rightarrow> nat \<Rightarrow> bytes" where
  "label_info label context len =
     (let full_label = lit ''tls13 '' @ label in
      u16_be (word_of_nat len) @ [word_of_nat (length full_label)] @ full_label
        @ [word_of_nat (length context)] @ context)"

definition expand_label :: "prims \<Rightarrow> bytes \<Rightarrow> bytes \<Rightarrow> bytes \<Rightarrow> nat \<Rightarrow> (crypto_error, bytes) outcome" where
  "expand_label c prk label context len =
     ok_or HkdfExpandFailed (hkdf_expand c prk (label_info label context len) len)"

definition manual_hkdf_expand :: "prims \<Rightarrow> bytes \<Rightarrow> bytes \<Rightarrow> nat \<Rightarrow> (crypto_error, bytes) outcome" where
  "manual_hkdf_expand c secret info len =
     bnd (guard (len > 32) ManualHkdfLimit) (\<lambda>_.
     let tag = hmac_sha256 c secret (info @ [0x01]) in
     slice tag 0 len)"

definition expand_label_raw :: "prims \<Rightarrow> bytes \<Rightarrow> bytes \<Rightarrow> bytes \<Rightarrow> nat \<Rightarrow> (crypto_error, bytes) outcome" where
  "expand_label_raw c secret label context len =
     manual_hkdf_expand c secret (label_info label context len) len"

definition derive_key_iv :: "prims \<Rightarrow> bytes \<Rightarrow> (crypto_error, bytes \<times> bytes) outcome" where
  "derive_key_iv c secret =
     bnd (expand_label_raw c secret (lit ''key'') [] 16) (\<lambda>key_bytes.
     bnd (guard (length key_bytes \<noteq> 16) UnboundKeyFailed) (\<lambda>_.
     bnd (expand_label_raw c secret (lit ''iv'') [] 12) (\<lambda>iv_bytes.
     bnd (copy_exact 12 iv_bytes) (\<lambda>iv.
     Ret (key_bytes, iv)))))"

text \<open>The constant vector of 32 bytes, four at a time.\<close>

definition hash_empty :: bytes where
  "hash_empty = concat (map u32_be
     [0xe3b0c442, 0x98fc1c14, 0x9afbf4c8, 0x996fb924, 0x27ae41e4, 0x649b934c, 0xa495991b, 0x7852b855])"

section \<open>The key schedule\<close>

record tls_keys =
  client_write_key :: bytes
  server_write_key :: bytes
  client_iv :: bytes
  server_iv :: bytes
  client_traffic_secret :: bytes
  server_traffic_secret :: bytes

definition derive_handshake_keys ::
  "prims \<Rightarrow> bytes \<Rightarrow> bytes \<Rightarrow> (crypto_error, tls_keys \<times> bytes) outcome" where
  "derive_handshake_keys c shared_secret hello_hash =
     (let early_secret = hkdf_extract c (replicate 32 0) (replicate 32 0) in
      bnd (expand_label c early_secret (lit ''derived'') hash_empty 32) (\<lambda>derived_secret.
      let handshake_secret = hkdf_extract c derived_secret shared_secret in
      bnd (expand_label c handshake_secret (lit ''c hs traffic'') hello_hash 32) (\<lambda>client_hs_secret.
      bnd (expand_label c handshake_secret (lit ''s hs traffic'') hello_hash 32) (\<lambda>server_hs_secret.
      bnd (derive_key_iv c client_hs_secret) (\<lambda>client_keys.
      bnd (derive_key_iv c server_hs_secret) (\<lambda>server_keys.
      Ret (\<lparr>client_write_key = fst client_keys, server_write_key = fst server_keys,
             client_iv = snd client_keys, server_iv = snd server_keys,
             client_traffic_secret = client_hs_secret,
             server_traffic_secret = server_hs_secret\<rparr>,
           handshake_secret)))))))"

definition derive_application_keys ::
  "prims \<Rightarrow> bytes \<Rightarrow> bytes \<Rightarrow> (crypto_error, tls_keys) outcome" where
  "derive_application_keys c handshake_secret handshake_hash =
     bnd (expand_label c handshake_secret (lit ''derived'') hash_empty 32) (\<lambda>derived_secret.
     let master_secret = hkdf_extract c derived_secret (replicate 32 0) in
     bnd (expand_label c master_secret (lit ''c ap traffic'') handshake_hash 32) (\<lambda>client_app_secret.
     bnd (expand_label c master_secret (lit ''s ap traffic'') handshake_hash 32) (\<lambda>server_app_secret.
     bnd (derive_key_iv c client_app_secret) (\<lambda>client_keys.
     bnd (derive_key_iv c server_app_secret) (\<lambda>server_keys.
     Ret \<lparr>client_write_key = fst client_keys, server_write_key = fst server_keys,
          client_iv = snd client_keys, server_iv = snd server_keys,
          client_traffic_secret = client_app_secret,
          server_traffic_secret = server_app_secret\<rparr>)))))"

definition calculate_verify_data :: "prims \<Rightarrow> bytes \<Rightarrow> bytes \<Rightarrow> (crypto_error, bytes) outcome" where
  "calculate_verify_data c traffic_secret_bytes handshake_hash =
     bnd (expand_label_raw c traffic_secret_bytes (lit ''finished'') [] 32) (\<lambda>finished_key.
     Ret (hmac_sha256 c finished_key handshake_hash))"

section \<open>Record protection\<close>

text \<open>The loop that fills \<open>nonce_bytes\<close>: the sequence number, padded on the left, xor the IV.\<close>

definition nonce_bytes :: "bytes \<Rightarrow> u64 \<Rightarrow> bytes" where
  "nonce_bytes iv seq = map2 (XOR) iv (replicate 4 0 @ u64_be seq)"

definition tag_len :: nat where
  "tag_len = 16"

definition record_header :: "nat \<Rightarrow> bytes" where
  "record_header encrypted_len = [23, 0x03, 0x03] @ u16_be (word_of_nat encrypted_len)"

definition encrypt_server_record ::
  "prims \<Rightarrow> tls_keys \<Rightarrow> u64 \<Rightarrow> bytes \<Rightarrow> u8 \<Rightarrow> (crypto_error, bytes) outcome" where
  "encrypt_server_record c self seq plaintext content_type =
     (let nonce = nonce_bytes (server_iv self) seq in
      bnd (guard (length nonce \<noteq> 12) NonceErr) (\<lambda>_.
      let buffer = plaintext @ [content_type];
          encrypted_len = length buffer + tag_len;
          header = record_header encrypted_len in
      bnd (ok_or EncryptFail (aead_seal c (server_write_key self) nonce header buffer)) (\<lambda>sealed.
      Ret (header @ sealed))))"

text \<open>The scan for the content type, from the end over zero padding: an index of the plaintext.\<close>

fun scan_type :: "bytes \<Rightarrow> nat \<Rightarrow> nat" where
  "scan_type buf 0 = 0"
| "scan_type buf (Suc i) = (if buf ! Suc i = 0 then scan_type buf i else Suc i)"

text \<open>\<open>open_in_place\<close> puts the plaintext at the front of the buffer; the call returns the content
  type, the length of the content, and the buffer it has changed.\<close>

definition decrypt_client_record ::
  "prims \<Rightarrow> tls_keys \<Rightarrow> u64 \<Rightarrow> bytes \<Rightarrow> bytes \<Rightarrow> (crypto_error, u8 \<times> nat \<times> bytes) outcome" where
  "decrypt_client_record c self seq header ciphertext =
     (let nonce = nonce_bytes (client_iv self) seq in
      bnd (guard (length nonce \<noteq> 12) NonceErr) (\<lambda>_.
      bnd (ok_or DecryptionFailed (aead_open c (client_write_key self) nonce header ciphertext)) (\<lambda>plaintext.
      let plaintext_len = length plaintext;
          buffer = plaintext @ drop plaintext_len ciphertext in
      bnd (guard (plaintext_len = 0) EmptyPlaintext) (\<lambda>_.
      let scan_idx = scan_type buffer (plaintext_len - 1) in
      Ret (buffer ! scan_idx, scan_idx, buffer)))))"

section \<open>The standards the primitives follow\<close>

text \<open>HKDF (RFC 5869) over HMAC-SHA256, for outputs of at most one block.\<close>

definition hkdf_laws :: "prims \<Rightarrow> bool" where
  "hkdf_laws c \<longleftrightarrow>
     (\<forall>k m. length (hmac_sha256 c k m) = 32) \<and>
     (\<forall>salt ikm. hkdf_extract c salt ikm = hmac_sha256 c salt ikm) \<and>
     (\<forall>prk info len. len \<le> 32 \<longrightarrow> hkdf_expand c prk info len = Some (take len (hmac_sha256 c prk (info @ [1]))))"

text \<open>AES-GCM: sealing is deterministic and always possible below the limit of the mode, adds a tag of 16 bytes,
  and a ciphertext opens only to the text it was sealed from.\<close>

definition aead_laws :: "prims \<Rightarrow> bool" where
  "aead_laws c \<longleftrightarrow>
     (\<forall>k n a p s. aead_open c k n a s = Some p \<longleftrightarrow> aead_seal c k n a p = Some s) \<and>
     (\<forall>k n a p. length n = 12 \<longrightarrow> length p \<le> 68719476704 \<longrightarrow>
        (\<exists>s. aead_seal c k n a p = Some s \<and> length s = length p + 16))"

section \<open>The key schedule of RFC 8446, section 7.1\<close>

definition vec8 :: "bytes \<Rightarrow> bytes" where
  "vec8 v = word_of_nat (length v) # v"

definition hkdf_label :: "nat \<Rightarrow> bytes \<Rightarrow> bytes \<Rightarrow> bytes" where
  "hkdf_label len label context = u16_be (word_of_nat len) @ vec8 (lit ''tls13 '' @ label) @ vec8 context"

definition hkdf_expand_label :: "prims \<Rightarrow> bytes \<Rightarrow> bytes \<Rightarrow> bytes \<Rightarrow> nat \<Rightarrow> bytes" where
  "hkdf_expand_label c secret label context len =
     take len (hmac_sha256 c secret (hkdf_label len label context @ [1]))"

definition derive_secret :: "prims \<Rightarrow> bytes \<Rightarrow> bytes \<Rightarrow> bytes \<Rightarrow> bytes" where
  "derive_secret c secret label messages = hkdf_expand_label c secret label (sha256 c messages) 32"

definition traffic_keys :: "prims \<Rightarrow> bytes \<Rightarrow> bytes \<Rightarrow> tls_keys" where
  "traffic_keys c client server =
     \<lparr>client_write_key = hkdf_expand_label c client (lit ''key'') [] 16,
      server_write_key = hkdf_expand_label c server (lit ''key'') [] 16,
      client_iv = hkdf_expand_label c client (lit ''iv'') [] 12,
      server_iv = hkdf_expand_label c server (lit ''iv'') [] 12,
      client_traffic_secret = client, server_traffic_secret = server\<rparr>"

definition handshake_secret_of :: "prims \<Rightarrow> bytes \<Rightarrow> bytes" where
  "handshake_secret_of c dhe =
     hmac_sha256 c (derive_secret c (hmac_sha256 c (replicate 32 0) (replicate 32 0)) (lit ''derived'') []) dhe"

definition master_secret_of :: "prims \<Rightarrow> bytes \<Rightarrow> bytes" where
  "master_secret_of c dhe =
     hmac_sha256 c (derive_secret c (handshake_secret_of c dhe) (lit ''derived'') []) (replicate 32 0)"

definition finished_of :: "prims \<Rightarrow> bytes \<Rightarrow> bytes \<Rightarrow> bytes" where
  "finished_of c secret messages =
     hmac_sha256 c (hkdf_expand_label c secret (lit ''finished'') [] 32) (sha256 c messages)"

text \<open>Functions with the shape of the primitives, on which the theorems are evaluated.\<close>

definition sample_tag :: "bytes \<Rightarrow> bytes \<Rightarrow> bytes \<Rightarrow> bytes \<Rightarrow> bytes" where
  "sample_tag k n a p = take 16 (sample_mac (k @ n) (a @ p))"

definition sample_prims :: prims where
  "sample_prims =
     \<lparr>sha256 = (\<lambda>m. if m = [] then hash_empty else take 32 (m @ replicate 32 0)),
      hmac_sha256 = sample_mac, hkdf_extract = sample_mac,
      hkdf_expand = (\<lambda>prk info len. if len \<le> 32 then Some (take len (sample_mac prk (info @ [1]))) else None),
      aead_seal = (\<lambda>k n a p. Some (p @ sample_tag k n a p)),
      aead_open = (\<lambda>k n a s. let p = take (length s - 16) s in
        if 16 \<le> length s \<and> drop (length s - 16) s = sample_tag k n a p then Some p else None),
      x25519 = (\<lambda>a b. map2 (XOR) a b), x25519_base = (\<lambda>a. a)\<rparr>"

definition sample_keys :: tls_keys where
  "sample_keys = traffic_keys sample_prims [1, 2] [3, 4]"

text \<open>The keys as the other end of the connection holds them.\<close>

definition mirror :: "tls_keys \<Rightarrow> tls_keys" where
  "mirror k = \<lparr>client_write_key = server_write_key k, server_write_key = client_write_key k,
     client_iv = server_iv k, server_iv = client_iv k,
     client_traffic_secret = server_traffic_secret k, server_traffic_secret = client_traffic_secret k\<rparr>"

definition keys_wf :: "tls_keys \<Rightarrow> bool" where
  "keys_wf k \<longleftrightarrow> length (client_iv k) = 12 \<and> length (server_iv k) = 12
     \<and> length (client_write_key k) = 16 \<and> length (server_write_key k) = 16"

section \<open>Lemmas on the key schedule\<close>

lemma sample_hkdf_laws: "hkdf_laws sample_prims"
  by (simp add: hkdf_laws_def sample_prims_def)

lemma sample_aead_laws: "aead_laws sample_prims"
  unfolding aead_laws_def sample_prims_def
  by (auto simp: Let_def sample_tag_def)
    (metis append_take_drop_id)

lemma expand_label_rfc:
  assumes "hkdf_laws c" "len \<le> 32"
  shows "expand_label c prk label context len = Ret (hkdf_expand_label c prk label context len)"
  using assms by (simp add: expand_label_def hkdf_laws_def hkdf_expand_label_def label_info_def hkdf_label_def vec8_def)

lemma expand_label_raw_rfc:
  assumes "hkdf_laws c" "len \<le> 32"
  shows "expand_label_raw c prk label context len = Ret (hkdf_expand_label c prk label context len)"
  using assms
  by (simp add: expand_label_raw_def manual_hkdf_expand_def hkdf_laws_def hkdf_expand_label_def
      label_info_def hkdf_label_def vec8_def slice_def)

lemma hkdf_extract_rfc: "hkdf_laws c \<Longrightarrow> hkdf_extract c salt ikm = hmac_sha256 c salt ikm"
  by (simp add: hkdf_laws_def)

lemma length_hkdf_expand_label: "hkdf_laws c \<Longrightarrow> len \<le> 32 \<Longrightarrow> length (hkdf_expand_label c s l x len) = len"
  by (simp add: hkdf_expand_label_def hkdf_laws_def)

lemma derive_key_iv_rfc:
  assumes "hkdf_laws c"
  shows "derive_key_iv c s = Ret (hkdf_expand_label c s (lit ''key'') [] 16, hkdf_expand_label c s (lit ''iv'') [] 12)"
  using assms by (simp add: derive_key_iv_def expand_label_raw_rfc length_hkdf_expand_label copy_exact_def)

lemma traffic_keys_wf: "hkdf_laws c \<Longrightarrow> keys_wf (traffic_keys c cs ss)"
  by (simp add: keys_wf_def traffic_keys_def length_hkdf_expand_label)

lemmas schedule_simps = derive_handshake_keys_def derive_application_keys_def calculate_verify_data_def
  hkdf_extract_rfc expand_label_rfc expand_label_raw_rfc derive_key_iv_rfc derive_secret_def traffic_keys_def
  handshake_secret_of_def master_secret_of_def finished_of_def Let_def

lemma handshake_keys_rfc:
  assumes "hkdf_laws c" "sha256 c [] = hash_empty"
  shows "derive_handshake_keys c dhe (sha256 c hello) =
    Ret (traffic_keys c (derive_secret c (handshake_secret_of c dhe) (lit ''c hs traffic'') hello)
           (derive_secret c (handshake_secret_of c dhe) (lit ''s hs traffic'') hello),
         handshake_secret_of c dhe)"
  using assms by (simp add: schedule_simps)

lemma application_keys_rfc:
  assumes "hkdf_laws c" "sha256 c [] = hash_empty"
  shows "derive_application_keys c (handshake_secret_of c dhe) (sha256 c hs) =
    Ret (traffic_keys c (derive_secret c (master_secret_of c dhe) (lit ''c ap traffic'') hs)
           (derive_secret c (master_secret_of c dhe) (lit ''s ap traffic'') hs))"
  using assms by (simp add: schedule_simps)

lemma verify_data_rfc:
  assumes "hkdf_laws c"
  shows "calculate_verify_data c secret (sha256 c messages) = Ret (finished_of c secret messages)"
  using assms by (simp add: schedule_simps)

section \<open>Lemmas on record protection\<close>

lemma length_nonce_bytes [simp]: "length (nonce_bytes iv seq) = min (length iv) 12"
  by (simp add: nonce_bytes_def)

lemma u64_be_inject: "u64_be a = u64_be b \<longleftrightarrow> a = b"
proof
  assume eq: "u64_be a = u64_be b"
  show "a = b"
  proof (rule bit_word_eqI)
    fix n assume n: "n < LENGTH(64)"
    define m k where "m = n div 8" and "k = n mod 8"
    have mk: "n = 8 * m + k" "m \<in> {0, 1, 2, 3, 4, 5, 6, 7}" "k < 8"
      using n by (auto simp: m_def k_def)
    have "bit (u64_be w ! (7 - m)) k = bit w (8 * m + k)" for w
      using mk(2,3) by (auto simp: u64_be_def bit_simps)
    then show "bit a n = bit b n" using eq mk(1) by metis
  qed
qed simp

lemma xor_cancel_left: "(x :: u8) XOR a = x XOR b \<longleftrightarrow> a = b"
  by (metis xor.left_commute xor.assoc xor_self_eq xor.left_neutral)

lemma map2_xor_inject:
  "length a = length iv \<Longrightarrow> length b = length iv \<Longrightarrow>
    map2 (XOR) (iv :: bytes) a = map2 (XOR) iv b \<longleftrightarrow> a = b"
proof (induction iv arbitrary: a b)
  case (Cons x iv)
  then show ?case
    by (cases a; cases b) (auto simp: xor_cancel_left)
qed simp

lemma nonce_bytes_inject: "length iv = 12 \<Longrightarrow> nonce_bytes iv s = nonce_bytes iv t \<longleftrightarrow> s = t"
  by (simp add: nonce_bytes_def map2_xor_inject u64_be_inject)

lemma scan_type_le: "scan_type buf i \<le> i"
  by (induction i) auto

lemma scan_type_last:
  "i < length buf \<Longrightarrow> scan_type buf i = j \<longleftrightarrow>
    j \<le> i \<and> (\<forall>l. j < l \<longrightarrow> l \<le> i \<longrightarrow> buf ! l = 0) \<and> (buf ! j \<noteq> 0 \<or> j = 0)"
proof (induction i)
  case (Suc i)
  then show ?case by (auto simp: le_Suc_eq) (metis le_imp_less_Suc)
qed auto

lemma inner_text_unique:
  assumes "plaintext = content @ [t] @ replicate pad 0" "t \<noteq> 0 \<or> content = []"
  shows "scan_type (plaintext @ extra) (length plaintext - 1) = length content"
  using assms by (subst scan_type_last) (auto simp: nth_append)

lemma inner_text_ex:
  assumes "plaintext \<noteq> []"
  shows "\<exists>content t pad. plaintext = content @ [t] @ replicate pad 0 \<and> (t \<noteq> 0 \<or> content = [])"
  using assms
proof (induction plaintext rule: rev_induct)
  case (snoc x xs)
  show ?case
  proof (cases "x \<noteq> 0 \<or> xs = []")
    case True
    then have "xs @ [x] = xs @ [x] @ replicate 0 0 \<and> (x \<noteq> 0 \<or> xs = [])" by simp
    then show ?thesis by blast
  next
    case False
    then obtain content t pad where "xs = content @ [t] @ replicate pad 0" "t \<noteq> 0 \<or> content = []"
      using snoc.IH by blast
    then have "xs @ [x] = content @ [t] @ replicate (Suc pad) 0 \<and> (t \<noteq> 0 \<or> content = [])"
      using False by (simp add: replicate_append_same)
    then show ?thesis by blast
  qed
qed simp

lemma decrypt_of_open:
  assumes "length (client_iv k) = 12"
    "aead_open c (client_write_key k) (nonce_bytes (client_iv k) seq) header ciphertext
      = Some (content @ [t] @ replicate pad 0)"
    "t \<noteq> 0 \<or> content = []"
  shows "\<exists>buf. decrypt_client_record c k seq header ciphertext = Ret (t, length content, buf) \<and>
    take (length content) buf = content"
  using assms inner_text_unique [OF refl assms(3), of pad "drop (length content + 1 + pad) ciphertext"]
  by (simp add: decrypt_client_record_def Let_def nth_append)

lemma decrypt_exact:
  assumes laws: "aead_laws c" and iv: "length (client_iv k) = 12"
  shows "(\<exists>n buf. decrypt_client_record c k seq header ciphertext = Ret (t, n, buf) \<and> take n buf = content)
    \<longleftrightarrow> (t \<noteq> 0 \<or> content = []) \<and>
      (\<exists>pad. aead_seal c (client_write_key k) (nonce_bytes (client_iv k) seq) header
         (content @ [t] @ replicate pad 0) = Some ciphertext)"
  (is "?l \<longleftrightarrow> ?r")
proof
  assume ?r
  then obtain pad where o: "aead_open c (client_write_key k) (nonce_bytes (client_iv k) seq) header ciphertext
      = Some (content @ [t] @ replicate pad 0)" and t: "t \<noteq> 0 \<or> content = []"
    using laws by (auto simp: aead_laws_def)
  then show ?l using decrypt_of_open [OF iv o t] by blast
next
  assume ?l
  then obtain n buf where d: "decrypt_client_record c k seq header ciphertext = Ret (t, n, buf)"
    "take n buf = content" by blast
  then obtain p where p: "aead_open c (client_write_key k) (nonce_bytes (client_iv k) seq) header ciphertext = Some p"
    "p \<noteq> []"
    by (auto simp: decrypt_client_record_def Let_def bnd_Ret_iff)
  then obtain content' t' pad where i: "p = content' @ [t'] @ replicate pad 0" "t' \<noteq> 0 \<or> content' = []"
    using inner_text_ex by blast
  then have "t' = t" "content' = content"
    using decrypt_of_open [OF iv, of c seq header ciphertext content' t' pad] p(1) d by auto
  then show ?r
    using i p(1) laws by (auto simp: aead_laws_def)
qed

lemma encrypt_record:
  assumes "aead_laws c" "length (server_iv k) = 12" "length pt < 65519"
  shows "\<exists>sealed. encrypt_server_record c k seq pt t = Ret (record_header (length pt + 17) @ sealed) \<and>
    aead_seal c (server_write_key k) (nonce_bytes (server_iv k) seq) (record_header (length pt + 17)) (pt @ [t])
      = Some sealed \<and> length sealed = length pt + 17"
proof -
  have "length (pt @ [t]) \<le> 68719476704" "length (nonce_bytes (server_iv k) seq) = 12"
    using assms(2,3) by auto
  then obtain s where "aead_seal c (server_write_key k) (nonce_bytes (server_iv k) seq)
    (record_header (length pt + 17)) (pt @ [t]) = Some s" "length s = length (pt @ [t]) + 16"
    using assms(1) unfolding aead_laws_def by blast
  then show ?thesis
    using assms(2) by (simp add: encrypt_server_record_def Let_def tag_len_def add.commute [of 17])
qed

section \<open>Correctness\<close>



text \<open>C10. What decrypts is exactly what the peer sealed: a record is accepted with a content type and a content
  if and only if its ciphertext is the sealing, under the client's key, the nonce of this sequence
  number and this record header, of that content, the type and some zero padding. No two sequence
  numbers have the same nonce, so a record cannot be replayed under another one.\<close>

theorem decrypt_client_record_exact:
  assumes "aead_laws c" "keys_wf k"
  shows "((\<exists>n buf. decrypt_client_record c k seq header ciphertext = Ret (t, n, buf) \<and> take n buf = content)
      \<longleftrightarrow> (t \<noteq> 0 \<or> content = []) \<and>
        (\<exists>pad. aead_seal c (client_write_key k) (nonce_bytes (client_iv k) seq) header
           (content @ [t] @ replicate pad 0) = Some ciphertext)) \<and>
    inj (nonce_bytes (client_iv k)) \<and> inj (nonce_bytes (server_iv k))"
  using assms decrypt_exact [OF assms(1)] by (simp add: keys_wf_def inj_def nonce_bytes_inject)

theorem decrypt_client_record_exact_witness:
  "\<exists>n buf. decrypt_client_record sample_prims sample_keys 5 [23, 3, 3, 0, 20]
     ([65, 66, 23, 0] @ sample_tag (client_write_key sample_keys) (nonce_bytes (client_iv sample_keys) 5)
        [23, 3, 3, 0, 20] [65, 66, 23, 0]) = Ret (23, n, buf) \<and> take n buf = [65, 66]"
proof -
  have "keys_wf sample_keys"
    unfolding sample_keys_def by (rule traffic_keys_wf [OF sample_hkdf_laws])
  note exact = decrypt_client_record_exact [OF sample_aead_laws this, THEN conjunct1]
  show ?thesis
    by (subst exact) (simp, rule exI [of _ 1], simp add: sample_prims_def)
qed

end
