(* ===== verification/Streams.thy ===== *)
theory Streams
  imports Io
begin

text \<open>
  Readers. The locale states what the program relies on when it reads from a stream: a read returns
  the next bytes, at most as many as asked for, and some unless the stream is at its end. A TCP
  connection provides it, and so does \<open>PrefixedStream\<close>, which puts bytes already read back in front
  of a stream (\<open>src/server.rs\<close> and, identically, \<open>src/transport/reality/server_rustls.rs\<close>).
\<close>

section \<open>Reading exactly, and to the end\<close>

text \<open>\<open>read_exact\<close> reads until it has \<open>n\<close> bytes, and fails at the end of the stream.\<close>

function read_exact :: "('s \<Rightarrow> nat \<Rightarrow> bytes \<times> 's) \<Rightarrow> 's \<Rightarrow> nat \<Rightarrow> (bytes \<times> 's) option" where
  "read_exact rd s n =
     (if n = 0 then Some ([], s)
      else
        (case rd s n of
           (d, s') \<Rightarrow> if d = [] then None
                     else map_option (\<lambda>(e, t). (d @ e, t)) (read_exact rd s' (n - length d))))"
  by pat_completeness auto
termination
  by (relation "measure (\<lambda>(rd, s, n). n)") auto

declare read_exact.simps [simp del]

text \<open>What a client that reads with a buffer of \<open>cap\<close> bytes collects in at most \<open>k\<close> reads.\<close>

fun collect :: "('s \<Rightarrow> nat \<Rightarrow> bytes \<times> 's) \<Rightarrow> nat \<Rightarrow> nat \<Rightarrow> 's \<Rightarrow> bytes" where
  "collect rd cap 0 s = []"
| "collect rd cap (Suc k) s =
     (case rd s cap of (d, s') \<Rightarrow> if d = [] then [] else d @ collect rd cap k s')"

locale byte_source =
  fixes rd :: "'s \<Rightarrow> nat \<Rightarrow> bytes \<times> 's"
    and content :: "'s \<Rightarrow> bytes"
  assumes rd_content: "rd s n = (d, s') \<Longrightarrow> content s = d @ content s'"
    and rd_bound: "rd s n = (d, s') \<Longrightarrow> length d \<le> n"
    and rd_progress: "rd s n = (d, s') \<Longrightarrow> 0 < n \<Longrightarrow> d = [] \<Longrightarrow> content s = []"
begin

lemma read_exact_content:
  "n \<le> length (content s) \<Longrightarrow>
    \<exists>s'. read_exact rd s n = Some (take n (content s), s') \<and> content s' = drop n (content s)"
proof (induction n arbitrary: s rule: less_induct)
  case (less n)
  show ?case
  proof (cases "n = 0")
    case True
    then show ?thesis by (simp add: read_exact.simps)
  next
    case False
    obtain d s1 where d: "rd s n = (d, s1)" by (cases "rd s n")
    have c: "content s = d @ content s1" and l: "length d \<le> n"
      using rd_content [OF d] rd_bound [OF d] by auto
    have ne: "d \<noteq> []"
      using rd_progress [OF d] False less.prems by (cases "d = []") auto
    have "n - length d < n" "n - length d \<le> length (content s1)"
      using ne False less.prems c by auto
    then obtain s' where "read_exact rd s1 (n - length d) = Some (take (n - length d) (content s1), s')"
      "content s' = drop (n - length d) (content s1)"
      using less.IH by blast
    then show ?thesis
      using d ne False c l by (subst read_exact.simps) simp
  qed
qed

lemma collect_content:
  "0 < cap \<Longrightarrow> length (content s) \<le> k \<Longrightarrow> collect rd cap k s = content s"
proof (induction k arbitrary: s)
  case (Suc k)
  obtain d s1 where d: "rd s cap = (d, s1)" by (cases "rd s cap")
  note c = rd_content [OF d] and ne = rd_progress [OF d Suc.prems(1)]
  show ?case
  proof (cases "d = []")
    case True
    then show ?thesis using d ne by auto
  next
    case False
    then have "length (content s1) \<le> k"
      using c Suc.prems(2) by (cases d) auto
    then show ?thesis
      using Suc.IH [of s1] Suc.prems(1) d c False by simp
  qed
qed simp

end

section \<open>A TCP connection\<close>

text \<open>The segments that have not been read; a read returns bytes of one segment.\<close>

type_synonym tcp = "bytes list"

fun tcp_read :: "tcp \<Rightarrow> nat \<Rightarrow> bytes \<times> tcp" where
  "tcp_read [] n = ([], [])"
| "tcp_read (seg # segs) n =
     (if seg = [] then tcp_read segs n else (take n seg, drop n seg # segs))"

lemma tcp_read_concat: "tcp_read s n = (d, s') \<Longrightarrow> concat s = d @ concat s'"
  by (induction s n arbitrary: d s' rule: tcp_read.induct) (auto split: if_splits)

lemma tcp_read_bound: "tcp_read s n = (d, s') \<Longrightarrow> length d \<le> n"
  by (induction s n arbitrary: d s' rule: tcp_read.induct) (auto split: if_splits)

lemma tcp_read_progress: "tcp_read s n = (d, s') \<Longrightarrow> 0 < n \<Longrightarrow> d = [] \<Longrightarrow> concat s = []"
  by (induction s n arbitrary: d s' rule: tcp_read.induct) (auto split: if_splits)

lemma tcp_read_append: "tcp_read s n = (d, s') \<Longrightarrow> d \<noteq> [] \<Longrightarrow> tcp_read (s @ t) n = (d, s' @ t)"
  by (induction s n arbitrary: d s' rule: tcp_read.induct) (auto split: if_splits)

interpretation tcp_source: byte_source tcp_read concat
  by unfold_locales (rule tcp_read_concat tcp_read_bound tcp_read_progress; assumption)+

section \<open>Bytes put back in front of a stream\<close>

record 's prefixed_stream =
  pf_prefix :: bytes
  pf_position :: nat
  pf_inner :: 's

definition prefixed_new :: "bytes \<Rightarrow> 's \<Rightarrow> 's prefixed_stream" where
  "prefixed_new prefix inner = \<lparr>pf_prefix = prefix, pf_position = 0, pf_inner = inner\<rparr>"

definition prefixed_read ::
  "('s \<Rightarrow> nat \<Rightarrow> bytes \<times> 's) \<Rightarrow> 's prefixed_stream \<Rightarrow> nat \<Rightarrow> bytes \<times> 's prefixed_stream" where
  "prefixed_read inner_read self remaining =
     (if pf_position self < length (pf_prefix self) then
        let n = min remaining (length (pf_prefix self) - pf_position self); pos = pf_position self
        in (take n (drop pos (pf_prefix self)), self \<lparr>pf_position := pos + n\<rparr>)
      else
        let (d, inner) = inner_read (pf_inner self) remaining in (d, self \<lparr>pf_inner := inner\<rparr>))"

definition prefixed_content :: "('s \<Rightarrow> bytes) \<Rightarrow> 's prefixed_stream \<Rightarrow> bytes" where
  "prefixed_content content self = drop (pf_position self) (pf_prefix self) @ content (pf_inner self)"

lemma prefixed_new_content: "prefixed_content content (prefixed_new prefix inner) = prefix @ content inner"
  by (simp add: prefixed_content_def prefixed_new_def)

context byte_source
begin

lemma prefixed_source: "byte_source (prefixed_read rd) (prefixed_content content)"
proof
  fix s n d and s' :: "'s prefixed_stream"
  assume r: "prefixed_read rd s n = (d, s')"
  let ?p = "pf_position s" and ?x = "pf_prefix s"
  have "prefixed_content content s = d @ prefixed_content content s' \<and> length d \<le> n \<and>
    (0 < n \<longrightarrow> d = [] \<longrightarrow> prefixed_content content s = [])"
  proof (cases "?p < length ?x")
    case True
    let ?n = "min n (length ?x - ?p)"
    have "d = take ?n (drop ?p ?x)" "s' = s \<lparr>pf_position := ?p + ?n\<rparr>"
      using r True by (auto simp: prefixed_read_def Let_def)
    moreover have "drop ?p ?x = take ?n (drop ?p ?x) @ drop (?p + ?n) ?x"
      by (metis append_take_drop_id drop_drop add.commute)
    ultimately show ?thesis
      using True by (simp add: prefixed_content_def) (simp add: min_def)
  next
    case False
    obtain e inner where i: "rd (pf_inner s) n = (e, inner)" by (cases "rd (pf_inner s) n")
    then have "d = e" "s' = s \<lparr>pf_inner := inner\<rparr>"
      using r False by (auto simp: prefixed_read_def)
    then show ?thesis
      using False rd_content [OF i] rd_bound [OF i] rd_progress [OF i] by (simp add: prefixed_content_def)
  qed
  then show "prefixed_content content s = d @ prefixed_content content s'" "length d \<le> n"
    "0 < n \<Longrightarrow> d = [] \<Longrightarrow> prefixed_content content s = []"
    by auto
qed

end

interpretation prefixed_tcp: byte_source "prefixed_read tcp_read" "prefixed_content concat"
  by (rule tcp_source.prefixed_source)

text \<open>A client that reads a prefixed TCP connection with any buffer size, however the network cuts it
  into segments, sees the prefix and then the bytes of the connection.\<close>

lemma prefixed_replays:
  assumes "0 < cap" "length prefix + length (concat segs) \<le> k"
  shows "collect (prefixed_read tcp_read) cap k (prefixed_new prefix segs) = prefix @ concat segs"
  using prefixed_tcp.collect_content [OF assms(1), of "prefixed_new prefix segs" k] assms(2)
  by (simp add: prefixed_new_content)

end
