(* ===== verification/Tls_Stream.thy ===== *)
theory Tls_Stream
  imports Tls_Crypto Framing Streams
begin

text \<open>
  The encrypted stream of \<open>src/transport/reality/stream.rs\<close>. What the socket answers is an argument:
  a list of read events, and the answer to the one write a call makes. A poll returns \<open>Ret (Some x)\<close>
  when it is ready with \<open>x\<close>, \<open>Ret None\<close> when it is pending, and \<open>Err\<close> when it fails. The bytes the
  socket has taken are a field of the state. Sequence numbers wrap at 64 bits, as release builds do.
\<close>

section \<open>The state\<close>

datatype stream_error = SCrypto crypto_error | SUnexpectedEof | SPartialWrite | SInner

datatype inner_read = RData bytes | RPending | RErr
datatype inner_write = WAccept nat | WPending | WErr

record tls_stream =
  ts_keys :: tls_keys
  input_buffer :: bytes
  decrypted_buffer :: bytes
  write_buffer :: bytes
  read_seq :: u64
  write_seq :: u64
  ts_out :: bytes

type_synonym 'a polled = "(stream_error, 'a option) outcome"

definition new_with_buffer :: "tls_keys \<Rightarrow> bytes \<Rightarrow> tls_stream" where
  "new_with_buffer keys initial_data =
     \<lparr>ts_keys = keys, input_buffer = initial_data, decrypted_buffer = [], write_buffer = [],
      read_seq = 0, write_seq = 0, ts_out = []\<rparr>"

definition tls_stream_new :: "tls_keys \<Rightarrow> tls_stream" where
  "tls_stream_new keys =
     \<lparr>ts_keys = keys, input_buffer = [], decrypted_buffer = [], write_buffer = [],
      read_seq = 0, write_seq = 0, ts_out = []\<rparr>"

section \<open>Reading\<close>

text \<open>The record is taken out of the buffer before it is decrypted, also when decryption fails.\<close>

definition process_record :: "prims \<Rightarrow> tls_stream \<Rightarrow> (crypto_error, bool) outcome \<times> tls_stream" where
  "process_record c self =
     (let buf = input_buffer self in
      if length buf < 5 then (Ret False, self)
      else
        let n = unat (be16 (buf ! 3) (buf ! 4)) in
        if length buf < 5 + n then (Ret False, self)
        else
          let record_data = take (5 + n) buf;
              taken = self \<lparr>input_buffer := drop (5 + n) buf\<rparr>;
              header = take 5 record_data;
              ciphertext = drop 5 record_data
          in (case decrypt_client_record c (ts_keys self) (read_seq self) header ciphertext of
                Ret (content_type, len, ciphertext') \<Rightarrow>
                  let counted = taken \<lparr>read_seq := read_seq self + 1\<rparr> in
                  if content_type = 23 then
                    (case (slice ciphertext' 0 len :: (crypto_error, bytes) outcome) of
                       Ret d \<Rightarrow> (Ret True, counted \<lparr>decrypted_buffer := decrypted_buffer self @ d\<rparr>)
                     | _ \<Rightarrow> (Panic, counted))
                  else (Ret True, counted)
              | Err e \<Rightarrow> (Err e, taken)
              | Panic \<Rightarrow> (Panic, taken)))"

definition hand_over :: "tls_stream \<Rightarrow> nat \<Rightarrow> bytes polled \<times> tls_stream" where
  "hand_over self remaining =
     (let len = min remaining (length (decrypted_buffer self)) in
      (Ret (Some (take len (decrypted_buffer self))),
       self \<lparr>decrypted_buffer := drop len (decrypted_buffer self)\<rparr>))"

lemma process_record_shrinks:
  "process_record c self = (Ret True, self') \<Longrightarrow> length (input_buffer self') < length (input_buffer self)"
  by (auto simp: process_record_def Let_def split: if_splits outcome.splits)

lemma process_record_waits: "process_record c self = (Ret False, self') \<Longrightarrow> self' = self"
  by (auto simp: process_record_def Let_def split: if_splits outcome.splits)

function read_loop ::
  "prims \<Rightarrow> tls_stream \<Rightarrow> nat \<Rightarrow> inner_read list \<Rightarrow> bytes polled \<times> tls_stream \<times> inner_read list" where
  "read_loop c self remaining script =
     (case process_record c self of
        (Ret True, this) \<Rightarrow>
          if decrypted_buffer this \<noteq> [] then
            (let (r, this') = hand_over this remaining in (r, this', script))
          else read_loop c this remaining script
      | (Ret False, this) \<Rightarrow>
          (case script of
             [] \<Rightarrow> (Ret None, this, [])
           | RPending # rest \<Rightarrow> (Ret None, this, rest)
           | RErr # rest \<Rightarrow> (Err SInner, this, rest)
           | RData d # rest \<Rightarrow>
               if d = [] then
                 (if input_buffer this = [] then Ret (Some []) else Err SUnexpectedEof, this, rest)
               else read_loop c (this \<lparr>input_buffer := input_buffer this @ d\<rparr>) remaining rest)
      | (Err e, this) \<Rightarrow> (Err (SCrypto e), this, script)
      | (Panic, this) \<Rightarrow> (Panic, this, script))"
  by pat_completeness auto
termination
  by (relation "measures [\<lambda>(c, self, n, script). length script, \<lambda>(c, self, n, script). length (input_buffer self)]")
    (auto dest: process_record_shrinks [OF sym])

declare read_loop.simps [simp del]

definition poll_read ::
  "prims \<Rightarrow> tls_stream \<Rightarrow> nat \<Rightarrow> inner_read list \<Rightarrow> bytes polled \<times> tls_stream \<times> inner_read list" where
  "poll_read c self remaining script =
     (if decrypted_buffer self \<noteq> [] then
        (let (r, this) = hand_over self remaining in (r, this, script))
      else read_loop c self remaining script)"

section \<open>Writing\<close>

definition flush_write_buffer :: "prims \<Rightarrow> tls_stream \<Rightarrow> inner_write \<Rightarrow> unit polled \<times> tls_stream" where
  "flush_write_buffer c self w =
     (if write_buffer self = [] then (Ret (Some ()), self)
      else
        (case encrypt_server_record c (ts_keys self) (write_seq self) (write_buffer self) 23 of
           Err e \<Rightarrow> (Err (SCrypto e), self)
         | Panic \<Rightarrow> (Panic, self)
         | Ret encrypted_record \<Rightarrow>
             (case w of
                WAccept n \<Rightarrow>
                  let sent = self \<lparr>ts_out := ts_out self @ take n encrypted_record\<rparr> in
                  if n < length encrypted_record then (Err SPartialWrite, sent)
                  else (Ret (Some ()), sent \<lparr>write_seq := write_seq self + 1, write_buffer := []\<rparr>)
              | WErr \<Rightarrow> (Err SInner, self)
              | WPending \<Rightarrow> (Ret None, self))))"

definition poll_write :: "prims \<Rightarrow> tls_stream \<Rightarrow> bytes \<Rightarrow> inner_write \<Rightarrow> nat polled \<times> tls_stream" where
  "poll_write c self buf w =
     (let accept = (\<lambda>this. (Ret (Some (length buf)), this \<lparr>write_buffer := write_buffer this @ buf\<rparr>)) in
      if length (write_buffer self) + length buf > 14336 then
        (case flush_write_buffer c self w of
           (Err e, this) \<Rightarrow> (Err e, this)
         | (Panic, this) \<Rightarrow> (Panic, this)
         | (Ret _, this) \<Rightarrow> if write_buffer this \<noteq> [] then (Ret None, this) else accept this)
      else accept self)"

text \<open>\<open>poll_flush\<close> and \<open>poll_shutdown\<close> differ only in the call they pass on to the socket.\<close>

definition poll_flush :: "prims \<Rightarrow> tls_stream \<Rightarrow> inner_write \<Rightarrow> unit polled \<Rightarrow> unit polled \<times> tls_stream" where
  "poll_flush c self w inner_flush =
     (case flush_write_buffer c self w of
        (Ret (Some _), this) \<Rightarrow> (inner_flush, this)
      | (Err e, this) \<Rightarrow> (Err e, this)
      | (Ret None, this) \<Rightarrow> (Ret None, this)
      | (Panic, this) \<Rightarrow> (Panic, this))"

definition poll_shutdown :: "prims \<Rightarrow> tls_stream \<Rightarrow> inner_write \<Rightarrow> unit polled \<Rightarrow> unit polled \<times> tls_stream" where
  "poll_shutdown c self w inner_shutdown =
     (case flush_write_buffer c self w of
        (Ret (Some _), this) \<Rightarrow> (inner_shutdown, this)
      | (Err e, this) \<Rightarrow> (Err e, this)
      | (Ret None, this) \<Rightarrow> (Ret None, this)
      | (Panic, this) \<Rightarrow> (Panic, this))"

section \<open>The stream of records as an incremental parser\<close>

definition tls_step :: "prims \<Rightarrow> tls_keys \<Rightarrow> (u64, crypto_error, u8 \<times> bytes) step_parser" where
  "tls_step c k seq buf =
     (if length buf < 5 then Ret None
      else
        let n = unat (be16 (buf ! 3) (buf ! 4)) in
        if length buf < 5 + n then Ret None
        else bnd (decrypt_client_record c k seq (take 5 buf) (take n (drop 5 buf)))
          (\<lambda>(t, len, b). Ret (Some ((t, take len b), seq + 1, drop (5 + n) buf))))"

section \<open>A connection seen from both ends\<close>

text \<open>What the reader has still to hand over when the network will deliver \<open>segs\<close> and then end.\<close>

definition app_data :: "(u8 \<times> bytes) list \<Rightarrow> bytes" where
  "app_data ms = concat (map snd (filter (\<lambda>m. fst m = 23) ms))"

definition undelivered :: "prims \<Rightarrow> tls_stream \<Rightarrow> bytes list \<Rightarrow> bytes" where
  "undelivered c st segs = decrypted_buffer st
     @ app_data (fst (drain_all (tls_step c (ts_keys st)) (read_seq st) (input_buffer st @ concat segs)))"

fun script_segs :: "inner_read list \<Rightarrow> bytes list" where
  "script_segs [] = []"
| "script_segs (RData d # r) = d # script_segs r"
| "script_segs (_ # r) = script_segs r"

definition script_of :: "bytes list \<Rightarrow> inner_read list" where
  "script_of segs = map RData (filter (\<lambda>s. s \<noteq> []) segs) @ [RData []]"

text \<open>One read by a client that stops at the first error.\<close>

definition tls_read :: "prims \<Rightarrow> tls_stream \<times> bytes list \<Rightarrow> nat \<Rightarrow> bytes \<times> tls_stream \<times> bytes list" where
  "tls_read c s n =
     (case poll_read c (fst s) n (script_of (snd s)) of
        (Ret (Some d), st, script) \<Rightarrow> (d, st, script_segs script)
      | _ \<Rightarrow> ([], s))"

text \<open>A client that writes and flushes; it counts the bytes accepted and stops at the first error.\<close>

datatype write_op = Write bytes inner_write | Flush inner_write

definition write_step :: "prims \<Rightarrow> write_op \<Rightarrow> tls_stream \<Rightarrow> (bytes \<times> tls_stream) option" where
  "write_step c op st =
     (case op of
        Write buf w \<Rightarrow>
          (case poll_write c st buf w of
             (Ret (Some n), st') \<Rightarrow> Some (take n buf, st')
           | (Ret None, st') \<Rightarrow> Some ([], st')
           | _ \<Rightarrow> None)
      | Flush w \<Rightarrow>
          (case poll_flush c st w (Ret (Some ())) of (Ret _, st') \<Rightarrow> Some ([], st') | _ \<Rightarrow> None))"

fun run_writes :: "prims \<Rightarrow> write_op list \<Rightarrow> tls_stream \<Rightarrow> (bytes \<times> tls_stream) option" where
  "run_writes c [] st = Some ([], st)"
| "run_writes c (op # ops) st =
     (case write_step c op st of
        None \<Rightarrow> None
      | Some (d, st') \<Rightarrow> map_option (\<lambda>(ds, st''). (d @ ds, st'')) (run_writes c ops st'))"

text \<open>A socket that takes a record whole or not at all.\<close>

fun calm_answer :: "inner_write \<Rightarrow> bool" where
  "calm_answer (WAccept n) = (65540 \<le> n)"
| "calm_answer WPending = True"
| "calm_answer WErr = False"

fun calm :: "write_op \<Rightarrow> bool" where
  "calm (Write buf w) = calm_answer w"
| "calm (Flush w) = calm_answer w"

text \<open>The length of a record is a field of two bytes: what fits is a buffer below 65519 bytes.\<close>

fun fits :: "write_op \<Rightarrow> bool" where
  "fits (Write buf w) = (length buf < 65519)"
| "fits (Flush w) = True"

definition sealed_record :: "prims \<Rightarrow> tls_keys \<Rightarrow> u64 \<Rightarrow> bytes \<Rightarrow> bytes" where
  "sealed_record c k seq p = (case encrypt_server_record c k seq p 23 of Ret r \<Rightarrow> r | _ \<Rightarrow> [])"

text \<open>What one read may return, in terms of what is undelivered.\<close>

definition read_ok :: "prims \<Rightarrow> tls_stream \<Rightarrow> nat \<Rightarrow> bytes list
    \<Rightarrow> bytes polled \<times> tls_stream \<times> inner_read list \<Rightarrow> bool" where
  "read_ok c st n segs res \<longleftrightarrow>
     (case res of
        (Ret (Some d), st', script) \<Rightarrow>
          undelivered c st segs = d @ undelivered c st' (script_segs script) \<and> length d \<le> n
            \<and> (d = [] \<longrightarrow> 0 < n \<longrightarrow> undelivered c st segs = [])
      | _ \<Rightarrow> undelivered c st segs = [])"

text \<open>What a writer has done so far: the socket has the sealed records of some chunks, numbered from
  zero, and the chunks with the write buffer are the bytes accepted.\<close>

definition next_seq :: "u64 \<Rightarrow> bytes \<Rightarrow> u64" where
  "next_seq seq _ = seq + 1"

definition written :: "prims \<Rightarrow> tls_keys \<Rightarrow> bytes \<Rightarrow> tls_stream \<Rightarrow> bool" where
  "written c k acc st \<longleftrightarrow>
     (\<exists>chunks. ts_out st = enc_stream (sealed_record c k) next_seq 0 chunks
        \<and> write_seq st = foldl next_seq 0 chunks \<and> (\<forall>p \<in> set chunks. length p < 65519)
        \<and> acc = concat chunks @ write_buffer st) \<and> ts_keys st = k \<and> length (write_buffer st) < 65519"

section \<open>Lemmas on reading\<close>

lemma decrypt_no_panic: "decrypt_client_record c k seq h ct \<noteq> Panic"
  by (simp add: decrypt_client_record_def Let_def bnd_Panic_iff)

lemma decrypt_len:
  "decrypt_client_record c k seq h ct = Ret (t, n, b) \<Longrightarrow> n \<le> length b"
  by (auto simp: decrypt_client_record_def Let_def bnd_Ret_iff)
    (meson scan_type_le diff_le_self le_trans trans_le_add1)

interpretation tls_records: incremental "tls_step c k" for c k
proof
  fix seq buf x s' rest extra e
  show "tls_step c k seq buf = Ret (Some (x, s', rest)) \<Longrightarrow> length rest < length buf"
    by (auto simp: tls_step_def Let_def bnd_Ret_iff split: if_splits)
  show "tls_step c k seq (buf @ extra) = Ret (Some (x, s', rest @ extra))"
    if "tls_step c k seq buf = Ret (Some (x, s', rest))"
    using that by (auto simp: tls_step_def Let_def bnd_Ret_iff nth_append split: if_splits)
  show "tls_step c k seq (buf @ extra) = Err e" if "tls_step c k seq buf = Err e"
    using that by (auto simp: tls_step_def Let_def bnd_Err_iff nth_append split: if_splits)
  show "tls_step c k seq buf \<noteq> Panic"
    by (auto simp: tls_step_def Let_def bnd_Panic_iff decrypt_no_panic)
  show "tls_step c k seq [] = Ret None"
    by (simp add: tls_step_def)
qed

lemma process_record_msg:
  assumes "tls_step c (ts_keys st) (read_seq st) (input_buffer st) = Ret (Some ((t, d), seq', rest))"
  shows "process_record c st = (Ret True, st \<lparr>input_buffer := rest, read_seq := seq',
    decrypted_buffer := decrypted_buffer st @ (if t = 23 then d else [])\<rparr>)"
  using assms decrypt_len
  by (fastforce simp: tls_step_def process_record_def Let_def bnd_Ret_iff slice_def drop_take split: if_splits)

lemma process_record_wait:
  assumes "tls_step c (ts_keys st) (read_seq st) (input_buffer st) = Ret None"
  shows "process_record c st = (Ret False, st)"
  using assms by (auto simp: tls_step_def process_record_def Let_def bnd_Ret_iff split: if_splits)

lemma process_record_err:
  assumes "tls_step c (ts_keys st) (read_seq st) (input_buffer st) = Err e"
  shows "\<exists>st'. process_record c st = (Err e, st')"
  using assms by (auto simp: tls_step_def process_record_def Let_def bnd_Err_iff drop_take split: if_splits)

lemma app_data_Cons: "app_data ((t, d) # ms) = (if t = 23 then d else []) @ app_data ms"
  by (simp add: app_data_def)

lemma app_data_Nil [simp]: "app_data [] = []"
  by (simp add: app_data_def)

lemma undelivered_msg:
  assumes "tls_step c (ts_keys st) (read_seq st) (input_buffer st) = Ret (Some ((t, d), seq', rest))"
  shows "undelivered c st segs = undelivered c (st \<lparr>input_buffer := rest, read_seq := seq',
    decrypted_buffer := decrypted_buffer st @ (if t = 23 then d else [])\<rparr>) segs"
  using tls_records.stable [OF assms, of "concat segs"]
  by (simp add: undelivered_def tls_records.drain_all_step [of _ _ "read_seq st"] app_data_Cons
      split: prod.splits)

lemma undelivered_err:
  assumes "tls_step c (ts_keys st) (read_seq st) (input_buffer st) = Err e"
  shows "undelivered c st segs = decrypted_buffer st"
  using tls_records.stable_err [OF assms, of "concat segs"]
  by (simp add: undelivered_def tls_records.drain_all_step [of _ _ "read_seq st"])

lemma undelivered_eof:
  assumes "tls_step c (ts_keys st) (read_seq st) (input_buffer st) = Ret None" "concat segs = []"
  shows "undelivered c st segs = decrypted_buffer st"
  using assms by (simp add: undelivered_def tls_records.drain_all_step [of _ _ "read_seq st"] del: concat_eq_Nil_conv)

lemma undelivered_input:
  "undelivered c (st \<lparr>input_buffer := input_buffer st @ d\<rparr>) segs = undelivered c st (d # segs)"
  by (simp add: undelivered_def)

lemma undelivered_segs: "concat segs = concat segs' \<Longrightarrow> undelivered c st segs = undelivered c st segs'"
  by (simp add: undelivered_def)

lemma hand_over_undelivered:
  assumes "hand_over st n = (Ret (Some d), st')" "decrypted_buffer st \<noteq> []"
  shows "undelivered c st segs = d @ undelivered c st' segs \<and> length d \<le> n \<and> (d = [] \<longrightarrow> n = 0)"
  using assms by (auto simp: hand_over_def Let_def undelivered_def min_def split: if_splits)

lemma read_ok_cong:
  "undelivered c st segs = undelivered c st' segs' \<Longrightarrow> read_ok c st n segs r = read_ok c st' n segs' r"
  by (auto simp: read_ok_def split: prod.splits outcome.splits option.splits)

lemma concat_script_segs [simp]: "concat (script_segs (map RData segs @ [RData []])) = concat segs"
  by (induction segs) auto

lemma hand_over_ok:
  assumes "decrypted_buffer st \<noteq> []" "concat (script_segs script) = concat segs"
  shows "read_ok c st n segs (let (r, st') = hand_over st n in (r, st', script))"
proof -
  obtain d st' where h: "hand_over st n = (Ret (Some d), st')"
    by (simp add: hand_over_def Let_def)
  then show ?thesis
    using hand_over_undelivered [OF h assms(1), of c segs] undelivered_segs [OF assms(2)]
    by (auto simp: read_ok_def)
qed

lemma read_loop_ok:
  "script = map RData segs @ [RData []] \<Longrightarrow> decrypted_buffer st = [] \<Longrightarrow> \<forall>s \<in> set segs. s \<noteq> [] \<Longrightarrow>
    read_ok c st n segs (read_loop c st n script)"
proof (induction c st n script arbitrary: segs rule: read_loop.induct)
  case (1 c st n script)
  consider (msg) t d seq' rest where "tls_step c (ts_keys st) (read_seq st) (input_buffer st) = Ret (Some ((t, d), seq', rest))"
    | (wait) "tls_step c (ts_keys st) (read_seq st) (input_buffer st) = Ret None"
    | (err) e where "tls_step c (ts_keys st) (read_seq st) (input_buffer st) = Err e"
    using tls_records.no_panics by (metis outcome.exhaust option.exhaust prod.exhaust)
  then show ?case
  proof cases
    case msg
    define st1 where "st1 = st \<lparr>input_buffer := rest, read_seq := seq',
      decrypted_buffer := decrypted_buffer st @ (if t = 23 then d else [])\<rparr>"
    have pr: "process_record c st = (Ret True, st1)"
      and un: "undelivered c st segs = undelivered c st1 segs"
      using process_record_msg [OF msg] undelivered_msg [OF msg] by (simp_all add: st1_def)
    have "read_ok c st1 n segs (read_loop c st n script)"
    proof (cases "decrypted_buffer st1 = []")
      case True
      then show ?thesis
        using "1.IH"(1) [OF pr [symmetric]] "1.prems" by (subst read_loop.simps) (simp add: pr)
    next
      case False
      then show ?thesis
        using hand_over_ok [OF False, of script segs c n] "1.prems"(1)
        by (subst read_loop.simps) (simp add: pr)
    qed
    then show ?thesis by (simp add: read_ok_cong [OF un])
  next
    case wait
    note pr = process_record_wait [OF wait]
    show ?thesis
    proof (cases segs)
      case Nil
      then show ?thesis
        using "1.prems" undelivered_eof [OF wait]
        by (subst read_loop.simps) (simp add: pr read_ok_def)
    next
      case (Cons s rest)
      then have "read_ok c (st \<lparr>input_buffer := input_buffer st @ s\<rparr>) n rest
        (read_loop c (st \<lparr>input_buffer := input_buffer st @ s\<rparr>) n (map RData rest @ [RData []]))"
        using "1.IH"(2) [OF pr [symmetric] refl, of "RData s" "map RData rest @ [RData []]" s rest] "1.prems" by simp
      then show ?thesis
        using Cons "1.prems" by (subst read_loop.simps) (simp add: pr read_ok_cong [OF undelivered_input])
    qed
  next
    case err
    then obtain st' where "process_record c st = (Err e, st')"
      using process_record_err by blast
    then show ?thesis
      using undelivered_err [OF err] "1.prems"(2) by (subst read_loop.simps) (simp add: read_ok_def)
  qed
qed

lemma concat_nonempty [simp]: "concat (filter (\<lambda>s. s \<noteq> []) segs) = concat segs"
  by (induction segs) auto

lemma poll_read_ok: "read_ok c st n segs (poll_read c st n (script_of segs))"
proof (cases "decrypted_buffer st = []")
  case True
  have "read_ok c st n (filter (\<lambda>s. s \<noteq> []) segs) (read_loop c st n (script_of segs))"
    by (rule read_loop_ok [OF _ True]) (simp_all add: script_of_def)
  then show ?thesis
    using True read_ok_cong [OF undelivered_segs [OF concat_nonempty]] by (simp add: poll_read_def)
next
  case False
  then show ?thesis
    using hand_over_ok [OF False, of "script_of segs" segs] by (simp add: poll_read_def script_of_def)
qed

interpretation tls_source: byte_source "tls_read c" "\<lambda>(st, segs). undelivered c st segs" for c
proof
  fix s n d and s' :: "tls_stream \<times> bytes list"
  assume r: "tls_read c s n = (d, s')"
  obtain st segs where s: "s = (st, segs)" by (cases s)
  note ok = poll_read_ok [of c st n segs]
  show "(case s of (st, segs) \<Rightarrow> undelivered c st segs) = d @ (case s' of (st, segs) \<Rightarrow> undelivered c st segs)"
    "length d \<le> n"
    "0 < n \<Longrightarrow> d = [] \<Longrightarrow> (case s of (st, segs) \<Rightarrow> undelivered c st segs) = []"
    using r ok by (auto simp: tls_read_def s read_ok_def split: prod.splits outcome.splits option.splits)
qed

section \<open>Lemmas on writing\<close>

lemma mirror_mirror [simp]: "mirror (mirror k) = k"
  by (simp add: mirror_def)

lemma record_header_len:
  "n < 65536 \<Longrightarrow> unat (be16 (record_header n ! 3) (record_header n ! 4)) = n"
  by (simp add: record_header_def u16_be_def)

lemma encrypt_opens:
  assumes "aead_laws c" "keys_wf k" "length p < 65519" "t \<noteq> 0"
  shows "\<exists>r. encrypt_server_record c k seq p t = Ret r \<and>
    (\<forall>rest. tls_step c (mirror k) seq (r @ rest) = Ret (Some ((t, p), seq + 1, rest)))"
proof -
  let ?h = "record_header (length p + 17)"
  obtain sealed where e: "encrypt_server_record c k seq p t = Ret (?h @ sealed)"
    and sl: "aead_seal c (server_write_key k) (nonce_bytes (server_iv k) seq) ?h (p @ [t]) = Some sealed"
    and l: "length sealed = length p + 17"
    using encrypt_record [of c k p seq t] assms by (auto simp: keys_wf_def)
  have "\<exists>n buf. decrypt_client_record c (mirror k) seq ?h sealed = Ret (t, n, buf) \<and> take n buf = p"
    using decrypt_exact [of c "mirror k" seq ?h sealed t p] assms(1,2,4) sl
    by (auto simp: keys_wf_def mirror_def intro!: exI [of _ 0])
  then obtain n buf where d: "decrypt_client_record c (mirror k) seq ?h sealed = Ret (t, n, buf)" "take n buf = p"
    by blast
  have "unat (be16 (?h ! 3) (?h ! 4)) = length p + 17" "length ?h = 5"
    using assms(3) by (auto simp: record_header_len) (simp add: record_header_def)
  then show ?thesis
    using d by (simp add: tls_step_def e l nth_append)
qed

lemma sealed_record_step:
  assumes "aead_laws c" "keys_wf k" "length p < 65519"
  shows "tls_step c (mirror k) seq (sealed_record c k seq p @ rest) = Ret (Some ((23, p), seq + 1, rest))"
  using encrypt_opens [OF assms, of 23 seq] by (auto simp: sealed_record_def)

lemma enc_stream_snoc:
  "enc_stream enc nxt s (xs @ [x]) = enc_stream enc nxt s xs @ enc (foldl nxt s xs) x"
  by (induction xs arbitrary: s) auto

lemma written_flush:
  assumes "written c k acc st" "flush_write_buffer c st w = (Ret r, st')"
  shows "written c k acc st' \<and> (st' = st \<or> write_buffer st' = []) \<and> (r = Some () \<longrightarrow> write_buffer st' = [])"
proof (cases "write_buffer st = []")
  case False
  from assms(1) obtain chunks where ch: "ts_out st = enc_stream (sealed_record c k) next_seq 0 chunks"
    "write_seq st = foldl next_seq 0 chunks" "\<forall>p \<in> set chunks. length p < 65519"
    "acc = concat chunks @ write_buffer st" and k: "ts_keys st = k" "length (write_buffer st) < 65519"
    by (auto simp: written_def)
  consider (same) "st' = st" "r = None"
    | (sent) out where "encrypt_server_record c k (write_seq st) (write_buffer st) 23 = Ret out"
        "st' = st \<lparr>ts_out := ts_out st @ out, write_seq := write_seq st + 1, write_buffer := []\<rparr>"
    using assms(2) False k(1) by (auto simp: flush_write_buffer_def Let_def split: outcome.splits inner_write.splits if_splits)
  then show ?thesis
  proof cases
    case sent
    have "written c k acc st'"
      unfolding written_def sent(2) using ch k sent(1)
      by (auto intro!: exI [of _ "chunks @ [write_buffer st]"] simp: enc_stream_snoc sealed_record_def next_seq_def)
    then show ?thesis by (simp add: sent(2))
  qed (use assms(1) in simp)
qed (use assms in \<open>simp add: flush_write_buffer_def\<close>)

lemma written_accept:
  "written c k acc st \<Longrightarrow> length (write_buffer st @ buf) < 65519 \<Longrightarrow>
    written c k (acc @ buf) (st \<lparr>write_buffer := write_buffer st @ buf\<rparr>)"
  by (auto simp: written_def)

lemma written_step:
  assumes "written c k acc st" "fits op" "write_step c op st = Some (d, st')"
  shows "written c k (acc @ d) st'"
proof (cases op)
  case (Flush w)
  then show ?thesis
    using assms by (auto simp: write_step_def poll_flush_def dest: written_flush split: outcome.splits option.splits prod.splits)
next
  case (Write buf w)
  then have buf: "length buf < 65519" using assms(2) by simp
  show ?thesis
  proof (cases "length (write_buffer st) + length buf > 14336")
    case False
    then have "d = buf" "st' = st \<lparr>write_buffer := write_buffer st @ buf\<rparr>"
      using Write assms(3) by (auto simp: write_step_def poll_write_def)
    then show ?thesis using False written_accept [OF assms(1)] by simp
  next
    case True
    then obtain r st1 where f: "flush_write_buffer c st w = (Ret r, st1)"
      using Write assms(3) by (auto simp: write_step_def poll_write_def Let_def split: prod.splits outcome.splits)
    note fl = written_flush [OF assms(1) f]
    show ?thesis
    proof (cases "write_buffer st1 = []")
      case False
      then have "d = []" "st' = st1"
        using Write assms(3) f True by (auto simp: write_step_def poll_write_def)
      then show ?thesis using fl by simp
    next
      case empty: True
      then have "d = buf" "st' = st1 \<lparr>write_buffer := write_buffer st1 @ buf\<rparr>"
        using Write assms(3) f True by (auto simp: write_step_def poll_write_def)
      then show ?thesis using fl buf empty written_accept [of c k acc st1 buf] by simp
    qed
  qed
qed

lemma written_run:
  "written c k acc st \<Longrightarrow> list_all fits ops \<Longrightarrow> run_writes c ops st = Some (ds, st') \<Longrightarrow>
    written c k (acc @ ds) st'"
proof (induction ops arbitrary: acc st ds)
  case (Cons op ops)
  then obtain d st1 es where "write_step c op st = Some (d, st1)" "run_writes c ops st1 = Some (es, st')" "ds = d @ es"
    by (auto split: option.splits prod.splits)
  then show ?case
    using Cons.IH [of "acc @ d" st1 es] written_step [OF Cons.prems(1), of op d st1] Cons.prems(2) by simp
qed simp

lemma calm_flush:
  assumes "aead_laws c" "keys_wf k" "written c k acc st" "calm_answer w"
  shows "\<exists>r st'. flush_write_buffer c st w = (Ret r, st')"
proof -
  have k: "ts_keys st = k" "length (write_buffer st) < 65519" "length (server_iv k) = 12"
    using assms(2,3) by (auto simp: written_def keys_wf_def)
  then obtain sealed where "encrypt_server_record c k (write_seq st) (write_buffer st) 23 =
      Ret (record_header (length (write_buffer st) + 17) @ sealed)" "length sealed = length (write_buffer st) + 17"
    using encrypt_record [OF assms(1)] by blast
  then show ?thesis
    using assms(4) k by (cases w) (auto simp: flush_write_buffer_def Let_def record_header_def)
qed

lemma calm_step:
  assumes "aead_laws c" "keys_wf k" "written c k acc st" "calm op"
  shows "\<exists>r. write_step c op st = Some r"
proof (cases op)
  case (Write buf w)
  then obtain r st' where "flush_write_buffer c st w = (Ret r, st')"
    using calm_flush assms by fastforce
  then show ?thesis by (simp add: write_step_def Write poll_write_def)
next
  case (Flush w)
  then obtain r st' where "flush_write_buffer c st w = (Ret r, st')"
    using calm_flush assms by fastforce
  then show ?thesis by (cases r) (simp_all add: write_step_def Flush poll_flush_def)
qed

lemma calm_run:
  "aead_laws c \<Longrightarrow> keys_wf k \<Longrightarrow> written c k acc st \<Longrightarrow> list_all fits ops \<Longrightarrow> list_all calm ops \<Longrightarrow>
    \<exists>r. run_writes c ops st = Some r"
proof (induction ops arbitrary: acc st)
  case (Cons op ops)
  then obtain d st' where s: "write_step c op st = Some (d, st')"
    using calm_step by fastforce
  then have "written c k (acc @ d) st'"
    using Cons.prems by (auto intro: written_step)
  then show ?case
    using Cons.IH [of "acc @ d" st'] Cons.prems s by auto
qed simp

lemma enc_stream_map:
  "enc_stream enc nxt s (map f xs) = enc_stream (\<lambda>s x. enc s (f x)) (\<lambda>s x. nxt s (f x)) s xs"
  by (induction xs arbitrary: s) auto

lemma ok_stream_all: "ok_stream (\<lambda>s x. P x) nxt s xs \<longleftrightarrow> list_all P xs"
  by (induction xs arbitrary: s) auto

lemma written_undelivered:
  assumes "aead_laws c" "keys_wf k" "written c k acc st" "concat segs = ts_out st"
  shows "undelivered c (tls_stream_new (mirror k)) segs @ write_buffer st = acc"
proof -
  obtain chunks where ch: "ts_out st = enc_stream (sealed_record c k) next_seq 0 chunks"
    "\<forall>p \<in> set chunks. length p < 65519" "acc = concat chunks @ write_buffer st"
    using assms(3) by (auto simp: written_def)
  let ?enc = "\<lambda>seq m. sealed_record c k seq (snd m)" and ?nxt = "\<lambda>seq m. seq + (1 :: u64)"
  let ?ok = "\<lambda>seq m. fst m = (23 :: u8) \<and> length (snd m :: bytes) < 65519"
  let ?ms = "map (Pair (23 :: u8)) chunks"
  have "drain_all (tls_step c (mirror k)) 0 (enc_stream ?enc ?nxt 0 ?ms @ []) =
      (let (ys, q) = drain_all (tls_step c (mirror k)) (foldl ?nxt 0 ?ms) [] in
        (?ms @ ys, q))"
    by (rule tls_records.drain_stream [where ok = ?ok])
      (use ch(2) in \<open>auto simp: sealed_record_step [OF assms(1,2)] ok_stream_all list_all_iff\<close>)
  then have "fst (drain_all (tls_step c (mirror k)) 0 (ts_out st)) = ?ms"
    by (simp add: ch(1) enc_stream_map next_seq_def [abs_def] tls_records.drain_all_step [of _ _ _ "[]"] tls_records.idle)
  then show ?thesis
    using assms(4) ch(3) by (simp add: undelivered_def tls_stream_new_def app_data_def comp_def)
qed

section \<open>Correctness\<close>



end
