(* ===== verification/Reality_Server.thy ===== *)
theory Reality_Server
  imports Reality_Auth Hello_Parser Streams
begin

text \<open>
  The server side of Reality over the patched TLS library (\<open>src/transport/reality/server_rustls.rs\<close>)
  and its wrapper (\<open>src/transport/reality/server.rs\<close>): it reads the first record, decides whether the
  client is authenticated, and either starts TLS with a certificate signed for this client, or
  forwards the connection, with what it has read, to the destination it pretends to be.

  The cryptographic primitives, the hexadecimal and Base64 codecs, the LRU cache, the generation of a certificate,
  the TLS handshake and the connection to the destination are library code or the network: they are
  arguments. The two timeouts, and a failing read, are the argument \<open>interrupt\<close> of the operation they can end.
\<close>

section \<open>Parameters\<close>

record reality_prims =
  rp_x25519 :: "bytes \<Rightarrow> bytes \<Rightarrow> bytes"
  rp_hkdf_sha256 :: "bytes \<Rightarrow> bytes \<Rightarrow> bytes \<Rightarrow> nat \<Rightarrow> bytes option"
  rp_gcm_open :: "bytes \<Rightarrow> bytes \<Rightarrow> bytes \<Rightarrow> bytes \<Rightarrow> bytes option"
  rp_hmac_sha512 :: "bytes \<Rightarrow> bytes \<Rightarrow> bytes"
  rp_hex_encode :: "bytes \<Rightarrow> rstring"
  rp_hex_decode :: "rstring \<Rightarrow> bytes option"

text \<open>A cached certificate: its DER bytes, its private key, and its raw public key.\<close>

type_synonym cert_template = "bytes \<times> bytes \<times> bytes"

record 'c lru_ops =
  lru_get :: "'c \<Rightarrow> rstring \<Rightarrow> cert_template option \<times> 'c"
  lru_put :: "'c \<Rightarrow> rstring \<Rightarrow> cert_template \<Rightarrow> 'c"
  lru_clear :: "'c \<Rightarrow> 'c"

section \<open>State\<close>

datatype reality_error = InvalidShortIdHex | ConfigInvalid rustls_error | EmptyDest | EmptyPrivateKey
  | KeyNotBase64 | KeyLength nat | ClosedEarly | HandshakeTimeout | ReadFailed
  | CertGeneration | CertTooShort | HandshakeFailure | TlsHandshakeTimeout | FallbackConnect | FallbackTimeout

record reality_server =
  rs_config :: reality_config
  rs_server_names :: "rstring list"

text \<open>The global cache behind its mutex, which a panic of a holder poisons for good.\<close>

record 'c cert_cache =
  cc_poisoned :: bool
  cc_entries :: 'c

text \<open>What the TLS handshake is started with.\<close>

record conn_setup =
  cs_cert :: bytes
  cs_key :: bytes
  cs_reality :: reality_config

datatype ('s, 't) accept_result =
    Accepted 't
  | FellBack rstring bytes 's  \<comment> \<open>the destination, what it is sent first, and the client's stream copied after it\<close>
  | Failed reality_error
  | Panicked

section \<open>Construction\<close>

fun decode_short_ids :: "reality_prims \<Rightarrow> rstring list \<Rightarrow> (reality_error, bytes list) outcome" where
  "decode_short_ids P [] = Ret []"
| "decode_short_ids P (s # ids) =
     bnd (ok_or InvalidShortIdHex (rp_hex_decode P s)) (\<lambda>b.
     bnd (decode_short_ids P ids) (\<lambda>bs. Ret (b # bs)))"

definition reality_server_new ::
  "reality_prims \<Rightarrow> bytes \<Rightarrow> rstring option \<Rightarrow> rstring list \<Rightarrow> rstring list \<Rightarrow> (reality_error, reality_server) outcome" where
  "reality_server_new P private_key dest short_ids server_names =
     bnd (decode_short_ids P short_ids) (\<lambda>short_ids_bytes.
     let config = with_dest (with_short_ids (with_verify_client (reality_config_new private_key) True)
           short_ids_bytes) (case dest of Some d \<Rightarrow> d | None \<Rightarrow> lit ''www.microsoft.com:443'') in
     bnd (map_err ConfigInvalid (config_validate config)) (\<lambda>_.
     Ret \<lparr>rs_config = config, rs_server_names = server_names\<rparr>))"

definition reality_wrapper_new ::
  "reality_prims \<Rightarrow> (rstring \<Rightarrow> bytes option) \<Rightarrow> (rstring \<Rightarrow> bytes option) \<Rightarrow>
     reality_conf \<Rightarrow> (reality_error, reality_server) outcome" where
  "reality_wrapper_new P b64_url_safe_no_pad b64_standard config =
     bnd (guard (cf_dest config = []) EmptyDest) (\<lambda>_.
     bnd (guard (cf_private_key config = []) EmptyPrivateKey) (\<lambda>_.
     bnd (ok_or KeyNotBase64
            (case b64_url_safe_no_pad (cf_private_key config) of
               Some b \<Rightarrow> Some b | None \<Rightarrow> b64_standard (cf_private_key config))) (\<lambda>private_key_bytes.
     bnd (guard (length private_key_bytes \<noteq> 32) (KeyLength (length private_key_bytes))) (\<lambda>_.
     reality_server_new P private_key_bytes (Some (cf_dest config)) (cf_short_ids config) (cf_server_names config)))))"

section \<open>Reading the first record\<close>

function read_head :: "('s \<Rightarrow> nat \<Rightarrow> bytes \<times> 's) \<Rightarrow> 's \<Rightarrow> bytes \<Rightarrow> (reality_error, bytes \<times> 's) outcome" where
  "read_head rd stream buffer =
     (if length buffer < 5 then
        (case rd stream 1024 of
           (chunk, stream') \<Rightarrow>
             if chunk = [] then Err ClosedEarly else read_head rd stream' (buffer @ chunk))
      else Ret (buffer, stream))"
  by pat_completeness auto
termination
  by (relation "measure (\<lambda>(rd, s, buffer). 5 - length buffer)") (auto simp: neq_Nil_conv)

function read_record :: "('s \<Rightarrow> nat \<Rightarrow> bytes \<times> 's) \<Rightarrow> 's \<Rightarrow> bytes \<Rightarrow> nat \<Rightarrow> bytes \<times> 's" where
  "read_record rd stream buffer needed =
     (if length buffer < needed \<and> length buffer < 16384 then
        (case rd stream 1024 of
           (chunk, stream') \<Rightarrow>
             if chunk = [] then (buffer, stream') else read_record rd stream' (buffer @ chunk) needed)
      else (buffer, stream))"
  by pat_completeness auto
termination
  by (relation "measure (\<lambda>(rd, s, buffer, needed). 16384 - length buffer)") (auto simp: neq_Nil_conv)

declare read_head.simps [simp del] read_record.simps [simp del]

definition read_first :: "('s \<Rightarrow> nat \<Rightarrow> bytes \<times> 's) \<Rightarrow> 's \<Rightarrow> (reality_error, bytes \<times> 's) outcome" where
  "read_first rd stream =
     bnd (read_head rd stream []) (\<lambda>(buffer, stream).
     let needed = (if buffer ! 0 = 0x16 then 5 + unat (be16 (buffer ! 3) (buffer ! 4)) else length buffer) in
     Ret (read_record rd stream buffer needed))"

section \<open>Authenticating the client\<close>

definition zero_at :: "nat \<Rightarrow> bytes \<Rightarrow> bytes" where
  "zero_at pos aad = foldl (\<lambda>a i. if pos + i < length a then a[pos + i := 0] else a) aad [0..<32]"

text \<open>The result is an \<open>Option\<close>: \<open>Err ()\<close> is \<open>None\<close>.\<close>

fun match_short_id :: "bytes list \<Rightarrow> bytes \<Rightarrow> bytes \<Rightarrow> (unit, nat \<times> bytes) outcome" where
  "match_short_id [] buf auth_key = Err ()"
| "match_short_id (sid # ids) buf auth_key =
     bnd (slice buf 4 12) (\<lambda>at4.
     if sid = at4 then Ret (4, auth_key)
     else
       bnd (slice buf 8 16) (\<lambda>at8.
       if sid = at8 then Ret (8, auth_key) else match_short_id ids buf auth_key))"

definition verify_client_reality ::
  "reality_prims \<Rightarrow> reality_server \<Rightarrow> client_hello_info \<Rightarrow> bytes \<Rightarrow> (unit, nat \<times> bytes) outcome" where
  "verify_client_reality P self info full_hello =
     bnd (guard (length (chi_session_id info) \<noteq> 32 \<or> chi_public_key info = None) ()) (\<lambda>_.
     bnd (copy_exact 32 (rc_private_key (rs_config self))) (\<lambda>server_priv.
     bnd (ok_or () (chi_public_key info)) (\<lambda>client_pub.
     bnd (guard (length client_pub \<noteq> 32) ()) (\<lambda>_.
     let shared = rp_x25519 P server_priv client_pub in
     bnd (slice (chi_client_random info) 0 20) (\<lambda>salt.
     bnd (ok_or () (rp_hkdf_sha256 P salt shared (lit ''REALITY'') 32)) (\<lambda>auth_key.
     bnd (slice (chi_client_random info) 20 32) (\<lambda>nonce.
     bnd (idx full_hello 0) (\<lambda>first.
     bnd (if first = 0x16 then slice full_hello 5 (length full_hello) else Ret full_hello) (\<lambda>handshake_msg.
     let aad = (case find_sub (rp_hex_encode P (chi_session_id info)) (rp_hex_encode P handshake_msg) of
                  Some p \<Rightarrow> zero_at (p div 2) handshake_msg
                | None \<Rightarrow> handshake_msg) in
     bnd (ok_or () (rp_gcm_open P auth_key nonce aad (chi_session_id info))) (\<lambda>buf.
     bnd (guard (length buf < 16) ()) (\<lambda>_.
     match_short_id (rc_short_ids (rs_config self)) buf auth_key)))))))))))"

section \<open>The certificate of one connection\<close>

definition cached_template ::
  "'c lru_ops \<Rightarrow> 'c cert_cache \<Rightarrow> rstring \<Rightarrow> cert_template option \<times> 'c cert_cache" where
  "cached_template L cache host =
     (if cc_poisoned cache then (None, cache \<lparr>cc_entries := lru_clear L (cc_entries cache)\<rparr>)
      else
        let (t, entries) = lru_get L (cc_entries cache) host
        in (t, cache \<lparr>cc_entries := entries\<rparr>))"

definition generate_reality_cert ::
  "reality_prims \<Rightarrow> 'c lru_ops \<Rightarrow> (rstring \<Rightarrow> cert_template option) \<Rightarrow> 'c cert_cache \<Rightarrow> bytes \<Rightarrow> rstring
     \<Rightarrow> (reality_error, bytes \<times> bytes) outcome \<times> 'c cert_cache" where
  "generate_reality_cert P L generate cache auth_key host =
     (let (cached, cache1) = cached_template L cache host;
          (template, cache2) =
            (case cached of
               Some t \<Rightarrow> (Ret t, cache1)
             | None \<Rightarrow>
                 (case generate host of
                    None \<Rightarrow> (Err CertGeneration, cache1)
                  | Some t \<Rightarrow> (Ret t, cache1 \<lparr>cc_entries := lru_put L (cc_entries cache1) host t\<rparr>)))
      in (bnd template (\<lambda>(cert_der, priv_key_der, pub_key_raw).
            let total_len = length cert_der in
            bnd (guard (total_len < 64) CertTooShort) (\<lambda>_.
            bnd (splice cert_der (total_len - 64) total_len (rp_hmac_sha512 P auth_key pub_key_raw)) (\<lambda>cert.
            Ret (cert, priv_key_der)))),
          cache2))"

section \<open>Accepting a connection\<close>

definition sni_valid :: "reality_server \<Rightarrow> client_hello_info \<Rightarrow> bool" where
  "sni_valid self info \<longleftrightarrow>
     (if rs_server_names self = [] then True
      else case chi_server_name info of
        Some sni \<Rightarrow> list_ex (\<lambda>s. s = sni) (rs_server_names self)
      | None \<Rightarrow> False)"

definition fallback :: "(rstring \<Rightarrow> reality_error option) \<Rightarrow> 's \<Rightarrow> bytes \<Rightarrow> rstring \<Rightarrow> ('s, 't) accept_result" where
  "fallback connect stream prefix dest =
     (case connect dest of
        None \<Rightarrow> FellBack dest prefix stream
      | Some e \<Rightarrow> Failed e)"

definition start_tls ::
  "reality_prims \<Rightarrow> 'c lru_ops \<Rightarrow> (rstring \<Rightarrow> cert_template option)
     \<Rightarrow> (conn_setup \<Rightarrow> 's prefixed_stream \<Rightarrow> (reality_error, 't) outcome)
     \<Rightarrow> 'c cert_cache \<Rightarrow> reality_server \<Rightarrow> bytes \<Rightarrow> bytes \<Rightarrow> 's \<Rightarrow> ('s, 't) accept_result \<times> 'c cert_cache" where
  "start_tls P L generate tls cache self auth_key buffer stream =
     (let dest_str = (case rc_dest (rs_config self) of Some d \<Rightarrow> d | None \<Rightarrow> lit ''www.microsoft.com'');
          dest_host = hd (split_on 0x3A dest_str)
      in (case generate_reality_cert P L generate cache auth_key dest_host of
            (Ret (cert, key), cache') \<Rightarrow>
              let conn_reality_config = rs_config self \<lparr>rc_private_key := auth_key, rc_verify_client := False\<rparr>;
                  conf = \<lparr>cs_cert = cert, cs_key = key, cs_reality = conn_reality_config\<rparr>
              in (case tls conf (prefixed_new buffer stream) of
                    Ret t \<Rightarrow> (Accepted t, cache')
                  | Err e \<Rightarrow> (Failed e, cache')
                  | Panic \<Rightarrow> (Panicked, cache'))
          | (Err e, cache') \<Rightarrow> (Failed e, cache')
          | (Panic, cache') \<Rightarrow> (Panicked, cache')))"

definition reality_accept ::
  "reality_prims \<Rightarrow> 'c lru_ops \<Rightarrow> (rstring \<Rightarrow> cert_template option)
     \<Rightarrow> (conn_setup \<Rightarrow> 's prefixed_stream \<Rightarrow> (reality_error, 't) outcome) \<Rightarrow> (rstring \<Rightarrow> reality_error option)
     \<Rightarrow> ('s \<Rightarrow> nat \<Rightarrow> bytes \<times> 's) \<Rightarrow> reality_error option
     \<Rightarrow> 'c cert_cache \<Rightarrow> reality_server \<Rightarrow> 's \<Rightarrow> ('s, 't) accept_result \<times> 'c cert_cache" where
  "reality_accept P L generate tls connect rd interrupt cache self stream =
     (case (case interrupt of Some e \<Rightarrow> Err e | None \<Rightarrow> read_first rd stream) of
        Err e \<Rightarrow> (Failed e, cache)
      | Panic \<Rightarrow> (Panicked, cache)
      | Ret (buffer, stream') \<Rightarrow>
          let dest = (case rc_dest (rs_config self) of Some d \<Rightarrow> d | None \<Rightarrow> lit ''www.microsoft.com:443'');
              fall = (fallback connect stream' buffer dest, cache)
          in (case parse_client_hello buffer of
                Ret (Some info) \<Rightarrow>
                  if \<not> sni_valid self info then fall
                  else
                    (case verify_client_reality P self info buffer of
                       Ret (offset, auth_key) \<Rightarrow>
                         start_tls P L generate tls cache self auth_key buffer stream'
                     | Err _ \<Rightarrow> fall
                     | Panic \<Rightarrow> (Panicked, cache))
              | Panic \<Rightarrow> (Panicked, cache)
              | _ \<Rightarrow> fall))"

section \<open>What the theorems speak about\<close>

text \<open>The message the client authenticates: its hello with the session id set to zero.\<close>

definition hello_aad :: "hello \<Rightarrow> bytes" where
  "hello_aad h = enc_hello_msg (h \<lparr>h_session := replicate 32 0\<rparr>)"

definition has_short_id :: "reality_server \<Rightarrow> bytes \<Rightarrow> bool" where
  "has_short_id self pt \<longleftrightarrow> 16 \<le> length pt \<and>
     (\<exists>sid \<in> set (rc_short_ids (rs_config self)). sid = take 8 (drop 4 pt) \<or> sid = take 8 (drop 8 pt))"

definition authenticated :: "reality_prims \<Rightarrow> reality_server \<Rightarrow> bytes \<Rightarrow> bytes \<Rightarrow> bool" where
  "authenticated P self buffer auth_key \<longleftrightarrow>
     (\<exists>info off. parse_client_hello buffer = Ret (Some info) \<and> sni_valid self info
        \<and> verify_client_reality P self info buffer = Ret (off, auth_key))"

definition sample_reality :: reality_prims where
  "sample_reality =
     \<lparr>rp_x25519 = (\<lambda>a b. b), rp_hkdf_sha256 = (\<lambda>salt ikm info n. Some (take n ikm)),
      rp_gcm_open = (\<lambda>k n a c. if drop 16 c = replicate 16 (a ! 0) then Some (take 16 c) else None),
      rp_hmac_sha512 = (\<lambda>k m. take 64 (m @ k @ replicate 64 0)),
      rp_hex_encode = (\<lambda>bs. concat (map (\<lambda>b. [hex_digit (unat b div 16), hex_digit (unat b mod 16)]) bs)),
      rp_hex_decode = (\<lambda>s. Some s)\<rparr>"

definition sample_server :: reality_server where
  "sample_server = \<lparr>rs_config = \<lparr>rc_private_key = replicate 32 7, rc_verify_client = True,
       rc_dest = Some (lit ''a.b:443''), rc_short_ids = [[1, 2, 3, 4, 5, 6, 7, 8]]\<rparr>, rs_server_names = []\<rparr>"

text \<open>A hello whose session id seals, for the sample primitives, the short id of the sample server.\<close>

definition sealed_hello :: hello where
  "sealed_hello = sample_hello \<lparr>h_session :=
     [0xFF, 0, 0, 0, 1, 2, 3, 4, 5, 6, 7, 8, 0, 0, 0, 0] @ replicate 16 1\<rparr>"

section \<open>Lemmas on authentication\<close>

lemma find_sub_fresh: "x \<notin> set pre \<Longrightarrow> find_sub (x # p) (pre @ x # p @ rest) = Some (length pre)"
  by (induction pre) auto

lemma zero_prefix:
  "pos + n \<le> length aad \<Longrightarrow>
    foldl (\<lambda>a i. if pos + i < length a then a[pos + i := 0] else a) aad [0..<n]
      = take pos aad @ replicate n 0 @ drop (pos + n) aad"
proof (induction n)
  case (Suc n)
  have "drop (pos + n) aad = aad ! (pos + n) # drop (Suc (pos + n)) aad"
    using Suc.prems by (simp add: Cons_nth_drop_Suc)
  then show ?case
    using Suc by (simp add: list_update_append replicate_append_same flip: replicate_Suc) linarith
qed simp

lemma zero_at_eq:
  "pos + 32 \<le> length aad \<Longrightarrow> zero_at pos aad = take pos aad @ replicate 32 0 @ drop (pos + 32) aad"
  unfolding zero_at_def by (rule zero_prefix)

lemma zero_at_hello:
  assumes "wf_hello h" "length (h_session h) = 32"
  shows "zero_at 39 (enc_hello_msg h) = hello_aad h"
proof -
  let ?pre = "0x01 # u24_be (length (enc_hello_body h)) @ h_version h @ h_random h @ [32]"
  let ?post = "u16_be (word_of_nat (length (h_ciphers h))) @ h_ciphers h
     @ word_of_nat (length (h_compression h)) # h_compression h
     @ u16_be (word_of_nat (length (enc_exts (h_exts h)))) @ enc_exts (h_exts h)"
  have "enc_hello_msg h = ?pre @ h_session h @ ?post" "length ?pre = 39"
    using assms by (simp_all add: enc_hello_msg_def enc_hello_body_def enc_hello_tail_def wf_hello_def)
  moreover have "hello_aad h = ?pre @ replicate 32 0 @ ?post"
    using assms by (simp add: hello_aad_def enc_hello_msg_def enc_hello_body_def enc_hello_tail_def)
  ultimately show ?thesis
    using assms(2) by (simp add: zero_at_eq)
qed

lemma match_short_id_iff:
  "16 \<le> length buf \<Longrightarrow> (\<exists>off. match_short_id ids buf key = Ret (off, k)) \<longleftrightarrow>
    k = key \<and> (\<exists>sid \<in> set ids. sid = take 8 (drop 4 buf) \<or> sid = take 8 (drop 8 buf))"
  by (induction ids) (auto simp: slice_def)

lemma match_short_id_no_panic: "16 \<le> length buf \<Longrightarrow> match_short_id ids buf key \<noteq> Panic"
  by (induction ids) (auto simp: slice_def)

lemma verify_no_panic:
  assumes "length (rc_private_key (rs_config self)) = 32" "length (chi_client_random info) = 32" "5 \<le> length buffer"
  shows "verify_client_reality P self info buffer \<noteq> Panic"
  using assms match_short_id_no_panic
  by (auto simp: verify_client_reality_def Let_def bnd_Panic_iff copy_exact_def slice_def idx_def)

lemma enc_record_parts:
  "slice (enc_record t v p) 5 (length (enc_record t v p)) = Ret p" "idx (enc_record t v p) 0 = Ret t"
  by (simp_all add: slice_def enc_record_def u16_be_def)

lemma verify_open:
  assumes "wf_hello h" "length (h_session h) = 32" "length (rc_private_key (rs_config self)) = 32" "length key = 32"
    and "rp_hkdf_sha256 P (take 20 (h_random h)) (rp_x25519 P (rc_private_key (rs_config self)) key)
           (lit ''REALITY'') 32 = Some auth"
    and "find_sub (rp_hex_encode P (h_session h)) (rp_hex_encode P (enc_hello_msg h)) = Some 78"
  shows "verify_client_reality P self \<lparr>chi_session_id = h_session h, chi_client_random = h_random h,
       chi_public_key = Some key, chi_server_name = sn\<rparr> (enc_record 0x16 ver (enc_hello_msg h)) =
    bnd (ok_or () (rp_gcm_open P auth (drop 20 (h_random h)) (hello_aad h) (h_session h))) (\<lambda>buf.
    bnd (guard (length buf < 16) ()) (\<lambda>_. match_short_id (rc_short_ids (rs_config self)) buf auth))"
proof -
  have "length (h_random h) = 32" using assms(1) by (simp add: wf_hello_def)
  then show ?thesis
    using assms zero_at_hello [OF assms(1,2)]
    by (simp add: verify_client_reality_def copy_exact_def enc_record_parts) (simp add: slice_def)
qed

section \<open>Lemmas on reading\<close>

context byte_source
begin

lemma read_head_content:
  "read_head rd s buf = Ret (buf', s') \<Longrightarrow> buf' @ content s' = buf @ content s \<and> 5 \<le> length buf'"
proof (induction "5 - length buf" arbitrary: s buf rule: less_induct)
  case less
  show ?case
  proof (cases "length buf < 5")
    case True
    obtain chunk s1 where r: "rd s 1024 = (chunk, s1)" by (cases "rd s 1024")
    then have "chunk \<noteq> []" "read_head rd s1 (buf @ chunk) = Ret (buf', s')"
      using less.prems True by (auto simp: read_head.simps [of rd s buf] split: if_splits)
    then show ?thesis
      using less.hyps [of "buf @ chunk" s1] True rd_content [OF r] by (simp add: diff_less_mono2)
  next
    case False
    then show ?thesis using less.prems by (subst (asm) read_head.simps) auto
  qed
qed

lemma read_record_content:
  "read_record rd s buf n = (buf', s') \<Longrightarrow> buf' @ content s' = buf @ content s \<and> length buf \<le> length buf'"
proof (induction "16384 - length buf" arbitrary: s buf rule: less_induct)
  case less
  show ?case
  proof (cases "length buf < n \<and> length buf < 16384")
    case True
    obtain chunk s1 where r: "rd s 1024 = (chunk, s1)" by (cases "rd s 1024")
    show ?thesis
    proof (cases "chunk = []")
      case True
      then show ?thesis
        using less.prems r rd_content [OF r] by (subst (asm) read_record.simps) (auto split: if_splits)
    next
      case False
      then have "read_record rd s1 (buf @ chunk) n = (buf', s')"
        using less.prems r True by (subst (asm) read_record.simps) simp
      then show ?thesis
        using less.hyps [of "buf @ chunk" s1] True False rd_content [OF r] by (simp add: diff_less_mono2)
    qed
  next
    case False
    then show ?thesis using less.prems by (subst (asm) read_record.simps) auto
  qed
qed

text \<open>What has been read and what has not is together what the client sent.\<close>

lemma read_first_content:
  assumes "read_first rd s = Ret (buf, s')"
  shows "buf @ content s' = content s \<and> 5 \<le> length buf"
proof -
  obtain b s1 n where "read_head rd s [] = Ret (b, s1)" "read_record rd s1 b n = (buf, s')"
    using assms by (auto simp: read_first_def bnd_Ret_iff Let_def)
  then show ?thesis
    using read_head_content [of s "[]" b s1] read_record_content [of s1 b n buf s'] by auto
qed

end

lemma read_head_no_panic: "read_head rd s buf \<noteq> Panic"
  by (induction rd s buf rule: read_head.induct) (subst read_head.simps, auto split: prod.splits)

lemma read_first_no_panic: "read_first rd s \<noteq> Panic"
  by (auto simp: read_first_def bnd_Panic_iff read_head_no_panic Let_def)

section \<open>Lemmas on the certificate and the connection\<close>

lemma generate_cert_signed:
  assumes "\<And>k m. length (rp_hmac_sha512 P k m) = 64"
    "generate_reality_cert P L generate cache auth_key host = (Ret (cert, key), cache')"
  shows "\<exists>der pub. 64 \<le> length der \<and> cert = take (length der - 64) der @ rp_hmac_sha512 P auth_key pub"
proof -
  obtain der pub where "64 \<le> length der"
    "splice der (length der - 64) (length der) (rp_hmac_sha512 P auth_key pub) = (Ret cert :: (reality_error, bytes) outcome)"
    using assms(2) by (auto simp: generate_reality_cert_def bnd_Ret_iff Let_def not_less split: prod.splits option.splits)
  then show ?thesis
    by (auto simp: splice_def assms(1) split: if_splits)
qed

lemma generate_cert_no_panic:
  assumes "\<And>k m. length (rp_hmac_sha512 P k m) = 64"
  shows "fst (generate_reality_cert P L generate cache auth_key host) \<noteq> Panic"
  by (auto simp: generate_reality_cert_def Let_def bnd_Panic_iff splice_def assms split: prod.splits option.splits)

lemma start_tls_accepted:
  assumes "\<And>k m. length (rp_hmac_sha512 P k m) = 64"
    "start_tls P L generate tls cache self auth_key buffer stream = (Accepted t, cache')"
  shows "\<exists>conf der pub. tls conf (prefixed_new buffer stream) = Ret t \<and> rc_private_key (cs_reality conf) = auth_key
    \<and> 64 \<le> length der \<and> cs_cert conf = take (length der - 64) der @ rp_hmac_sha512 P auth_key pub"
proof -
  obtain host cert key cache1 conf where g: "generate_reality_cert P L generate cache auth_key host = (Ret (cert, key), cache1)"
    and s: "conf = \<lparr>cs_cert = cert, cs_key = key,
       cs_reality = rs_config self \<lparr>rc_private_key := auth_key, rc_verify_client := False\<rparr>\<rparr>"
      "tls conf (prefixed_new buffer stream) = Ret t"
    using assms(2) by (auto simp: start_tls_def Let_def split: prod.splits outcome.splits)
  obtain der pub where "64 \<le> length der" "cert = take (length der - 64) der @ rp_hmac_sha512 P auth_key pub"
    using generate_cert_signed [OF assms(1) g] by blast
  then show ?thesis
    using s by (intro exI [of _ conf] exI [of _ der] exI [of _ pub]) simp
qed

lemma start_tls_no_fallback:
  "fst (start_tls P L generate tls cache self auth_key buffer stream) \<noteq> FellBack d p s"
  by (auto simp: start_tls_def Let_def split: prod.splits outcome.splits)

lemma start_tls_no_panic:
  assumes "\<And>k m. length (rp_hmac_sha512 P k m) = 64" "\<And>s p. tls s p \<noteq> Panic"
  shows "fst (start_tls P L generate tls cache self auth_key buffer stream) \<noteq> Panicked"
  using generate_cert_no_panic [OF assms(1), of L generate cache auth_key] assms(2)
  by (auto simp: start_tls_def Let_def split: prod.splits outcome.splits) (metis fst_conv)

lemma parse_random_length:
  assumes "parse_client_hello buffer = Ret (Some info)"
  shows "length (chi_client_random info) = 32"
  using assms
  by (auto simp: parse_client_hello_def bnd_Ret_iff Let_def get_n_def split: if_splits)

lemma accept_cases:
  assumes "reality_accept P L generate tls connect rd interrupt cache self s = (res, cache')"
  obtains (failed) e where "res = Failed e"
  | (stuck) "interrupt = None" "read_first rd s = Panic"
  | (fell) buffer s' where "interrupt = None" "read_first rd s = Ret (buffer, s')"
      "\<forall>k. \<not> authenticated P self buffer k"
      "res = fallback connect s' buffer (case rc_dest (rs_config self) of Some d \<Rightarrow> d | None \<Rightarrow> lit ''www.microsoft.com:443'')"
  | (tls) buffer s' k where "interrupt = None" "read_first rd s = Ret (buffer, s')" "authenticated P self buffer k"
      "start_tls P L generate tls cache self k buffer s' = (res, cache')"
  | (panicked) buffer s' info where "read_first rd s = Ret (buffer, s')" "res = Panicked"
      "parse_client_hello buffer = Panic \<or>
       parse_client_hello buffer = Ret (Some info) \<and> verify_client_reality P self info buffer = Panic"
  using assms unfolding reality_accept_def authenticated_def
  by (auto simp: Let_def split: option.splits outcome.splits prod.splits if_splits)

context byte_source
begin

lemma accept_exact:
  assumes "length (rc_private_key (rs_config self)) = 32"
    and "\<And>k m. length (rp_hmac_sha512 P k m) = 64" and "\<And>s p. tls s p \<noteq> Panic"
  shows "case fst (reality_accept P L generate tls connect rd interrupt cache self segs) of
      Accepted t \<Rightarrow>
        (\<exists>buffer segs' k conf der pub.
           authenticated P self buffer k \<and> rc_private_key (cs_reality conf) = k
           \<and> cs_cert conf = take (length der - 64) der @ rp_hmac_sha512 P k pub
           \<and> tls conf (prefixed_new buffer segs') = Ret t
           \<and> prefixed_content content (prefixed_new buffer segs') = content segs)
    | FellBack dest prefix segs' \<Rightarrow>
        (\<forall>k. \<not> authenticated P self prefix k) \<and> prefix @ content segs' = content segs
        \<and> dest = (case rc_dest (rs_config self) of Some d \<Rightarrow> d | None \<Rightarrow> lit ''www.microsoft.com:443'')
    | Failed e \<Rightarrow> True
    | Panicked \<Rightarrow> False"
proof -
  obtain res cache' where r: "reality_accept P L generate tls connect rd interrupt cache self segs = (res, cache')"
    by (cases "reality_accept P L generate tls connect rd interrupt cache self segs")
  from r show ?thesis
  proof (cases rule: accept_cases)
    case (fell buffer s')
    then show ?thesis
      using r read_first_content [OF fell(2)] by (simp add: fallback_def split: option.splits)
  next
    case (tls buffer s' k)
    show ?thesis
    proof (cases res)
      case (Accepted t)
      then obtain conf der pub where "tls conf (prefixed_new buffer s') = Ret t"
        "rc_private_key (cs_reality conf) = k" "cs_cert conf = take (length der - 64) der @ rp_hmac_sha512 P k pub"
        using start_tls_accepted [OF assms(2), of L generate tls cache self k buffer s' t cache'] tls(4) by blast
      then show ?thesis
        using r Accepted tls(3) read_first_content [OF tls(2)]
        by (simp add: prefixed_new_content) blast
    next
      case (FellBack d p s)
      then show ?thesis
        using start_tls_no_fallback [of P L generate tls cache self k buffer s' d p s] tls(4) by simp
    next
      case Panicked
      then show ?thesis
        using start_tls_no_panic [of P tls L generate cache self k buffer s', OF assms(2,3)] tls(4) by simp
    qed (use r in simp)
  next
    case (panicked buffer s' info)
    then show ?thesis
      using parse_client_hello_no_panic [of buffer] verify_no_panic [OF assms(1) parse_random_length]
        read_first_content [OF panicked(1)]
      by (auto simp: no_panic_def)
  next
    case stuck
    then show ?thesis using read_first_no_panic [of rd segs] by simp
  qed (use r in simp)
qed

end

section \<open>Correctness\<close>



text \<open>C3. What becomes of a connection: only an authenticated client gets a TLS connection, with a
  certificate whose last 64 bytes are the HMAC-SHA512 of the certificate's key under that client's key, and
  the handshake reads every byte the client sent. Any other connection is forwarded to the configured
  destination, which receives first what was read and then the rest, so nothing is lost; or
  it fails. The server does not panic.\<close>

theorem reality_accept_exact:
  assumes "length (rc_private_key (rs_config self)) = 32"
    and "\<And>k m. length (rp_hmac_sha512 P k m) = 64" and "\<And>s p. tls s p \<noteq> Panic"
  shows "case fst (reality_accept P L generate tls connect tcp_read interrupt cache self segs) of
      Accepted t \<Rightarrow>
        (\<exists>buffer segs' k conf der pub.
           authenticated P self buffer k \<and> rc_private_key (cs_reality conf) = k
           \<and> cs_cert conf = take (length der - 64) der @ rp_hmac_sha512 P k pub
           \<and> tls conf (prefixed_new buffer segs') = Ret t
           \<and> prefixed_content concat (prefixed_new buffer segs') = concat segs)
    | FellBack dest prefix segs' \<Rightarrow>
        (\<forall>k. \<not> authenticated P self prefix k) \<and> prefix @ concat segs' = concat segs
        \<and> dest = (case rc_dest (rs_config self) of Some d \<Rightarrow> d | None \<Rightarrow> lit ''www.microsoft.com:443'')
    | Failed e \<Rightarrow> True
    | Panicked \<Rightarrow> False"
  using assms by (rule tcp_source.accept_exact)

theorem reality_accept_exact_witness:
  "case fst (reality_accept sample_reality \<lparr>lru_get = (\<lambda>c h. (None, c)), lru_put = (\<lambda>c h t. c), lru_clear = (\<lambda>c. c)\<rparr>
      (\<lambda>h. Some (replicate 70 1, [], [2])) (\<lambda>conf s. Ret conf) (\<lambda>d. None) tcp_read None
      \<lparr>cc_poisoned = False, cc_entries = ()\<rparr> sample_server [lit ''GET '', lit ''/ HTTP''])
    of FellBack dest prefix segs' \<Rightarrow> prefix @ concat segs' = lit ''GET / HTTP'' | _ \<Rightarrow> False"
proof -
  let ?L = "\<lparr>lru_get = (\<lambda>c h. (None, c)), lru_put = (\<lambda>c h t. c), lru_clear = (\<lambda>c. c)\<rparr> :: unit lru_ops"
  let ?res = "reality_accept sample_reality ?L
      (\<lambda>h. Some (replicate 70 1, [], [2])) (\<lambda>conf s. Ret conf) (\<lambda>d. None) tcp_read None
      \<lparr>cc_poisoned = False, cc_entries = ()\<rparr> sample_server [lit ''GET '', lit ''/ HTTP'']"
  have l: "length (rp_hmac_sha512 sample_reality k m) = 64" for k m
    by (simp add: sample_reality_def)
  have p: "length (rc_private_key (rs_config sample_server)) = 32"
    by (simp add: sample_server_def)
  have "read_first tcp_read [lit ''GET '', lit ''/ HTTP''] = Ret (lit ''GET / HTTP'', [[]])"
    by (simp add: read_first_def read_head.simps read_record.simps lit_def)
  then have f: "case fst ?res of FellBack d p s \<Rightarrow> True | _ \<Rightarrow> False"
    by (simp add: reality_accept_def parse_client_hello_def fallback_def lit_def)
  show ?thesis
    using reality_accept_exact [where self = sample_server and P = sample_reality
        and tls = "\<lambda>conf s. Ret conf" and L = ?L and generate = "\<lambda>h. Some (replicate 70 1, [], [2])"
        and connect = "\<lambda>d. None" and interrupt = None and cache = "\<lparr>cc_poisoned = False, cc_entries = ()\<rparr>"
        and segs = "[lit ''GET '', lit ''/ HTTP'']", OF p l] f
    by (auto split: accept_result.splits simp: lit_def)
qed

end
