(* ===== verification/Reality_Handshake.thy ===== *)
theory Reality_Handshake
  imports Tls_Records Tls_Stream
begin

text \<open>
  The TLS 1.3 handshake the program performs itself, \<open>src/transport/reality/handshake.rs\<close>: it reads
  the ClientHello, checks the client's authentication, answers with its own flight of messages,
  waits for the client's Finished, and returns the encrypted stream; or it forwards the connection.

  The client's side of the socket is the list of its segments, the server's side a sink. Random numbers,
  the Base64 decoders and the connection to the destination are arguments. \<open>spare\<close> is the room the
  growing read buffer offers, given the number of bytes it holds.
\<close>

section \<open>State\<close>

datatype hs_error = EofReadingHello | HsTls tls_error | HsAuth auth_error | HsCrypto crypto_error
  | NoKeyShare | HsWrite | HsConnectionClosed | HsEof | ClientAlert u8 u8 | DestConnect

record reality_handshake =
  rh_config :: reality_conf

definition reality_handshake_new :: "reality_conf \<Rightarrow> reality_handshake" where
  "reality_handshake_new config = \<lparr>rh_config = config\<rparr>"

text \<open>The result: an encrypted stream with what is left of the client's segments and what the client has been sent,
  or the connection handed to the destination, which is sent a record first and then what the client
  sends (the code reports this to its caller as an error).\<close>

datatype hs_result = Established tls_stream tcp sink | Forwarded rstring bytes tcp

section \<open>Reading the ClientHello\<close>

definition read_buf :: "(nat \<Rightarrow> nat) \<Rightarrow> tcp \<Rightarrow> bytes \<Rightarrow> bytes \<times> tcp" where
  "read_buf spare stream buf = tcp_read stream (max 1 (spare (length buf)))"

lemma read_buf_shrinks:
  "read_buf spare stream buf = (d, stream') \<Longrightarrow> d \<noteq> [] \<Longrightarrow>
    length (concat stream') < length (concat stream)"
  by (auto simp: read_buf_def dest!: tcp_read_concat)

function read_client_hello ::
  "(nat \<Rightarrow> nat) \<Rightarrow> tcp \<Rightarrow> bytes \<Rightarrow> (hs_error, client_hello \<times> bytes \<times> tcp) outcome" where
  "read_client_hello spare stream buf =
     (case read_buf spare stream buf of
        (d, stream') \<Rightarrow>
          if d = [] then Err EofReadingHello
          else
            bnd (map_err HsTls (tls_record_parse (buf @ d))) (\<lambda>(parsed, _).
            case parsed of
              Some r \<Rightarrow>
                if tr_content_type r = Handshake then
                  bnd (map_err HsTls (client_hello_parse (tr_payload r))) (\<lambda>ch. Ret (ch, tr_payload r, stream'))
                else read_client_hello spare stream' (buf @ d)
            | None \<Rightarrow> read_client_hello spare stream' (buf @ d)))"
  by pat_completeness auto
termination
  by (relation "measure (\<lambda>(spare, stream, buf). length (concat stream))")
    (auto dest!: read_buf_shrinks [OF sym] simp del: length_concat)

declare read_client_hello.simps [simp del]

section \<open>The server's messages\<close>

definition ee_msg :: bytes where
  "ee_msg = [8, 0, 0, 2, 0, 0]"

definition cert_msg :: bytes where
  "cert_msg = [11, 0, 0, 4, 0, 0, 0, 0]"

definition ccs_record :: bytes where
  "ccs_record = [0x14, 0x03, 0x03, 0x00, 0x01, 0x01]"

definition fin_msg :: "bytes \<Rightarrow> bytes" where
  "fin_msg verify_data = 20 # drop 1 (u32_be (word_of_nat (length verify_data))) @ verify_data"

section \<open>Waiting for the client\<close>

text \<open>Every record is opened with sequence number zero; a record of another type, or with another
  content, is skipped.\<close>

function await_finished ::
  "prims \<Rightarrow> tls_keys \<Rightarrow> (nat \<Rightarrow> nat) \<Rightarrow> tcp \<Rightarrow> bytes \<Rightarrow> (hs_error, bytes \<times> tcp) outcome" where
  "await_finished c hs_keys spare stream buf =
     (if length buf < 5 then
        (case read_buf spare stream buf of
           (d, stream') \<Rightarrow>
             if d = [] then Err HsConnectionClosed else await_finished c hs_keys spare stream' (buf @ d))
      else
        let ctype = buf ! 0; rlen = unat (be16 (buf ! 3) (buf ! 4)) in
        if length buf < 5 + rlen then
          (case read_buf spare stream buf of
             (d, stream') \<Rightarrow>
               if d = [] then Err HsEof else await_finished c hs_keys spare stream' (buf @ d))
        else
          let record_data = take (5 + rlen) buf; buf' = drop (5 + rlen) buf in
          if ctype = 20 then await_finished c hs_keys spare stream buf'
          else if ctype = 23 then
            bnd (map_err HsCrypto (decrypt_client_record c hs_keys 0 (take 5 record_data) (drop 5 record_data)))
              (\<lambda>(inner_type, plen, plain).
                if inner_type = 21 then
                  Err (ClientAlert (if plen > 0 then plain ! 0 else 0) (if plen > 1 then plain ! 1 else 0))
                else if inner_type = 22 \<and> plen > 0 \<and> plain ! 0 = 20 then Ret (buf', stream)
                else await_finished c hs_keys spare stream buf')
          else await_finished c hs_keys spare stream buf')"
  by pat_completeness auto
termination
  by (relation "measures [\<lambda>(c, k, spare, stream, buf). length buf + length (concat stream),
      \<lambda>(c, k, spare, stream, buf). length (concat stream)]")
    (auto simp: read_buf_def simp del: length_concat dest!: tcp_read_concat [OF sym])

declare await_finished.simps [simp del]

section \<open>The fallback\<close>

definition fallback_to_dest :: "(rstring \<Rightarrow> bool) \<Rightarrow> reality_handshake \<Rightarrow> tcp \<Rightarrow> bytes \<Rightarrow> (hs_error, hs_result) outcome" where
  "fallback_to_dest connect self client client_hello =
     bnd (guard (\<not> connect (cf_dest (rh_config self))) DestConnect) (\<lambda>_.
     let ch_record = 0x16 # u16_be 0x0303 @ u16_be (word_of_nat (length client_hello)) @ client_hello in
     Ret (Forwarded (cf_dest (rh_config self)) ch_record client))"

section \<open>The handshake\<close>

text \<open>The first line logs the server name of the hello, which parses it.\<close>

definition perform ::
  "prims \<Rightarrow> (rstring \<Rightarrow> bytes option) \<Rightarrow> (rstring \<Rightarrow> bytes option) \<Rightarrow> (rstring \<Rightarrow> bool) \<Rightarrow> (nat \<Rightarrow> nat) \<Rightarrow> bytes \<Rightarrow> bytes
     \<Rightarrow> reality_handshake \<Rightarrow> tcp \<Rightarrow> sink \<Rightarrow> (hs_error, hs_result) outcome" where
  "perform c b64_standard b64_url connect spare random_secret server_random self client_stream out =
     bnd (read_client_hello spare client_stream []) (\<lambda>(client_hello, client_hello_raw, client_stream).
     bnd (get_sni client_hello) (\<lambda>_.
     bnd (map_err HsAuth (reality_auth_new b64_standard b64_url (cf_private_key (rh_config self)))) (\<lambda>auth.
     bnd (verify_client_auth (hmac_sha256 c) auth (ch_random client_hello) (ch_session_id client_hello))
       (\<lambda>is_reality_client.
     if \<not> is_reality_client then fallback_to_dest connect self client_stream client_hello_raw
     else
     bnd (map_err HsTls (get_key_share client_hello)) (\<lambda>key_share.
     bnd (ok_or NoKeyShare key_share) (\<lambda>client_key_share.
     let crypto = reality_crypto_new random_secret; my_public_key = get_public_key c crypto in
     bnd (map_err HsCrypto (derive_shared_secret c crypto client_key_share)) (\<lambda>shared_secret.
     bnd (map_err HsAuth (modify_for_reality b64_standard b64_url (hmac_sha256 c)
            (new_reality (ch_session_id client_hello) server_random my_public_key)
            (cf_private_key (rh_config self)) (ch_random client_hello))) (\<lambda>server_hello.
     bnd (ok_or HsWrite (write_all out (server_hello_encode server_hello))) (\<lambda>out.
     bnd (ok_or HsWrite (write_all out ccs_record)) (\<lambda>out.
     bnd (map_err HsCrypto (derive_handshake_keys c shared_secret
            (hash_transcript c [client_hello_raw, handshake_payload server_hello]))) (\<lambda>(hs_keys, handshake_secret).
     let hash1 = hash_transcript c [client_hello_raw, handshake_payload server_hello, ee_msg, cert_msg] in
     bnd (map_err HsCrypto (calculate_verify_data c (server_traffic_secret hs_keys) hash1)) (\<lambda>verify_data.
     let fin = fin_msg verify_data; bundle = ee_msg @ cert_msg @ fin in
     bnd (map_err HsCrypto (encrypt_server_record c hs_keys 0 bundle 22)) (\<lambda>bundled_record.
     bnd (ok_or HsWrite (write_all out bundled_record)) (\<lambda>out.
     bnd (await_finished c hs_keys spare client_stream []) (\<lambda>(buf, client_stream).
     bnd (map_err HsCrypto (derive_application_keys c handshake_secret
            (hash_transcript c [client_hello_raw, handshake_payload server_hello, ee_msg, cert_msg, fin]))) (\<lambda>app_keys.
     Ret (Established (new_with_buffer app_keys buf) client_stream out)))))))))))))))))"

section \<open>The handshake of RFC 8446\<close>

text \<open>The keys for a shared secret and the messages exchanged, and the server's Finished message.\<close>

definition hs_keys_of :: "prims \<Rightarrow> bytes \<Rightarrow> bytes \<Rightarrow> tls_keys" where
  "hs_keys_of c dhe hellos = traffic_keys c
     (derive_secret c (handshake_secret_of c dhe) (lit ''c hs traffic'') hellos)
     (derive_secret c (handshake_secret_of c dhe) (lit ''s hs traffic'') hellos)"

definition app_keys_of :: "prims \<Rightarrow> bytes \<Rightarrow> bytes \<Rightarrow> tls_keys" where
  "app_keys_of c dhe messages = traffic_keys c
     (derive_secret c (master_secret_of c dhe) (lit ''c ap traffic'') messages)
     (derive_secret c (master_secret_of c dhe) (lit ''s ap traffic'') messages)"

definition finished_msg :: "prims \<Rightarrow> bytes \<Rightarrow> bytes \<Rightarrow> bytes" where
  "finished_msg c dhe hellos = 20 # u24_be 32
     @ finished_of c (server_traffic_secret (hs_keys_of c dhe hellos)) (hellos @ ee_msg @ cert_msg)"

text \<open>The client knows the handshake keys: the bytes it sent end, before \<open>rest\<close>, with a record that these keys seal from a
  message that starts like a Finished.\<close>

definition client_finished :: "prims \<Rightarrow> tls_keys \<Rightarrow> bytes \<Rightarrow> bytes \<Rightarrow> bool" where
  "client_finished c k sent rest \<longleftrightarrow> (\<exists>pre header ct body pad. sent = pre @ header @ ct @ rest \<and> length header = 5 \<and>
     aead_seal c (client_write_key k) (nonce_bytes (client_iv k) 0) header ((20 # body) @ [22] @ replicate pad 0) = Some ct)"

section \<open>Lemmas on reading\<close>

lemma read_buf_concat: "read_buf spare stream buf = (d, stream') \<Longrightarrow> concat stream = d @ concat stream'"
  by (simp add: read_buf_def tcp_read_concat)

lemma read_client_hello_Ret:
  "read_client_hello spare stream buf = Ret (ch, raw, stream') \<Longrightarrow>
    client_hello_parse raw = Ret ch \<and> (\<exists>pre. concat stream = pre @ concat stream')"
proof (induction "length (concat stream)" arbitrary: stream buf rule: less_induct)
  case less
  obtain d s1 where r: "read_buf spare stream buf = (d, s1)" by (cases "read_buf spare stream buf")
  have d: "d \<noteq> []" using less.prems r by (subst (asm) read_client_hello.simps) (auto split: if_splits)
  note c = read_buf_concat [OF r]
  obtain parsed q where p: "tls_record_parse (buf @ d) = Ret (parsed, q)"
    using less.prems r d by (subst (asm) read_client_hello.simps) (auto simp: bnd_Ret_iff)
  show ?case
  proof (cases "\<exists>rc. parsed = Some rc \<and> tr_content_type rc = Handshake")
    case True
    then obtain rc where "parsed = Some rc" "tr_content_type rc = Handshake" by blast
    then have "bnd (map_err HsTls (client_hello_parse (tr_payload rc))) (\<lambda>ch. Ret (ch, tr_payload rc, s1)) = Ret (ch, raw, stream')"
      using less.prems by (subst (asm) read_client_hello.simps) (simp add: r d p)
    then show ?thesis using c by (auto simp: bnd_Ret_iff)
  next
    case False
    then have "read_client_hello spare s1 (buf @ d) = Ret (ch, raw, stream')"
      using less.prems by (subst (asm) read_client_hello.simps) (auto simp: r d p split: option.splits)
    then show ?thesis
      using less.hyps [OF read_buf_shrinks [OF r d]] c by (metis append_assoc)
  qed
qed

text \<open>The steps of the loop, one equation per branch.\<close>

lemma await_read:
  assumes "length buf < 5 \<or> length buf < 5 + unat (be16 (buf ! 3) (buf ! 4))"
    "read_buf spare stream buf = (d, stream')" "d \<noteq> []"
  shows "await_finished c k spare stream buf = await_finished c k spare stream' (buf @ d)"
  using assms by (subst await_finished.simps) (auto simp: Let_def)

lemma await_closed:
  assumes "length buf < 5 \<or> length buf < 5 + unat (be16 (buf ! 3) (buf ! 4))" "read_buf spare stream buf = ([], stream')"
  shows "await_finished c k spare stream buf \<noteq> Ret r"
  using assms by (subst await_finished.simps) (auto simp: Let_def)

lemma await_record:
  assumes "5 + n \<le> length buf" "n = unat (be16 (buf ! 3) (buf ! 4))"
    "await_finished c k spare stream buf = Ret (buf', stream')"
  shows "await_finished c k spare stream (drop (5 + n) buf) = Ret (buf', stream') \<or>
    buf' = drop (5 + n) buf \<and> stream' = stream \<and>
    (\<exists>plen plain. decrypt_client_record c k 0 (take 5 buf) (take n (drop 5 buf)) = Ret (22, plen, plain)
      \<and> 0 < plen \<and> plain ! 0 = 20)"
proof -
  have l: "\<not> length buf < 5" "\<not> length buf < 5 + n" using assms(1) by auto
  show ?thesis
    using assms(3) unfolding await_finished.simps [of c k spare stream buf]
    by (auto simp: l Let_def assms(2) [symmetric] bnd_Ret_iff drop_take split: if_splits)
qed

lemma finished_sealed:
  assumes "aead_laws c" "length (client_iv k) = 12" "decrypt_client_record c k 0 h ct = Ret (22, n, plain)" "0 < n" "plain ! 0 = 20"
    and "sent = pre @ h @ ct @ rest" "length h = 5"
  shows "client_finished c k sent rest"
proof -
  have "take n plain = 20 # tl (take n plain)"
    using assms(4,5) decrypt_len [OF assms(3)] by (cases plain; cases n) auto
  then have "\<exists>m buf. decrypt_client_record c k 0 h ct = Ret (22, m, buf) \<and> take m buf = 20 # tl (take n plain)"
    using assms(3) by auto
  then show ?thesis
    using assms(6,7) unfolding decrypt_exact [OF assms(1,2)] client_finished_def by blast
qed

lemma client_finished_prefix: "client_finished c k sent rest \<Longrightarrow> client_finished c k (pre @ sent) rest"
  unfolding client_finished_def by (metis append_assoc)

lemma await_finished_Ret:
  assumes "aead_laws c" "length (client_iv k) = 12"
  shows "await_finished c k spare stream buf = Ret (buf', stream') \<Longrightarrow>
    client_finished c k (buf @ concat stream) (buf' @ concat stream')"
proof (induction "(length buf + length (concat stream), length (concat stream))" arbitrary: stream buf
    rule: wf_induct_rule [OF wf_lex_prod [OF wf_less_than wf_less_than]])
  case (1 stream buf)
  let ?n = "unat (be16 (buf ! 3) (buf ! 4))"
  show ?case
  proof (cases "length buf < 5 \<or> length buf < 5 + ?n")
    case True
    obtain d s1 where r: "read_buf spare stream buf = (d, s1)" by (cases "read_buf spare stream buf")
    then have d: "d \<noteq> []" using await_closed [OF True] 1(2) by auto
    have "await_finished c k spare s1 (buf @ d) = Ret (buf', stream')"
      using 1(2) await_read [OF True r d] by simp
    then show ?thesis
      using 1(1) [of "buf @ d" s1] read_buf_concat [OF r] read_buf_shrinks [OF r d] by (auto simp del: length_concat)
  next
    case False
    then have n: "5 + ?n \<le> length buf" by simp
    have split: "buf = take (5 + ?n) buf @ drop (5 + ?n) buf" by simp
    from await_record [OF n refl 1(2)] show ?thesis
    proof (elim disjE exE conjE)
      assume "await_finished c k spare stream (drop (5 + ?n) buf) = Ret (buf', stream')"
      moreover have "length (drop (5 + ?n) buf) + length (concat stream) < length buf + length (concat stream)"
        using n by (simp only: length_drop)
      ultimately have "client_finished c k (drop (5 + ?n) buf @ concat stream) (buf' @ concat stream')"
        using 1(1) [of "drop (5 + ?n) buf" stream] by (auto simp del: length_concat length_drop)
      then show ?thesis
        using split client_finished_prefix by (metis append_assoc)
    next
      fix plen plain
      assume r: "buf' = drop (5 + ?n) buf" "stream' = stream"
        and d: "decrypt_client_record c k 0 (take 5 buf) (take ?n (drop 5 buf)) = Ret (22, plen, plain)" "0 < plen" "plain ! 0 = 20"
      have "take 5 buf @ take ?n (drop 5 buf) = take (5 + ?n) buf"
        by (simp add: take_add)
      then have "buf @ concat stream = [] @ take 5 buf @ take ?n (drop 5 buf) @ buf' @ concat stream'"
        using r split by (metis append_assoc append_Nil)
      from finished_sealed [OF assms d this] n show ?thesis by simp
    qed
  qed
qed

section \<open>Lemmas on progress\<close>

lemma read_buf_progress:
  assumes "read_buf spare stream buf = (d, stream')" "concat stream \<noteq> []"
  shows "d \<noteq> []"
  using assms tcp_read_progress [of stream "max 1 (spare (length buf))" d stream'] by (auto simp: read_buf_def)

lemma prefix_nth: "buf @ x = r @ y \<Longrightarrow> i < length buf \<Longrightarrow> i < length r \<Longrightarrow> buf ! i = r ! i"
  by (metis nth_append)

text \<open>The loop reads on until the record it waits for is complete.\<close>

lemma await_fill:
  assumes "length r = 5 + unat (be16 (r ! 3) (r ! 4))"
  shows "buf @ concat stream = r @ x \<Longrightarrow>
    \<exists>b s. await_finished c k spare stream buf = await_finished c k spare s (r @ b) \<and> b @ concat s = x"
proof (induction "length (concat stream)" arbitrary: stream buf rule: less_induct)
  case less
  show ?case
  proof (cases "length r \<le> length buf")
    case True
    then obtain b where "buf = r @ b" "b @ concat stream = x"
      using less.prems by (metis append_eq_append_conv_if append_take_drop_id append_eq_conv_conj)
    then show ?thesis by blast
  next
    case False
    obtain d s1 where r: "read_buf spare stream buf = (d, s1)" by (cases "read_buf spare stream buf")
    have "concat stream \<noteq> []" using less.prems False by (cases "concat stream = []") auto
    note d = read_buf_progress [OF r this]
    have "length buf < 5 \<or> length buf < 5 + unat (be16 (buf ! 3) (buf ! 4))"
      using False assms prefix_nth [OF less.prems, of 3] prefix_nth [OF less.prems, of 4] by fastforce
    from await_read [OF this r d] show ?thesis
      using less.hyps [OF read_buf_shrinks [OF r d], of "buf @ d"] less.prems read_buf_concat [OF r] by simp
  qed
qed

lemma await_ccs: "await_finished c k spare s (ccs_record @ b) = await_finished c k spare s b"
  by (subst await_finished.simps) (simp add: ccs_record_def be16_def)

lemma await_fin:
  assumes "aead_laws c" "keys_wf k" "encrypt_server_record c (mirror k) 0 (20 # body) 22 = Ret fin" "length body < 65518"
  shows "await_finished c k spare s (fin @ b) = Ret (b, s)" "length fin = 5 + unat (be16 (fin ! 3) (fin ! 4))"
proof -
  let ?n = "length (20 # body) + 17"
  have m: "length (server_iv (mirror k)) = 12" "keys_wf (mirror k)" using assms(2) by (auto simp: keys_wf_def mirror_def)
  obtain sealed where f: "fin = record_header ?n @ sealed" and l: "length sealed = ?n"
    using encrypt_record [of c "mirror k" "20 # body" 0 22] assms(1,3,4) m by auto
  have h: "unat (be16 (fin ! 3) (fin ! 4)) = ?n" "fin ! 0 = 23" "length (record_header ?n) = 5"
    using assms(4) record_header_len [of ?n] by (auto simp: f record_header_def nth_append)
  then show len: "length fin = 5 + unat (be16 (fin ! 3) (fin ! 4))" by (simp add: f l)
  have "tls_step c k 0 (fin @ []) = Ret (Some ((22, 20 # body), 1, []))"
    using encrypt_opens [OF assms(1) m(2), of "20 # body" 22 0] assms(3,4) by (auto simp del: append_Nil2)
  then obtain n plain where d: "decrypt_client_record c k 0 (take 5 fin) (drop 5 fin) = Ret (22, n, plain)" "take n plain = 20 # body"
    using len h(1) by (auto simp: tls_step_def Let_def bnd_Ret_iff split: if_splits)
  then have "0 < n" "plain ! 0 = 20" by (cases n; cases plain; simp)+
  then show "await_finished c k spare s (fin @ b) = Ret (b, s)"
    using d len h by (subst await_finished.simps) (simp add: nth_append)
qed

lemma await_completes:
  assumes "aead_laws c" "keys_wf k" "encrypt_server_record c (mirror k) 0 (20 # body) 22 = Ret fin" "length body < 65518"
    and "pre = [] \<or> pre = ccs_record" "concat stream = pre @ fin @ extra"
  shows "\<exists>b s. await_finished c k spare stream [] = Ret (b, s) \<and> b @ concat s = extra"
proof -
  note fin = await_fin [OF assms(1-4)]
  obtain b s where b: "await_finished c k spare stream [] = await_finished c k spare s b" "b @ concat s = fin @ extra"
  proof (cases "pre = []")
    case True
    then show thesis using that [of stream "[]"] assms(6) by simp
  next
    case False
    then obtain b s where "await_finished c k spare stream [] = await_finished c k spare s (ccs_record @ b)"
      "b @ concat s = fin @ extra"
      using await_fill [of ccs_record "[]" stream "fin @ extra" c k spare] assms(5,6)
      by (auto simp: ccs_record_def be16_def)
    then show thesis using that [of s b] by (simp add: await_ccs)
  qed
  then obtain b' s' where "await_finished c k spare s b = await_finished c k spare s' (fin @ b')" "b' @ concat s' = extra"
    using await_fill [OF fin(2), of b s extra c k spare] by auto
  then show ?thesis using b(1) fin(1) by auto
qed

lemma record_prefix_waits:
  assumes "wf_record r" "buf @ y = tls_record_encode r" "y \<noteq> []"
  shows "tls_record_parse buf = Ret (None, buf)"
proof -
  have "length buf < length (tls_record_encode r)" using assms(2,3) by (metis length_append length_greater_0_conv less_add_same_cancel1)
  moreover have "buf ! i = tls_record_encode r ! i" if "i < length buf" for i
    using assms(2) that by (metis nth_append)
  ultimately show ?thesis
    using assms(1)
    by (cases r) (auto simp: tls_record_parse_def tls_record_encode_def wf_record_def u16_be_def idx_def idx_be16_def Let_def)
qed

text \<open>However the ClientHello is cut, it is found, provided that nothing follows it in its last segment.\<close>

lemma read_client_hello_completes:
  assumes "wf_record r" "tr_content_type r = Handshake" "client_hello_parse (tr_payload r) = Ret ch"
  shows "buf @ concat s0 = tls_record_encode r \<Longrightarrow> concat s0 \<noteq> [] \<Longrightarrow>
    \<exists>s. read_client_hello spare (s0 @ s1) buf = Ret (ch, tr_payload r, s) \<and> concat s = concat s1"
proof (induction "length (concat s0)" arbitrary: s0 buf rule: less_induct)
  case less
  obtain d s0' where t: "tcp_read s0 (max 1 (spare (length buf))) = (d, s0')"
    by (cases "tcp_read s0 (max 1 (spare (length buf)))")
  have c: "concat s0 = d @ concat s0'" by (rule tcp_read_concat [OF t])
  have d: "d \<noteq> []" using tcp_read_progress [OF t] less.prems(2) by auto
  have r: "read_buf spare (s0 @ s1) buf = (d, s0' @ s1)"
    using tcp_read_append [OF t d] by (simp add: read_buf_def)
  show ?case
  proof (cases "concat s0' = []")
    case True
    then have "buf @ d = tls_record_encode r" using less.prems(1) c by (simp del: concat_eq_Nil_conv)
    then have "tls_record_parse (buf @ d) = Ret (Some r, [])"
      using tls_record_roundtrip [OF assms(1), of "[]"] by simp
    then have "read_client_hello spare (s0 @ s1) buf = Ret (ch, tr_payload r, s0' @ s1)"
      using assms(2,3) r d by (subst read_client_hello.simps) simp
    then show ?thesis using True by auto
  next
    case False
    then have "tls_record_parse (buf @ d) = Ret (None, buf @ d)"
      using record_prefix_waits [OF assms(1), of "buf @ d" "concat s0'"] less.prems(1) c by simp
    then have "read_client_hello spare (s0 @ s1) buf = read_client_hello spare (s0' @ s1) (buf @ d)"
      using r d by (subst read_client_hello.simps) simp
    moreover have "length (concat s0') < length (concat s0)" using c d by simp
    ultimately show ?thesis
      using less.hyps [of s0' "buf @ d"] less.prems(1) c False by simp
  qed
qed

section \<open>Lemmas on the handshake\<close>

lemma keys_rfc:
  assumes "hkdf_laws c" "sha256 c [] = hash_empty"
  shows "derive_handshake_keys c dhe (hash_transcript c [raw, sh]) = Ret (hs_keys_of c dhe (raw @ sh), handshake_secret_of c dhe)"
    "derive_application_keys c (handshake_secret_of c dhe) (hash_transcript c ms) = Ret (app_keys_of c dhe (concat ms))"
    "calculate_verify_data c s (hash_transcript c ms) = Ret (finished_of c s (concat ms))"
  using handshake_keys_rfc [OF assms] application_keys_rfc [OF assms] verify_data_rfc [OF assms(1)]
  by (simp_all add: hash_transcript_def hs_keys_of_def app_keys_of_def)

lemma fin_msg_rfc:
  assumes "hkdf_laws c"
  shows "fin_msg (finished_of c (server_traffic_secret (hs_keys_of c dhe hellos)) (hellos @ ee_msg @ cert_msg))
    = finished_msg c dhe hellos"
  using assms by (simp add: fin_msg_def finished_msg_def finished_of_def hkdf_laws_def u32_be_def u24_be_def)

lemma hs_keys_wf: "hkdf_laws c \<Longrightarrow> keys_wf (hs_keys_of c dhe t)"
  by (simp add: hs_keys_of_def traffic_keys_wf)

lemma verify_client_auth_iff:
  assumes "\<And>k m. length (hmac k m) = 32"
  shows "verify_client_auth hmac auth cr sid = Ret True \<longleftrightarrow>
    8 \<le> length sid \<and> take 8 sid = take 8 (hmac (private_key_bytes auth) cr)"
  using assms by (auto simp: verify_client_auth_def slice_def)

lemma modified_hello:
  assumes "length server_random = 32" "length sid < 256" "length pub = 32" "\<And>k m. length (hmac k m) = 32"
    "reality_auth_new bs bu pk = Ret auth"
  shows "modify_for_reality bs bu hmac (new_reality sid server_random pub) pk cr =
    Ret \<lparr>sh_raw_data = enc_server_hello sid (tagged_random hmac (private_key_bytes auth) server_random cr) pub\<rparr>"
proof -
  have "length pub < 65000" using assms(3) by simp
  note t = new_reality_tagged [of server_random sid pub hmac "private_key_bytes auth" cr, OF assms(1,2) this assms(4)]
  have "length (tagged_random hmac (private_key_bytes auth) server_random cr) = 32"
    using assms(1,4) by (simp add: length_tagged_random)
  then show ?thesis
    using t assms by (cases auth) (simp add: modify_for_reality_def server_hello_modifier_new_def handshake_payload_def new_reality_layout)
qed

text \<open>The flight of the server after the ClientHello, and the client's answer.\<close>

lemma perform_cases:
  assumes laws: "hkdf_laws c" "sha256 c [] = hash_empty" "length server_random = 32" "length (x25519_base c secret) = 32"
    and p: "perform c bs bu connect spare secret server_random self segs out = Ret (Established st rest out')"
  obtains ch raw s1 auth key sh hellos sealed o1 o2 buf where
    "read_client_hello spare segs [] = Ret (ch, raw, s1)"
    "reality_auth_new bs bu (cf_private_key (rh_config self)) = Ret auth"
    "verify_client_auth (hmac_sha256 c) auth (ch_random ch) (ch_session_id ch) = (Ret True :: (hs_error, bool) outcome)"
    "get_key_share ch = Ret (Some key)" "length key = 32"
    "sh = enc_server_hello (ch_session_id ch)
       (tagged_random (hmac_sha256 c) (private_key_bytes auth) server_random (ch_random ch)) (x25519_base c secret)"
    "hellos = raw @ sh"
    "write_all out (enc_record 22 0x0303 sh) = Some o1" "write_all o1 ccs_record = Some o2" "write_all o2 sealed = Some out'"
    "encrypt_server_record c (hs_keys_of c (x25519 c secret key) hellos) 0
       (ee_msg @ cert_msg @ finished_msg c (x25519 c secret key) hellos) 22 = Ret sealed"
    "await_finished c (hs_keys_of c (x25519 c secret key) hellos) spare s1 [] = Ret (buf, rest)"
    "st = new_with_buffer (app_keys_of c (x25519 c secret key)
       (hellos @ ee_msg @ cert_msg @ finished_msg c (x25519 c secret key) hellos)) buf"
proof -
  have h: "length (hmac_sha256 c k m) = 32" for k m using laws(1) by (simp add: hkdf_laws_def)
  obtain ch raw s1 where r: "read_client_hello spare segs [] = Ret (ch, raw, s1)"
    using p by (auto simp: perform_def bnd_Ret_iff)
  then have sid: "length (ch_session_id ch) < 256"
    using read_client_hello_Ret client_hello_session_length by blast
  obtain auth where a: "reality_auth_new bs bu (cf_private_key (rh_config self)) = Ret auth"
    using p by (auto simp: perform_def bnd_Ret_iff r)
  note mh = modified_hello [of server_random _ "x25519_base c secret" "hmac_sha256 c", OF laws(3) sid laws(4) h a]
  let ?sh = "enc_server_hello (ch_session_id ch)
       (tagged_random (hmac_sha256 c) (private_key_bytes auth) server_random (ch_random ch)) (x25519_base c secret)"
  have e: "server_hello_encode \<lparr>sh_raw_data = ?sh\<rparr> = enc_record 22 0x0303 ?sh"
    by (simp add: server_hello_encode_def enc_record_def)
  obtain key where k: "verify_client_auth (hmac_sha256 c) auth (ch_random ch) (ch_session_id ch) = (Ret True :: (hs_error, bool) outcome)"
    "get_key_share ch = Ret (Some key)" "length key = 32"
    using p by (auto simp: perform_def r a bnd_Ret_iff Let_def fallback_to_dest_def derive_shared_secret_def split: if_splits)
  let ?dhe = "x25519 c secret key" and ?t = "raw @ ?sh"
  obtain o1 o2 sealed out3 buf stream where
    "write_all out (enc_record 22 0x0303 ?sh) = Some o1" "write_all o1 ccs_record = Some o2" "write_all o2 sealed = Some out3"
    "encrypt_server_record c (hs_keys_of c ?dhe ?t) 0 (ee_msg @ cert_msg @ finished_msg c ?dhe ?t) 22 = Ret sealed"
    "await_finished c (hs_keys_of c ?dhe ?t) spare s1 [] = Ret (buf, stream)"
    "Established (new_with_buffer (app_keys_of c ?dhe (raw @ ?sh @ ee_msg @ cert_msg @ finished_msg c ?dhe ?t)) buf) stream out3
      = Established st rest out'"
    using p fin_msg_rfc [OF laws(1), of ?dhe ?t]
    by (auto simp: perform_def r a k mh e bnd_Ret_iff Let_def keys_rfc [OF laws(1,2)] handshake_payload_def
        get_public_key_def reality_crypto_new_def derive_shared_secret_def)
  then show thesis
    by (intro that [OF r a k refl refl, of o1 o2 sealed buf]) simp_all
qed

lemma perform_completes:
  assumes laws: "hkdf_laws c" "aead_laws c" "sha256 c [] = hash_empty"
    and lens: "length server_random = 32" "length (x25519_base c secret) = 32"
    and hello: "wf_record r" "tr_content_type r = Handshake" "client_hello_parse (tr_payload r) = Ret ch"
      "get_sni ch = (Ret sni :: (hs_error, rstring option) outcome)" "concat s0 = tls_record_encode r"
    and auth: "reality_auth_new bs bu (cf_private_key (rh_config self)) = Ret auth" "8 \<le> length (ch_session_id ch)"
      "take 8 (ch_session_id ch) = take 8 (hmac_sha256 c (private_key_bytes auth) (ch_random ch))"
    and key: "get_key_share ch = Ret (Some key)" "length key = 32"
    and sh: "sh = enc_server_hello (ch_session_id ch)
      (tagged_random (hmac_sha256 c) (private_key_bytes auth) server_random (ch_random ch)) (x25519_base c secret)"
    and fin: "encrypt_server_record c (mirror (hs_keys_of c (x25519 c secret key) (tr_payload r @ sh))) 0 (20 # body) 22 = Ret fin"
      "length body < 65518" "pre = [] \<or> pre = ccs_record" "concat s1 = pre @ fin @ extra"
    and out: "sk_left out = None"
  shows "\<exists>st rest out'. perform c bs bu connect spare secret server_random self (s0 @ s1) out = Ret (Established st rest out')
    \<and> input_buffer st @ concat rest = extra"
proof -
  let ?dhe = "x25519 c secret key" and ?t = "tr_payload r @ sh"
  have h: "length (hmac_sha256 c k m) = 32" for k m using laws(1) by (simp add: hkdf_laws_def)
  have "concat s0 \<noteq> []" using hello(5) by (simp add: tls_record_encode_def)
  then obtain s where r: "read_client_hello spare (s0 @ s1) [] = Ret (ch, tr_payload r, s)" and s: "concat s = concat s1"
    using read_client_hello_completes [OF hello(1-3), of "[]" s0 spare s1] hello(5) by auto
  have sid: "length (ch_session_id ch) < 256" by (rule client_hello_session_length [OF hello(3)])
  note mh = modified_hello [of server_random _ "x25519_base c secret" "hmac_sha256 c", OF lens(1) sid lens(2) h auth(1)]
  have v: "verify_client_auth (hmac_sha256 c) auth (ch_random ch) (ch_session_id ch) = (Ret True :: (hs_error, bool) outcome)"
    using auth(2,3) verify_client_auth_iff [of "hmac_sha256 c", OF h] by blast
  have wf: "keys_wf (hs_keys_of c ?dhe ?t)" by (rule hs_keys_wf [OF laws(1)])
  have "length (ee_msg @ cert_msg @ finished_msg c ?dhe ?t) < 65519"
    by (simp add: ee_msg_def cert_msg_def finished_msg_def finished_of_def h)
  from encrypt_opens [OF laws(2) wf this, of 22 0] obtain sealed where
    e: "encrypt_server_record c (hs_keys_of c ?dhe ?t) 0 (ee_msg @ cert_msg @ finished_msg c ?dhe ?t) 22 = Ret sealed" by auto
  obtain b rest where w: "await_finished c (hs_keys_of c ?dhe ?t) spare s [] = Ret (b, rest)" "b @ concat rest = extra"
    using await_completes [OF laws(2) wf fin(1-3), of s extra spare] fin(4) s by auto
  have "\<exists>st out'. perform c bs bu connect spare secret server_random self (s0 @ s1) out = Ret (Established st rest out') \<and> input_buffer st = b"
    using out fin_msg_rfc [OF laws(1), of ?dhe ?t]
    by (simp add: perform_def r hello(4) auth(1) v key mh sh [symmetric] e w(1) Let_def keys_rfc [OF laws(1,3)]
        handshake_payload_def get_public_key_def reality_crypto_new_def derive_shared_secret_def write_all_open
        new_with_buffer_def)
  then show ?thesis using w(2) by blast
qed

text \<open>A hello of an authenticated client, for the sample primitives.\<close>

definition reality_hello :: hello where
  "reality_hello = sample_hello \<lparr>h_session := replicate 8 9, h_exts := [(0x0033, ks_data [(0x001d, replicate 32 2)])]\<rparr>"

definition reality_record :: tls_record where
  "reality_record = \<lparr>tr_content_type = Handshake, tr_version = 0x0301, tr_payload = enc_hello_msg reality_hello\<rparr>"

definition sample_handshake :: reality_handshake where
  "sample_handshake = \<lparr>rh_config = \<lparr>cf_dest = lit ''a.b:443'', cf_server_names = [], cf_private_key = [],
     cf_public_key = None, cf_short_ids = [], cf_fingerprint = []\<rparr>\<rparr>"

lemma sample_client:
  obtains ch sh fin where
    "client_hello_parse (tr_payload reality_record) = Ret ch" "get_sni ch = (Ret None :: (hs_error, rstring option) outcome)"
    "8 \<le> length (ch_session_id ch)"
    "take 8 (ch_session_id ch) = take 8 (hmac_sha256 sample_prims (private_key_bytes \<lparr>private_key_bytes = replicate 32 7\<rparr>) (ch_random ch))"
    "get_key_share ch = Ret (Some (replicate 32 2))"
    "sh = enc_server_hello (ch_session_id ch) (tagged_random (hmac_sha256 sample_prims)
       (private_key_bytes \<lparr>private_key_bytes = replicate 32 7\<rparr>) (replicate 32 3) (ch_random ch)) (x25519_base sample_prims (replicate 32 1))"
    "encrypt_server_record sample_prims (mirror (hs_keys_of sample_prims (x25519 sample_prims (replicate 32 1) (replicate 32 2))
       (tr_payload reality_record @ sh))) 0 (20 # []) 22 = Ret fin"
proof -
  have wf: "wf_hello reality_hello" "even (length (h_ciphers reality_hello))"
    by (simp_all add: reality_hello_def sample_hello_def wf_hello_def wf_ext_def ks_data_def)
  obtain ch where ch: "client_hello_parse (enc_hello_msg reality_hello) = Ret ch" "ch_random ch = replicate 32 9"
    "ch_session_id ch = replicate 8 9" "ch_extensions ch = [\<lparr>extension_type = 0x0033, ext_data = ks_data [(0x001d, replicate 32 2)]\<rparr>]"
    by (simp add: client_hello_parse_msg [OF wf]) (simp add: reality_hello_def sample_hello_def to_ext_def)
  have k: "get_key_share ch = Ret (Some (replicate 32 2))"
    by (simp add: get_key_share_def ch(4) parse_client_key_share_def ks_data_def enc_ext_def key_share_loop.simps
        cur_u16_def cur_read_def u16_be_def be16_def idx_be16_def)
  define sh where "sh = enc_server_hello (ch_session_id ch) (tagged_random (hmac_sha256 sample_prims)
      (private_key_bytes \<lparr>private_key_bytes = replicate 32 7\<rparr>) (replicate 32 3) (ch_random ch)) (x25519_base sample_prims (replicate 32 1))"
  let ?k = "hs_keys_of sample_prims (x25519 sample_prims (replicate 32 1) (replicate 32 2)) (tr_payload reality_record @ sh)"
  have "keys_wf (mirror ?k)" using hs_keys_wf [OF sample_hkdf_laws] by (simp add: keys_wf_def mirror_def)
  then obtain fin where e: "encrypt_server_record sample_prims (mirror ?k) 0 (20 # []) 22 = Ret fin"
    using encrypt_opens [OF sample_aead_laws, of "mirror ?k" "[20]" 22 0] by auto
  have t: "take 8 (ch_session_id ch) = take 8 (hmac_sha256 sample_prims (private_key_bytes \<lparr>private_key_bytes = replicate 32 7\<rparr>) (ch_random ch))"
    by (simp add: sample_prims_def ch sample_mac_def)
  have c: "client_hello_parse (tr_payload reality_record) = Ret ch" "get_sni ch = (Ret None :: (hs_error, rstring option) outcome)"
    "8 \<le> length (ch_session_id ch)"
    using ch by (simp_all add: reality_record_def get_sni_def)
  show thesis by (rule that [OF c t k sh_def e])
qed

lemma sample_setting:
  "sha256 sample_prims [] = hash_empty" "length (replicate 32 (3 :: u8)) = 32" "length (replicate 32 (2 :: u8)) = 32"
  "length (x25519_base sample_prims (replicate 32 1)) = 32" "wf_record reality_record"
  "tr_content_type reality_record = Handshake" "concat [tls_record_encode reality_record] = tls_record_encode reality_record"
  "reality_auth_new (\<lambda>_. Some (replicate 32 7)) (\<lambda>_. None) (cf_private_key (rh_config sample_handshake))
     = Ret \<lparr>private_key_bytes = replicate 32 7\<rparr>"
  "sk_left open_sink = None" "length ([] :: bytes) < 65518" "ccs_record = [] \<or> ccs_record = ccs_record"
  by (simp_all add: sample_prims_def reality_record_def wf_record_def enc_hello_msg_def enc_hello_body_def length_enc_hello_tail
      reality_hello_def sample_hello_def ks_data_def reality_auth_new_def open_sink_def)

lemma sample_completes:
  "\<exists>fin st rest out'. perform sample_prims (\<lambda>_. Some (replicate 32 7)) (\<lambda>_. None) (\<lambda>_. False) (\<lambda>_. 10)
     (replicate 32 1) (replicate 32 3) sample_handshake ([tls_record_encode reality_record] @ [ccs_record, fin @ [5]]) open_sink
     = Ret (Established st rest out') \<and> input_buffer st @ concat rest = [5]"
proof -
  obtain ch sh fin where f:
    "client_hello_parse (tr_payload reality_record) = Ret ch" "get_sni ch = (Ret None :: (hs_error, rstring option) outcome)"
    "8 \<le> length (ch_session_id ch)"
    "take 8 (ch_session_id ch) = take 8 (hmac_sha256 sample_prims (private_key_bytes \<lparr>private_key_bytes = replicate 32 7\<rparr>) (ch_random ch))"
    "get_key_share ch = Ret (Some (replicate 32 2))"
    "sh = enc_server_hello (ch_session_id ch) (tagged_random (hmac_sha256 sample_prims)
       (private_key_bytes \<lparr>private_key_bytes = replicate 32 7\<rparr>) (replicate 32 3) (ch_random ch)) (x25519_base sample_prims (replicate 32 1))"
    "encrypt_server_record sample_prims (mirror (hs_keys_of sample_prims (x25519 sample_prims (replicate 32 1) (replicate 32 2))
       (tr_payload reality_record @ sh))) 0 (20 # []) 22 = Ret fin"
    by (rule sample_client)
  have "concat [ccs_record, fin @ [5]] = ccs_record @ fin @ [5]" by simp
  note s = sample_setting
  show ?thesis
    by (rule exI [of _ fin], rule perform_completes
        [OF sample_hkdf_laws sample_aead_laws s(1,2,4,5,6) f(1,2) s(7,8) f(3,4,5) s(3) f(6,7) s(10,11) _ s(9)]) simp
qed

section \<open>Correctness\<close>



text \<open>C9. A client that plays its part is served: when its ClientHello, cut into segments in any way, is authenticated and offers an X25519 key,
  and what follows is a Finished message sealed with the handshake keys of RFC 8446, with or without a change-cipher-spec
  record before it, again cut in any way, the handshake ends, establishes the stream, and what the
  client sent after its Finished is what the stream will read first.\<close>

theorem handshake_completes:
  assumes "hkdf_laws c" "aead_laws c" "sha256 c [] = hash_empty"
    and "length server_random = 32" "length (x25519_base c secret) = 32"
    and "wf_record r" "tr_content_type r = Handshake" "client_hello_parse (tr_payload r) = Ret ch"
      "get_sni ch = (Ret sni :: (hs_error, rstring option) outcome)" "concat s0 = tls_record_encode r"
    and "reality_auth_new bs bu (cf_private_key (rh_config self)) = Ret auth" "8 \<le> length (ch_session_id ch)"
      "take 8 (ch_session_id ch) = take 8 (hmac_sha256 c (private_key_bytes auth) (ch_random ch))"
    and "get_key_share ch = Ret (Some key)" "length key = 32"
    and "sh = enc_server_hello (ch_session_id ch)
      (tagged_random (hmac_sha256 c) (private_key_bytes auth) server_random (ch_random ch)) (x25519_base c secret)"
    and "encrypt_server_record c (mirror (hs_keys_of c (x25519 c secret key) (tr_payload r @ sh))) 0 (20 # body) 22 = Ret fin"
      "length body < 65518" "pre = [] \<or> pre = ccs_record" "concat s1 = pre @ fin @ extra"
    and "sk_left out = None"
  shows "\<exists>st rest out'. perform c bs bu connect spare secret server_random self (s0 @ s1) out = Ret (Established st rest out')
    \<and> input_buffer st @ concat rest = extra"
  by (rule perform_completes [OF assms])

theorem handshake_completes_witness:
  "\<exists>fin st rest out'. perform sample_prims (\<lambda>_. Some (replicate 32 7)) (\<lambda>_. None) (\<lambda>_. False) (\<lambda>_. 10)
     (replicate 32 1) (replicate 32 3) sample_handshake ([tls_record_encode reality_record] @ [ccs_record, fin @ [6]]) open_sink
     = Ret (Established st rest out') \<and> input_buffer st @ concat rest = [6]"
proof (rule sample_client)
  fix ch sh fin
  assume f: "client_hello_parse (tr_payload reality_record) = Ret ch" "get_sni ch = (Ret None :: (hs_error, rstring option) outcome)"
    "8 \<le> length (ch_session_id ch)"
    "take 8 (ch_session_id ch) = take 8 (hmac_sha256 sample_prims (private_key_bytes \<lparr>private_key_bytes = replicate 32 7\<rparr>) (ch_random ch))"
    "get_key_share ch = Ret (Some (replicate 32 2))"
    "sh = enc_server_hello (ch_session_id ch) (tagged_random (hmac_sha256 sample_prims)
       (private_key_bytes \<lparr>private_key_bytes = replicate 32 7\<rparr>) (replicate 32 3) (ch_random ch)) (x25519_base sample_prims (replicate 32 1))"
    "encrypt_server_record sample_prims (mirror (hs_keys_of sample_prims (x25519 sample_prims (replicate 32 1) (replicate 32 2))
       (tr_payload reality_record @ sh))) 0 (20 # []) 22 = Ret fin"
  note s = sample_setting
  show ?thesis
    by (rule exI [of _ fin], rule handshake_completes
        [OF sample_hkdf_laws sample_aead_laws s(1,2,4,5,6) f(1,2) s(7,8) f(3,4,5) s(3) f(6,7) s(10,11) _ s(9)]) simp
qed

end
