(* ===== verification/Config.thy ===== *)
theory Config
  imports Rust_Std
begin

text \<open>
  The configuration (\<open>src/config/mod.rs\<close>) and its validation (\<open>src/config/validator.rs\<close>). The text
  format is the work of the serde packages: the two conversions between text and a configuration are arguments,
  and so is the parser of UUIDs. The file system is a map from paths to contents.
\<close>

section \<open>Data\<close>

datatype protocol = Vless | Vmess | Trojan | Shadowsocks

datatype network = NetTcp | NetHttp | NetWs | NetGrpc

datatype security = SecNone | SecTls | SecReality

datatype cfg_xhttp_mode = CfgAuto | CfgStreamUp | CfgStreamDown | CfgStreamOne

record sniffing_config =
  sn_enabled :: bool
  sn_dest_override :: "rstring list"

record client =
  cl_id :: rstring
  cl_flow :: rstring
  cl_email :: rstring

record inbound_settings =
  is_clients :: "client list"
  is_decryption :: rstring
  is_sniffing :: sniffing_config

record sock_opt =
  so_tcp_fast_open :: bool
  so_tcp_no_delay :: bool
  so_accept_proxy_protocol :: bool

record reality_settings =
  re_dest :: rstring
  re_server_names :: "rstring list"
  re_private_key :: rstring
  re_public_key :: "rstring option"
  re_short_ids :: "rstring list"
  re_fingerprint :: rstring

record xhttp_settings =
  xh_mode :: cfg_xhttp_mode
  xh_path :: rstring
  xh_host :: rstring

record stream_settings =
  ss_network :: network
  ss_security :: security
  ss_reality :: "reality_settings option"
  ss_xhttp :: "xhttp_settings option"
  ss_sockopt :: sock_opt

record inbound =
  in_protocol :: protocol
  in_listen :: rstring
  in_port :: u16
  in_settings :: inbound_settings
  in_stream :: stream_settings

text \<open>The settings of an outbound are kept as the JSON value they are written as; the program does not look at them.\<close>

record 'j outbound =
  ob_protocol :: rstring
  ob_tag :: rstring
  ob_settings :: "'j option"

record routing_rule =
  rr_type :: rstring
  rr_domain :: "rstring list option"
  rr_ip :: "rstring list option"
  rr_outbound_tag :: rstring

record routing_config =
  ro_rules :: "routing_rule list"

record 'j config =
  cf_inbounds :: "inbound list"
  cf_outbounds :: "'j outbound list"
  cf_routing :: routing_config

section \<open>Defaults\<close>

definition default_true :: bool where
  "default_true = True"

definition default_dest_override :: "rstring list" where
  "default_dest_override = [lit ''tls'', lit ''http'']"

definition sniffing_default :: sniffing_config where
  "sniffing_default = \<lparr>sn_enabled = False, sn_dest_override = [lit ''tls'', lit ''http'']\<rparr>"

definition default_decryption :: rstring where
  "default_decryption = lit ''none''"

definition sock_opt_default :: sock_opt where
  "sock_opt_default = \<lparr>so_tcp_fast_open = True, so_tcp_no_delay = True, so_accept_proxy_protocol = False\<rparr>"

definition default_fingerprint :: rstring where
  "default_fingerprint = lit ''chrome''"

definition default_xhttp_mode :: cfg_xhttp_mode where
  "default_xhttp_mode = CfgAuto"

definition default_path :: rstring where
  "default_path = lit ''/''"

definition default_host :: rstring where
  "default_host = []"

section \<open>Validation\<close>

datatype config_error = NoInbound | NoOutbound | PortZero nat | BadUuid nat nat rstring
  | RealityNoDest nat | RealityNoServerNames nat | RealityNoPrivateKey nat | XhttpNoPath nat
  | ReadError | ParseError | WriteError

definition validate_reality_settings :: "reality_settings \<Rightarrow> nat \<Rightarrow> (config_error, unit) outcome" where
  "validate_reality_settings reality inbound_idx =
     bnd (guard (re_dest reality = []) (RealityNoDest inbound_idx)) (\<lambda>_.
     bnd (guard (re_server_names reality = []) (RealityNoServerNames inbound_idx)) (\<lambda>_.
     guard (re_private_key reality = []) (RealityNoPrivateKey inbound_idx)))"

definition validate_xhttp_settings :: "xhttp_settings \<Rightarrow> nat \<Rightarrow> (config_error, unit) outcome" where
  "validate_xhttp_settings xhttp inbound_idx = guard (xh_path xhttp = []) (XhttpNoPath inbound_idx)"

fun validate_clients :: "(rstring \<Rightarrow> bytes option) \<Rightarrow> nat \<Rightarrow> nat \<Rightarrow> client list \<Rightarrow> (config_error, unit) outcome" where
  "validate_clients parse_uuid pos client_idx [] = Ret ()"
| "validate_clients parse_uuid pos client_idx (client # clients) =
     bnd (guard (parse_uuid (cl_id client) = None) (BadUuid pos client_idx (cl_id client))) (\<lambda>_.
     validate_clients parse_uuid pos (Suc client_idx) clients)"

definition validate_inbound :: "(rstring \<Rightarrow> bytes option) \<Rightarrow> inbound \<Rightarrow> nat \<Rightarrow> (config_error, unit) outcome" where
  "validate_inbound parse_uuid inbound pos =
     bnd (guard (in_port inbound = 0) (PortZero pos)) (\<lambda>_.
     bnd (validate_clients parse_uuid pos 0 (is_clients (in_settings inbound))) (\<lambda>_.
     bnd (case ss_reality (in_stream inbound) of
            Some reality \<Rightarrow> validate_reality_settings reality pos | None \<Rightarrow> Ret ()) (\<lambda>_.
     case ss_xhttp (in_stream inbound) of
       Some xhttp \<Rightarrow> validate_xhttp_settings xhttp pos | None \<Rightarrow> Ret ())))"

fun validate_inbounds :: "(rstring \<Rightarrow> bytes option) \<Rightarrow> nat \<Rightarrow> inbound list \<Rightarrow> (config_error, unit) outcome" where
  "validate_inbounds parse_uuid pos [] = Ret ()"
| "validate_inbounds parse_uuid pos (inbound # inbounds) =
     bnd (validate_inbound parse_uuid inbound pos) (\<lambda>_. validate_inbounds parse_uuid (Suc pos) inbounds)"

definition validate :: "(rstring \<Rightarrow> bytes option) \<Rightarrow> 'j config \<Rightarrow> (config_error, unit) outcome" where
  "validate parse_uuid config =
     bnd (guard (cf_inbounds config = []) NoInbound) (\<lambda>_.
     bnd (validate_inbounds parse_uuid 0 (cf_inbounds config)) (\<lambda>_.
     guard (cf_outbounds config = []) NoOutbound))"

section \<open>Files\<close>

type_synonym files = "rstring \<rightharpoonup> rstring"

definition config_load ::
  "(rstring \<Rightarrow> bytes option) \<Rightarrow> (rstring \<Rightarrow> 'j config option) \<Rightarrow> files \<Rightarrow> rstring \<Rightarrow> (config_error, 'j config) outcome" where
  "config_load parse_uuid from_str fs path =
     bnd (ok_or ReadError (fs path)) (\<lambda>content.
     bnd (ok_or ParseError (from_str content)) (\<lambda>config.
     bnd (validate parse_uuid config) (\<lambda>_.
     Ret config)))"

definition config_save ::
  "('j config \<Rightarrow> rstring) \<Rightarrow> (rstring \<Rightarrow> bool) \<Rightarrow> 'j config \<Rightarrow> rstring \<Rightarrow> files \<Rightarrow> (config_error, files) outcome" where
  "config_save to_string_pretty writable self path fs =
     bnd (guard (\<not> writable path) WriteError) (\<lambda>_. Ret (fs(path \<mapsto> to_string_pretty self)))"

section \<open>What a valid configuration is\<close>

definition reality_ok :: "reality_settings \<Rightarrow> bool" where
  "reality_ok r \<longleftrightarrow> re_dest r \<noteq> [] \<and> re_server_names r \<noteq> [] \<and> re_private_key r \<noteq> []"

definition inbound_ok :: "(rstring \<Rightarrow> bytes option) \<Rightarrow> inbound \<Rightarrow> bool" where
  "inbound_ok parse_uuid i \<longleftrightarrow> in_port i \<noteq> 0
     \<and> (\<forall>cl \<in> set (is_clients (in_settings i)). parse_uuid (cl_id cl) \<noteq> None)
     \<and> (\<forall>r. ss_reality (in_stream i) = Some r \<longrightarrow> reality_ok r)
     \<and> (\<forall>x. ss_xhttp (in_stream i) = Some x \<longrightarrow> xh_path x \<noteq> [])"

definition config_ok :: "(rstring \<Rightarrow> bytes option) \<Rightarrow> 'j config \<Rightarrow> bool" where
  "config_ok parse_uuid c \<longleftrightarrow> cf_inbounds c \<noteq> [] \<and> cf_outbounds c \<noteq> []
     \<and> (\<forall>i \<in> set (cf_inbounds c). inbound_ok parse_uuid i)"

definition sample_inbound :: inbound where
  "sample_inbound = \<lparr>in_protocol = Vless, in_listen = lit ''0.0.0.0'', in_port = 443,
     in_settings = \<lparr>is_clients = [\<lparr>cl_id = [1], cl_flow = [], cl_email = []\<rparr>], is_decryption = default_decryption,
       is_sniffing = sniffing_default\<rparr>,
     in_stream = \<lparr>ss_network = NetTcp, ss_security = SecReality, ss_reality = None, ss_xhttp = None,
       ss_sockopt = sock_opt_default\<rparr>\<rparr>"

definition sample_config :: "unit config" where
  "sample_config = \<lparr>cf_inbounds = [sample_inbound],
     cf_outbounds = [\<lparr>ob_protocol = lit ''freedom'', ob_tag = lit ''direct'', ob_settings = None\<rparr>],
     cf_routing = \<lparr>ro_rules = []\<rparr>\<rparr>"

section \<open>Lemmas\<close>

lemma validate_clients_Ret:
  "validate_clients parse_uuid pos k clients = Ret u \<longleftrightarrow> (\<forall>cl \<in> set clients. parse_uuid (cl_id cl) \<noteq> None)"
  by (induction clients arbitrary: k) (auto simp: bnd_Ret_iff)

lemma validate_inbound_Ret: "validate_inbound parse_uuid i pos = Ret u \<longleftrightarrow> inbound_ok parse_uuid i"
  by (auto simp: validate_inbound_def inbound_ok_def bnd_Ret_iff validate_clients_Ret reality_ok_def
      validate_reality_settings_def validate_xhttp_settings_def split: option.splits)

lemma validate_inbounds_Ret:
  "validate_inbounds parse_uuid pos is = Ret u \<longleftrightarrow> (\<forall>i \<in> set is. inbound_ok parse_uuid i)"
  by (induction "is" arbitrary: pos) (auto simp: bnd_Ret_iff validate_inbound_Ret)

lemma validate_Ret: "validate parse_uuid c = Ret u \<longleftrightarrow> config_ok parse_uuid c"
  by (auto simp: validate_def bnd_Ret_iff validate_inbounds_Ret config_ok_def)

lemma validate_clients_no_panic: "no_panic (validate_clients parse_uuid pos k cs)"
  by (induction cs arbitrary: k) (auto intro!: no_panic_intros)

lemma validate_inbounds_no_panic: "no_panic (validate_inbounds parse_uuid pos is)"
  by (induction "is" arbitrary: pos)
    (auto simp: validate_inbound_def validate_reality_settings_def validate_xhttp_settings_def
      intro!: no_panic_intros validate_clients_no_panic split: option.splits)

lemma validate_no_panic: "no_panic (validate parse_uuid c)"
  by (auto simp: validate_def intro!: no_panic_intros validate_inbounds_no_panic)

section \<open>Correctness\<close>

text \<open>C18. Loading accepts exactly the valid configurations: a configuration that was saved loads again, unchanged,
  if and only if it has an inbound and an outbound, every inbound has a port, clients with well-formed UUIDs,
  and Reality and XHTTP settings, where it has them, that are filled in. An invalid one is
  rejected with an error, never with a panic. Whether the settings that the security setting asks for are
  present is not checked.\<close>

theorem config_load_exact:
  assumes "from_str (to_string_pretty config) = Some config"
    and "config_save to_string_pretty writable config path fs = Ret fs'"
  shows "(config_load parse_uuid from_str fs' path = Ret config \<longleftrightarrow> config_ok parse_uuid config) \<and>
    (\<not> config_ok parse_uuid config \<longrightarrow> (\<exists>e. config_load parse_uuid from_str fs' path = Err e)) \<and>
    (config_ok parse_uuid config \<longrightarrow>
      config_ok parse_uuid (config \<lparr>cf_inbounds := map (\<lambda>i. i \<lparr>in_stream := (in_stream i) \<lparr>ss_security := s\<rparr>\<rparr>) (cf_inbounds config)\<rparr>))"
proof -
  have fs: "fs' path = Some (to_string_pretty config)"
    using assms(2) by (auto simp: config_save_def bnd_Ret_iff)
  then have l: "config_load parse_uuid from_str fs' path = bnd (validate parse_uuid config) (\<lambda>_. Ret config)"
    using assms(1) by (simp add: config_load_def)
  have "config_load parse_uuid from_str fs' path = Ret config \<longleftrightarrow> config_ok parse_uuid config"
    using validate_Ret [of parse_uuid config] by (auto simp: l bnd_Ret_iff)
  moreover have "\<exists>e. config_load parse_uuid from_str fs' path = Err e" if "\<not> config_ok parse_uuid config"
    using that validate_no_panic [of parse_uuid config] validate_Ret [of parse_uuid config]
    by (cases "validate parse_uuid config") (auto simp: l no_panic_def)
  ultimately show ?thesis
    by (auto simp: config_ok_def inbound_ok_def)
qed

theorem config_load_exact_witness:
  "config_load (\<lambda>s. if s = [1] then Some (replicate 16 0) else None) (\<lambda>s. if s = [7] then Some sample_config else None)
     [[9] \<mapsto> [7]] [9] = Ret sample_config"
proof -
  have "config_ok (\<lambda>s. if s = [1] then Some (replicate 16 0) else None) sample_config"
    by (simp add: config_ok_def inbound_ok_def sample_config_def sample_inbound_def)
  then show ?thesis
    using config_load_exact [where from_str = "\<lambda>s. if s = [7] then Some sample_config else None"
        and to_string_pretty = "\<lambda>c. [7]" and writable = "\<lambda>p. True" and path = "[9]" and fs = Map.empty
        and fs' = "[[9] \<mapsto> [7]]" and config = sample_config]
    by (simp add: config_save_def)
qed

end
