(* ===== verification/Server.thy ===== *)
theory Server
  imports Config Handler Proxy_Protocol Reality_Server Xhttp_Data
begin

text \<open>
  The server (\<open>src/server.rs\<close>): what an inbound is set up with, the loop that accepts connections under a limit,
  and what is done with one connection, from the PROXY header over Reality to the handler that gets the stream.

  The parser of UUIDs, binding a socket, what a peek at the socket returns, and the parameters of
  \<open>Reality_Server\<close> are arguments. Socket options have no effect on the data and are left out.
\<close>

section \<open>Setting up an inbound\<close>

datatype inbound_error = BadListen | SocketFailed | RealityFailed reality_error | XhttpFailed xhttp_error

record 'j server =
  sv_config :: "'j config"
  sv_manager :: connection_manager

definition server_new :: "'j config \<Rightarrow> 'j server" where
  "server_new config = \<lparr>sv_config = config, sv_manager = manager_new\<rparr>"

record inbound_ready =
  ir_addr :: socket_addr
  ir_codec :: vless_codec
  ir_reality :: "reality_server option"
  ir_xhttp :: "xhttp_server option"

definition listen_addr :: "inbound \<Rightarrow> rstring" where
  "listen_addr inbound = in_listen inbound @ lit '':'' @ dec_str (unat (in_port inbound))"

fun transport_mode :: "cfg_xhttp_mode \<Rightarrow> xhttp_mode" where
  "transport_mode CfgAuto = Auto"
| "transport_mode CfgStreamUp = StreamUp"
| "transport_mode CfgStreamDown = StreamDown"
| "transport_mode CfgStreamOne = StreamOne"

definition reality_of :: "reality_settings \<Rightarrow> reality_conf" where
  "reality_of s = \<lparr>cf_dest = re_dest s, cf_server_names = re_server_names s, cf_private_key = re_private_key s,
     cf_public_key = re_public_key s, cf_short_ids = re_short_ids s, cf_fingerprint = re_fingerprint s\<rparr>"

definition xhttp_of :: "xhttp_settings \<Rightarrow> xhttp_config" where
  "xhttp_of s = \<lparr>xc_mode = transport_mode (xh_mode s), xc_path = xh_path s, xc_host = xh_host s\<rparr>"

definition inbound_setup ::
  "(rstring \<Rightarrow> uuid option) \<Rightarrow> reality_prims \<Rightarrow> (rstring \<Rightarrow> bytes option) \<Rightarrow> (rstring \<Rightarrow> bytes option) \<Rightarrow> (socket_addr \<Rightarrow> bool)
     \<Rightarrow> inbound \<Rightarrow> (inbound_error, inbound_ready) outcome" where
  "inbound_setup parse_uuid P b64_url b64_standard bind inbound =
     bnd (ok_or BadListen (parse_socket_addr (listen_addr inbound))) (\<lambda>socket_addr.
     bnd (guard (\<not> bind socket_addr) SocketFailed) (\<lambda>_.
     let uuids = List.map_filter (\<lambda>c. parse_uuid (cl_id c)) (is_clients (in_settings inbound));
         codec = codec_new uuids in
     bnd (if ss_security (in_stream inbound) = SecReality then
            (case ss_reality (in_stream inbound) of
               Some settings \<Rightarrow>
                 bnd (map_err RealityFailed (reality_wrapper_new P b64_url b64_standard (reality_of settings)))
                   (\<lambda>r. Ret (Some r))
             | None \<Rightarrow> Ret None)
          else Ret None) (\<lambda>reality_server.
     bnd (case ss_xhttp (in_stream inbound) of
            Some settings \<Rightarrow> bnd (map_err XhttpFailed (xhttp_server_new (xhttp_of settings))) (\<lambda>x. Ret (Some x))
          | None \<Rightarrow> Ret None) (\<lambda>xhttp_server.
     Ret \<lparr>ir_addr = socket_addr, ir_codec = codec, ir_reality = reality_server, ir_xhttp = xhttp_server\<rparr>))))"

text \<open>Every inbound runs in a task of its own; one that cannot be set up is logged and does not
  disturb the others.\<close>

definition server_run ::
  "(rstring \<Rightarrow> uuid option) \<Rightarrow> reality_prims \<Rightarrow> (rstring \<Rightarrow> bytes option) \<Rightarrow> (rstring \<Rightarrow> bytes option) \<Rightarrow> (socket_addr \<Rightarrow> bool)
     \<Rightarrow> 'j server \<Rightarrow> (inbound_error, inbound_ready) outcome list" where
  "server_run parse_uuid P b64_url b64_standard bind self =
     map (inbound_setup parse_uuid P b64_url b64_standard bind) (cf_inbounds (sv_config self))"

section \<open>The accept loop\<close>

definition MAX_CONNECTIONS :: nat where
  "MAX_CONNECTIONS = 10000"

text \<open>The free permits of the semaphore, whether the loop holds one, and the running tasks. A task
  returns its permit when it ends, in whatever way. The semaphore is never closed.\<close>

record accept_state =
  ac_permits :: nat
  ac_holding :: bool
  ac_tasks :: "nat list"
  ac_next :: nat

datatype accept_event = Acquire | AcceptOk | AcceptWouldBlock | AcceptEmfile | AcceptErr | TaskDone nat

definition accept_init :: accept_state where
  "accept_init = \<lparr>ac_permits = MAX_CONNECTIONS, ac_holding = False, ac_tasks = [], ac_next = 0\<rparr>"

inductive accept_step :: "accept_state \<Rightarrow> accept_event \<Rightarrow> accept_state \<Rightarrow> bool" where
  acquire: "\<not> ac_holding s \<Longrightarrow> ac_permits s = Suc n \<Longrightarrow>
    accept_step s Acquire (s \<lparr>ac_permits := n, ac_holding := True\<rparr>)"
| accept: "ac_holding s \<Longrightarrow>
    accept_step s AcceptOk (s \<lparr>ac_holding := False, ac_tasks := ac_next s # ac_tasks s, ac_next := Suc (ac_next s)\<rparr>)"
| would_block: "ac_holding s \<Longrightarrow>
    accept_step s AcceptWouldBlock (s \<lparr>ac_holding := False, ac_permits := Suc (ac_permits s)\<rparr>)"
| emfile: "ac_holding s \<Longrightarrow>
    accept_step s AcceptEmfile (s \<lparr>ac_holding := False, ac_permits := Suc (ac_permits s)\<rparr>)"
| failed: "ac_holding s \<Longrightarrow>
    accept_step s AcceptErr (s \<lparr>ac_holding := False, ac_permits := Suc (ac_permits s)\<rparr>)"
| task_done: "i \<in> set (ac_tasks s) \<Longrightarrow>
    accept_step s (TaskDone i) (s \<lparr>ac_permits := Suc (ac_permits s), ac_tasks := remove1 i (ac_tasks s)\<rparr>)"

inductive accept_run :: "accept_state \<Rightarrow> accept_event list \<Rightarrow> accept_state \<Rightarrow> bool" where
  run_nil: "accept_run s [] s"
| run_step: "accept_run s es t \<Longrightarrow> accept_step t e u \<Longrightarrow> accept_run s (es @ [e]) u"

inductive_cases accept_stepE: "accept_step s e t"

section \<open>One connection\<close>

text \<open>A boxed stream: the socket, or the socket with bytes put back.\<close>

datatype boxed = Plain tcp | Prefixed "tcp prefixed_stream"

fun boxed_read :: "boxed \<Rightarrow> nat \<Rightarrow> bytes \<times> boxed" where
  "boxed_read (Plain s) n = (let (d, s') = tcp_read s n in (d, Plain s'))"
| "boxed_read (Prefixed s) n = (let (d, s') = prefixed_read tcp_read s n in (d, Prefixed s'))"

fun boxed_content :: "boxed \<Rightarrow> bytes" where
  "boxed_content (Plain s) = concat s"
| "boxed_content (Prefixed s) = prefixed_content concat s"

datatype client_error = FrontEof | RealityRefused reality_error

text \<open>\<open>peeked\<close> is the number of bytes a peek returned in time, if it did.\<close>

definition proxy_front ::
  "bool \<Rightarrow> nat option \<Rightarrow> tcp \<Rightarrow> (client_error, boxed \<times> socket_addr option) outcome" where
  "proxy_front accept_proxy_protocol peeked stream =
     (if accept_proxy_protocol then
        (case peeked of
           Some n \<Rightarrow>
             if n > 0 then
               if is_proxy_protocol (take n (concat stream)) then
                 bnd (ok_or FrontEof (read_exact tcp_read stream n)) (\<lambda>(read_buf, stream).
                 case parse_proxy_protocol read_buf of
                   Ret (header, consumed) \<Rightarrow>
                     bnd (slice read_buf consumed (length read_buf)) (\<lambda>remaining.
                     let wrapped_stream = (if remaining \<noteq> [] then Prefixed (prefixed_new remaining stream) else Plain stream)
                     in Ret (wrapped_stream, Some (source_addr header)))
                 | Err e \<Rightarrow> Ret (Prefixed (prefixed_new read_buf stream), None)
                 | Panic \<Rightarrow> Panic)
               else Ret (Plain stream, None)
             else Ret (Plain stream, None)
         | None \<Rightarrow> Ret (Plain stream, None))
      else Ret (Plain stream, None))"

datatype 't transport_stream = ClearStream boxed | TlsTransport 't

datatype 't route =
    ToXhttp xhttp_server "'t transport_stream"
  | ToVless vless_codec bool bool "'t transport_stream"
  | ClientForwarded rstring bytes boxed
  | ClientFailed client_error
  | ClientPanicked

definition dispatch ::
  "vless_codec \<Rightarrow> xhttp_server option \<Rightarrow> bool \<Rightarrow> bool \<Rightarrow> 't transport_stream \<Rightarrow> 't route" where
  "dispatch codec xhttp_server sniffing_enabled tcp_no_delay stream =
     (case xhttp_server of
        Some xhttp \<Rightarrow> ToXhttp xhttp stream
      | None \<Rightarrow> ToVless codec sniffing_enabled tcp_no_delay stream)"

definition handle_client ::
  "reality_prims \<Rightarrow> 'c lru_ops \<Rightarrow> (rstring \<Rightarrow> cert_template option)
     \<Rightarrow> (conn_setup \<Rightarrow> boxed prefixed_stream \<Rightarrow> (reality_error, 't) outcome) \<Rightarrow> (rstring \<Rightarrow> reality_error option)
     \<Rightarrow> reality_error option \<Rightarrow> nat option \<Rightarrow> 'c cert_cache \<Rightarrow> tcp \<Rightarrow> vless_codec \<Rightarrow> reality_server option
     \<Rightarrow> xhttp_server option \<Rightarrow> bool \<Rightarrow> bool \<Rightarrow> bool \<Rightarrow> 't route" where
  "handle_client P L generate tls connect interrupt peeked cache stream codec reality_server xhttp_server
     sniffing_enabled tcp_no_delay accept_proxy_protocol =
     (case proxy_front accept_proxy_protocol peeked stream of
        Err e \<Rightarrow> ClientFailed e
      | Panic \<Rightarrow> ClientPanicked
      | Ret (stream, real_client_addr) \<Rightarrow>
          (case reality_server of
             Some reality \<Rightarrow>
               (case fst (reality_accept P L generate tls connect boxed_read interrupt cache reality stream) of
                  Accepted tls_stream \<Rightarrow> dispatch codec xhttp_server sniffing_enabled tcp_no_delay (TlsTransport tls_stream)
                | FellBack dest prefix rest \<Rightarrow> ClientForwarded dest prefix rest
                | Failed e \<Rightarrow> ClientFailed (RealityRefused e)
                | Panicked \<Rightarrow> ClientPanicked)
           | None \<Rightarrow> dispatch codec xhttp_server sniffing_enabled tcp_no_delay (ClearStream stream)))"

section \<open>What the theorems speak about\<close>

definition accept_invar :: "accept_state \<Rightarrow> bool" where
  "accept_invar s \<longleftrightarrow> ac_permits s + (if ac_holding s then 1 else 0) + length (ac_tasks s) = MAX_CONNECTIONS
     \<and> distinct (ac_tasks s) \<and> (\<forall>i \<in> set (ac_tasks s). i < ac_next s)"

text \<open>The bytes of a connection behind the PROXY header, if the server looks for one and finds it.\<close>

definition payload :: "bool \<Rightarrow> nat option \<Rightarrow> bytes \<Rightarrow> bytes" where
  "payload accept_proxy_protocol peeked bs =
     (case peeked of
        Some n \<Rightarrow>
          if accept_proxy_protocol \<and> n > 0 then
            (case parse_proxy_protocol (take n bs) of Ret (h, consumed) \<Rightarrow> drop consumed bs | _ \<Rightarrow> bs)
          else bs
      | None \<Rightarrow> bs)"

text \<open>A stream a handler may get: the clear bytes of the client only without Reality; with it, the TLS
  stream of a client that Reality has authenticated, over exactly the bytes of that client.\<close>

definition stream_ok ::
  "reality_prims \<Rightarrow> (conn_setup \<Rightarrow> boxed prefixed_stream \<Rightarrow> (reality_error, 't) outcome)
     \<Rightarrow> reality_server option \<Rightarrow> bytes \<Rightarrow> 't transport_stream \<Rightarrow> bool" where
  "stream_ok P tls reality bs st \<longleftrightarrow>
     (case st of
        ClearStream b \<Rightarrow> reality = None \<and> boxed_content b = bs
      | TlsTransport t \<Rightarrow>
          (\<exists>r buffer rest k conf. reality = Some r \<and> authenticated P r buffer k
             \<and> rc_private_key (cs_reality conf) = k \<and> tls conf (prefixed_new buffer rest) = Ret t
             \<and> prefixed_content boxed_content (prefixed_new buffer rest) = bs))"

section \<open>Lemmas on the accept loop\<close>

lemma accept_step_invar: "accept_step s e t \<Longrightarrow> accept_invar s \<Longrightarrow> accept_invar t"
proof (induction rule: accept_step.induct)
  case (task_done i s)
  then obtain m where "length (ac_tasks s) = Suc m"
    by (metis length_pos_if_in_set gr0_conv_Suc)
  then show ?case
    using task_done set_remove1_subset [of i "ac_tasks s"]
    by (auto simp: accept_invar_def length_remove1 split: if_splits)
qed (auto simp: accept_invar_def less_Suc_eq split: if_splits)

lemma accept_run_invar: "accept_run s es t \<Longrightarrow> accept_invar s \<Longrightarrow> accept_invar t"
  by (induction rule: accept_run.induct) (auto intro: accept_step_invar)

lemma accept_init_invar: "accept_invar accept_init"
  by (simp add: accept_invar_def accept_init_def)

section \<open>Lemmas on one connection\<close>

interpretation boxed_source: byte_source boxed_read boxed_content
proof
  fix s n d s'
  assume r: "boxed_read s n = (d, s')"
  have "boxed_content s = d @ boxed_content s' \<and> length d \<le> n \<and> (0 < n \<longrightarrow> d = [] \<longrightarrow> boxed_content s = [])"
  proof (cases s)
    case (Plain t)
    then obtain t' where "tcp_read t n = (d, t')" "s' = Plain t'" using r by (auto split: prod.splits)
    then show ?thesis
      using Plain tcp_source.rd_content [of t n d t'] tcp_source.rd_bound [of t n d t'] tcp_source.rd_progress [of t n d t']
      by simp
  next
    case (Prefixed t)
    then obtain t' where "prefixed_read tcp_read t n = (d, t')" "s' = Prefixed t'" using r by (auto split: prod.splits)
    then show ?thesis
      using Prefixed prefixed_tcp.rd_content [of t n d t'] prefixed_tcp.rd_bound [of t n d t']
        prefixed_tcp.rd_progress [of t n d t']
      by simp
  qed
  then show "boxed_content s = d @ boxed_content s'" "length d \<le> n" "0 < n \<Longrightarrow> d = [] \<Longrightarrow> boxed_content s = []"
    by blast+
qed

lemma proxy_front_exact:
  assumes "\<And>n. peeked = Some n \<Longrightarrow> n \<le> length (concat segs)"
  shows "\<exists>b addr. proxy_front pp peeked segs = Ret (b, addr) \<and> boxed_content b = payload pp peeked (concat segs)"
proof (cases "\<exists>n. pp \<and> peeked = Some n \<and> 0 < n \<and> is_proxy_protocol (take n (concat segs))")
  case True
  then obtain n where n: "pp" "peeked = Some n" "0 < n" "is_proxy_protocol (take n (concat segs))" by blast
  obtain s where s: "read_exact tcp_read segs n = Some (take n (concat segs), s)" "concat s = drop n (concat segs)"
    using tcp_source.read_exact_content [of n segs] assms [OF n(2)] by blast
  show ?thesis
  proof (cases "parse_proxy_protocol (take n (concat segs))")
    case (Ret r)
    obtain h k where r: "r = (h, k)" by (cases r)
    then have k: "k \<le> n" "k \<le> length (take n (concat segs))"
      using parse_proxy_bound Ret by fastforce+
    have "drop k (take n (concat segs)) @ drop n (concat segs) = drop k (concat segs)"
      using append_take_drop_id [of "n - k" "drop k (concat segs)"] k(1) by (simp add: drop_take)
    then show ?thesis
      using n s k Ret r by (auto simp: proxy_front_def payload_def slice_def Let_def prefixed_new_content)
  next
    case (Err e)
    then show ?thesis
      using n s by (simp add: proxy_front_def payload_def prefixed_new_content)
  next
    case Panic
    then show ?thesis using parse_proxy_no_panic by blast
  qed
next
  case False
  moreover have "parse_proxy_protocol d = Err InvalidHeader" if "\<not> is_proxy_protocol d" for d
    using that by (auto simp: parse_proxy_protocol_def is_proxy_protocol_def)
  ultimately show ?thesis
    by (auto simp: proxy_front_def payload_def split: option.splits)
qed

section \<open>Lemmas on the setup\<close>

lemma map_filter_total: "(\<forall>x \<in> set xs. f x \<noteq> None) \<Longrightarrow> List.map_filter f xs = map (\<lambda>x. the (f x)) xs"
  by (induction xs) auto

lemma decode_short_ids_Ret: "decode_short_ids P ids = Ret bs \<longleftrightarrow> map (rp_hex_decode P) ids = map Some bs"
  by (induction ids arbitrary: bs) (auto simp: bnd_Ret_iff ok_or_def split: option.splits)

lemma decode_short_ids_no_panic: "no_panic (decode_short_ids P ids)"
  by (induction ids) (auto intro!: no_panic_intros)

lemma reality_wrapper_Ret:
  assumes "reality_wrapper_new P b64_url b64_standard c = Ret r"
  shows "length (rc_private_key (rs_config r)) = 32 \<and> rc_dest (rs_config r) = Some (cf_dest c)
    \<and> map Some (rc_short_ids (rs_config r)) = map (rp_hex_decode P) (cf_short_ids c)
    \<and> rs_server_names r = cf_server_names c
    \<and> (b64_url (cf_private_key c) = Some (rc_private_key (rs_config r))
       \<or> b64_url (cf_private_key c) = None \<and> b64_standard (cf_private_key c) = Some (rc_private_key (rs_config r)))"
  using assms
  by (auto simp: reality_wrapper_new_def reality_server_new_def bnd_Ret_iff decode_short_ids_Ret Let_def
      with_dest_def with_short_ids_def with_verify_client_def reality_config_new_def ok_or_def split: option.splits)

lemma reality_wrapper_no_panic: "no_panic (reality_wrapper_new P b64_url b64_standard c)"
  unfolding reality_wrapper_new_def reality_server_new_def Let_def config_validate_def
  by (auto intro!: no_panic_intros decode_short_ids_no_panic)

lemma xhttp_new_Ret: "xhttp_server_new c = Ret x \<Longrightarrow> xc_path c \<noteq> [] \<and> xs_config x = c"
  by (auto simp: xhttp_server_new_def bnd_Ret_iff)

lemma map_err_Err_iff: "map_err f x = Err e \<longleftrightarrow> (\<exists>d. x = Err d \<and> e = f d)"
  by (cases x) auto

lemma inbound_setup_no_panic: "no_panic (inbound_setup parse_uuid P b64_url b64_standard bind i)"
  unfolding inbound_setup_def xhttp_server_new_def Let_def
  by (auto intro!: no_panic_intros reality_wrapper_no_panic split: option.splits)

lemma inbound_setup_Ret:
  assumes "inbound_setup parse_uuid P b64_url b64_standard bind i = Ret r"
  shows "parse_socket_addr (listen_addr i) = Some (ir_addr r) \<and> bind (ir_addr r)
    \<and> allowed_uuids (ir_codec r) = List.map_filter (\<lambda>c. parse_uuid (cl_id c)) (is_clients (in_settings i))
    \<and> (case ir_reality r of
         Some s \<Rightarrow> ss_security (in_stream i) = SecReality \<and> (\<exists>c. ss_reality (in_stream i) = Some c
           \<and> reality_wrapper_new P b64_url b64_standard (reality_of c) = Ret s)
       | None \<Rightarrow> ss_security (in_stream i) = SecReality \<longrightarrow> ss_reality (in_stream i) = None)
    \<and> (case ir_xhttp r of
         Some x \<Rightarrow> (\<exists>c. ss_xhttp (in_stream i) = Some c \<and> xhttp_server_new (xhttp_of c) = Ret x)
       | None \<Rightarrow> ss_xhttp (in_stream i) = None)"
  using assms
  by (auto simp: inbound_setup_def bnd_Ret_iff Let_def codec_new_def ok_or_def split: option.splits if_splits)

section \<open>Lemmas on the dispatch\<close>

lemma handle_client_exact:
  assumes peek: "\<And>n. peeked = Some n \<Longrightarrow> n \<le> length (concat segs)"
    and key: "\<And>r. reality = Some r \<Longrightarrow> length (rc_private_key (rs_config r)) = 32"
    and hmac: "\<And>k m. length (rp_hmac_sha512 P k m) = 64" and tls: "\<And>s p. tls s p \<noteq> Panic"
  shows "case handle_client P L generate tls connect interrupt peeked cache segs codec reality xhttp sniff nodelay pp of
      ToXhttp x st \<Rightarrow> xhttp = Some x \<and> stream_ok P tls reality (payload pp peeked (concat segs)) st
    | ToVless c sn nd st \<Rightarrow> xhttp = None \<and> c = codec \<and> sn = sniff \<and> nd = nodelay
        \<and> stream_ok P tls reality (payload pp peeked (concat segs)) st
    | ClientForwarded dest prefix b \<Rightarrow>
        (\<exists>r. reality = Some r \<and> (\<forall>k. \<not> authenticated P r prefix k)
           \<and> dest = (case rc_dest (rs_config r) of Some d \<Rightarrow> d | None \<Rightarrow> lit ''www.microsoft.com:443''))
        \<and> prefix @ boxed_content b = payload pp peeked (concat segs)
    | ClientFailed e \<Rightarrow> reality \<noteq> None
    | ClientPanicked \<Rightarrow> False"
proof -
  obtain b addr where b: "proxy_front pp peeked segs = Ret (b, addr)" "boxed_content b = payload pp peeked (concat segs)"
    using proxy_front_exact [OF peek] by blast
  show ?thesis
  proof (cases reality)
    case None
    then show ?thesis
      using b by (auto simp: handle_client_def dispatch_def stream_ok_def split: option.splits)
  next
    case (Some r)
    note a = boxed_source.accept_exact [where self = r and P = P and tls = tls and L = L and generate = generate
        and connect = connect and interrupt = interrupt and cache = cache and segs = b, OF key [OF Some] hmac tls]
    show ?thesis
    proof (cases "fst (reality_accept P L generate tls connect boxed_read interrupt cache r b)")
      case (Accepted t)
      then show ?thesis
        using a b Some by (auto simp: handle_client_def dispatch_def stream_ok_def split: option.splits)
    next
      case (FellBack dest prefix s)
      then show ?thesis
        using a b Some by (auto simp: handle_client_def split: option.splits)
    next
      case (Failed e)
      then show ?thesis
        using b Some by (simp add: handle_client_def)
    next
      case Panicked
      then show ?thesis using a by simp
    qed
  qed
qed

section \<open>Correctness\<close>

text \<open>Setting up a valid inbound does not panic, and when it succeeds the server serves exactly
  what the configuration says: its address is the configured one, the allowed clients are
  all the configured clients in order, Reality runs if and only if it is the security setting and has
  settings, then with the decoded 32-byte key, the destination, the server names and all short ids of
  the settings, and XHTTP runs if and only if it has settings, with their path.\<close>

lemma inbound_setup_exact:
  assumes "inbound_ok parse_uuid i" and "in_listen i = ipv4_display a" and "length a = 4"
  shows "case inbound_setup parse_uuid P b64_url b64_standard bind i of
      Ret r \<Rightarrow>
        ir_addr r = \<lparr>sa_ip = V4 a, sa_port = in_port i\<rparr>
        \<and> map Some (allowed_uuids (ir_codec r)) = map (\<lambda>c. parse_uuid (cl_id c)) (is_clients (in_settings i))
        \<and> (ir_reality r \<noteq> None \<longleftrightarrow> ss_security (in_stream i) = SecReality \<and> ss_reality (in_stream i) \<noteq> None)
        \<and> (\<forall>s c. ir_reality r = Some s \<and> ss_reality (in_stream i) = Some c \<longrightarrow>
             length (rc_private_key (rs_config s)) = 32 \<and> rc_dest (rs_config s) = Some (re_dest c)
             \<and> rs_server_names s = re_server_names c
             \<and> map Some (rc_short_ids (rs_config s)) = map (rp_hex_decode P) (re_short_ids c))
        \<and> map_option server_path (ir_xhttp r) = map_option xh_path (ss_xhttp (in_stream i))
    | Err BadListen \<Rightarrow> False
    | Err e \<Rightarrow> bind \<lparr>sa_ip = V4 a, sa_port = in_port i\<rparr> \<longrightarrow> e \<noteq> SocketFailed
    | Panic \<Rightarrow> False"
proof -
  have addr: "parse_socket_addr (listen_addr i) = Some \<lparr>sa_ip = V4 a, sa_port = in_port i\<rparr>"
    using parse_socket_addr_display [OF assms(3), of "in_port i"] by (simp add: listen_addr_def assms(2) lit_def)
  show ?thesis
  proof (cases "inbound_setup parse_uuid P b64_url b64_standard bind i")
    case (Ret r)
    have "map Some (List.map_filter (\<lambda>c. parse_uuid (cl_id c)) (is_clients (in_settings i))) =
        map (\<lambda>c. parse_uuid (cl_id c)) (is_clients (in_settings i))"
      using assms(1) by (auto simp: inbound_ok_def map_filter_total)
    then show ?thesis
      using Ret addr inbound_setup_Ret [OF Ret]
      by (auto simp: reality_of_def xhttp_of_def server_path_def split: option.splits
          dest!: reality_wrapper_Ret xhttp_new_Ret)
  next
    case (Err e)
    then show ?thesis
      by (auto simp: inbound_setup_def addr Let_def bnd_Err_iff map_err_Err_iff split: inbound_error.splits option.splits if_splits)
  next
    case Panic
    then show ?thesis
      using inbound_setup_no_panic [of parse_uuid P b64_url b64_standard bind i] by (simp add: no_panic_def)
  qed
qed

text \<open>C16. The accept loop never has more than 10,000 connections open, and never loses a permit:
  whatever happened so far, the loop either holds a permit, or can take one, or all 10,000
  connections are running; and as soon as any running connection ends, the loop can accept again.\<close>

theorem accept_loop:
  assumes "accept_run accept_init es s"
  shows "length (ac_tasks s) \<le> MAX_CONNECTIONS \<and> distinct (ac_tasks s)
    \<and> (ac_holding s \<or> (\<exists>t. accept_step s Acquire t) \<or> length (ac_tasks s) = MAX_CONNECTIONS)
    \<and> (\<forall>i \<in> set (ac_tasks s). \<exists>t. accept_step s (TaskDone i) t \<and> (ac_holding t \<or> (\<exists>u. accept_step t Acquire u)))"
proof -
  have inv: "accept_invar s"
    using accept_run_invar [OF assms accept_init_invar] .
  have acq: "\<exists>u. accept_step t Acquire u" if "\<not> ac_holding t" "0 < ac_permits t" for t
    using that accept_step.acquire [of t "ac_permits t - 1"] by auto
  have "\<exists>t. accept_step s (TaskDone i) t \<and> (ac_holding t \<or> (\<exists>u. accept_step t Acquire u))" if "i \<in> set (ac_tasks s)" for i
    using accept_step.task_done [OF that]
      acq [of "s \<lparr>ac_permits := Suc (ac_permits s), ac_tasks := remove1 i (ac_tasks s)\<rparr>"]
    by (intro exI conjI) (assumption, cases "ac_holding s", simp_all)
  then show ?thesis
    using inv acq [of s] by (auto simp: accept_invar_def split: if_splits)
qed

theorem accept_loop_witness:
  "length (ac_tasks \<lparr>ac_permits = 9999, ac_holding = False, ac_tasks = [0], ac_next = 1\<rparr>) \<le> MAX_CONNECTIONS \<and>
   accept_run accept_init [Acquire, AcceptOk] \<lparr>ac_permits = 9999, ac_holding = False, ac_tasks = [0], ac_next = 1\<rparr>"
proof -
  let ?s = "\<lparr>ac_permits = 9999, ac_holding = True, ac_tasks = [], ac_next = 0\<rparr>"
  let ?t = "\<lparr>ac_permits = 9999, ac_holding = False, ac_tasks = [0], ac_next = 1\<rparr>"
  have "accept_step accept_init Acquire ?s"
    using accept_step.acquire [of accept_init 9999] by (simp add: accept_init_def MAX_CONNECTIONS_def)
  moreover have "accept_step ?s AcceptOk ?t"
    using accept_step.accept [of ?s] by simp
  ultimately have "accept_run accept_init [Acquire, AcceptOk] ?t"
    using accept_run.run_nil accept_run.run_step by (metis append_Nil append_Cons)
  then show ?thesis
    using accept_loop [of "[Acquire, AcceptOk]" ?t] by blast
qed

text \<open>C4. What becomes of a connection: without Reality its bytes, less a PROXY header that was
  accepted, go to the configured handler unchanged and in full. With Reality a handler gets only the TLS
  stream of an authenticated client, started on exactly those bytes; any other client is forwarded to the
  destination together with every byte it sent, or the connection fails. No connection panics.\<close>

theorem client_dispatch:
  assumes "\<And>n. peeked = Some n \<Longrightarrow> n \<le> length (concat segs)"
    and "\<And>r. reality = Some r \<Longrightarrow> length (rc_private_key (rs_config r)) = 32"
    and "\<And>k m. length (rp_hmac_sha512 P k m) = 64" and "\<And>s p. tls s p \<noteq> Panic"
  shows "case handle_client P L generate tls connect interrupt peeked cache segs codec reality xhttp sniff nodelay pp of
      ToXhttp x st \<Rightarrow> xhttp = Some x \<and> stream_ok P tls reality (payload pp peeked (concat segs)) st
    | ToVless c sn nd st \<Rightarrow> xhttp = None \<and> c = codec \<and> sn = sniff \<and> nd = nodelay
        \<and> stream_ok P tls reality (payload pp peeked (concat segs)) st
    | ClientForwarded dest prefix b \<Rightarrow>
        (\<exists>r. reality = Some r \<and> (\<forall>k. \<not> authenticated P r prefix k)
           \<and> dest = (case rc_dest (rs_config r) of Some d \<Rightarrow> d | None \<Rightarrow> lit ''www.microsoft.com:443''))
        \<and> prefix @ boxed_content b = payload pp peeked (concat segs)
    | ClientFailed e \<Rightarrow> reality \<noteq> None
    | ClientPanicked \<Rightarrow> False"
  using assms by (rule handle_client_exact)

theorem client_dispatch_witness:
  "\<exists>b. handle_client sample_reality \<lparr>lru_get = (\<lambda>c h. (None, c)), lru_put = (\<lambda>c h t. c), lru_clear = (\<lambda>c. c)\<rparr>
      (\<lambda>h. None) (\<lambda>conf s. Ret conf) (\<lambda>d. None) None (Some 8) \<lparr>cc_poisoned = False, cc_entries = ()\<rparr>
      [[1, 2, 3], [4, 5, 6, 7, 8, 9]] (codec_new []) None None True True True =
        ToVless (codec_new []) True True (ClearStream b) \<and> boxed_content b = [1, 2, 3, 4, 5, 6, 7, 8, 9]"
proof -
  let ?L = "\<lparr>lru_get = (\<lambda>c h. (None, c)), lru_put = (\<lambda>c h t. c), lru_clear = (\<lambda>c. c)\<rparr> :: unit lru_ops"
  let ?tls = "\<lambda>(conf :: conn_setup) (s :: boxed prefixed_stream). Ret conf :: (reality_error, conn_setup) outcome"
  have l: "length (rp_hmac_sha512 sample_reality k m) = 64" for k m
    by (simp add: sample_reality_def)
  have p: "payload True (Some 8) (concat [[1, 2, 3], [4, 5, 6, 7, 8, 9]]) = [1, 2, 3, 4, 5, 6, 7, 8, 9]"
    by (simp add: payload_def parse_proxy_protocol_def PROXY_V1_SIGNATURE_def lit_def)
  show ?thesis
    using client_dispatch [where P = sample_reality and L = ?L and tls = ?tls and peeked = "Some 8"
        and segs = "[[1, 2, 3], [4, 5, 6, 7, 8, 9]]" and reality = None and generate = "\<lambda>h. None"
        and connect = "\<lambda>d. None" and interrupt = None and cache = "\<lparr>cc_poisoned = False, cc_entries = ()\<rparr>"
        and codec = "codec_new []" and xhttp = None and sniff = True and nodelay = True and pp = True, OF _ _ l]
    unfolding p by (auto simp: stream_ok_def split: route.splits transport_stream.splits)
qed

end
