(* ===== verification/Rustls_Vecbuf.thy ===== *)
theory Rustls_Vecbuf
  imports Streams
begin

text \<open>
  The queue of byte chunks in which the TLS library keeps plaintext and records that wait to be read or sent
  (\<open>rustls-reality/rustls/src/vecbuf.rs\<close>). It is a queue of bytes: what comes out is what went in, in order,
  however the chunks are cut.
\<close>

section \<open>The buffer\<close>

record chunk_vec_buffer =
  cv_chunks :: "bytes list"
  cv_limit :: "nat option"

definition cvb_new :: "nat option \<Rightarrow> chunk_vec_buffer" where
  "cvb_new limit = \<lparr>cv_chunks = [], cv_limit = limit\<rparr>"

definition cvb_set_limit :: "chunk_vec_buffer \<Rightarrow> nat option \<Rightarrow> chunk_vec_buffer" where
  "cvb_set_limit self new_limit = self \<lparr>cv_limit := new_limit\<rparr>"

definition cvb_is_empty :: "chunk_vec_buffer \<Rightarrow> bool" where
  "cvb_is_empty self \<longleftrightarrow> cv_chunks self = []"

definition cvb_len :: "chunk_vec_buffer \<Rightarrow> nat" where
  "cvb_len self = foldl (\<lambda>len ch. len + length ch) 0 (cv_chunks self)"

definition cvb_is_full :: "chunk_vec_buffer \<Rightarrow> bool" where
  "cvb_is_full self = (case cv_limit self of Some limit \<Rightarrow> cvb_len self > limit | None \<Rightarrow> False)"

definition apply_limit :: "chunk_vec_buffer \<Rightarrow> nat \<Rightarrow> nat" where
  "apply_limit self len =
     (case cv_limit self of
        Some limit \<Rightarrow> (let space = limit - cvb_len self in min len space)
      | None \<Rightarrow> len)"

definition cvb_append :: "chunk_vec_buffer \<Rightarrow> bytes \<Rightarrow> nat \<times> chunk_vec_buffer" where
  "cvb_append self bs =
     (length bs, if bs \<noteq> [] then self \<lparr>cv_chunks := cv_chunks self @ [bs]\<rparr> else self)"

definition append_limited_copy :: "chunk_vec_buffer \<Rightarrow> bytes \<Rightarrow> nat \<times> chunk_vec_buffer" where
  "append_limited_copy self bs =
     (let n = apply_limit self (length bs) in (n, snd (cvb_append self (take n bs))))"

definition cvb_pop :: "chunk_vec_buffer \<Rightarrow> bytes option \<times> chunk_vec_buffer" where
  "cvb_pop self =
     (case cv_chunks self of
        [] \<Rightarrow> (None, self)
      | ch # chunks \<Rightarrow> (Some ch, self \<lparr>cv_chunks := chunks\<rparr>))"

fun consume_chunks :: "bytes list \<Rightarrow> nat \<Rightarrow> bytes list" where
  "consume_chunks [] used = []"
| "consume_chunks (buf # chunks) used =
     (if used < length buf then drop used buf # chunks else consume_chunks chunks (used - length buf))"

definition consume :: "chunk_vec_buffer \<Rightarrow> nat \<Rightarrow> chunk_vec_buffer" where
  "consume self used = self \<lparr>cv_chunks := consume_chunks (cv_chunks self) used\<rparr>"

lemma consume_chunks_length: "length (consume_chunks chunks used) \<le> length chunks"
  by (induction chunks used rule: consume_chunks.induct) auto

text \<open>The loop of \<open>read\<close>; \<open>room\<close> is what is left of the caller's buffer.\<close>

function cvb_read_loop :: "chunk_vec_buffer \<Rightarrow> nat \<Rightarrow> bytes \<times> chunk_vec_buffer" where
  "cvb_read_loop self room =
     (if 0 < room \<and> \<not> cvb_is_empty self then
        let used = min (length (hd (cv_chunks self))) room;
            (data, self') = cvb_read_loop (consume self used) (room - used)
        in (take used (hd (cv_chunks self)) @ data, self')
      else ([], self))"
  by pat_completeness auto
termination
proof (relation "measure (\<lambda>(self, room). room + length (cv_chunks self))", goal_cases)
  case (2 self room used)
  then obtain ch chunks where c: "cv_chunks self = ch # chunks"
    by (cases "cv_chunks self") (auto simp: cvb_is_empty_def)
  have "length (consume_chunks (ch # chunks) used) \<le> (if used < length ch then Suc (length chunks) else length chunks)"
    using consume_chunks_length [of chunks "used - length ch"] by simp
  then show ?case
    using 2 c by (auto simp: consume_def min_def split: if_splits)
qed simp

declare cvb_read_loop.simps [simp del]

definition cvb_read :: "chunk_vec_buffer \<Rightarrow> nat \<Rightarrow> bytes \<times> chunk_vec_buffer" where
  "cvb_read self n = cvb_read_loop self n"

text \<open>\<open>write_to\<close> hands at most 64 chunks to the writer, which answers with the number of bytes it took, or fails.\<close>

definition cvb_write_to ::
  "(bytes list \<Rightarrow> ('e, nat) outcome) \<Rightarrow> chunk_vec_buffer \<Rightarrow> ('e, nat \<times> chunk_vec_buffer) outcome" where
  "cvb_write_to write_vectored self =
     (if cvb_is_empty self then Ret (0, self)
      else
        let bufs = take 64 (cv_chunks self) in
        bnd (write_vectored bufs) (\<lambda>used.
        Ret (used, consume self used)))"

section \<open>The queue of bytes behind it\<close>

definition cvb_bytes :: "chunk_vec_buffer \<Rightarrow> bytes" where
  "cvb_bytes self = concat (cv_chunks self)"

definition cvb_invar :: "chunk_vec_buffer \<Rightarrow> bool" where
  "cvb_invar self \<longleftrightarrow> [] \<notin> set (cv_chunks self)"

text \<open>A history of calls: what each accepted from its caller and what it gave out. A writer takes a prefix of what it is offered.\<close>

datatype cvb_call = CvAppend bytes | CvLimited bytes | CvPop | CvRead nat | CvWrite nat | CvLimit "nat option"

fun cvb_call_step :: "chunk_vec_buffer \<Rightarrow> cvb_call \<Rightarrow> bytes \<times> bytes \<times> chunk_vec_buffer" where
  "cvb_call_step s (CvAppend bs) = (bs, [], snd (cvb_append s bs))"
| "cvb_call_step s (CvLimited bs) = (case append_limited_copy s bs of (n, s') \<Rightarrow> (take n bs, [], s'))"
| "cvb_call_step s CvPop = (case cvb_pop s of (d, s') \<Rightarrow> ([], case d of Some ch \<Rightarrow> ch | None \<Rightarrow> [], s'))"
| "cvb_call_step s (CvRead n) = (case cvb_read s n of (d, s') \<Rightarrow> ([], d, s'))"
| "cvb_call_step s (CvWrite k) =
     (case cvb_write_to (\<lambda>bufs. Ret (min k (length (concat bufs))) :: (unit, nat) outcome) s of
        Ret (n, s') \<Rightarrow> ([], take n (concat (take 64 (cv_chunks s))), s')
      | _ \<Rightarrow> ([], [], s))"
| "cvb_call_step s (CvLimit l) = ([], [], cvb_set_limit s l)"

fun cvb_calls :: "chunk_vec_buffer \<Rightarrow> cvb_call list \<Rightarrow> bytes \<times> bytes \<times> chunk_vec_buffer" where
  "cvb_calls s [] = ([], [], s)"
| "cvb_calls s (c # cs) =
     (let (i, out, s') = cvb_call_step s c; (is, outs, s'') = cvb_calls s' cs in (i @ is, out @ outs, s''))"

section \<open>Lemmas\<close>

lemma cvb_len_bytes: "cvb_len self = length (cvb_bytes self)"
proof -
  have "foldl (\<lambda>len ch. len + length ch) n chunks = n + length (concat chunks)" for n and chunks :: "bytes list"
    by (induction chunks arbitrary: n) auto
  then show ?thesis by (simp add: cvb_len_def cvb_bytes_def)
qed

lemma consume_chunks_concat: "concat (consume_chunks chunks used) = drop used (concat chunks)"
  by (induction chunks used rule: consume_chunks.induct) auto

lemma consume_chunks_nonempty: "[] \<notin> set chunks \<Longrightarrow> [] \<notin> set (consume_chunks chunks used)"
  by (induction chunks used rule: consume_chunks.induct) auto

lemma consume_bytes: "cvb_bytes (consume self used) = drop used (cvb_bytes self)"
  by (simp add: cvb_bytes_def consume_def consume_chunks_concat)

lemma consume_invar: "cvb_invar self \<Longrightarrow> cvb_invar (consume self used)"
  by (simp add: cvb_invar_def consume_def consume_chunks_nonempty)

lemma cvb_is_empty_bytes: "cvb_invar self \<Longrightarrow> cvb_is_empty self \<longleftrightarrow> cvb_bytes self = []"
  by (cases "cv_chunks self") (auto simp: cvb_invar_def cvb_is_empty_def cvb_bytes_def)

lemma append_bytes [simp]: "cvb_bytes (snd (cvb_append self bs)) = cvb_bytes self @ bs"
  by (simp add: cvb_append_def cvb_bytes_def)

lemma append_invar: "cvb_invar self \<Longrightarrow> cvb_invar (snd (cvb_append self bs))"
  by (auto simp: cvb_append_def cvb_invar_def)

lemma read_loop_exact:
  "cvb_read_loop self room = (d, self') \<Longrightarrow>
    d = take room (cvb_bytes self) \<and> cvb_bytes self' = drop room (cvb_bytes self) \<and> cv_limit self' = cv_limit self
    \<and> (cvb_invar self \<longrightarrow> cvb_invar self')"
proof (induction self room arbitrary: d self' rule: cvb_read_loop.induct)
  case (1 self room)
  show ?case
  proof (cases "0 < room \<and> \<not> cvb_is_empty self")
    case True
    then obtain ch chunks where c: "cv_chunks self = ch # chunks"
      by (cases "cv_chunks self") (auto simp: cvb_is_empty_def)
    let ?u = "min (length ch) room"
    obtain e s where e: "cvb_read_loop (consume self ?u) (room - ?u) = (e, s)"
      by (cases "cvb_read_loop (consume self ?u) (room - ?u)")
    have d: "d = take ?u ch @ e" "self' = s"
      using 1(2) True c e by (subst (asm) cvb_read_loop.simps, simp)+
    have "take ?u ch = take ?u (cvb_bytes self)"
      by (simp add: cvb_bytes_def c)
    moreover have "take ?u bs @ take (room - ?u) (drop ?u bs) = take room bs" for bs :: bytes
      using take_add [of ?u "room - ?u" bs] by simp
    moreover have "e = take (room - ?u) (drop ?u (cvb_bytes self)) \<and>
        cvb_bytes s = drop (room - ?u) (drop ?u (cvb_bytes self)) \<and> cv_limit s = cv_limit self \<and> (cvb_invar self \<longrightarrow> cvb_invar s)"
      using 1(1) [OF True, of ?u e s] e c consume_bytes [of self ?u] consume_invar [of self ?u]
      by (auto simp: consume_def)
    ultimately show ?thesis
      by (simp add: d drop_drop)
  next
    case False
    then show ?thesis
      using 1(2) by (subst (asm) cvb_read_loop.simps) (auto simp: cvb_is_empty_def cvb_bytes_def)
  qed
qed

lemma cvb_read_exact:
  "cvb_read self n = (take n (cvb_bytes self), snd (cvb_read self n))"
  "cvb_bytes (snd (cvb_read self n)) = drop n (cvb_bytes self)"
  "cv_limit (snd (cvb_read self n)) = cv_limit self"
  "cvb_invar self \<Longrightarrow> cvb_invar (snd (cvb_read self n))"
  using read_loop_exact [of self n "fst (cvb_read self n)" "snd (cvb_read self n)"]
  by (auto simp: cvb_read_def prod_eq_iff)

interpretation cvb_source: byte_source cvb_read cvb_bytes
proof
  fix s n d s'
  assume "cvb_read s n = (d, s')"
  then have "d = take n (cvb_bytes s)" "cvb_bytes s' = drop n (cvb_bytes s)"
    using cvb_read_exact(1,2) [of s n] by auto
  then show "cvb_bytes s = d @ cvb_bytes s'" "length d \<le> n" "0 < n \<Longrightarrow> d = [] \<Longrightarrow> cvb_bytes s = []"
    by auto
qed

lemma take_concat_take: "k \<le> length (concat (take n xs)) \<Longrightarrow> take k (concat (take n xs)) = take k (concat xs)"
  by (metis append_take_drop_id concat_append take_append diff_is_0_eq take_0 append_Nil2)

lemma call_step_exact:
  assumes "cvb_call_step s c = (i, out, s')"
  shows "cvb_bytes s @ i = out @ cvb_bytes s' \<and> (cvb_invar s \<longrightarrow> cvb_invar s')"
proof (cases c)
  case (CvLimited bs)
  then show ?thesis
    using assms by (auto simp: append_limited_copy_def Let_def append_invar)
next
  case CvPop
  then show ?thesis
    using assms by (auto simp: cvb_pop_def cvb_bytes_def cvb_invar_def split: list.splits)
next
  case (CvRead n)
  then show ?thesis
    using assms cvb_read_exact [of s n] by (auto split: prod.splits)
next
  case (CvWrite k)
  let ?n = "min k (length (concat (take 64 (cv_chunks s))))"
  have t: "take ?n (concat (take 64 (cv_chunks s))) = take ?n (cvb_bytes s)"
    unfolding cvb_bytes_def by (rule take_concat_take) simp
  show ?thesis
  proof (cases "cvb_is_empty s")
    case True
    then show ?thesis
      using assms CvWrite by (auto simp: cvb_write_to_def)
  next
    case False
    then have "i = []" "out = take ?n (cvb_bytes s)" "s' = consume s ?n"
      using assms CvWrite t by (auto simp: cvb_write_to_def Let_def)
    then show ?thesis
      by (simp add: consume_bytes consume_invar del: take_append drop_append)
  qed
next
  case (CvAppend bs)
  then show ?thesis using assms by (auto simp: append_invar)
next
  case (CvLimit l)
  then show ?thesis using assms by (auto simp: cvb_set_limit_def cvb_bytes_def cvb_invar_def)
qed

lemma calls_exact:
  "cvb_calls s cs = (i, out, s') \<Longrightarrow>
    cvb_bytes s @ i = out @ cvb_bytes s' \<and> (cvb_invar s \<longrightarrow> cvb_invar s')"
proof (induction cs arbitrary: s i out s')
  case (Cons c cs)
  obtain i1 o1 s1 where 1: "cvb_call_step s c = (i1, o1, s1)" by (cases "cvb_call_step s c")
  obtain i2 o2 s2 where 2: "cvb_calls s1 cs = (i2, o2, s2)" by (cases "cvb_calls s1 cs")
  note s = call_step_exact [OF 1] Cons.IH [OF 2]
  then have "cvb_bytes s @ i1 @ i2 = o1 @ o2 @ cvb_bytes s2"
    by (metis append_assoc)
  then show ?case
    using Cons.prems 1 2 s by auto
qed simp

lemma limited_fits:
  "append_limited_copy s bs = (n, s') \<Longrightarrow> cv_limit s = Some l \<Longrightarrow> cvb_len s \<le> l \<Longrightarrow>
    cvb_len s' \<le> l \<and> n = min (length bs) (l - cvb_len s)"
  by (auto simp: append_limited_copy_def apply_limit_def cvb_len_bytes Let_def)

section \<open>The property\<close>

text \<open>The chunk buffer of the TLS library is a queue of bytes: after any sequence of appends (limited or not), pops, reads,
  vectored writes and changes of the limit, the bytes accepted are the bytes taken out followed by the bytes still held, in order; no empty
  chunk is kept, and a limited append that respects the limit before never exceeds it and takes as much as fits.\<close>

lemma chunk_buffer_fifo:
  "case cvb_calls (cvb_new lim) cs of (accepted, out, s) \<Rightarrow>
     accepted = out @ cvb_bytes s \<and> [] \<notin> set (cv_chunks s) \<and>
     (case append_limited_copy s bs of (n, s') \<Rightarrow>
        cvb_bytes s' = cvb_bytes s @ take n bs \<and>
        n = (case cv_limit s of None \<Rightarrow> length bs | Some l \<Rightarrow> min (length bs) (l - cvb_len s)))"
proof -
  obtain i out s where c: "cvb_calls (cvb_new lim) cs = (i, out, s)" by (cases "cvb_calls (cvb_new lim) cs")
  have "cvb_bytes (cvb_new lim) = []" "cvb_invar (cvb_new lim)"
    by (simp_all add: cvb_new_def cvb_bytes_def cvb_invar_def)
  then have "i = out @ cvb_bytes s" "cvb_invar s"
    using calls_exact [OF c] by auto
  moreover have "case append_limited_copy s bs of (n, s') \<Rightarrow> cvb_bytes s' = cvb_bytes s @ take n bs \<and>
      n = (case cv_limit s of None \<Rightarrow> length bs | Some l \<Rightarrow> min (length bs) (l - cvb_len s))"
    using call_step_exact [of s "CvLimited bs"]
    by (auto simp: append_limited_copy_def apply_limit_def Let_def split: option.splits prod.splits)
  ultimately show ?thesis
    using c by (simp add: cvb_invar_def)
qed

end
