(* ===== verification/Rustls_Enums.thy ===== *)
theory Rustls_Enums
  imports Tls_Wire
begin

text \<open>
  The enumerations of the TLS library (\<open>rustls-reality/rustls/src/enums.rs\<close>, \<open>msgs/enums.rs\<close>), as the macro of \<open>msgs/macros.rs\<close> generates
  them: a datatype with a constructor for every other value, the number of a value and the value of a number. The cipher suites,
  some four hundred names, are their numbers.
\<close>

section \<open>The enumerations\<close>

type_synonym cipher_suite = u16

datatype alert_description = AD_CloseNotify | AD_UnexpectedMessage | AD_BadRecordMac | AD_DecryptionFailed
  | AD_RecordOverflow | AD_DecompressionFailure | AD_HandshakeFailure | AD_NoCertificate | AD_BadCertificate
  | AD_UnsupportedCertificate | AD_CertificateRevoked | AD_CertificateExpired | AD_CertificateUnknown
  | AD_IllegalParameter | AD_UnknownCA | AD_AccessDenied | AD_DecodeError | AD_DecryptError
  | AD_ExportRestriction | AD_ProtocolVersion | AD_InsufficientSecurity | AD_InternalError
  | AD_InappropriateFallback | AD_UserCanceled | AD_NoRenegotiation | AD_MissingExtension
  | AD_UnsupportedExtension | AD_CertificateUnobtainable | AD_UnrecognisedName
  | AD_BadCertificateStatusResponse | AD_BadCertificateHashValue | AD_UnknownPSKIdentity
  | AD_CertificateRequired | AD_NoApplicationProtocol | AD_Unknown u8

primrec ad_get_u8 :: "alert_description \<Rightarrow> u8" where
  "ad_get_u8 AD_CloseNotify = 0x00"
| "ad_get_u8 AD_UnexpectedMessage = 0x0a"
| "ad_get_u8 AD_BadRecordMac = 0x14"
| "ad_get_u8 AD_DecryptionFailed = 0x15"
| "ad_get_u8 AD_RecordOverflow = 0x16"
| "ad_get_u8 AD_DecompressionFailure = 0x1e"
| "ad_get_u8 AD_HandshakeFailure = 0x28"
| "ad_get_u8 AD_NoCertificate = 0x29"
| "ad_get_u8 AD_BadCertificate = 0x2a"
| "ad_get_u8 AD_UnsupportedCertificate = 0x2b"
| "ad_get_u8 AD_CertificateRevoked = 0x2c"
| "ad_get_u8 AD_CertificateExpired = 0x2d"
| "ad_get_u8 AD_CertificateUnknown = 0x2e"
| "ad_get_u8 AD_IllegalParameter = 0x2f"
| "ad_get_u8 AD_UnknownCA = 0x30"
| "ad_get_u8 AD_AccessDenied = 0x31"
| "ad_get_u8 AD_DecodeError = 0x32"
| "ad_get_u8 AD_DecryptError = 0x33"
| "ad_get_u8 AD_ExportRestriction = 0x3c"
| "ad_get_u8 AD_ProtocolVersion = 0x46"
| "ad_get_u8 AD_InsufficientSecurity = 0x47"
| "ad_get_u8 AD_InternalError = 0x50"
| "ad_get_u8 AD_InappropriateFallback = 0x56"
| "ad_get_u8 AD_UserCanceled = 0x5a"
| "ad_get_u8 AD_NoRenegotiation = 0x64"
| "ad_get_u8 AD_MissingExtension = 0x6d"
| "ad_get_u8 AD_UnsupportedExtension = 0x6e"
| "ad_get_u8 AD_CertificateUnobtainable = 0x6f"
| "ad_get_u8 AD_UnrecognisedName = 0x70"
| "ad_get_u8 AD_BadCertificateStatusResponse = 0x71"
| "ad_get_u8 AD_BadCertificateHashValue = 0x72"
| "ad_get_u8 AD_UnknownPSKIdentity = 0x73"
| "ad_get_u8 AD_CertificateRequired = 0x74"
| "ad_get_u8 AD_NoApplicationProtocol = 0x78"
| "ad_get_u8 (AD_Unknown x) = x"

definition ad_from :: "u8 \<Rightarrow> alert_description" where
  "ad_from x =
     (if x = 0x00 then AD_CloseNotify else if x = 0x0a then AD_UnexpectedMessage else
      if x = 0x14 then AD_BadRecordMac else if x = 0x15 then AD_DecryptionFailed else
      if x = 0x16 then AD_RecordOverflow else if x = 0x1e then AD_DecompressionFailure else
      if x = 0x28 then AD_HandshakeFailure else if x = 0x29 then AD_NoCertificate else
      if x = 0x2a then AD_BadCertificate else if x = 0x2b then AD_UnsupportedCertificate else
      if x = 0x2c then AD_CertificateRevoked else if x = 0x2d then AD_CertificateExpired else
      if x = 0x2e then AD_CertificateUnknown else if x = 0x2f then AD_IllegalParameter else
      if x = 0x30 then AD_UnknownCA else if x = 0x31 then AD_AccessDenied else if x = 0x32 then AD_DecodeError else
      if x = 0x33 then AD_DecryptError else if x = 0x3c then AD_ExportRestriction else
      if x = 0x46 then AD_ProtocolVersion else if x = 0x47 then AD_InsufficientSecurity else
      if x = 0x50 then AD_InternalError else if x = 0x56 then AD_InappropriateFallback else
      if x = 0x5a then AD_UserCanceled else if x = 0x64 then AD_NoRenegotiation else
      if x = 0x6d then AD_MissingExtension else if x = 0x6e then AD_UnsupportedExtension else
      if x = 0x6f then AD_CertificateUnobtainable else if x = 0x70 then AD_UnrecognisedName else
      if x = 0x71 then AD_BadCertificateStatusResponse else if x = 0x72 then AD_BadCertificateHashValue else
      if x = 0x73 then AD_UnknownPSKIdentity else if x = 0x74 then AD_CertificateRequired else
      if x = 0x78 then AD_NoApplicationProtocol else AD_Unknown x)"

datatype rl_handshake_type = HT_HelloRequest | HT_ClientHello | HT_ServerHello | HT_HelloVerifyRequest
  | HT_NewSessionTicket | HT_EndOfEarlyData | HT_HelloRetryRequest | HT_EncryptedExtensions | HT_Certificate
  | HT_ServerKeyExchange | HT_CertificateRequest | HT_ServerHelloDone | HT_CertificateVerify
  | HT_ClientKeyExchange | HT_Finished | HT_CertificateURL | HT_CertificateStatus | HT_KeyUpdate
  | HT_MessageHash | HT_Unknown u8

primrec ht_get_u8 :: "rl_handshake_type \<Rightarrow> u8" where
  "ht_get_u8 HT_HelloRequest = 0x00"
| "ht_get_u8 HT_ClientHello = 0x01"
| "ht_get_u8 HT_ServerHello = 0x02"
| "ht_get_u8 HT_HelloVerifyRequest = 0x03"
| "ht_get_u8 HT_NewSessionTicket = 0x04"
| "ht_get_u8 HT_EndOfEarlyData = 0x05"
| "ht_get_u8 HT_HelloRetryRequest = 0x06"
| "ht_get_u8 HT_EncryptedExtensions = 0x08"
| "ht_get_u8 HT_Certificate = 0x0b"
| "ht_get_u8 HT_ServerKeyExchange = 0x0c"
| "ht_get_u8 HT_CertificateRequest = 0x0d"
| "ht_get_u8 HT_ServerHelloDone = 0x0e"
| "ht_get_u8 HT_CertificateVerify = 0x0f"
| "ht_get_u8 HT_ClientKeyExchange = 0x10"
| "ht_get_u8 HT_Finished = 0x14"
| "ht_get_u8 HT_CertificateURL = 0x15"
| "ht_get_u8 HT_CertificateStatus = 0x16"
| "ht_get_u8 HT_KeyUpdate = 0x18"
| "ht_get_u8 HT_MessageHash = 0xfe"
| "ht_get_u8 (HT_Unknown x) = x"

definition ht_from :: "u8 \<Rightarrow> rl_handshake_type" where
  "ht_from x =
     (if x = 0x00 then HT_HelloRequest else if x = 0x01 then HT_ClientHello else if x = 0x02 then HT_ServerHello else
      if x = 0x03 then HT_HelloVerifyRequest else if x = 0x04 then HT_NewSessionTicket else
      if x = 0x05 then HT_EndOfEarlyData else if x = 0x06 then HT_HelloRetryRequest else
      if x = 0x08 then HT_EncryptedExtensions else if x = 0x0b then HT_Certificate else
      if x = 0x0c then HT_ServerKeyExchange else if x = 0x0d then HT_CertificateRequest else
      if x = 0x0e then HT_ServerHelloDone else if x = 0x0f then HT_CertificateVerify else
      if x = 0x10 then HT_ClientKeyExchange else if x = 0x14 then HT_Finished else
      if x = 0x15 then HT_CertificateURL else if x = 0x16 then HT_CertificateStatus else
      if x = 0x18 then HT_KeyUpdate else if x = 0xfe then HT_MessageHash else HT_Unknown x)"

datatype signature_scheme = SS_RSA_PKCS1_SHA1 | SS_ECDSA_SHA1_Legacy | SS_RSA_PKCS1_SHA256
  | SS_ECDSA_NISTP256_SHA256 | SS_RSA_PKCS1_SHA384 | SS_ECDSA_NISTP384_SHA384 | SS_RSA_PKCS1_SHA512
  | SS_ECDSA_NISTP521_SHA512 | SS_RSA_PSS_SHA256 | SS_RSA_PSS_SHA384 | SS_RSA_PSS_SHA512 | SS_ED25519
  | SS_ED448 | SS_Unknown u16

primrec ss_get_u16 :: "signature_scheme \<Rightarrow> u16" where
  "ss_get_u16 SS_RSA_PKCS1_SHA1 = 0x0201"
| "ss_get_u16 SS_ECDSA_SHA1_Legacy = 0x0203"
| "ss_get_u16 SS_RSA_PKCS1_SHA256 = 0x0401"
| "ss_get_u16 SS_ECDSA_NISTP256_SHA256 = 0x0403"
| "ss_get_u16 SS_RSA_PKCS1_SHA384 = 0x0501"
| "ss_get_u16 SS_ECDSA_NISTP384_SHA384 = 0x0503"
| "ss_get_u16 SS_RSA_PKCS1_SHA512 = 0x0601"
| "ss_get_u16 SS_ECDSA_NISTP521_SHA512 = 0x0603"
| "ss_get_u16 SS_RSA_PSS_SHA256 = 0x0804"
| "ss_get_u16 SS_RSA_PSS_SHA384 = 0x0805"
| "ss_get_u16 SS_RSA_PSS_SHA512 = 0x0806"
| "ss_get_u16 SS_ED25519 = 0x0807"
| "ss_get_u16 SS_ED448 = 0x0808"
| "ss_get_u16 (SS_Unknown x) = x"

definition ss_from :: "u16 \<Rightarrow> signature_scheme" where
  "ss_from x =
     (if x = 0x0201 then SS_RSA_PKCS1_SHA1 else if x = 0x0203 then SS_ECDSA_SHA1_Legacy else
      if x = 0x0401 then SS_RSA_PKCS1_SHA256 else if x = 0x0403 then SS_ECDSA_NISTP256_SHA256 else
      if x = 0x0501 then SS_RSA_PKCS1_SHA384 else if x = 0x0503 then SS_ECDSA_NISTP384_SHA384 else
      if x = 0x0601 then SS_RSA_PKCS1_SHA512 else if x = 0x0603 then SS_ECDSA_NISTP521_SHA512 else
      if x = 0x0804 then SS_RSA_PSS_SHA256 else if x = 0x0805 then SS_RSA_PSS_SHA384 else
      if x = 0x0806 then SS_RSA_PSS_SHA512 else if x = 0x0807 then SS_ED25519 else if x = 0x0808 then SS_ED448 else SS_Unknown x)"

datatype signature_algorithm = SA_Anonymous | SA_RSA | SA_DSA | SA_ECDSA | SA_ED25519 | SA_ED448
  | SA_Unknown u8

primrec sa_get_u8 :: "signature_algorithm \<Rightarrow> u8" where
  "sa_get_u8 SA_Anonymous = 0x00"
| "sa_get_u8 SA_RSA = 0x01"
| "sa_get_u8 SA_DSA = 0x02"
| "sa_get_u8 SA_ECDSA = 0x03"
| "sa_get_u8 SA_ED25519 = 0x07"
| "sa_get_u8 SA_ED448 = 0x08"
| "sa_get_u8 (SA_Unknown x) = x"

definition sa_from :: "u8 \<Rightarrow> signature_algorithm" where
  "sa_from x =
     (if x = 0x00 then SA_Anonymous else if x = 0x01 then SA_RSA else if x = 0x02 then SA_DSA else
      if x = 0x03 then SA_ECDSA else if x = 0x07 then SA_ED25519 else if x = 0x08 then SA_ED448 else SA_Unknown x)"

datatype client_certificate_type = CCT_RSASign | CCT_DSSSign | CCT_RSAFixedDH | CCT_DSSFixedDH
  | CCT_RSAEphemeralDH | CCT_DSSEphemeralDH | CCT_FortezzaDMS | CCT_ECDSASign | CCT_RSAFixedECDH
  | CCT_ECDSAFixedECDH | CCT_Unknown u8

primrec cct_get_u8 :: "client_certificate_type \<Rightarrow> u8" where
  "cct_get_u8 CCT_RSASign = 0x01"
| "cct_get_u8 CCT_DSSSign = 0x02"
| "cct_get_u8 CCT_RSAFixedDH = 0x03"
| "cct_get_u8 CCT_DSSFixedDH = 0x04"
| "cct_get_u8 CCT_RSAEphemeralDH = 0x05"
| "cct_get_u8 CCT_DSSEphemeralDH = 0x06"
| "cct_get_u8 CCT_FortezzaDMS = 0x14"
| "cct_get_u8 CCT_ECDSASign = 0x40"
| "cct_get_u8 CCT_RSAFixedECDH = 0x41"
| "cct_get_u8 CCT_ECDSAFixedECDH = 0x42"
| "cct_get_u8 (CCT_Unknown x) = x"

definition cct_from :: "u8 \<Rightarrow> client_certificate_type" where
  "cct_from x =
     (if x = 0x01 then CCT_RSASign else if x = 0x02 then CCT_DSSSign else if x = 0x03 then CCT_RSAFixedDH else
      if x = 0x04 then CCT_DSSFixedDH else if x = 0x05 then CCT_RSAEphemeralDH else
      if x = 0x06 then CCT_DSSEphemeralDH else if x = 0x14 then CCT_FortezzaDMS else
      if x = 0x40 then CCT_ECDSASign else if x = 0x41 then CCT_RSAFixedECDH else
      if x = 0x42 then CCT_ECDSAFixedECDH else CCT_Unknown x)"

datatype compression = CM_Null | CM_Deflate | CM_LSZ | CM_Unknown u8

primrec cm_get_u8 :: "compression \<Rightarrow> u8" where
  "cm_get_u8 CM_Null = 0x00"
| "cm_get_u8 CM_Deflate = 0x01"
| "cm_get_u8 CM_LSZ = 0x40"
| "cm_get_u8 (CM_Unknown x) = x"

definition cm_from :: "u8 \<Rightarrow> compression" where
  "cm_from x =
     (if x = 0x00 then CM_Null else if x = 0x01 then CM_Deflate else if x = 0x40 then CM_LSZ else CM_Unknown x)"

datatype alert_level = AL_Warning | AL_Fatal | AL_Unknown u8

primrec al_get_u8 :: "alert_level \<Rightarrow> u8" where
  "al_get_u8 AL_Warning = 0x01"
| "al_get_u8 AL_Fatal = 0x02"
| "al_get_u8 (AL_Unknown x) = x"

definition al_from :: "u8 \<Rightarrow> alert_level" where
  "al_from x =
     (if x = 0x01 then AL_Warning else if x = 0x02 then AL_Fatal else AL_Unknown x)"

datatype extension_type = ET_ServerName | ET_MaxFragmentLength | ET_ClientCertificateUrl | ET_TrustedCAKeys
  | ET_TruncatedHMAC | ET_StatusRequest | ET_UserMapping | ET_ClientAuthz | ET_ServerAuthz
  | ET_CertificateType | ET_EllipticCurves | ET_ECPointFormats | ET_SRP | ET_SignatureAlgorithms | ET_UseSRTP
  | ET_Heartbeat | ET_ALProtocolNegotiation | ET_SCT | ET_Padding | ET_ExtendedMasterSecret | ET_SessionTicket
  | ET_PreSharedKey | ET_EarlyData | ET_SupportedVersions | ET_Cookie | ET_PSKKeyExchangeModes
  | ET_TicketEarlyDataInfo | ET_CertificateAuthorities | ET_OIDFilters | ET_PostHandshakeAuth
  | ET_SignatureAlgorithmsCert | ET_KeyShare | ET_TransportParameters | ET_NextProtocolNegotiation
  | ET_ChannelId | ET_RenegotiationInfo | ET_TransportParametersDraft | ET_Unknown u16

primrec et_get_u16 :: "extension_type \<Rightarrow> u16" where
  "et_get_u16 ET_ServerName = 0x0000"
| "et_get_u16 ET_MaxFragmentLength = 0x0001"
| "et_get_u16 ET_ClientCertificateUrl = 0x0002"
| "et_get_u16 ET_TrustedCAKeys = 0x0003"
| "et_get_u16 ET_TruncatedHMAC = 0x0004"
| "et_get_u16 ET_StatusRequest = 0x0005"
| "et_get_u16 ET_UserMapping = 0x0006"
| "et_get_u16 ET_ClientAuthz = 0x0007"
| "et_get_u16 ET_ServerAuthz = 0x0008"
| "et_get_u16 ET_CertificateType = 0x0009"
| "et_get_u16 ET_EllipticCurves = 0x000a"
| "et_get_u16 ET_ECPointFormats = 0x000b"
| "et_get_u16 ET_SRP = 0x000c"
| "et_get_u16 ET_SignatureAlgorithms = 0x000d"
| "et_get_u16 ET_UseSRTP = 0x000e"
| "et_get_u16 ET_Heartbeat = 0x000f"
| "et_get_u16 ET_ALProtocolNegotiation = 0x0010"
| "et_get_u16 ET_SCT = 0x0012"
| "et_get_u16 ET_Padding = 0x0015"
| "et_get_u16 ET_ExtendedMasterSecret = 0x0017"
| "et_get_u16 ET_SessionTicket = 0x0023"
| "et_get_u16 ET_PreSharedKey = 0x0029"
| "et_get_u16 ET_EarlyData = 0x002a"
| "et_get_u16 ET_SupportedVersions = 0x002b"
| "et_get_u16 ET_Cookie = 0x002c"
| "et_get_u16 ET_PSKKeyExchangeModes = 0x002d"
| "et_get_u16 ET_TicketEarlyDataInfo = 0x002e"
| "et_get_u16 ET_CertificateAuthorities = 0x002f"
| "et_get_u16 ET_OIDFilters = 0x0030"
| "et_get_u16 ET_PostHandshakeAuth = 0x0031"
| "et_get_u16 ET_SignatureAlgorithmsCert = 0x0032"
| "et_get_u16 ET_KeyShare = 0x0033"
| "et_get_u16 ET_TransportParameters = 0x0039"
| "et_get_u16 ET_NextProtocolNegotiation = 0x3374"
| "et_get_u16 ET_ChannelId = 0x754f"
| "et_get_u16 ET_RenegotiationInfo = 0xff01"
| "et_get_u16 ET_TransportParametersDraft = 0xffa5"
| "et_get_u16 (ET_Unknown x) = x"

definition et_from :: "u16 \<Rightarrow> extension_type" where
  "et_from x =
     (if x = 0x0000 then ET_ServerName else if x = 0x0001 then ET_MaxFragmentLength else
      if x = 0x0002 then ET_ClientCertificateUrl else if x = 0x0003 then ET_TrustedCAKeys else
      if x = 0x0004 then ET_TruncatedHMAC else if x = 0x0005 then ET_StatusRequest else
      if x = 0x0006 then ET_UserMapping else if x = 0x0007 then ET_ClientAuthz else
      if x = 0x0008 then ET_ServerAuthz else if x = 0x0009 then ET_CertificateType else
      if x = 0x000a then ET_EllipticCurves else if x = 0x000b then ET_ECPointFormats else
      if x = 0x000c then ET_SRP else if x = 0x000d then ET_SignatureAlgorithms else
      if x = 0x000e then ET_UseSRTP else if x = 0x000f then ET_Heartbeat else
      if x = 0x0010 then ET_ALProtocolNegotiation else if x = 0x0012 then ET_SCT else
      if x = 0x0015 then ET_Padding else if x = 0x0017 then ET_ExtendedMasterSecret else
      if x = 0x0023 then ET_SessionTicket else if x = 0x0029 then ET_PreSharedKey else
      if x = 0x002a then ET_EarlyData else if x = 0x002b then ET_SupportedVersions else
      if x = 0x002c then ET_Cookie else if x = 0x002d then ET_PSKKeyExchangeModes else
      if x = 0x002e then ET_TicketEarlyDataInfo else if x = 0x002f then ET_CertificateAuthorities else
      if x = 0x0030 then ET_OIDFilters else if x = 0x0031 then ET_PostHandshakeAuth else
      if x = 0x0032 then ET_SignatureAlgorithmsCert else if x = 0x0033 then ET_KeyShare else
      if x = 0x0039 then ET_TransportParameters else if x = 0x3374 then ET_NextProtocolNegotiation else
      if x = 0x754f then ET_ChannelId else if x = 0xff01 then ET_RenegotiationInfo else
      if x = 0xffa5 then ET_TransportParametersDraft else ET_Unknown x)"

datatype server_name_type = SNT_HostName | SNT_Unknown u8

primrec snt_get_u8 :: "server_name_type \<Rightarrow> u8" where
  "snt_get_u8 SNT_HostName = 0x00"
| "snt_get_u8 (SNT_Unknown x) = x"

definition snt_from :: "u8 \<Rightarrow> server_name_type" where
  "snt_from x =
     (if x = 0x00 then SNT_HostName else SNT_Unknown x)"

datatype named_group = NG_secp256r1 | NG_secp384r1 | NG_secp521r1 | NG_X25519 | NG_X448 | NG_FFDHE2048
  | NG_FFDHE3072 | NG_FFDHE4096 | NG_FFDHE6144 | NG_FFDHE8192 | NG_Unknown u16

primrec ng_get_u16 :: "named_group \<Rightarrow> u16" where
  "ng_get_u16 NG_secp256r1 = 0x0017"
| "ng_get_u16 NG_secp384r1 = 0x0018"
| "ng_get_u16 NG_secp521r1 = 0x0019"
| "ng_get_u16 NG_X25519 = 0x001d"
| "ng_get_u16 NG_X448 = 0x001e"
| "ng_get_u16 NG_FFDHE2048 = 0x0100"
| "ng_get_u16 NG_FFDHE3072 = 0x0101"
| "ng_get_u16 NG_FFDHE4096 = 0x0102"
| "ng_get_u16 NG_FFDHE6144 = 0x0103"
| "ng_get_u16 NG_FFDHE8192 = 0x0104"
| "ng_get_u16 (NG_Unknown x) = x"

definition ng_from :: "u16 \<Rightarrow> named_group" where
  "ng_from x =
     (if x = 0x0017 then NG_secp256r1 else if x = 0x0018 then NG_secp384r1 else if x = 0x0019 then NG_secp521r1 else
      if x = 0x001d then NG_X25519 else if x = 0x001e then NG_X448 else if x = 0x0100 then NG_FFDHE2048 else
      if x = 0x0101 then NG_FFDHE3072 else if x = 0x0102 then NG_FFDHE4096 else if x = 0x0103 then NG_FFDHE6144 else
      if x = 0x0104 then NG_FFDHE8192 else NG_Unknown x)"

datatype ec_point_format = EPF_Uncompressed | EPF_ANSIX962CompressedPrime | EPF_ANSIX962CompressedChar2
  | EPF_Unknown u8

primrec epf_get_u8 :: "ec_point_format \<Rightarrow> u8" where
  "epf_get_u8 EPF_Uncompressed = 0x00"
| "epf_get_u8 EPF_ANSIX962CompressedPrime = 0x01"
| "epf_get_u8 EPF_ANSIX962CompressedChar2 = 0x02"
| "epf_get_u8 (EPF_Unknown x) = x"

definition epf_from :: "u8 \<Rightarrow> ec_point_format" where
  "epf_from x =
     (if x = 0x00 then EPF_Uncompressed else if x = 0x01 then EPF_ANSIX962CompressedPrime else
      if x = 0x02 then EPF_ANSIX962CompressedChar2 else EPF_Unknown x)"

datatype ec_curve_type = ECT_ExplicitPrime | ECT_ExplicitChar2 | ECT_NamedCurve | ECT_Unknown u8

primrec ect_get_u8 :: "ec_curve_type \<Rightarrow> u8" where
  "ect_get_u8 ECT_ExplicitPrime = 0x01"
| "ect_get_u8 ECT_ExplicitChar2 = 0x02"
| "ect_get_u8 ECT_NamedCurve = 0x03"
| "ect_get_u8 (ECT_Unknown x) = x"

definition ect_from :: "u8 \<Rightarrow> ec_curve_type" where
  "ect_from x =
     (if x = 0x01 then ECT_ExplicitPrime else if x = 0x02 then ECT_ExplicitChar2 else
      if x = 0x03 then ECT_NamedCurve else ECT_Unknown x)"

datatype psk_key_exchange_mode = PKM_PSK_KE | PKM_PSK_DHE_KE | PKM_Unknown u8

primrec pkm_get_u8 :: "psk_key_exchange_mode \<Rightarrow> u8" where
  "pkm_get_u8 PKM_PSK_KE = 0x00"
| "pkm_get_u8 PKM_PSK_DHE_KE = 0x01"
| "pkm_get_u8 (PKM_Unknown x) = x"

definition pkm_from :: "u8 \<Rightarrow> psk_key_exchange_mode" where
  "pkm_from x =
     (if x = 0x00 then PKM_PSK_KE else if x = 0x01 then PKM_PSK_DHE_KE else PKM_Unknown x)"

datatype key_update_request = KUR_UpdateNotRequested | KUR_UpdateRequested | KUR_Unknown u8

primrec kur_get_u8 :: "key_update_request \<Rightarrow> u8" where
  "kur_get_u8 KUR_UpdateNotRequested = 0x00"
| "kur_get_u8 KUR_UpdateRequested = 0x01"
| "kur_get_u8 (KUR_Unknown x) = x"

definition kur_from :: "u8 \<Rightarrow> key_update_request" where
  "kur_from x =
     (if x = 0x00 then KUR_UpdateNotRequested else if x = 0x01 then KUR_UpdateRequested else KUR_Unknown x)"

datatype certificate_status_type = CST_OCSP | CST_Unknown u8

primrec cst_get_u8 :: "certificate_status_type \<Rightarrow> u8" where
  "cst_get_u8 CST_OCSP = 0x01"
| "cst_get_u8 (CST_Unknown x) = x"

definition cst_from :: "u8 \<Rightarrow> certificate_status_type" where
  "cst_from x =
     (if x = 0x01 then CST_OCSP else CST_Unknown x)"

datatype hpke_kem = HKEM_DHKEM_P256_HKDF_SHA256 | HKEM_DHKEM_P384_HKDF_SHA384 | HKEM_DHKEM_P521_HKDF_SHA512
  | HKEM_DHKEM_X25519_HKDF_SHA256 | HKEM_DHKEM_X448_HKDF_SHA512 | HKEM_Unknown u16

primrec hkem_get_u16 :: "hpke_kem \<Rightarrow> u16" where
  "hkem_get_u16 HKEM_DHKEM_P256_HKDF_SHA256 = 0x0010"
| "hkem_get_u16 HKEM_DHKEM_P384_HKDF_SHA384 = 0x0011"
| "hkem_get_u16 HKEM_DHKEM_P521_HKDF_SHA512 = 0x0012"
| "hkem_get_u16 HKEM_DHKEM_X25519_HKDF_SHA256 = 0x0020"
| "hkem_get_u16 HKEM_DHKEM_X448_HKDF_SHA512 = 0x0021"
| "hkem_get_u16 (HKEM_Unknown x) = x"

definition hkem_from :: "u16 \<Rightarrow> hpke_kem" where
  "hkem_from x =
     (if x = 0x0010 then HKEM_DHKEM_P256_HKDF_SHA256 else if x = 0x0011 then HKEM_DHKEM_P384_HKDF_SHA384 else
      if x = 0x0012 then HKEM_DHKEM_P521_HKDF_SHA512 else if x = 0x0020 then HKEM_DHKEM_X25519_HKDF_SHA256 else
      if x = 0x0021 then HKEM_DHKEM_X448_HKDF_SHA512 else HKEM_Unknown x)"

datatype hpke_kdf = HKDF_HKDF_SHA256 | HKDF_HKDF_SHA384 | HKDF_HKDF_SHA512 | HKDF_Unknown u16

primrec hkdf_id_get_u16 :: "hpke_kdf \<Rightarrow> u16" where
  "hkdf_id_get_u16 HKDF_HKDF_SHA256 = 0x0001"
| "hkdf_id_get_u16 HKDF_HKDF_SHA384 = 0x0002"
| "hkdf_id_get_u16 HKDF_HKDF_SHA512 = 0x0003"
| "hkdf_id_get_u16 (HKDF_Unknown x) = x"

definition hkdf_id_from :: "u16 \<Rightarrow> hpke_kdf" where
  "hkdf_id_from x =
     (if x = 0x0001 then HKDF_HKDF_SHA256 else if x = 0x0002 then HKDF_HKDF_SHA384 else
      if x = 0x0003 then HKDF_HKDF_SHA512 else HKDF_Unknown x)"

datatype hpke_aead = HAEAD_AES_128_GCM | HAEAD_AES_256_GCM | HAEAD_CHACHA20_POLY_1305 | HAEAD_EXPORT_ONLY
  | HAEAD_Unknown u16

primrec haead_get_u16 :: "hpke_aead \<Rightarrow> u16" where
  "haead_get_u16 HAEAD_AES_128_GCM = 0x0001"
| "haead_get_u16 HAEAD_AES_256_GCM = 0x0002"
| "haead_get_u16 HAEAD_CHACHA20_POLY_1305 = 0x0003"
| "haead_get_u16 HAEAD_EXPORT_ONLY = 0xFFFF"
| "haead_get_u16 (HAEAD_Unknown x) = x"

definition haead_from :: "u16 \<Rightarrow> hpke_aead" where
  "haead_from x =
     (if x = 0x0001 then HAEAD_AES_128_GCM else if x = 0x0002 then HAEAD_AES_256_GCM else
      if x = 0x0003 then HAEAD_CHACHA20_POLY_1305 else if x = 0xFFFF then HAEAD_EXPORT_ONLY else HAEAD_Unknown x)"

datatype ech_version = ECH_V14 | ECH_Unknown u16

primrec ech_get_u16 :: "ech_version \<Rightarrow> u16" where
  "ech_get_u16 ECH_V14 = 0xfe0d"
| "ech_get_u16 (ECH_Unknown x) = x"

definition ech_from :: "u16 \<Rightarrow> ech_version" where
  "ech_from x =
     (if x = 0xfe0d then ECH_V14 else ECH_Unknown x)"

section \<open>A number is read as the value that has it\<close>

lemma ad_get_from [simp]: "ad_get_u8 (ad_from x) = x"
  by (simp add: ad_from_def)

lemma ht_get_from [simp]: "ht_get_u8 (ht_from x) = x"
  by (simp add: ht_from_def)

lemma ss_get_from [simp]: "ss_get_u16 (ss_from x) = x"
  by (simp add: ss_from_def)

lemma sa_get_from [simp]: "sa_get_u8 (sa_from x) = x"
  by (simp add: sa_from_def)

lemma cct_get_from [simp]: "cct_get_u8 (cct_from x) = x"
  by (simp add: cct_from_def)

lemma cm_get_from [simp]: "cm_get_u8 (cm_from x) = x"
  by (simp add: cm_from_def)

lemma al_get_from [simp]: "al_get_u8 (al_from x) = x"
  by (simp add: al_from_def)

lemma et_get_from [simp]: "et_get_u16 (et_from x) = x"
  by (simp add: et_from_def)

lemma snt_get_from [simp]: "snt_get_u8 (snt_from x) = x"
  by (simp add: snt_from_def)

lemma ng_get_from [simp]: "ng_get_u16 (ng_from x) = x"
  by (simp add: ng_from_def)

lemma epf_get_from [simp]: "epf_get_u8 (epf_from x) = x"
  by (simp add: epf_from_def)

lemma ect_get_from [simp]: "ect_get_u8 (ect_from x) = x"
  by (simp add: ect_from_def)

lemma pkm_get_from [simp]: "pkm_get_u8 (pkm_from x) = x"
  by (simp add: pkm_from_def)

lemma kur_get_from [simp]: "kur_get_u8 (kur_from x) = x"
  by (simp add: kur_from_def)

lemma cst_get_from [simp]: "cst_get_u8 (cst_from x) = x"
  by (simp add: cst_from_def)

lemma hkem_get_from [simp]: "hkem_get_u16 (hkem_from x) = x"
  by (simp add: hkem_from_def)

lemma hkdf_id_get_from [simp]: "hkdf_id_get_u16 (hkdf_id_from x) = x"
  by (simp add: hkdf_id_from_def)

lemma haead_get_from [simp]: "haead_get_u16 (haead_from x) = x"
  by (simp add: haead_from_def)

lemma ech_get_from [simp]: "ech_get_u16 (ech_from x) = x"
  by (simp add: ech_from_def)

section \<open>Signature schemes\<close>

definition ss_sign :: "signature_scheme \<Rightarrow> signature_algorithm" where
  "ss_sign self =
     (case self of
        SS_RSA_PKCS1_SHA1 \<Rightarrow> SA_RSA | SS_RSA_PKCS1_SHA256 \<Rightarrow> SA_RSA | SS_RSA_PKCS1_SHA384 \<Rightarrow> SA_RSA | SS_RSA_PKCS1_SHA512 \<Rightarrow> SA_RSA
      | SS_RSA_PSS_SHA256 \<Rightarrow> SA_RSA | SS_RSA_PSS_SHA384 \<Rightarrow> SA_RSA | SS_RSA_PSS_SHA512 \<Rightarrow> SA_RSA
      | SS_ECDSA_NISTP256_SHA256 \<Rightarrow> SA_ECDSA | SS_ECDSA_NISTP384_SHA384 \<Rightarrow> SA_ECDSA | SS_ECDSA_NISTP521_SHA512 \<Rightarrow> SA_ECDSA
      | SS_ED25519 \<Rightarrow> SA_ED25519
      | _ \<Rightarrow> SA_Unknown 0)"

definition supported_in_tls13 :: "signature_scheme \<Rightarrow> bool" where
  "supported_in_tls13 self \<longleftrightarrow>
     self \<in> {SS_ECDSA_NISTP384_SHA384, SS_ECDSA_NISTP256_SHA256, SS_RSA_PSS_SHA512, SS_RSA_PSS_SHA384, SS_RSA_PSS_SHA256, SS_ED25519}"

end
