(* ===== verification/Rustls_Errors.thy ===== *)
theory Rustls_Errors
  imports Rustls_Enums
begin

text \<open>
  The kinds of errors of the TLS library (\<open>rustls-reality/rustls/src/error.rs\<close>) that name a reason, with the constructors of the code
  behind a prefix, and the alert that a failed certificate check is reported with.
\<close>

datatype peer_misbehaved = PM_AttemptedDowngradeToTls12WhenTls13IsSupported | PM_BadCertChainExtensions
  | PM_DisallowedEncryptedExtension | PM_DuplicateClientHelloExtensions | PM_DuplicateEncryptedExtensions
  | PM_DuplicateHelloRetryRequestExtensions | PM_DuplicateNewSessionTicketExtensions
  | PM_DuplicateServerHelloExtensions | PM_DuplicateServerNameTypes | PM_EarlyDataAttemptedInSecondClientHello
  | PM_EarlyDataExtensionWithoutResumption | PM_EarlyDataOfferedWithVariedCipherSuite
  | PM_HandshakeHashVariedAfterRetry | PM_IllegalHelloRetryRequestWithEmptyCookie
  | PM_IllegalHelloRetryRequestWithNoChanges | PM_IllegalHelloRetryRequestWithOfferedGroup
  | PM_IllegalHelloRetryRequestWithUnofferedCipherSuite | PM_IllegalHelloRetryRequestWithUnofferedNamedGroup
  | PM_IllegalHelloRetryRequestWithUnsupportedVersion | PM_IllegalHelloRetryRequestWithWrongSessionId
  | PM_IllegalMiddleboxChangeCipherSpec | PM_IllegalTlsInnerPlaintext | PM_IncorrectBinder
  | PM_InvalidMaxEarlyDataSize | PM_InvalidKeyShare | PM_KeyEpochWithPendingFragment
  | PM_KeyUpdateReceivedInQuicConnection | PM_MessageInterleavedWithHandshakeMessage
  | PM_MissingBinderInPskExtension | PM_MissingKeyShare | PM_MissingPskModesExtension
  | PM_MissingQuicTransportParameters | PM_OfferedDuplicateKeyShares | PM_OfferedEarlyDataWithOldProtocolVersion
  | PM_OfferedEmptyApplicationProtocol | PM_OfferedIncorrectCompressions | PM_PskExtensionMustBeLast
  | PM_PskExtensionWithMismatchedIdsAndBinders | PM_RefusedToFollowHelloRetryRequest
  | PM_RejectedEarlyDataInterleavedWithHandshakeMessage | PM_ResumptionAttemptedWithVariedEms
  | PM_ResumptionOfferedWithVariedCipherSuite | PM_ResumptionOfferedWithVariedEms
  | PM_ResumptionOfferedWithIncompatibleCipherSuite | PM_SelectedDifferentCipherSuiteAfterRetry
  | PM_SelectedInvalidPsk | PM_SelectedTls12UsingTls13VersionExtension | PM_SelectedUnofferedApplicationProtocol
  | PM_SelectedUnofferedCipherSuite | PM_SelectedUnofferedCompression | PM_SelectedUnofferedKxGroup
  | PM_SelectedUnofferedPsk | PM_SelectedUnusableCipherSuiteForVersion
  | PM_ServerHelloMustOfferUncompressedEcPoints | PM_ServerNameDifferedOnRetry
  | PM_ServerNameMustContainOneHostName | PM_SignedKxWithWrongAlgorithm
  | PM_SignedHandshakeWithUnadvertisedSigScheme | PM_TooMuchEarlyDataReceived | PM_UnexpectedCleartextExtension
  | PM_UnsolicitedCertExtension | PM_UnsolicitedEncryptedExtension | PM_UnsolicitedSctList
  | PM_UnsolicitedServerHelloExtension | PM_WrongGroupForKeyShare

datatype peer_incompatible = PI_EcPointsExtensionRequired | PI_KeyShareExtensionRequired
  | PI_NamedGroupsExtensionRequired | PI_NoCertificateRequestSignatureSchemesInCommon | PI_NoCipherSuitesInCommon
  | PI_NoEcPointFormatsInCommon | PI_NoKxGroupsInCommon | PI_NoSignatureSchemesInCommon
  | PI_NullCompressionRequired | PI_ServerDoesNotSupportTls12Or13
  | PI_ServerSentHelloRetryRequestWithUnknownExtension | PI_ServerTlsVersionIsDisabledByOurConfig
  | PI_SignatureAlgorithmsExtensionRequired | PI_SupportedVersionsExtensionRequired | PI_Tls12NotOffered
  | PI_Tls12NotOfferedOrEnabled | PI_Tls13RequiredForQuic | PI_UncompressedEcPointsRequired

datatype certificate_error = CE_BadEncoding | CE_Expired | CE_NotValidYet | CE_Revoked
  | CE_UnhandledCriticalExtension | CE_UnknownIssuer | CE_UnknownRevocationStatus | CE_BadSignature
  | CE_NotValidForName | CE_InvalidPurpose | CE_ApplicationVerificationFailure | CE_Other

definition certificate_error_alert :: "certificate_error \<Rightarrow> alert_description" where
  "certificate_error_alert e =
     (case e of
        CE_BadEncoding \<Rightarrow> AD_BadCertificate | CE_UnhandledCriticalExtension \<Rightarrow> AD_BadCertificate
      | CE_NotValidForName \<Rightarrow> AD_BadCertificate
      | CE_Expired \<Rightarrow> AD_CertificateExpired | CE_NotValidYet \<Rightarrow> AD_CertificateExpired
      | CE_Revoked \<Rightarrow> AD_CertificateRevoked
      | CE_UnknownIssuer \<Rightarrow> AD_UnknownCA | CE_UnknownRevocationStatus \<Rightarrow> AD_UnknownCA
      | CE_BadSignature \<Rightarrow> AD_DecryptError
      | CE_InvalidPurpose \<Rightarrow> AD_UnsupportedCertificate
      | CE_ApplicationVerificationFailure \<Rightarrow> AD_AccessDenied
      | CE_Other \<Rightarrow> AD_CertificateUnknown)"

end
