(* ===== verification/Rustls_Messages.thy ===== *)
theory Rustls_Messages
  imports Rustls_Errors Framing
begin

text \<open>
  TLS records in the TLS library: the reader and the integer codecs (\<open>rustls-reality/rustls/src/msgs/codec.rs\<close>), the content
  types and versions (\<open>enums.rs\<close>, generated by \<open>msgs/macros.rs\<close>), the messages (\<open>msgs/message.rs\<close>) and the
  fragmenter (\<open>msgs/fragmenter.rs\<close>).
\<close>

section \<open>The reader\<close>

record reader =
  rd_buffer :: bytes
  rd_cursor :: nat

datatype invalid_message = MessageTooShort | MissingData rstring | TrailingData rstring
  | ImInvalidEmptyPayload | ImMessageTooLarge | ImInvalidContentType | ImUnknownProtocolVersion
  | HandshakePayloadTooLarge | InvalidCcs | InvalidCertificateStatusType | InvalidKeyUpdate | InvalidServerName
  | NoSignatureSchemes | UnexpectedMessage rstring | UnsupportedCompression | UnsupportedCurveType

definition reader_init :: "bytes \<Rightarrow> reader" where
  "reader_init bs = \<lparr>rd_buffer = bs, rd_cursor = 0\<rparr>"

definition reader_left :: "reader \<Rightarrow> nat" where
  "reader_left r = length (rd_buffer r) - rd_cursor r"

definition reader_used :: "reader \<Rightarrow> nat" where
  "reader_used r = rd_cursor r"

definition reader_any_left :: "reader \<Rightarrow> bool" where
  "reader_any_left r \<longleftrightarrow> rd_cursor r < length (rd_buffer r)"

definition reader_take :: "nat \<Rightarrow> reader \<Rightarrow> (bytes \<times> reader) option" where
  "reader_take n r =
     (if reader_left r < n then None
      else Some (take n (drop (rd_cursor r) (rd_buffer r)), r \<lparr>rd_cursor := rd_cursor r + n\<rparr>))"

definition reader_rest :: "reader \<Rightarrow> bytes \<times> reader" where
  "reader_rest r = (drop (rd_cursor r) (rd_buffer r), r \<lparr>rd_cursor := length (rd_buffer r)\<rparr>)"

definition reader_sub :: "nat \<Rightarrow> reader \<Rightarrow> (invalid_message, reader \<times> reader) outcome" where
  "reader_sub n r =
     (case reader_take n r of
        Some (bs, r') \<Rightarrow> Ret (reader_init bs, r')
      | None \<Rightarrow> Err MessageTooShort)"

definition expect_empty :: "rstring \<Rightarrow> reader \<Rightarrow> (invalid_message, unit) outcome" where
  "expect_empty name r = (if reader_any_left r then Err (TrailingData name) else Ret ())"

section \<open>Integers\<close>

definition read_u8 :: "reader \<Rightarrow> (invalid_message, u8 \<times> reader) outcome" where
  "read_u8 r = (case reader_take 1 r of Some ([b], r') \<Rightarrow> Ret (b, r') | _ \<Rightarrow> Err (MissingData (lit ''u8'')))"

definition read_u16 :: "reader \<Rightarrow> (invalid_message, u16 \<times> reader) outcome" where
  "read_u16 r = (case reader_take 2 r of Some ([a, b], r') \<Rightarrow> Ret (be16 a b, r') | _ \<Rightarrow> Err (MissingData (lit ''u8'')))"

definition read_u24 :: "reader \<Rightarrow> (invalid_message, u32 \<times> reader) outcome" where
  "read_u24 r =
     (case reader_take 3 r of Some ([a, b, c], r') \<Rightarrow> Ret (be32 0 a b c, r') | _ \<Rightarrow> Err (MissingData (lit ''u24'')))"

definition encode_u24 :: "u32 \<Rightarrow> bytes" where
  "encode_u24 v = drop 1 (u32_be v)"

section \<open>Content types and versions\<close>

datatype rl_content_type = CT_ChangeCipherSpec | CT_Alert | CT_Handshake | CT_ApplicationData | CT_Heartbeat | CT_Unknown u8

fun ct_get_u8 :: "rl_content_type \<Rightarrow> u8" where
  "ct_get_u8 CT_ChangeCipherSpec = 0x14"
| "ct_get_u8 CT_Alert = 0x15"
| "ct_get_u8 CT_Handshake = 0x16"
| "ct_get_u8 CT_ApplicationData = 0x17"
| "ct_get_u8 CT_Heartbeat = 0x18"
| "ct_get_u8 (CT_Unknown x) = x"

definition ct_from :: "u8 \<Rightarrow> rl_content_type" where
  "ct_from x =
     (if x = 0x14 then CT_ChangeCipherSpec else if x = 0x15 then CT_Alert else if x = 0x16 then CT_Handshake
      else if x = 0x17 then CT_ApplicationData else if x = 0x18 then CT_Heartbeat else CT_Unknown x)"

definition ct_read :: "reader \<Rightarrow> (invalid_message, rl_content_type \<times> reader) outcome" where
  "ct_read r =
     map_err (\<lambda>_. MissingData (lit ''ContentType'')) (bnd (read_u8 r) (\<lambda>(x, r'). Ret (ct_from x, r')))"

datatype rl_version = PV_SSLv2 | PV_SSLv3 | PV_TLSv1_0 | PV_TLSv1_1 | PV_TLSv1_2 | PV_TLSv1_3
  | PV_DTLSv1_0 | PV_DTLSv1_2 | PV_DTLSv1_3 | PV_Unknown u16

fun pv_get_u16 :: "rl_version \<Rightarrow> u16" where
  "pv_get_u16 PV_SSLv2 = 0x0200"
| "pv_get_u16 PV_SSLv3 = 0x0300"
| "pv_get_u16 PV_TLSv1_0 = 0x0301"
| "pv_get_u16 PV_TLSv1_1 = 0x0302"
| "pv_get_u16 PV_TLSv1_2 = 0x0303"
| "pv_get_u16 PV_TLSv1_3 = 0x0304"
| "pv_get_u16 PV_DTLSv1_0 = 0xFEFF"
| "pv_get_u16 PV_DTLSv1_2 = 0xFEFD"
| "pv_get_u16 PV_DTLSv1_3 = 0xFEFC"
| "pv_get_u16 (PV_Unknown x) = x"

definition pv_from :: "u16 \<Rightarrow> rl_version" where
  "pv_from x =
     (if x = 0x0200 then PV_SSLv2 else if x = 0x0300 then PV_SSLv3 else if x = 0x0301 then PV_TLSv1_0
      else if x = 0x0302 then PV_TLSv1_1 else if x = 0x0303 then PV_TLSv1_2 else if x = 0x0304 then PV_TLSv1_3
      else if x = 0xFEFF then PV_DTLSv1_0 else if x = 0xFEFD then PV_DTLSv1_2 else if x = 0xFEFC then PV_DTLSv1_3
      else PV_Unknown x)"

definition pv_read :: "reader \<Rightarrow> (invalid_message, rl_version \<times> reader) outcome" where
  "pv_read r =
     map_err (\<lambda>_. MissingData (lit ''ProtocolVersion'')) (bnd (read_u16 r) (\<lambda>(x, r'). Ret (pv_from x, r')))"

section \<open>Messages\<close>

datatype message_error = TooShortForHeader | TooShortForLength | InvalidEmptyPayload | MessageTooLarge
  | InvalidContentType | UnknownProtocolVersion

datatype rl_error = InappropriateMessage "rl_content_type list" rl_content_type
  | InappropriateHandshakeMessage "rl_handshake_type list" rl_handshake_type
  | RlInvalidMessage invalid_message | NoCertificatesPresented | DecryptError | EncryptError
  | PeerIncompatible peer_incompatible | PeerMisbehaved peer_misbehaved | AlertReceived alert_description
  | InvalidCertificate certificate_error | RlGeneral rstring | FailedToGetRandomBytes | HandshakeNotComplete
  | PeerSentOversizedRecord | NoApplicationProtocol | BadMaxFragmentSize

record opaque_message =
  om_typ :: rl_content_type
  om_version :: rl_version
  om_payload :: bytes

text \<open>\<open>PlainMessage\<close>, and \<open>BorrowedPlainMessage\<close>, which only differs in who owns the payload.\<close>

record plain_message =
  pm_typ :: rl_content_type
  pm_version :: rl_version
  pm_payload :: bytes

definition MAX_FRAGMENT_LEN :: nat where
  "MAX_FRAGMENT_LEN = 16384"

definition MAX_PAYLOAD :: u16 where
  "MAX_PAYLOAD = 16384 + 2048"

definition MAX_WIRE_SIZE :: nat where
  "MAX_WIRE_SIZE = unat (MAX_PAYLOAD + 5)"

definition opaque_read :: "reader \<Rightarrow> (message_error, opaque_message \<times> reader) outcome" where
  "opaque_read r =
     bnd (map_err (\<lambda>_. TooShortForHeader) (ct_read r)) (\<lambda>(typ, r).
     bnd (guard (case typ of CT_Unknown _ \<Rightarrow> True | _ \<Rightarrow> False) InvalidContentType) (\<lambda>_.
     bnd (map_err (\<lambda>_. TooShortForHeader) (pv_read r)) (\<lambda>(version, r).
     bnd (guard (case version of PV_Unknown v \<Rightarrow> v AND 0xff00 \<noteq> 0x0300 | _ \<Rightarrow> False) UnknownProtocolVersion) (\<lambda>_.
     bnd (map_err (\<lambda>_. TooShortForHeader) (read_u16 r)) (\<lambda>(len, r).
     bnd (guard (typ \<noteq> CT_ApplicationData \<and> len = 0) InvalidEmptyPayload) (\<lambda>_.
     bnd (guard (len \<ge> MAX_PAYLOAD) MessageTooLarge) (\<lambda>_.
     bnd (map_err (\<lambda>_. TooShortForLength) (reader_sub (unat len) r)) (\<lambda>(sub, r).
     Ret (\<lparr>om_typ = typ, om_version = version, om_payload = fst (reader_rest sub)\<rparr>, r)))))))))"

definition opaque_encode :: "opaque_message \<Rightarrow> bytes" where
  "opaque_encode m =
     ct_get_u8 (om_typ m) # u16_be (pv_get_u16 (om_version m)) @ u16_be (word_of_nat (length (om_payload m))) @ om_payload m"

definition into_plain_message :: "opaque_message \<Rightarrow> plain_message" where
  "into_plain_message m = \<lparr>pm_typ = om_typ m, pm_version = om_version m, pm_payload = om_payload m\<rparr>"

definition into_unencrypted_opaque :: "plain_message \<Rightarrow> opaque_message" where
  "into_unencrypted_opaque m = \<lparr>om_typ = pm_typ m, om_version = pm_version m, om_payload = pm_payload m\<rparr>"

text \<open>\<open>Vec::pop\<close> from the end until a byte that is not zero; the content type and what is left.\<close>

function unpad_tls13 :: "bytes \<Rightarrow> rl_content_type \<times> bytes" where
  "unpad_tls13 v =
     (if v = [] then (CT_Unknown 0, [])
      else if last v = 0 then unpad_tls13 (butlast v)
      else (ct_from (last v), butlast v))"
  by pat_completeness auto
termination
  by (relation "measure length") auto

declare unpad_tls13.simps [simp del]

definition into_tls13_unpadded_message :: "opaque_message \<Rightarrow> (rl_error, plain_message) outcome" where
  "into_tls13_unpadded_message m =
     bnd (guard (length (om_payload m) > MAX_FRAGMENT_LEN + 1) PeerSentOversizedRecord) (\<lambda>_.
     let (typ, payload) = unpad_tls13 (om_payload m) in
     bnd (guard (typ = CT_Unknown 0) (PeerMisbehaved PM_IllegalTlsInnerPlaintext)) (\<lambda>_.
     bnd (guard (length payload > MAX_FRAGMENT_LEN) PeerSentOversizedRecord) (\<lambda>_.
     Ret \<lparr>pm_typ = typ, pm_version = PV_TLSv1_3, pm_payload = payload\<rparr>)))"

section \<open>Fragments\<close>

definition PACKET_OVERHEAD :: nat where
  "PACKET_OVERHEAD = 1 + 2 + 2"

definition MAX_FRAGMENT_SIZE :: nat where
  "MAX_FRAGMENT_SIZE = MAX_FRAGMENT_LEN + PACKET_OVERHEAD"

record message_fragmenter =
  max_frag :: nat

definition fragmenter_default :: message_fragmenter where
  "fragmenter_default = \<lparr>max_frag = MAX_FRAGMENT_LEN\<rparr>"

text \<open>\<open>slice::chunks\<close>, which panics for a chunk size of zero.\<close>

function chunks :: "nat \<Rightarrow> 'a list \<Rightarrow> 'a list list" where
  "chunks n xs = (if xs = [] \<or> n = 0 then [] else take n xs # chunks n (drop n xs))"
  by pat_completeness auto
termination
  by (relation "measure (\<lambda>(n, xs). length xs)") auto

declare chunks.simps [simp del]

definition fragment_slice ::
  "message_fragmenter \<Rightarrow> rl_content_type \<Rightarrow> rl_version \<Rightarrow> bytes \<Rightarrow> (rl_error, plain_message list) outcome" where
  "fragment_slice self typ version payload =
     (if max_frag self = 0 then Panic
      else Ret (map (\<lambda>c. \<lparr>pm_typ = typ, pm_version = version, pm_payload = c\<rparr>) (chunks (max_frag self) payload)))"

definition fragment_message :: "message_fragmenter \<Rightarrow> plain_message \<Rightarrow> (rl_error, plain_message list) outcome" where
  "fragment_message self msg = fragment_slice self (pm_typ msg) (pm_version msg) (pm_payload msg)"

definition set_max_fragment_size :: "message_fragmenter \<Rightarrow> nat option \<Rightarrow> (rl_error, message_fragmenter) outcome" where
  "set_max_fragment_size self max_fragment_size =
     (case max_fragment_size of
        Some sz \<Rightarrow>
          if 32 \<le> sz \<and> sz \<le> MAX_FRAGMENT_SIZE then Ret (self \<lparr>max_frag := sz - PACKET_OVERHEAD\<rparr>)
          else Err BadMaxFragmentSize
      | None \<Rightarrow> Ret (self \<lparr>max_frag := MAX_FRAGMENT_LEN\<rparr>))"

section \<open>What the theorems speak about\<close>

definition opaque_ok :: "opaque_message \<Rightarrow> bool" where
  "opaque_ok m \<longleftrightarrow> (case om_typ m of CT_Unknown _ \<Rightarrow> False | _ \<Rightarrow> True)
     \<and> (case om_version m of PV_Unknown v \<Rightarrow> pv_from v = PV_Unknown v \<and> v AND 0xff00 = 0x0300 | _ \<Rightarrow> True)
     \<and> (om_typ m = CT_ApplicationData \<or> om_payload m \<noteq> []) \<and> length (om_payload m) < 18432"

definition frag_ok :: "message_fragmenter \<Rightarrow> bool" where
  "frag_ok f \<longleftrightarrow> 27 \<le> max_frag f \<and> max_frag f \<le> MAX_FRAGMENT_LEN"

text \<open>The bytes a reader has not read yet.\<close>

definition unread :: "reader \<Rightarrow> bytes" where
  "unread r = drop (rd_cursor r) (rd_buffer r)"

text \<open>Reading records one after the other from a growing buffer.\<close>

definition opaque_step :: "unit \<Rightarrow> bytes \<Rightarrow> (message_error, (opaque_message \<times> unit \<times> bytes) option) outcome" where
  "opaque_step u buf =
     (case opaque_read (reader_init buf) of
        Ret (m, r) \<Rightarrow> Ret (Some (m, (), drop (reader_used r) buf))
      | Err e \<Rightarrow> if e = TooShortForHeader \<or> e = TooShortForLength then Ret None else Err e
      | Panic \<Rightarrow> Panic)"

section \<open>Lemmas on the reader\<close>

lemma take_unread: "reader_take n r = (if n \<le> length (unread r) then Some (take n (unread r), r \<lparr>rd_cursor := rd_cursor r + n\<rparr>) else None)"
  by (auto simp: reader_take_def reader_left_def unread_def)

lemma unread_advance [simp]: "unread (r \<lparr>rd_cursor := rd_cursor r + n\<rparr>) = drop n (unread r)"
  by (simp add: unread_def add.commute)

lemmas unread_advance_Suc [simp] = unread_advance [of r 1, simplified] unread_advance [of r 2, simplified] for r

lemma unread_init [simp]: "unread (reader_init bs) = bs"
  by (simp add: unread_def reader_init_def)

lemma read_u8_unread: "read_u8 r = (case unread r of b # q \<Rightarrow> Ret (b, r \<lparr>rd_cursor := rd_cursor r + 1\<rparr>) | [] \<Rightarrow> Err (MissingData (lit ''u8'')))"
  by (cases "unread r") (simp_all add: read_u8_def take_unread)

lemma read_u16_unread:
  "read_u16 r = (case unread r of a # b # q \<Rightarrow> Ret (be16 a b, r \<lparr>rd_cursor := rd_cursor r + 2\<rparr>) | _ \<Rightarrow> Err (MissingData (lit ''u8'')))"
  by (cases "unread r" rule: get_u16.cases) (simp_all add: read_u16_def take_unread numeral_2_eq_2)

lemma read_u24_unread:
  "read_u24 r = (case unread r of a # b # c # q \<Rightarrow> Ret (be32 0 a b c, r \<lparr>rd_cursor := rd_cursor r + 3\<rparr>) | _ \<Rightarrow> Err (MissingData (lit ''u24'')))"
  by (auto simp: read_u24_def take_unread numeral_3_eq_3 split: list.splits)

section \<open>Lemmas on records\<close>

lemma ct_from_get: "(case t of CT_Unknown _ \<Rightarrow> False | _ \<Rightarrow> True) \<Longrightarrow> ct_from (ct_get_u8 t) = t"
  by (cases t) (simp_all add: ct_from_def)

lemma ct_get_from [simp]: "ct_get_u8 (ct_from x) = x"
  by (simp add: ct_from_def)

lemma pv_get_from [simp]: "pv_get_u16 (pv_from x) = x"
  by (simp add: pv_from_def)

lemma pv_from_get: "(case v of PV_Unknown x \<Rightarrow> pv_from x = PV_Unknown x | _ \<Rightarrow> True) \<Longrightarrow> pv_from (pv_get_u16 v) = v"
  by (cases v) (simp_all add: pv_from_def)

lemma pv_from_Unknown: "pv_from x = PV_Unknown v \<Longrightarrow> v = x"
  by (simp add: pv_from_def split: if_splits)

lemma opaque_read_five:
  "opaque_read (reader_init (t # a # b # c # d # q)) =
     (if (case ct_from t of CT_Unknown _ \<Rightarrow> True | _ \<Rightarrow> False) then Err InvalidContentType
      else if (case pv_from (be16 a b) of PV_Unknown v \<Rightarrow> v AND 0xff00 \<noteq> 0x0300 | _ \<Rightarrow> False) then Err UnknownProtocolVersion
      else if ct_from t \<noteq> CT_ApplicationData \<and> be16 c d = 0 then Err InvalidEmptyPayload
      else if be16 c d \<ge> MAX_PAYLOAD then Err MessageTooLarge
      else if unat (be16 c d) \<le> length q
      then Ret (\<lparr>om_typ = ct_from t, om_version = pv_from (be16 a b), om_payload = take (unat (be16 c d)) q\<rparr>,
             \<lparr>rd_buffer = t # a # b # c # d # q, rd_cursor = 5 + unat (be16 c d)\<rparr>)
      else Err TooShortForLength)"
  by (simp add: opaque_read_def ct_read_def pv_read_def read_u8_unread read_u16_unread reader_sub_def take_unread
      reader_rest_def guard_def reader_init_def unread_def)

lemma opaque_read_short:
  assumes "length buf < 5"
  shows "opaque_read (reader_init buf) \<in> {Err TooShortForHeader, Err InvalidContentType, Err UnknownProtocolVersion}"
proof -
  consider "buf = []" | t where "buf = [t]" | t a where "buf = [t, a]" | t a b where "buf = [t, a, b]"
    | t a b c where "buf = [t, a, b, c]"
    using assms by (auto simp: numeral_eq_Suc less_Suc_eq length_Suc_conv)
  then show ?thesis
    by cases (auto simp: opaque_read_def ct_read_def pv_read_def read_u8_unread read_u16_unread guard_def reader_init_def unread_def)
qed

text \<open>What a short buffer is refused for does not change when more bytes arrive.\<close>

lemma opaque_read_short_stable:
  assumes "length buf < 5" "opaque_read (reader_init buf) = Err e" "e \<noteq> TooShortForHeader"
  shows "opaque_read (reader_init (buf @ extra)) = Err e"
proof -
  consider "buf = []" | t where "buf = [t]" | t a where "buf = [t, a]" | t a b where "buf = [t, a, b]"
    | t a b c where "buf = [t, a, b, c]"
    using assms(1) by (auto simp: numeral_eq_Suc less_Suc_eq length_Suc_conv)
  then show ?thesis
    using assms(2,3)
    by cases (auto simp: opaque_read_def ct_read_def pv_read_def read_u8_unread read_u16_unread guard_def reader_init_def unread_def
        split: if_splits)
qed

lemma le_MAX_PAYLOAD: "MAX_PAYLOAD \<le> w \<longleftrightarrow> 18432 \<le> unat w"
  by (simp add: MAX_PAYLOAD_def word_le_nat_alt)

lemma opaque_encode_split:
  "\<exists>t a b c d. opaque_encode m = t # a # b # c # d # om_payload m \<and> t = ct_get_u8 (om_typ m)
     \<and> be16 a b = pv_get_u16 (om_version m) \<and> be16 c d = word_of_nat (length (om_payload m))"
  by (simp add: opaque_encode_def u16_be_def)

lemma length_opaque_encode [simp]: "length (opaque_encode m) = 5 + length (om_payload m)"
  by (simp add: opaque_encode_def)

lemma word_of_nat_u16_0:
  assumes "n < 65536"
  shows "(word_of_nat n :: u16) = 0 \<longleftrightarrow> n = 0"
proof
  assume "(word_of_nat n :: u16) = 0"
  then have "unat (word_of_nat n :: u16) = 0" by (simp only: unat_0)
  then show "n = 0" using assms by simp
qed simp

lemma opaque_read_encode:
  assumes "opaque_ok m"
  shows "opaque_read (reader_init (opaque_encode m @ rest)) =
    Ret (m, \<lparr>rd_buffer = opaque_encode m @ rest, rd_cursor = length (opaque_encode m)\<rparr>)"
proof -
  obtain t a b c d where e: "opaque_encode m = t # a # b # c # d # om_payload m" "t = ct_get_u8 (om_typ m)"
    "be16 a b = pv_get_u16 (om_version m)" "be16 c d = word_of_nat (length (om_payload m))"
    using opaque_encode_split by blast
  have o: "length (om_payload m) < 18432" "om_typ m = CT_ApplicationData \<or> om_payload m \<noteq> []"
    "case om_typ m of CT_Unknown _ \<Rightarrow> False | _ \<Rightarrow> True"
    "case om_version m of PV_Unknown v \<Rightarrow> pv_from v = PV_Unknown v \<and> v AND 0xff00 = 0x0300 | _ \<Rightarrow> True"
    using assms by (auto simp: opaque_ok_def)
  have "ct_from t = om_typ m" "pv_from (be16 a b) = om_version m" "unat (be16 c d) = length (om_payload m)"
    "be16 c d = 0 \<longleftrightarrow> om_payload m = []"
    using e o ct_from_get [of "om_typ m"] pv_from_get [of "om_version m"]
    by (auto simp: word_of_nat_u16_0 split: rl_version.splits)
  then show ?thesis
    using o unfolding e(1) append_Cons opaque_read_five
    by (cases m) (auto simp: le_MAX_PAYLOAD split: rl_content_type.splits rl_version.splits)
qed

lemma opaque_read_Ret:
  assumes "opaque_read (reader_init buf) = Ret (m, r)"
  shows "opaque_ok m \<and> (\<exists>rest. buf = opaque_encode m @ rest) \<and> reader_used r = length (opaque_encode m)"
proof -
  have "5 \<le> length buf"
    using opaque_read_short [of buf] assms by (cases "length buf < 5") auto
  then obtain t a b c d q where buf: "buf = t # a # b # c # d # q"
    using five_bytes by blast
  note f = assms [unfolded buf opaque_read_five]
  have m: "m = \<lparr>om_typ = ct_from t, om_version = pv_from (be16 a b), om_payload = take (unat (be16 c d)) q\<rparr>"
    and r: "rd_cursor r = 5 + unat (be16 c d)" and l: "unat (be16 c d) \<le> length q" "unat (be16 c d) < 18432"
    and v: "case pv_from (be16 a b) of PV_Unknown v \<Rightarrow> v AND 0xff00 = 0x0300 | _ \<Rightarrow> True"
    and t: "case ct_from t of CT_Unknown _ \<Rightarrow> False | _ \<Rightarrow> True"
    and z: "ct_from t = CT_ApplicationData \<or> be16 c d \<noteq> 0"
    using f by (auto simp: le_MAX_PAYLOAD not_le split: if_splits rl_version.splits rl_content_type.splits)
  have p: "length (om_payload m) = unat (be16 c d)" using l m by simp
  have "buf = opaque_encode m @ drop (unat (be16 c d)) q"
    using p by (simp add: buf opaque_encode_def m)
  moreover have "opaque_ok m"
    using t v z l p by (auto simp: opaque_ok_def m unat_eq_zero split: rl_version.splits rl_content_type.splits dest: pv_from_Unknown)
  ultimately show ?thesis
    using p r by (auto simp: reader_used_def)
qed

lemma opaque_read_no_panic: "opaque_read (reader_init buf) \<noteq> Panic"
proof (cases "length buf < 5")
  case True
  then show ?thesis using opaque_read_short [of buf] by auto
next
  case False
  then obtain t a b c d q where "buf = t # a # b # c # d # q"
    using five_bytes [of buf] by force
  then show ?thesis by (simp add: opaque_read_five)
qed

lemma opaque_read_err_stable:
  assumes "opaque_read (reader_init buf) = Err e" "e \<noteq> TooShortForHeader" "e \<noteq> TooShortForLength"
  shows "opaque_read (reader_init (buf @ extra)) = Err e"
proof (cases "length buf < 5")
  case True
  then show ?thesis using opaque_read_short_stable assms by blast
next
  case False
  then obtain t a b c d q where "buf = t # a # b # c # d # q"
    using five_bytes [of buf] by force
  then show ?thesis
    using assms by (auto simp: opaque_read_five split: if_splits)
qed

interpretation opaque_stream: incremental opaque_step
proof
  fix s buf x s' rest extra
  assume "opaque_step s buf = Ret (Some (x, s', rest))"
  then obtain r where r: "opaque_read (reader_init buf) = Ret (x, r)" "rest = drop (reader_used r) buf"
    by (auto simp: opaque_step_def split: outcome.splits if_splits)
  obtain q where q: "buf = opaque_encode x @ q" "opaque_ok x" "reader_used r = length (opaque_encode x)"
    using opaque_read_Ret [OF r(1)] by blast
  then show "length rest < length buf" using r(2) by simp
  show "opaque_step s (buf @ extra) = Ret (Some (x, s', rest @ extra))"
    using opaque_read_encode [OF q(2), of "q @ extra"] q r(2)
    by (simp add: opaque_step_def reader_used_def)
next
  fix s buf e extra
  assume "opaque_step s buf = Err e"
  then show "opaque_step s (buf @ extra) = Err e"
    using opaque_read_err_stable [of buf e extra]
    by (auto simp: opaque_step_def split: outcome.splits if_splits)
next
  show "opaque_step s buf \<noteq> Panic" for s buf
    using opaque_read_no_panic [of buf] by (auto simp: opaque_step_def split: outcome.splits)
  show "opaque_step s [] = Ret None" for s
    by (simp add: opaque_step_def opaque_read_def ct_read_def read_u8_unread)
qed

lemma opaque_step_encode: "opaque_ok m \<Longrightarrow> opaque_step u (opaque_encode m @ rest) = Ret (Some (m, (), rest))"
  by (simp add: opaque_step_def opaque_read_encode reader_used_def)

interpretation opaque_wire: wire_format opaque_ok opaque_encode
  "\<lambda>buf. bnd (opaque_read (reader_init buf)) (\<lambda>(m, r). Ret (m, drop (reader_used r) buf))"
  by unfold_locales (simp add: opaque_read_encode reader_used_def)

section \<open>Lemmas on padding\<close>

lemma unpad_snoc: "unpad_tls13 (v @ [0]) = unpad_tls13 v"
  by (subst unpad_tls13.simps) simp

lemma unpad_zero: "unpad_tls13 (v @ replicate n 0) = unpad_tls13 v"
proof (induction n)
  case (Suc n)
  have "v @ replicate (Suc n) 0 = (v @ replicate n 0) @ [0]"
    by (simp add: replicate_append_same)
  then show ?case using Suc by (simp only: unpad_snoc)
qed simp

lemma unpad_exact: "t \<noteq> 0 \<Longrightarrow> unpad_tls13 (content @ t # replicate n 0) = (ct_from t, content)"
  using unpad_zero [of "content @ [t]" n] by (simp add: unpad_tls13.simps [of "content @ [t]"])

lemma unpad_zeros: "unpad_tls13 (replicate n 0) = (CT_Unknown 0, [])"
  using unpad_zero [of "[]" n] by (simp add: unpad_tls13.simps [of "[]"])

lemma unpad_cases:
  fixes v :: bytes
  obtains (content) content t n where "v = content @ t # replicate n 0" "t \<noteq> 0" | (zeros) n where "v = replicate n 0"
proof (induction v arbitrary: thesis rule: rev_induct)
  case Nil
  then show ?case using replicate_0 [of "0 :: u8"] by auto
next
  case (snoc x xs)
  show ?case
  proof (cases "x = 0")
    case True
    have z: "replicate n 0 @ [0] = replicate (Suc n) (0 :: u8)" for n
      by (simp add: replicate_append_same)
    show ?thesis
    proof (rule snoc.IH)
      fix content t n
      assume "xs = content @ t # replicate n 0" "t \<noteq> 0"
      then show thesis using snoc.prems(1) [of content t "Suc n"] True z [of n] by auto
    next
      fix n
      assume "xs = replicate n 0"
      then show thesis using snoc.prems(2) [of "Suc n"] True z [of n] by auto
    qed
  next
    case False
    then show ?thesis using snoc.prems(1) [of xs x 0] by simp
  qed
qed

lemma unpadded_exact:
  assumes "t \<noteq> 0" "length content \<le> MAX_FRAGMENT_LEN" "length content + n \<le> MAX_FRAGMENT_LEN"
    "om_payload m = content @ t # replicate n 0"
  shows "into_tls13_unpadded_message m = Ret \<lparr>pm_typ = ct_from t, pm_version = PV_TLSv1_3, pm_payload = content\<rparr>"
proof -
  have "ct_from t \<noteq> CT_Unknown 0" using assms(1) by (auto simp: ct_from_def)
  then show ?thesis
    using assms by (simp add: into_tls13_unpadded_message_def unpad_exact)
qed

lemma unpadded_Ret:
  assumes "into_tls13_unpadded_message m = Ret p"
  shows "\<exists>n. om_payload m = pm_payload p @ ct_get_u8 (pm_typ p) # replicate n 0 \<and> ct_get_u8 (pm_typ p) \<noteq> 0
    \<and> length (pm_payload p) \<le> MAX_FRAGMENT_LEN \<and> pm_version p = PV_TLSv1_3"
proof (cases rule: unpad_cases [of "om_payload m"])
  case (content c t n)
  then show ?thesis
    using assms by (auto simp: into_tls13_unpadded_message_def unpad_exact bnd_Ret_iff)
next
  case (zeros n)
  then show ?thesis
    using assms by (auto simp: into_tls13_unpadded_message_def unpad_zeros bnd_Ret_iff)
qed

section \<open>Lemmas on fragments\<close>

lemma chunks_concat: "0 < n \<Longrightarrow> concat (chunks n xs) = xs"
  by (induction n xs rule: chunks.induct) (subst chunks.simps, simp)

lemma chunks_bound: "c \<in> set (chunks n xs) \<Longrightarrow> c \<noteq> [] \<and> length c \<le> n"
proof (induction n xs rule: chunks.induct)
  case (1 n xs)
  then show ?case
    by (subst (asm) (2) chunks.simps) (auto split: if_splits)
qed

lemma fragmenter_default_ok: "frag_ok fragmenter_default"
  by (simp add: frag_ok_def fragmenter_default_def MAX_FRAGMENT_LEN_def)

lemma set_max_fragment_ok: "set_max_fragment_size f sz = Ret f' \<Longrightarrow> frag_ok f'"
  by (auto simp: set_max_fragment_size_def frag_ok_def MAX_FRAGMENT_SIZE_def PACKET_OVERHEAD_def MAX_FRAGMENT_LEN_def
      split: option.splits if_splits)

lemma fragment_slice_exact:
  assumes "frag_ok f"
  shows "\<exists>ms. fragment_slice f typ ver bs = Ret ms \<and> concat (map pm_payload ms) = bs
    \<and> (\<forall>m \<in> set ms. pm_typ m = typ \<and> pm_version m = ver \<and> pm_payload m \<noteq> [] \<and> length (pm_payload m) \<le> max_frag f)"
proof -
  have n: "0 < max_frag f" using assms by (simp add: frag_ok_def)
  have "map pm_payload (map (\<lambda>c. \<lparr>pm_typ = typ, pm_version = ver, pm_payload = c\<rparr>) (chunks (max_frag f) bs)) = chunks (max_frag f) bs"
    by (simp add: comp_def)
  then show ?thesis
    using n chunks_concat [OF n, of bs] chunks_bound [of _ "max_frag f" bs]
    by (auto simp: fragment_slice_def simp del: map_map)
qed

section \<open>The property\<close>

text \<open>Fragmenting and record parsing are inverse: a message of any length is cut into fragments that fit the limit, and the
  records they are sent as, cut by the network in any way, are read back as exactly those fragments with nothing left.\<close>

lemma fragments_roundtrip:
  assumes "frag_ok f" "case ty of CT_Unknown _ \<Rightarrow> False | _ \<Rightarrow> True"
    and "case ver of PV_Unknown v \<Rightarrow> pv_from v = PV_Unknown v \<and> v AND 0xff00 = 0x0300 | _ \<Rightarrow> True"
  shows "\<exists>ms. fragment_slice f ty ver bs = Ret ms \<and> concat (map pm_payload ms) = bs
    \<and> (\<forall>m \<in> set ms. pm_payload m \<noteq> [] \<and> length (pm_payload m) \<le> max_frag f)
    \<and> (\<forall>segs. concat segs = concat (map (\<lambda>m. opaque_encode (into_unencrypted_opaque m)) ms) \<longrightarrow>
         foldl (feed opaque_step) ([], None, (), []) segs = (map into_unencrypted_opaque ms, None, (), []))"
proof -
  obtain ms where ms: "fragment_slice f ty ver bs = Ret ms" "concat (map pm_payload ms) = bs"
    "\<forall>m \<in> set ms. pm_typ m = ty \<and> pm_version m = ver \<and> pm_payload m \<noteq> [] \<and> length (pm_payload m) \<le> max_frag f"
    using fragment_slice_exact [OF assms(1), of ty ver bs] by blast
  let ?om = "map into_unencrypted_opaque ms"
  have ok: "ok_stream (\<lambda>u. opaque_ok) (\<lambda>u m. ()) () ?om"
  proof -
    have "opaque_ok m" if "m \<in> set ?om" for m
      using that ms(3) assms by (fastforce simp: opaque_ok_def into_unencrypted_opaque_def frag_ok_def MAX_FRAGMENT_LEN_def)
    moreover have "(\<forall>m \<in> set xs. opaque_ok m) \<Longrightarrow> ok_stream (\<lambda>u. opaque_ok) (\<lambda>u m. ()) () xs" for xs
      by (induction xs) auto
    ultimately show ?thesis by blast
  qed
  have enc: "enc_stream (\<lambda>u. opaque_encode) (\<lambda>u m. ()) () xs = concat (map opaque_encode xs)" for xs
    by (induction xs) auto
  have "drain_all opaque_step () (concat (map opaque_encode ?om)) = (?om, None, (), [])"
    using opaque_stream.drain_stream [where ok = "\<lambda>u. opaque_ok" and enc = "\<lambda>u. opaque_encode" and nxt = "\<lambda>u m. ()" and rest = "[]",
        OF _ ok] opaque_step_encode opaque_stream.drain_all_step [of "()" "[]"] opaque_stream.idle
    by (simp add: enc)
  then have "foldl (feed opaque_step) ([], None, (), []) segs = (?om, None, (), [])"
    if "concat segs = concat (map (\<lambda>m. opaque_encode (into_unencrypted_opaque m)) ms)" for segs
    using opaque_stream.chunk_independent [of "()" segs] that by (simp add: comp_def)
  then show ?thesis
    using ms by blast
qed

end
