(* ===== verification/Rustls_Record_Layer.thy ===== *)
theory Rustls_Record_Layer
  imports Rustls_Messages Tls_Crypto
begin

text \<open>
  Record protection in the TLS library: nonces and associated data (\<open>rustls-reality/rustls/src/crypto/cipher.rs\<close>), the encrypter and
  the decrypter of TLS 1.3 (\<open>crypto/ring/tls13.rs\<close>), and the record layer that counts the records (\<open>record_layer.rs\<close>).

  The AEAD is the one of the record \<open>prims\<close>, with a tag of 16 bytes as all suites of the library have. A boxed encrypter is
  the key and IV it was built from, or the one that does not work. Debug assertions are not part of a
  release build; \<open>assert!\<close> and \<open>unwrap\<close> are, and panic.
\<close>

section \<open>Nonces and associated data\<close>

definition NONCE_LEN :: nat where
  "NONCE_LEN = 12"

definition rl_nonce :: "bytes \<Rightarrow> u64 \<Rightarrow> bytes" where
  "rl_nonce iv seq =
     (let nonce = take 4 (replicate NONCE_LEN 0) @ u64_be seq in map2 (XOR) nonce iv)"

definition make_tls13_aad :: "nat \<Rightarrow> bytes" where
  "make_tls13_aad payload_len =
     [ct_get_u8 CT_ApplicationData, ucast (drop_bit 8 (pv_get_u16 PV_TLSv1_2)), ucast (pv_get_u16 PV_TLSv1_2 AND 0xff),
      word_of_nat (drop_bit 8 payload_len), word_of_nat (payload_len AND 0xff)]"

section \<open>The encrypter and the decrypter\<close>

datatype message_encrypter = InvalidMessageEncrypter | Tls13MessageEncrypter bytes bytes
datatype message_decrypter = InvalidMessageDecrypter | Tls13MessageDecrypter bytes bytes

fun encrypted_payload_len :: "message_encrypter \<Rightarrow> nat \<Rightarrow> nat" where
  "encrypted_payload_len InvalidMessageEncrypter payload_len = payload_len"
| "encrypted_payload_len (Tls13MessageEncrypter enc_key iv) payload_len = payload_len + 1 + tag_len"

fun rl_encrypt :: "prims \<Rightarrow> message_encrypter \<Rightarrow> plain_message \<Rightarrow> u64 \<Rightarrow> (rl_error, opaque_message) outcome" where
  "rl_encrypt c InvalidMessageEncrypter msg seq = Err EncryptError"
| "rl_encrypt c (Tls13MessageEncrypter enc_key iv) msg seq =
     (let total_len = encrypted_payload_len (Tls13MessageEncrypter enc_key iv) (length (pm_payload msg));
          payload = pm_payload msg @ [ct_get_u8 (pm_typ msg)];
          nonce = rl_nonce iv seq;
          aad = make_tls13_aad total_len in
      bnd (ok_or EncryptError (aead_seal c enc_key nonce aad payload)) (\<lambda>payload.
      Ret \<lparr>om_typ = CT_ApplicationData, om_version = PV_TLSv1_2, om_payload = payload\<rparr>))"

fun rl_decrypt :: "prims \<Rightarrow> message_decrypter \<Rightarrow> opaque_message \<Rightarrow> u64 \<Rightarrow> (rl_error, plain_message) outcome" where
  "rl_decrypt c InvalidMessageDecrypter msg seq = Err DecryptError"
| "rl_decrypt c (Tls13MessageDecrypter dec_key iv) msg seq =
     bnd (guard (length (om_payload msg) < tag_len) DecryptError) (\<lambda>_.
     let nonce = rl_nonce iv seq;
         aad = make_tls13_aad (length (om_payload msg)) in
     bnd (ok_or DecryptError (aead_open c dec_key nonce aad (om_payload msg))) (\<lambda>plain.
     into_tls13_unpadded_message (msg \<lparr>om_payload := plain\<rparr>)))"

section \<open>The record layer\<close>

definition SEQ_SOFT_LIMIT :: u64 where
  "SEQ_SOFT_LIMIT = 0xffffffffffff0000"

definition SEQ_HARD_LIMIT :: u64 where
  "SEQ_HARD_LIMIT = 0xfffffffffffffffe"

datatype direction_state = DsInvalid | DsPrepared | DsActive

record record_layer =
  rl_encrypter :: message_encrypter
  rl_decrypter :: message_decrypter
  rl_write_seq :: u64
  rl_read_seq :: u64
  rl_has_decrypted :: bool
  rl_encrypt_state :: direction_state
  rl_decrypt_state :: direction_state
  rl_trial_len :: "nat option"

record decrypted =
  dc_want_close :: bool
  dc_plaintext :: plain_message

definition record_layer_new :: record_layer where
  "record_layer_new = \<lparr>rl_encrypter = InvalidMessageEncrypter, rl_decrypter = InvalidMessageDecrypter,
     rl_write_seq = 0, rl_read_seq = 0, rl_has_decrypted = False,
     rl_encrypt_state = DsInvalid, rl_decrypt_state = DsInvalid, rl_trial_len = None\<rparr>"

definition doing_trial_decryption :: "record_layer \<Rightarrow> nat \<Rightarrow> bool \<times> record_layer" where
  "doing_trial_decryption self requested =
     (case rl_trial_len self of
        Some v \<Rightarrow> if requested \<le> v then (True, self \<lparr>rl_trial_len := Some (v - requested)\<rparr>) else (False, self)
      | None \<Rightarrow> (False, self))"

definition decrypt_incoming ::
  "prims \<Rightarrow> record_layer \<Rightarrow> opaque_message \<Rightarrow> (rl_error, decrypted option) outcome \<times> record_layer" where
  "decrypt_incoming c self encr =
     (if rl_decrypt_state self \<noteq> DsActive then
        (Ret (Some \<lparr>dc_want_close = False, dc_plaintext = into_plain_message encr\<rparr>), self)
      else
        let want_close_before_decrypt = (rl_read_seq self = SEQ_SOFT_LIMIT);
            encrypted_len = length (om_payload encr) in
        (case rl_decrypt c (rl_decrypter self) encr (rl_read_seq self) of
           Ret plaintext \<Rightarrow>
             (Ret (Some \<lparr>dc_want_close = want_close_before_decrypt, dc_plaintext = plaintext\<rparr>),
              self \<lparr>rl_read_seq := rl_read_seq self + 1, rl_has_decrypted := True\<rparr>)
         | Err err \<Rightarrow>
             if err = DecryptError then
               (case doing_trial_decryption self encrypted_len of
                  (True, self') \<Rightarrow> (Ret None, self')
                | (False, self') \<Rightarrow> (Err err, self'))
             else (Err err, self)
         | Panic \<Rightarrow> (Panic, self)))"

definition wants_close_before_encrypt :: "record_layer \<Rightarrow> bool" where
  "wants_close_before_encrypt self \<longleftrightarrow> rl_write_seq self = SEQ_SOFT_LIMIT"

definition encrypt_exhausted :: "record_layer \<Rightarrow> bool" where
  "encrypt_exhausted self \<longleftrightarrow> rl_write_seq self \<ge> SEQ_HARD_LIMIT"

definition is_encrypting :: "record_layer \<Rightarrow> bool" where
  "is_encrypting self \<longleftrightarrow> rl_encrypt_state self = DsActive"

definition encrypt_outgoing ::
  "prims \<Rightarrow> record_layer \<Rightarrow> plain_message \<Rightarrow> (rl_error, opaque_message \<times> record_layer) outcome" where
  "encrypt_outgoing c self plain =
     (if encrypt_exhausted self then Panic
      else
        let seq = rl_write_seq self; self = self \<lparr>rl_write_seq := rl_write_seq self + 1\<rparr> in
        (case rl_encrypt c (rl_encrypter self) plain seq of
           Ret em \<Rightarrow> Ret (em, self)
         | _ \<Rightarrow> Panic))"

definition prepare_message_encrypter :: "record_layer \<Rightarrow> message_encrypter \<Rightarrow> record_layer" where
  "prepare_message_encrypter self cipher =
     self \<lparr>rl_encrypter := cipher, rl_write_seq := 0, rl_encrypt_state := DsPrepared\<rparr>"

definition prepare_message_decrypter :: "record_layer \<Rightarrow> message_decrypter \<Rightarrow> record_layer" where
  "prepare_message_decrypter self cipher =
     self \<lparr>rl_decrypter := cipher, rl_read_seq := 0, rl_decrypt_state := DsPrepared\<rparr>"

definition start_encrypting :: "record_layer \<Rightarrow> record_layer" where
  "start_encrypting self = self \<lparr>rl_encrypt_state := DsActive\<rparr>"

definition start_decrypting :: "record_layer \<Rightarrow> record_layer" where
  "start_decrypting self = self \<lparr>rl_decrypt_state := DsActive\<rparr>"

definition set_message_encrypter :: "record_layer \<Rightarrow> message_encrypter \<Rightarrow> record_layer" where
  "set_message_encrypter self cipher = start_encrypting (prepare_message_encrypter self cipher)"

definition set_message_decrypter :: "record_layer \<Rightarrow> message_decrypter \<Rightarrow> record_layer" where
  "set_message_decrypter self cipher =
     (start_decrypting (prepare_message_decrypter self cipher)) \<lparr>rl_trial_len := None\<rparr>"

definition set_message_decrypter_with_trial_decryption ::
  "record_layer \<Rightarrow> message_decrypter \<Rightarrow> nat \<Rightarrow> record_layer" where
  "set_message_decrypter_with_trial_decryption self cipher max_length =
     (start_decrypting (prepare_message_decrypter self cipher)) \<lparr>rl_trial_len := Some max_length\<rparr>"

definition finish_trial_decryption :: "record_layer \<Rightarrow> record_layer" where
  "finish_trial_decryption self = self \<lparr>rl_trial_len := None\<rparr>"

section \<open>What the theorems speak about\<close>

text \<open>The calls a connection makes on the sending side, and for every record that is sealed the number of the
  encrypter in use and the nonce.\<close>

datatype seal_call = SealEncrypt plain_message | SealSet message_encrypter | SealPrepare message_encrypter | SealStart

fun enc_nonce :: "message_encrypter \<Rightarrow> u64 \<Rightarrow> bytes" where
  "enc_nonce InvalidMessageEncrypter seq = []"
| "enc_nonce (Tls13MessageEncrypter key iv) seq = rl_nonce iv seq"

fun enc_ok :: "message_encrypter \<Rightarrow> bool" where
  "enc_ok InvalidMessageEncrypter = True"
| "enc_ok (Tls13MessageEncrypter key iv) = (length iv = 12)"

fun seal_call_ok :: "seal_call \<Rightarrow> bool" where
  "seal_call_ok (SealSet e) = enc_ok e"
| "seal_call_ok (SealPrepare e) = enc_ok e"
| "seal_call_ok _ = True"

fun seal_step ::
  "prims \<Rightarrow> nat \<times> record_layer \<Rightarrow> seal_call \<Rightarrow> (rl_error, (nat \<times> bytes) list \<times> nat \<times> record_layer) outcome" where
  "seal_step c (epoch, s) (SealEncrypt m) =
     bnd (encrypt_outgoing c s m) (\<lambda>(em, s'). Ret ([(epoch, enc_nonce (rl_encrypter s) (rl_write_seq s))], epoch, s'))"
| "seal_step c (epoch, s) (SealSet e) = Ret ([], Suc epoch, set_message_encrypter s e)"
| "seal_step c (epoch, s) (SealPrepare e) = Ret ([], Suc epoch, prepare_message_encrypter s e)"
| "seal_step c (epoch, s) SealStart = Ret ([], epoch, start_encrypting s)"

fun seal_run ::
  "prims \<Rightarrow> nat \<times> record_layer \<Rightarrow> seal_call list \<Rightarrow> (rl_error, (nat \<times> bytes) list \<times> nat \<times> record_layer) outcome" where
  "seal_run c st [] = Ret ([], st)"
| "seal_run c st (x # xs) =
     bnd (seal_step c st x) (\<lambda>(used, st'). bnd (seal_run c st' xs) (\<lambda>(used', st''). Ret (used @ used', st'')))"

text \<open>Two ends of a connection: what one seals, the other opens with the same key, and they have counted as many records.\<close>

definition in_step :: "record_layer \<Rightarrow> record_layer \<Rightarrow> bool" where
  "in_step a b \<longleftrightarrow> (\<exists>key iv. rl_encrypter a = Tls13MessageEncrypter key iv \<and> rl_decrypter b = Tls13MessageDecrypter key iv
     \<and> length iv = 12) \<and> rl_decrypt_state b = DsActive \<and> rl_read_seq b = rl_write_seq a"

section \<open>Lemmas\<close>

lemma rl_nonce_bytes: "rl_nonce iv seq = nonce_bytes iv seq"
proof -
  have "map2 (XOR) xs ys = map2 (XOR) ys xs" for xs ys :: bytes
    by (induction xs ys rule: list_induct2') (simp_all add: xor.commute)
  then show ?thesis
    by (simp add: rl_nonce_def nonce_bytes_def NONCE_LEN_def)
qed

lemma tls13_aad_header: "n < 65536 \<Longrightarrow> make_tls13_aad n = record_header n"
proof -
  assume n: "n < 65536"
  have "ucast (drop_bit 8 (word_of_nat n :: u16)) = (word_of_nat (drop_bit 8 n) :: u8)"
    by (rule bit_word_eqI) (use n in \<open>auto simp: bit_simps\<close>)
  moreover have "ucast (word_of_nat n :: u16) = (word_of_nat (n AND 0xff) :: u8)"
  proof (rule bit_word_eqI)
    fix i assume "i < LENGTH(8)"
    moreover have "bit (0xff :: nat) i \<longleftrightarrow> i < 8"
      using bit_mask_iff [of 8 i, where 'a = nat] by (simp add: mask_eq_exp_minus_1)
    ultimately show "bit (ucast (word_of_nat n :: u16) :: u8) i = bit (word_of_nat (n AND 0xff) :: u8) i"
      by (auto simp: bit_simps)
  qed
  ultimately show ?thesis
    by (simp add: make_tls13_aad_def record_header_def u16_be_def)
qed

lemma seal_Some:
  assumes "aead_laws c" "length iv = 12" "length p \<le> 18000"
  shows "\<exists>s. aead_seal c key (rl_nonce iv seq) aad p = Some s \<and> length s = length p + 16"
proof -
  have "length (rl_nonce iv seq) = 12" "length p \<le> 68719476704"
    using assms(2,3) by (simp_all add: rl_nonce_bytes)
  then show ?thesis
    using assms(1) unfolding aead_laws_def by blast
qed

lemma rl_encrypt_Ret:
  assumes "aead_laws c" "length iv = 12" "length (pm_payload m) \<le> MAX_FRAGMENT_LEN"
  shows "\<exists>s. rl_encrypt c (Tls13MessageEncrypter key iv) m seq = Ret \<lparr>om_typ = CT_ApplicationData, om_version = PV_TLSv1_2, om_payload = s\<rparr>
    \<and> aead_seal c key (rl_nonce iv seq) (make_tls13_aad (length (pm_payload m) + 17)) (pm_payload m @ [ct_get_u8 (pm_typ m)]) = Some s
    \<and> length s = length (pm_payload m) + 17"
  using seal_Some [OF assms(1,2), of "pm_payload m @ [ct_get_u8 (pm_typ m)]" key seq "make_tls13_aad (length (pm_payload m) + 17)"] assms(3)
  by (auto simp: tag_len_def MAX_FRAGMENT_LEN_def add.commute [of "length (pm_payload m)" 17])

lemma rl_decrypt_encrypt:
  assumes "aead_laws c" "length iv = 12" "length (pm_payload m) \<le> MAX_FRAGMENT_LEN" "ct_get_u8 (pm_typ m) \<noteq> 0"
    and "rl_encrypt c (Tls13MessageEncrypter key iv) m seq = Ret em"
  shows "rl_decrypt c (Tls13MessageDecrypter key iv) em seq =
    Ret \<lparr>pm_typ = ct_from (ct_get_u8 (pm_typ m)), pm_version = PV_TLSv1_3, pm_payload = pm_payload m\<rparr>"
proof -
  obtain s where s: "em = \<lparr>om_typ = CT_ApplicationData, om_version = PV_TLSv1_2, om_payload = s\<rparr>"
    "aead_seal c key (rl_nonce iv seq) (make_tls13_aad (length (pm_payload m) + 17)) (pm_payload m @ [ct_get_u8 (pm_typ m)]) = Some s"
    "length s = length (pm_payload m) + 17"
    using rl_encrypt_Ret [OF assms(1-3), of key seq] assms(5) by auto
  have "aead_open c key (rl_nonce iv seq) (make_tls13_aad (length s)) s = Some (pm_payload m @ ct_get_u8 (pm_typ m) # replicate 0 0)"
    using assms(1) s unfolding aead_laws_def by simp
  then show ?thesis
    using s unpadded_exact [OF assms(4,3), of 0] assms(3) by (simp add: tag_len_def)
qed

lemma encrypt_outgoing_Ret:
  "encrypt_outgoing c self plain = Ret (em, self') \<longleftrightarrow>
    \<not> encrypt_exhausted self \<and> rl_encrypt c (rl_encrypter self) plain (rl_write_seq self) = Ret em
    \<and> self' = self \<lparr>rl_write_seq := rl_write_seq self + 1\<rparr>"
  by (auto simp: encrypt_outgoing_def Let_def split: outcome.splits)

lemma in_step_roundtrip:
  assumes "aead_laws c" "in_step a b" "length (pm_payload m) \<le> MAX_FRAGMENT_LEN" "ct_get_u8 (pm_typ m) \<noteq> 0" "\<not> encrypt_exhausted a"
  shows "\<exists>em a' b'. encrypt_outgoing c a m = Ret (em, a') \<and>
    decrypt_incoming c b em = (Ret (Some \<lparr>dc_want_close = (rl_read_seq b = SEQ_SOFT_LIMIT),
      dc_plaintext = \<lparr>pm_typ = ct_from (ct_get_u8 (pm_typ m)), pm_version = PV_TLSv1_3, pm_payload = pm_payload m\<rparr>\<rparr>), b')
    \<and> in_step a' b' \<and> om_typ em = CT_ApplicationData \<and> om_version em = PV_TLSv1_2 \<and> length (om_payload em) = length (pm_payload m) + 17
    \<and> rl_write_seq a' = rl_write_seq a + 1"
proof -
  obtain key iv where k: "rl_encrypter a = Tls13MessageEncrypter key iv" "rl_decrypter b = Tls13MessageDecrypter key iv"
    "length iv = 12" "rl_decrypt_state b = DsActive" "rl_read_seq b = rl_write_seq a"
    using assms(2) by (auto simp: in_step_def)
  obtain em where em: "rl_encrypt c (Tls13MessageEncrypter key iv) m (rl_write_seq a) = Ret em"
    "om_typ em = CT_ApplicationData" "om_version em = PV_TLSv1_2" "length (om_payload em) = length (pm_payload m) + 17"
    using rl_encrypt_Ret [OF assms(1) k(3) assms(3), of key "rl_write_seq a"] by auto
  note d = rl_decrypt_encrypt [OF assms(1) k(3) assms(3,4) em(1)]
  have e: "encrypt_outgoing c a m = Ret (em, a \<lparr>rl_write_seq := rl_write_seq a + 1\<rparr>)"
    using em(1) k(1) assms(5) by (simp add: encrypt_outgoing_Ret)
  show ?thesis
    by (rule exI [of _ em], rule exI [of _ "a \<lparr>rl_write_seq := rl_write_seq a + 1\<rparr>"],
        rule exI [of _ "b \<lparr>rl_read_seq := rl_read_seq b + 1, rl_has_decrypted := True\<rparr>"])
      (use e d em k in \<open>auto simp: decrypt_incoming_def Let_def in_step_def\<close>)
qed

lemma enc_nonce_inject:
  "rl_encrypt c e m s = Ret em \<Longrightarrow> enc_ok e \<Longrightarrow> enc_nonce e s = enc_nonce e t \<Longrightarrow> s = t"
  by (cases e) (simp_all add: rl_nonce_bytes nonce_bytes_inject)

lemma not_exhausted_Suc:
  assumes "\<not> encrypt_exhausted s"
  shows "rl_write_seq s < rl_write_seq s + 1"
proof -
  have "unat (rl_write_seq s) < 18446744073709551614"
    using assms by (simp add: encrypt_exhausted_def SEQ_HARD_LIMIT_def not_le word_less_nat_alt)
  then show ?thesis
    by (simp add: word_less_nat_alt unat_word_ariths)
qed

lemma seal_run_distinct:
  "seal_run c (e, s) xs = Ret (used, e', s') \<Longrightarrow> enc_ok (rl_encrypter s) \<Longrightarrow> list_all seal_call_ok xs \<Longrightarrow>
    distinct used \<and> (\<forall>(ep, n) \<in> set used. e \<le> ep \<and> (ep = e \<longrightarrow> (\<exists>q \<ge> rl_write_seq s. n = enc_nonce (rl_encrypter s) q)))"
proof (induction xs arbitrary: e s used)
  case (Cons x xs)
  obtain u1 e1 s1 u2 where 1: "seal_step c (e, s) x = Ret (u1, e1, s1)" and 2: "seal_run c (e1, s1) xs = Ret (u2, e', s')"
    and u: "used = u1 @ u2"
    using Cons.prems(1) by (auto simp: bnd_Ret_iff)
  show ?case
  proof (cases x)
    case (SealEncrypt m)
    then obtain em where em: "encrypt_outgoing c s m = Ret (em, s1)" "e1 = e"
      "u1 = [(e, enc_nonce (rl_encrypter s) (rl_write_seq s))]"
      using 1 by (auto simp: bnd_Ret_iff)
    then have n: "rl_write_seq s < rl_write_seq s1" "rl_encrypter s1 = rl_encrypter s"
      "rl_encrypt c (rl_encrypter s) m (rl_write_seq s) = Ret em"
      using not_exhausted_Suc [of s] by (auto simp: encrypt_outgoing_Ret)
    have IH: "distinct u2" "\<And>ep n. (ep, n) \<in> set u2 \<Longrightarrow>
        e \<le> ep \<and> (ep = e \<longrightarrow> (\<exists>q \<ge> rl_write_seq s1. n = enc_nonce (rl_encrypter s) q))"
      using Cons.IH [OF 2] Cons.prems em(2) n(2) by auto
    have "(e, enc_nonce (rl_encrypter s) (rl_write_seq s)) \<notin> set u2"
      using IH(2) enc_nonce_inject [OF n(3) Cons.prems(2)] n(1) by (metis leD)
    moreover have "\<exists>q \<ge> rl_write_seq s. n = enc_nonce (rl_encrypter s) q" if mem: "(e, n) \<in> set u2" for n
    proof -
      obtain q where "rl_write_seq s1 \<le> q" "n = enc_nonce (rl_encrypter s) q" using IH(2) [OF mem] by blast
      then show ?thesis using order.strict_trans2 [OF n(1), of q] less_imp_le by blast
    qed
    ultimately show ?thesis
      using IH u em by auto
  qed (use 1 Cons.IH [OF 2] Cons.prems u in
    \<open>force simp: set_message_encrypter_def prepare_message_encrypter_def start_encrypting_def\<close>)+
qed simp

text \<open>The hand-written record protection and the one of the library produce the same records, and what the library opens the
  hand-written one opens to the same message.\<close>

lemma rl_encrypt_wire:
  assumes "aead_laws c" "keys_wf k" "length pt \<le> MAX_FRAGMENT_LEN"
  shows "\<exists>em. rl_encrypt c (Tls13MessageEncrypter (server_write_key k) (server_iv k))
      \<lparr>pm_typ = ct_from t, pm_version = v, pm_payload = pt\<rparr> seq = Ret em
    \<and> encrypt_server_record c k seq pt t = Ret (opaque_encode em)"
proof -
  let ?m = "\<lparr>pm_typ = ct_from t, pm_version = v, pm_payload = pt\<rparr>"
  have iv: "length (server_iv k) = 12" using assms(2) by (simp add: keys_wf_def)
  obtain s where s: "rl_encrypt c (Tls13MessageEncrypter (server_write_key k) (server_iv k)) ?m seq
      = Ret \<lparr>om_typ = CT_ApplicationData, om_version = PV_TLSv1_2, om_payload = s\<rparr>"
    "aead_seal c (server_write_key k) (rl_nonce (server_iv k) seq) (make_tls13_aad (length pt + 17)) (pt @ [t]) = Some s"
    "length s = length pt + 17"
    using rl_encrypt_Ret [OF assms(1) iv, of ?m "server_write_key k" seq] assms(3) by auto
  have "make_tls13_aad (length pt + 17) = record_header (length pt + 17)"
    using assms(3) by (intro tls13_aad_header) (simp add: MAX_FRAGMENT_LEN_def)
  then have "encrypt_server_record c k seq pt t = Ret (record_header (length pt + 17) @ s)"
    using s(2,3) iv by (simp add: encrypt_server_record_def rl_nonce_bytes tag_len_def Let_def add.commute [of 17])
  then show ?thesis
    using s by (simp add: record_header_def opaque_encode_def u16_be_def)
qed

lemma rl_decrypt_agrees:
  assumes "aead_laws c" "keys_wf k" "length (om_payload em) < 65536"
    and "rl_decrypt c (Tls13MessageDecrypter (client_write_key k) (client_iv k)) em seq = Ret p"
  shows "\<exists>buf. decrypt_client_record c k seq (record_header (length (om_payload em))) (om_payload em)
      = Ret (ct_get_u8 (pm_typ p), length (pm_payload p), buf) \<and> take (length (pm_payload p)) buf = pm_payload p"
proof -
  have iv: "length (client_iv k) = 12" using assms(2) by (simp add: keys_wf_def)
  obtain plain where o: "aead_open c (client_write_key k) (rl_nonce (client_iv k) seq)
      (make_tls13_aad (length (om_payload em))) (om_payload em) = Some plain"
    and u: "into_tls13_unpadded_message (em \<lparr>om_payload := plain\<rparr>) = Ret p"
    using assms(4) by (auto simp: bnd_Ret_iff Let_def)
  obtain n where n: "plain = pm_payload p @ ct_get_u8 (pm_typ p) # replicate n 0" "ct_get_u8 (pm_typ p) \<noteq> 0"
    using unpadded_Ret [OF u] by auto
  show ?thesis
    using decrypt_of_open [OF iv, of c seq "record_header (length (om_payload em))" "om_payload em" "pm_payload p" "ct_get_u8 (pm_typ p)" n]
      o n tls13_aad_header [OF assms(3)] by (simp add: rl_nonce_bytes)
qed

section \<open>Properties\<close>



text \<open>C27. The two implementations of TLS 1.3 record protection in the repository interoperate: on the same key, IV and sequence
  number the hand-written server and the TLS library produce the same bytes for the same message, and a record that
  the library opens is opened by the hand-written code to the same content type and content.\<close>

theorem records_interoperate:
  assumes "aead_laws c" "keys_wf k"
  shows "(length pt \<le> MAX_FRAGMENT_LEN \<longrightarrow>
      (\<exists>em. rl_encrypt c (Tls13MessageEncrypter (server_write_key k) (server_iv k))
          \<lparr>pm_typ = ct_from t, pm_version = v, pm_payload = pt\<rparr> seq = Ret em
        \<and> encrypt_server_record c k seq pt t = Ret (opaque_encode em)))
    \<and> (length (om_payload em') < 65536 \<longrightarrow>
      rl_decrypt c (Tls13MessageDecrypter (client_write_key k) (client_iv k)) em' seq = Ret p \<longrightarrow>
      (\<exists>buf. decrypt_client_record c k seq (record_header (length (om_payload em'))) (om_payload em')
          = Ret (ct_get_u8 (pm_typ p), length (pm_payload p), buf) \<and> take (length (pm_payload p)) buf = pm_payload p))"
  using rl_encrypt_wire [OF assms] rl_decrypt_agrees [OF assms] by blast

theorem records_interoperate_witness:
  "\<exists>k em buf. rl_encrypt sample_prims (Tls13MessageEncrypter (server_write_key k) (server_iv k))
      \<lparr>pm_typ = ct_from 23, pm_version = PV_TLSv1_2, pm_payload = [1, 2, 3]\<rparr> 5 = Ret em
    \<and> encrypt_server_record sample_prims k 5 [1, 2, 3] 23 = Ret (opaque_encode em)
    \<and> decrypt_client_record sample_prims (mirror k) 5 (record_header (length (om_payload em))) (om_payload em)
        = Ret (23, 3, buf) \<and> take 3 buf = [1, 2, 3]"
proof -
  define k where "k = sample_keys"
  have k: "keys_wf k" "keys_wf (mirror k)"
    using traffic_keys_wf [OF sample_hkdf_laws, of "[1, 2]" "[3, 4]"] by (simp_all add: k_def sample_keys_def keys_wf_def mirror_def)
  let ?m = "\<lparr>pm_typ = ct_from 23, pm_version = PV_TLSv1_2, pm_payload = [1, 2, 3]\<rparr>"
  obtain em where em: "rl_encrypt sample_prims (Tls13MessageEncrypter (server_write_key k) (server_iv k)) ?m 5 = Ret em"
    "encrypt_server_record sample_prims k 5 [1, 2, 3] 23 = Ret (opaque_encode em)"
    using records_interoperate [OF sample_aead_laws k(1), of "[1, 2, 3]" 23 PV_TLSv1_2 5] by (auto simp: MAX_FRAGMENT_LEN_def)
  have iv: "length (server_iv k) = 12" using k(1) by (simp add: keys_wf_def)
  have l: "length (om_payload em) < 65536"
    using rl_encrypt_Ret [OF sample_aead_laws iv, of ?m "server_write_key k" 5] em(1) by (auto simp: MAX_FRAGMENT_LEN_def)
  let ?p = "\<lparr>pm_typ = ct_from 23, pm_version = PV_TLSv1_3, pm_payload = [1, 2, 3]\<rparr>"
  have "rl_decrypt sample_prims (Tls13MessageDecrypter (client_write_key (mirror k)) (client_iv (mirror k))) em 5 = Ret ?p"
    using rl_decrypt_encrypt [OF sample_aead_laws iv _ _ em(1)] by (simp add: MAX_FRAGMENT_LEN_def mirror_def)
  then obtain buf where buf: "decrypt_client_record sample_prims (mirror k) 5 (record_header (length (om_payload em))) (om_payload em)
      = Ret (ct_get_u8 (pm_typ ?p), length (pm_payload ?p), buf)" "take (length (pm_payload ?p)) buf = pm_payload ?p"
    using records_interoperate [OF sample_aead_laws k(2), of "[]" 0 PV_TLSv1_2 5 em ?p] l by blast
  show ?thesis
    by (rule exI [of _ k], rule exI [of _ em], rule exI [of _ buf], intro conjI, rule em(1), rule em(2)) (use buf in \<open>simp_all add: numeral_eq_Suc\<close>)
qed

end
