(* ===== verification/Rustls_Deframer.thy ===== *)
theory Rustls_Deframer
  imports Rustls_Record_Layer Streams
begin

text \<open>
  The deframer of the TLS library (\<open>rustls-reality/rustls/src/msgs/deframer.rs\<close>): it collects the bytes of the socket in one flat
  buffer, parses and decrypts records in it, and joins the pieces of a handshake message in place, at the
  front of the same buffer. Every slice and every copy of the code is here with its range check, which panics out of range.

  The specification is a parser of records with two pieces of state, the record layer and the part of a handshake message
  that has been received; the theorems relate the buffer to it.
\<close>

section \<open>State\<close>

text \<open>The ranges of the metadata: \<open>message\<close> starts at 0 throughout, so only its end is kept.\<close>

record hs_meta =
  hm_message_end :: nat
  hm_payload_start :: nat
  hm_payload_end :: nat
  hm_version :: rl_version
  hm_expected_len :: "nat option"
  hm_quic :: bool

record message_deframer =
  df_last_error :: "rl_error option"
  df_buf :: bytes
  df_joining :: "hs_meta option"
  df_used :: nat

record deframed =
  de_want_close :: bool
  de_aligned :: bool
  de_trial_finished :: bool
  de_message :: plain_message

datatype hs_state = HsBlocked | HsComplete nat | HsContinue

definition HEADER_SIZE :: nat where
  "HEADER_SIZE = 1 + 3"

definition MAX_HANDSHAKE_SIZE :: u32 where
  "MAX_HANDSHAKE_SIZE = 0xffff"

definition READ_SIZE :: nat where
  "READ_SIZE = 4096"

definition deframer_default :: message_deframer where
  "deframer_default = \<lparr>df_last_error = None, df_buf = [], df_joining = None, df_used = 0\<rparr>"

section \<open>Operations\<close>

definition payload_size :: "bytes \<Rightarrow> (rl_error, nat option) outcome" where
  "payload_size buf =
     (if length buf < HEADER_SIZE then Ret None
      else
        let header = take HEADER_SIZE buf in
        (case read_u24 (reader_init (drop 1 header)) of
           Ret (len, _) \<Rightarrow>
             if len > MAX_HANDSHAKE_SIZE then Err (RlInvalidMessage HandshakePayloadTooLarge)
             else Ret (Some (HEADER_SIZE + unat len))
         | _ \<Rightarrow> Ret None))"

definition set_err :: "message_deframer \<Rightarrow> rl_error \<Rightarrow> message_deframer" where
  "set_err self err = self \<lparr>df_last_error := Some err\<rparr>"

definition discard :: "message_deframer \<Rightarrow> nat \<Rightarrow> message_deframer" where
  "discard self taken =
     (if taken < df_used self then
        self \<lparr>df_buf := take (df_used self - taken) (drop taken (df_buf self)) @ drop (df_used self - taken) (df_buf self),
              df_used := df_used self - taken\<rparr>
      else if taken = df_used self then self \<lparr>df_used := 0\<rparr>
      else self)"

definition meta_payload_len :: "hs_meta \<Rightarrow> nat" where
  "meta_payload_len meta = hm_payload_end meta - hm_payload_start meta"

definition hs_progress :: "nat \<Rightarrow> hs_meta \<Rightarrow> hs_state" where
  "hs_progress used meta =
     (case hm_expected_len meta of
        Some len \<Rightarrow>
          if len \<le> meta_payload_len meta then HsComplete len
          else if used > hm_message_end meta then HsContinue else HsBlocked
      | None \<Rightarrow> if used > hm_message_end meta then HsContinue else HsBlocked)"

definition append_hs ::
  "message_deframer \<Rightarrow> rl_version \<Rightarrow> bytes \<Rightarrow> nat \<Rightarrow> bool \<Rightarrow> (rl_error, hs_state) outcome \<times> message_deframer" where
  "append_hs self version payload en quic =
     (case df_joining self of
        Some meta \<Rightarrow>
          (case splice (df_buf self) (hm_payload_end meta) (hm_payload_end meta + length payload) payload of
             Ret buf \<Rightarrow>
               let meta = meta \<lparr>hm_message_end := en, hm_payload_end := hm_payload_end meta + length payload\<rparr>;
                   self = self \<lparr>df_buf := buf, df_joining := Some meta\<rparr> in
               if hm_expected_len meta = None then
                 (case bnd (slice buf (hm_payload_start meta) (hm_payload_end meta)) payload_size of
                    Ret n \<Rightarrow>
                      let meta = meta \<lparr>hm_expected_len := n\<rparr> in
                      (Ret (hs_progress (df_used self) meta), self \<lparr>df_joining := Some meta\<rparr>)
                  | Err e \<Rightarrow> (Err e, self)
                  | Panic \<Rightarrow> (Panic, self))
               else (Ret (hs_progress (df_used self) meta), self)
           | Err e \<Rightarrow> (Err e, self)
           | Panic \<Rightarrow> (Panic, self))
      | None \<Rightarrow>
          (case payload_size payload of
             Ret expected_len \<Rightarrow>
               (case splice (df_buf self) 0 (length payload) payload of
                  Ret buf \<Rightarrow>
                    let meta = \<lparr>hm_message_end = en, hm_payload_start = 0, hm_payload_end = length payload,
                          hm_version = version, hm_expected_len = expected_len, hm_quic = quic\<rparr> in
                    (Ret (hs_progress (df_used self) meta), self \<lparr>df_buf := buf, df_joining := Some meta\<rparr>)
                | Err e \<Rightarrow> (Err e, self)
                | Panic \<Rightarrow> (Panic, self))
           | Err e \<Rightarrow> (Err e, self)
           | Panic \<Rightarrow> (Panic, self)))"

definition allowed_plaintext :: "rl_version option \<Rightarrow> record_layer \<Rightarrow> opaque_message \<Rightarrow> bool" where
  "allowed_plaintext negotiated_version rl m =
     (let version_is_tls13 = (negotiated_version = Some PV_TLSv1_3) in
      case om_typ m of
        CT_ChangeCipherSpec \<Rightarrow> True
      | CT_Alert \<Rightarrow> version_is_tls13 \<and> \<not> rl_has_decrypted rl \<and> length (om_payload m) \<le> 2
      | _ \<Rightarrow> False)"

fun deframe_error :: "message_error \<Rightarrow> rl_error" where
  "deframe_error InvalidEmptyPayload = RlInvalidMessage ImInvalidEmptyPayload"
| "deframe_error MessageTooLarge = RlInvalidMessage ImMessageTooLarge"
| "deframe_error InvalidContentType = RlInvalidMessage ImInvalidContentType"
| "deframe_error UnknownProtocolVersion = RlInvalidMessage ImUnknownProtocolVersion"
| "deframe_error _ = RlInvalidMessage MessageTooShort"

text \<open>How the loop of \<open>pop\<close> is left: with a return of the function, or with the length of a complete handshake message.\<close>

datatype loop_exit = ExitReturn "deframed option" | ExitBreak nat

definition loop_start :: "message_deframer \<Rightarrow> loop_exit + nat" where
  "loop_start self =
     (case df_joining self of
        Some meta \<Rightarrow>
          (case hm_expected_len meta of
             Some len \<Rightarrow>
               if len \<le> meta_payload_len meta then Inl (ExitBreak len)
               else if hm_quic meta then Inl (ExitReturn None) else Inr (hm_message_end meta)
           | None \<Rightarrow> if hm_quic meta then Inl (ExitReturn None) else Inr (hm_message_end meta))
      | None \<Rightarrow> Inr 0)"

definition as_deframed :: "plain_message \<Rightarrow> deframed" where
  "as_deframed m = \<lparr>de_want_close = False, de_aligned = True, de_trial_finished = False, de_message = m\<rparr>"

text \<open>The bytes of the buffer that have not been processed.\<close>

definition loop_pending :: "message_deframer \<Rightarrow> nat" where
  "loop_pending self = df_used self - (case df_joining self of Some meta \<Rightarrow> hm_message_end meta | None \<Rightarrow> 0)"

lemma append_hs_continue:
  assumes "append_hs self version payload en quic = (Ret HsContinue, self')"
  shows "df_used self' = df_used self \<and> en < df_used self \<and> (\<exists>meta. df_joining self' = Some meta \<and> hm_message_end meta = en)"
  using assms
  by (auto simp: append_hs_def Let_def hs_progress_def split: option.splits outcome.splits if_splits)

lemma opaque_read_used:
  "opaque_read (reader_init buf) = Ret (m, rd) \<Longrightarrow> 5 \<le> reader_used rd \<and> reader_used rd \<le> length buf"
  using opaque_read_Ret [of buf m rd] by auto

function pop_loop ::
  "prims \<Rightarrow> rl_version option \<Rightarrow> message_deframer \<Rightarrow> record_layer
     \<Rightarrow> (rl_error, loop_exit) outcome \<times> message_deframer \<times> record_layer" where
  "pop_loop c nv self rl =
     (case loop_start self of
        Inl ex \<Rightarrow> (Ret ex, self, rl)
      | Inr start \<Rightarrow>
          (case (slice (df_buf self) start (df_used self) :: (rl_error, bytes) outcome) of
             Ret view \<Rightarrow>
               (case opaque_read (reader_init view) of
                  Err e \<Rightarrow>
                    if e = TooShortForHeader \<or> e = TooShortForLength then (Ret (ExitReturn None), self, rl)
                    else (Err (deframe_error e), set_err self (deframe_error e), rl)
                | Panic \<Rightarrow> (Panic, self, rl)
                | Ret (m, rd) \<Rightarrow>
                    let en = start + reader_used rd in
                    if df_joining self = None \<and> allowed_plaintext nv rl m then
                      (Ret (ExitReturn (Some (as_deframed (into_plain_message m)))), discard self en, rl)
                    else
                      (case decrypt_incoming c rl m of
                         (Ret (Some decr), rl') \<Rightarrow>
                           let msg = dc_plaintext decr in
                           if df_joining self \<noteq> None \<and> pm_typ msg \<noteq> CT_Handshake then
                             (Err (PeerMisbehaved PM_MessageInterleavedWithHandshakeMessage),
                              set_err self (PeerMisbehaved PM_MessageInterleavedWithHandshakeMessage), rl')
                           else if pm_typ msg \<noteq> CT_Handshake then
                             (Ret (ExitReturn (Some (as_deframed msg))), discard self en, rl')
                           else
                             (case append_hs self (pm_version msg) (pm_payload msg) en False of
                                (Ret st, self') \<Rightarrow>
                                  (case st of
                                     HsBlocked \<Rightarrow> (Ret (ExitReturn None), self', rl')
                                   | HsComplete len \<Rightarrow> (Ret (ExitBreak len), self', rl')
                                   | HsContinue \<Rightarrow> pop_loop c nv self' rl')
                              | (Err e, self') \<Rightarrow> (Err e, self', rl')
                              | (Panic, self') \<Rightarrow> (Panic, self', rl'))
                       | (Ret None, rl') \<Rightarrow>
                           if df_joining self \<noteq> None then
                             (Err (PeerMisbehaved PM_RejectedEarlyDataInterleavedWithHandshakeMessage),
                              set_err self (PeerMisbehaved PM_RejectedEarlyDataInterleavedWithHandshakeMessage), rl')
                           else pop_loop c nv (discard self en) rl'
                       | (Err e, rl') \<Rightarrow> (Err e, self, rl')
                       | (Panic, rl') \<Rightarrow> (Panic, self, rl')))
           | _ \<Rightarrow> (Panic, self, rl)))"
  by pat_completeness auto
termination
  by (relation "measure (\<lambda>(c, nv, self, rl). loop_pending self)")
    (auto simp: loop_pending_def loop_start_def slice_def discard_def dest!: append_hs_continue [OF sym] opaque_read_used
      split: option.splits if_splits)

declare pop_loop.simps [simp del]

definition take_message :: "message_deframer \<Rightarrow> nat \<Rightarrow> (rl_error, deframed option) outcome \<times> message_deframer" where
  "take_message self expected_len =
     (case df_joining self of
        None \<Rightarrow> (Panic, self)
      | Some meta \<Rightarrow>
          (case (slice (df_buf self) (hm_payload_start meta) (hm_payload_start meta + expected_len) :: (rl_error, bytes) outcome) of
             Ret payload \<Rightarrow>
               let message = \<lparr>pm_typ = CT_Handshake, pm_version = hm_version meta, pm_payload = payload\<rparr> in
               if meta_payload_len meta > expected_len then
                 let meta = meta \<lparr>hm_payload_start := hm_payload_start meta + expected_len\<rparr>;
                     self = self \<lparr>df_joining := Some meta\<rparr> in
                 (case bnd (slice (df_buf self) (hm_payload_start meta) (hm_payload_end meta)) payload_size of
                    Ret n \<Rightarrow>
                      (Ret (Some \<lparr>de_want_close = False, de_aligned = False, de_trial_finished = True, de_message = message\<rparr>),
                       self \<lparr>df_joining := Some (meta \<lparr>hm_expected_len := n\<rparr>)\<rparr>)
                  | Err e \<Rightarrow> (Err e, self)
                  | Panic \<Rightarrow> (Panic, self))
               else
                 let en = hm_message_end meta in
                 (Ret (Some \<lparr>de_want_close = False, de_aligned = True, de_trial_finished = True, de_message = message\<rparr>),
                  discard (self \<lparr>df_joining := None\<rparr>) en)
           | _ \<Rightarrow> (Panic, self)))"

definition deframer_pop ::
  "prims \<Rightarrow> rl_version option \<Rightarrow> message_deframer \<Rightarrow> record_layer
     \<Rightarrow> (rl_error, deframed option) outcome \<times> message_deframer \<times> record_layer" where
  "deframer_pop c nv self rl =
     (case df_last_error self of
        Some last_err \<Rightarrow> (Err last_err, self, rl)
      | None \<Rightarrow>
          if df_used self = 0 then (Ret None, self, rl)
          else
            (case pop_loop c nv self rl of
               (Ret (ExitReturn d), self', rl') \<Rightarrow> (Ret d, self', rl')
             | (Ret (ExitBreak expected_len), self', rl') \<Rightarrow>
                 (case take_message self' expected_len of (r, self'') \<Rightarrow> (r, self'', rl'))
             | (Err e, self', rl') \<Rightarrow> (Err e, self', rl')
             | (Panic, self', rl') \<Rightarrow> (Panic, self', rl')))"

text \<open>\<open>Vec::resize\<close> with zeros.\<close>

definition vec_resize :: "nat \<Rightarrow> bytes \<Rightarrow> bytes" where
  "vec_resize n xs = take n xs @ replicate (n - length xs) 0"

definition prepare_read :: "message_deframer \<Rightarrow> (rstring, message_deframer) outcome" where
  "prepare_read self =
     (let allow_max = (case df_joining self of Some _ \<Rightarrow> unat MAX_HANDSHAKE_SIZE | None \<Rightarrow> MAX_WIRE_SIZE) in
      bnd (guard (df_used self \<ge> allow_max) (lit ''message buffer full'')) (\<lambda>_.
      let need_capacity = min allow_max (df_used self + READ_SIZE) in
      Ret (if need_capacity > length (df_buf self) then self \<lparr>df_buf := vec_resize need_capacity (df_buf self)\<rparr>
           else if df_used self = 0 \<or> length (df_buf self) > allow_max then
             self \<lparr>df_buf := vec_resize need_capacity (df_buf self)\<rparr>
           else self)))"

text \<open>Reading from a stream; \<open>rd\<close> is the stream's read, with the room there is.\<close>

definition deframer_read ::
  "('s \<Rightarrow> nat \<Rightarrow> bytes \<times> 's) \<Rightarrow> 's \<Rightarrow> message_deframer \<Rightarrow> (rstring, nat) outcome \<times> 's \<times> message_deframer" where
  "deframer_read rd stream self =
     (case prepare_read self of
        Ret self' \<Rightarrow>
          (case rd stream (length (df_buf self') - df_used self') of
             (d, stream') \<Rightarrow>
               (Ret (length d), stream',
                self' \<lparr>df_buf := take (df_used self') (df_buf self') @ d @ drop (df_used self' + length d) (df_buf self'),
                       df_used := df_used self' + length d\<rparr>))
      | Err e \<Rightarrow> (Err e, stream, self)
      | Panic \<Rightarrow> (Panic, stream, self))"

definition deframer_push ::
  "message_deframer \<Rightarrow> rl_version \<Rightarrow> bytes \<Rightarrow> (rl_error, unit) outcome \<times> message_deframer" where
  "deframer_push self version payload =
     (if df_used self > 0 \<and> df_joining self = None then
        (Err (RlGeneral (lit ''cannot push QUIC messages into unrelated connection'')), self)
      else
        (case prepare_read self of
           Err e \<Rightarrow> (Err (RlGeneral e), self)
         | Panic \<Rightarrow> (Panic, self)
         | Ret self' \<Rightarrow>
             let en = df_used self' + length payload in
             (case append_hs self' version payload en True of
                (Ret st, self'') \<Rightarrow> (Ret (), self'' \<lparr>df_used := en\<rparr>)
              | (Err e, self'') \<Rightarrow> (Err e, self'')
              | (Panic, self'') \<Rightarrow> (Panic, self''))))"

definition has_pending :: "message_deframer \<Rightarrow> bool" where
  "has_pending self \<longleftrightarrow> df_used self > 0"

section \<open>The specification\<close>

text \<open>What one record contributes: a message, a piece of a handshake message, or nothing (rejected early data).\<close>

datatype rec_part = RecEmit plain_message | RecPiece plain_message | RecSkip

definition rec_step ::
  "prims \<Rightarrow> rl_version option \<Rightarrow> bool \<Rightarrow> record_layer \<Rightarrow> bytes
     \<Rightarrow> (rl_error, (rec_part \<times> record_layer \<times> bytes) option) outcome" where
  "rec_step c nv joining rl buf =
     (case opaque_read (reader_init buf) of
        Err e \<Rightarrow> if e = TooShortForHeader \<or> e = TooShortForLength then Ret None else Err (deframe_error e)
      | Panic \<Rightarrow> Panic
      | Ret (m, rd) \<Rightarrow>
          let rest = drop (reader_used rd) buf in
          if \<not> joining \<and> allowed_plaintext nv rl m then Ret (Some (RecEmit (into_plain_message m), rl, rest))
          else
            (case decrypt_incoming c rl m of
               (Ret (Some decr), rl') \<Rightarrow>
                 let msg = dc_plaintext decr in
                 if pm_typ msg \<noteq> CT_Handshake then
                   (if joining then Err (PeerMisbehaved PM_MessageInterleavedWithHandshakeMessage) else Ret (Some (RecEmit msg, rl', rest)))
                 else Ret (Some (RecPiece msg, rl', rest))
             | (Ret None, rl') \<Rightarrow> if joining then Err (PeerMisbehaved PM_RejectedEarlyDataInterleavedWithHandshakeMessage) else Ret (Some (RecSkip, rl', rest))
             | (Err e, rl') \<Rightarrow> Err e
             | (Panic, rl') \<Rightarrow> Panic))"

type_synonym hs_join = "(rl_version \<times> bytes) option"

definition absorb :: "hs_join \<Rightarrow> plain_message \<Rightarrow> rl_version \<times> bytes" where
  "absorb join msg = (case join of None \<Rightarrow> (pm_version msg, pm_payload msg) | Some (v, hs) \<Rightarrow> (v, hs @ pm_payload msg))"

definition hs_message :: "rl_version \<Rightarrow> bytes \<Rightarrow> plain_message" where
  "hs_message v bs = \<lparr>pm_typ = CT_Handshake, pm_version = v, pm_payload = bs\<rparr>"

text \<open>Taking one complete handshake message off the joined data; what is left must itself start with an acceptable header.\<close>

definition take_hs :: "rl_version \<Rightarrow> bytes \<Rightarrow> (rl_error, (plain_message \<times> hs_join) option) outcome" where
  "take_hs v hs =
     bnd (payload_size hs) (\<lambda>n.
     case n of
       None \<Rightarrow> Ret None
     | Some len \<Rightarrow>
         if len < length hs then
           bnd (payload_size (drop len hs)) (\<lambda>_. Ret (Some (hs_message v (take len hs), Some (v, drop len hs))))
         else if len = length hs then Ret (Some (hs_message v hs, None))
         else Ret None)"

lemma rec_step_shorter:
  "rec_step c nv joining rl buf = Ret (Some (part, rl', rest)) \<Longrightarrow> length rest < length buf"
  using opaque_read_used [of buf]
  by (fastforce simp: rec_step_def Let_def split: outcome.splits if_splits prod.splits option.splits)

text \<open>One message, from the joined data and the bytes received.\<close>

function spec_pop ::
  "prims \<Rightarrow> rl_version option \<Rightarrow> hs_join \<Rightarrow> record_layer \<Rightarrow> bytes
     \<Rightarrow> (rl_error, plain_message option \<times> hs_join \<times> record_layer \<times> bytes) outcome" where
  "spec_pop c nv join rl buf =
     bnd (case join of None \<Rightarrow> Ret None | Some (v, hs) \<Rightarrow> take_hs v hs) (\<lambda>r.
     case r of
       Some (m, join') \<Rightarrow> Ret (Some m, join', rl, buf)
     | None \<Rightarrow>
         bnd (rec_step c nv (join \<noteq> None) rl buf) (\<lambda>s.
         case s of
           None \<Rightarrow> Ret (None, join, rl, buf)
         | Some (part, rl', rest) \<Rightarrow>
             (case part of
                RecEmit m \<Rightarrow> Ret (Some m, None, rl', rest)
              | RecSkip \<Rightarrow> spec_pop c nv None rl' rest
              | RecPiece m \<Rightarrow> spec_pop c nv (Some (absorb join m)) rl' rest)))"
  by pat_completeness auto
termination
  by (relation "measure (\<lambda>(c, nv, join, rl, buf). length buf)") (auto dest: rec_step_shorter)

declare spec_pop.simps [simp del]

text \<open>What the buffer holds: the joined handshake data, and the bytes of records not processed yet.\<close>

definition df_join :: "message_deframer \<Rightarrow> hs_join" where
  "df_join self =
     map_option (\<lambda>m. (hm_version m, drop (hm_payload_start m) (take (hm_payload_end m) (df_buf self)))) (df_joining self)"

definition df_start :: "message_deframer \<Rightarrow> nat" where
  "df_start self = (case df_joining self of Some m \<Rightarrow> hm_message_end m | None \<Rightarrow> 0)"

definition df_pending :: "message_deframer \<Rightarrow> bytes" where
  "df_pending self = drop (df_start self) (take (df_used self) (df_buf self))"

definition df_invar :: "message_deframer \<Rightarrow> bool" where
  "df_invar self \<longleftrightarrow> df_used self \<le> length (df_buf self) \<and> df_last_error self = None
     \<and> (\<forall>m. df_joining self = Some m \<longrightarrow>
          hm_payload_start m \<le> hm_payload_end m \<and> hm_payload_end m \<le> hm_message_end m \<and> hm_message_end m \<le> df_used self
          \<and> \<not> hm_quic m \<and> 0 < hm_message_end m
          \<and> payload_size (drop (hm_payload_start m) (take (hm_payload_end m) (df_buf self))) = Ret (hm_expected_len m))"

section \<open>Lemmas on sizes\<close>

lemma payload_size_not_panic: "payload_size hs \<noteq> Panic"
  by (auto simp: payload_size_def Let_def split: outcome.splits)

lemma payload_size_long:
  assumes "4 \<le> length hs"
  shows "payload_size hs =
    (let len = be32 0 (hs ! 1) (hs ! 2) (hs ! 3) in
     if len > MAX_HANDSHAKE_SIZE then Err (RlInvalidMessage HandshakePayloadTooLarge) else Ret (Some (4 + unat len)))"
proof -
  obtain a b c d q where "hs = a # b # c # d # q"
    using assms by (auto simp: numeral_eq_Suc Suc_le_length_iff)
  then show ?thesis
    by (simp add: payload_size_def HEADER_SIZE_def read_u24_unread)
qed

lemma payload_size_short: "length hs < 4 \<Longrightarrow> payload_size hs = Ret None"
  by (simp add: payload_size_def HEADER_SIZE_def)

lemma payload_size_Some:
  assumes "payload_size hs = Ret (Some n)"
  shows "4 \<le> n \<and> 4 \<le> length hs \<and> payload_size (hs @ x) = Ret (Some n)"
proof -
  have "4 \<le> length hs"
    using assms payload_size_short [of hs] by (cases "length hs < 4") auto
  then show ?thesis
    using assms by (auto simp: payload_size_long nth_append Let_def split: if_splits)
qed

section \<open>Lemmas on the record layer\<close>

fun dec_ok :: "message_decrypter \<Rightarrow> bool" where
  "dec_ok InvalidMessageDecrypter = True"
| "dec_ok (Tls13MessageDecrypter key iv) = (length iv = 12)"

lemma rl_decrypt_not_panic: "rl_decrypt c e m s \<noteq> Panic"
  by (cases e) (auto simp: into_tls13_unpadded_message_def bnd_Panic_iff Let_def split: prod.splits)

lemma rl_decrypt_length:
  assumes "aead_laws c" "dec_ok e" "rl_decrypt c e m s = Ret p"
  shows "length (pm_payload p) \<le> length (om_payload m)"
proof (cases e)
  case (Tls13MessageDecrypter key iv)
  obtain plain where o: "aead_open c key (rl_nonce iv s) (make_tls13_aad (length (om_payload m))) (om_payload m) = Some plain"
    and u: "into_tls13_unpadded_message (m \<lparr>om_payload := plain\<rparr>) = Ret p"
    using assms(3) Tls13MessageDecrypter by (auto simp: bnd_Ret_iff Let_def)
  have l: "length plain \<le> 16385"
    using u by (auto simp: into_tls13_unpadded_message_def bnd_Ret_iff MAX_FRAGMENT_LEN_def)
  have "aead_seal c key (rl_nonce iv s) (make_tls13_aad (length (om_payload m))) plain = Some (om_payload m)"
    using assms(1) o by (simp add: aead_laws_def)
  then have "length (om_payload m) = length plain + 16"
    using seal_Some [OF assms(1), of iv plain key s "make_tls13_aad (length (om_payload m))"] assms(2) l Tls13MessageDecrypter by auto
  moreover have "length (pm_payload p) \<le> length plain"
    using unpadded_Ret [OF u] by auto
  ultimately show ?thesis by simp
qed (use assms in simp)

lemma decrypt_incoming_not_panic: "fst (decrypt_incoming c rl m) \<noteq> Panic"
  using rl_decrypt_not_panic [of c "rl_decrypter rl" m "rl_read_seq rl"]
  by (auto simp: decrypt_incoming_def Let_def split: outcome.splits prod.splits bool.splits)

lemma decrypt_incoming_length:
  assumes "aead_laws c" "dec_ok (rl_decrypter rl)" "decrypt_incoming c rl m = (Ret (Some d), rl')"
  shows "length (pm_payload (dc_plaintext d)) \<le> length (om_payload m)"
proof (cases "rl_decrypt_state rl = DsActive")
  case True
  then obtain p where "rl_decrypt c (rl_decrypter rl) m (rl_read_seq rl) = Ret p" "dc_plaintext d = p"
    using assms(3) by (auto simp: decrypt_incoming_def Let_def split: outcome.splits if_splits prod.splits bool.splits)
  then show ?thesis
    using rl_decrypt_length [OF assms(1,2)] by simp
next
  case False
  then show ?thesis
    using assms(3) by (auto simp: decrypt_incoming_def into_plain_message_def)
qed

lemma decrypt_incoming_decrypter: "decrypt_incoming c rl m = (r, rl') \<Longrightarrow> rl_decrypter rl' = rl_decrypter rl"
  by (auto simp: decrypt_incoming_def doing_trial_decryption_def Let_def
      split: outcome.splits if_splits prod.splits bool.splits option.splits)

section \<open>Lemmas on the buffer\<close>

lemma discard_spec:
  assumes "df_invar self" "df_joining self = None" "en \<le> df_used self"
  shows "df_invar (discard self en)" "df_joining (discard self en) = None" "df_pending (discard self en) = drop en (df_pending self)"
    "df_used (discard self en) = df_used self - en"
  using assms
  by (auto simp: discard_def df_invar_def df_pending_def df_start_def drop_take min_def)

lemma splice_take:
  "splice xs i j src = Ret ys \<Longrightarrow> j \<le> k \<Longrightarrow> drop k ys = drop k xs \<and> length ys = length xs"
  "splice xs i j src = Ret ys \<Longrightarrow> take i ys = take i xs \<and> take (j - i) (drop i ys) = src"
  by (auto simp: splice_def split: if_splits)

lemma splice_view:
  assumes "ps \<le> pe" "pe + length src \<le> length xs"
  shows "splice xs pe (pe + length src) src = Ret (take pe xs @ src @ drop (pe + length src) xs)"
    "drop ps (take (pe + length src) (take pe xs @ src @ drop (pe + length src) xs)) = drop ps (take pe xs) @ src"
    "pe + length src \<le> en \<Longrightarrow> drop en (take u (take pe xs @ src @ drop (pe + length src) xs)) = drop en (take u xs)"
proof -
  let ?ys = "take pe xs @ src @ drop (pe + length src) xs"
  show "splice xs pe (pe + length src) src = Ret ?ys"
    using assms(2) by (simp add: splice_def)
  show "drop ps (take (pe + length src) ?ys) = drop ps (take pe xs) @ src"
    using assms by (simp add: min_absorb2)
  assume "pe + length src \<le> en"
  then have "drop en ?ys = drop en xs"
    using assms(2) by simp
  then show "drop en (take u ?ys) = drop en (take u xs)"
    by (simp only: drop_take)
qed

text \<open>The state of the joined data after a piece.\<close>

definition hs_state_of :: "nat option \<Rightarrow> nat \<Rightarrow> bool \<Rightarrow> hs_state" where
  "hs_state_of n len left =
     (case n of
        Some k \<Rightarrow> if k \<le> len then HsComplete k else if left then HsContinue else HsBlocked
      | None \<Rightarrow> if left then HsContinue else HsBlocked)"

lemma append_hs_spec:
  assumes inv: "df_invar self" and en: "df_start self + length payload \<le> en" "en \<le> df_used self" "0 < en"
    and ab: "absorb (df_join self) \<lparr>pm_typ = t, pm_version = version, pm_payload = payload\<rparr> = (v, hs)"
  shows "case payload_size hs of
      Ret n \<Rightarrow> (\<exists>self'. append_hs self version payload en False = (Ret (hs_state_of n (length hs) (en < df_used self)), self')
        \<and> df_invar self' \<and> df_join self' = Some (v, hs) \<and> df_pending self' = drop en (take (df_used self) (df_buf self))
        \<and> df_used self' = df_used self \<and> df_start self' = en)
    | Err e \<Rightarrow> (\<exists>self'. append_hs self version payload en False = (Err e, self'))
    | Panic \<Rightarrow> False"
proof (cases "df_joining self")
  case None
  have hs: "v = version" "hs = payload"
    using ab None by (auto simp: absorb_def df_join_def)
  have l: "length payload \<le> length (df_buf self)"
    using inv en None by (simp add: df_invar_def)
  show ?thesis
  proof (cases "payload_size payload")
    case (Ret n)
    let ?m = "\<lparr>hm_message_end = en, hm_payload_start = 0, hm_payload_end = length payload,
        hm_version = version, hm_expected_len = n, hm_quic = False\<rparr>"
    let ?s = "self \<lparr>df_buf := take 0 (df_buf self) @ payload @ drop (0 + length payload) (df_buf self), df_joining := Some ?m\<rparr>"
    have "append_hs self version payload en False = (Ret (hs_progress (df_used self) ?m), ?s)"
      using None Ret l by (simp add: append_hs_def splice_def Let_def)
    moreover have "hs_progress (df_used self) ?m = hs_state_of n (length payload) (en < df_used self)"
      by (cases n) (simp_all add: hs_progress_def hs_state_of_def meta_payload_len_def)
    moreover have "df_pending ?s = drop en (take (df_used self) (df_buf self))"
      using splice_view(3) [of 0 0 payload "df_buf self" en "df_used self"] l en(1) None
      by (simp add: df_pending_def df_start_def)
    moreover have "df_invar ?s"
      using inv en None Ret l by (auto simp: df_invar_def df_start_def)
    ultimately show ?thesis
      using Ret hs by (auto simp: df_join_def df_start_def)
  qed (use None hs payload_size_not_panic in \<open>auto simp: append_hs_def\<close>)
next
  case (Some m)
  let ?pe = "hm_payload_end m" and ?ps = "hm_payload_start m"
  have m: "?ps \<le> ?pe" "?pe \<le> hm_message_end m" "hm_message_end m \<le> df_used self" "\<not> hm_quic m"
    "payload_size (drop ?ps (take ?pe (df_buf self))) = Ret (hm_expected_len m)" "df_used self \<le> length (df_buf self)"
    "df_last_error self = None"
    using inv Some by (auto simp: df_invar_def)
  have hs: "v = hm_version m" "hs = drop ?ps (take ?pe (df_buf self)) @ payload"
    using ab Some by (auto simp: absorb_def df_join_def)
  have l: "?pe + length payload \<le> en" "?pe + length payload \<le> length (df_buf self)"
    using m en Some by (auto simp: df_start_def)
  define buf where "buf = take ?pe (df_buf self) @ payload @ drop (?pe + length payload) (df_buf self)"
  note sv = splice_view [OF m(1) l(2), folded buf_def]
  have lb: "length buf = length (df_buf self)"
    using l(2) by (simp add: buf_def)
  have view: "slice buf ?ps (?pe + length payload) = Ret hs"
    using sv(2) m(1) l(2) hs(2) lb by (simp add: slice_def drop_take)
  have lhs: "length hs = ?pe + length payload - ?ps"
    using hs(2) m(1) l(2) by simp
  let ?s = "\<lambda>n. self \<lparr>df_buf := buf, df_joining := Some (m \<lparr>hm_message_end := en, hm_payload_end := ?pe + length payload, hm_expected_len := n\<rparr>)\<rparr>"
  have ok: "df_invar (?s n) \<and> df_join (?s n) = Some (v, hs) \<and> df_pending (?s n) = drop en (take (df_used self) (df_buf self))
      \<and> df_used (?s n) = df_used self \<and> df_start (?s n) = en" if "payload_size hs = Ret n" for n
    using that m l en sv(2) sv(3) [of en "df_used self"] hs lb
    by (simp add: df_invar_def df_join_def df_pending_def df_start_def)
  have pr: "hs_progress (df_used self) (m \<lparr>hm_message_end := en, hm_payload_end := ?pe + length payload, hm_expected_len := n\<rparr>)
      = hs_state_of n (length hs) (en < df_used self)" for n
    by (cases n) (simp_all add: hs_progress_def hs_state_of_def meta_payload_len_def lhs)
  show ?thesis
  proof (cases "hm_expected_len m")
    case None
    show ?thesis
    proof (cases "payload_size hs")
      case (Ret n)
      then have "append_hs self version payload en False = (Ret (hs_state_of n (length hs) (en < df_used self)), ?s n)"
        using Some None pr [of n] by (simp add: append_hs_def Let_def sv(1) view)
      then show ?thesis using ok [OF Ret] Ret by auto
    next
      case (Err e)
      then show ?thesis
        using Some None by (simp add: append_hs_def Let_def sv(1) view)
    qed (use payload_size_not_panic in auto)
  next
    case (Some k)
    have p: "payload_size hs = Ret (Some k)"
      using payload_size_Some [of "drop ?ps (take ?pe (df_buf self))" k payload] m(5) Some hs(2) by simp
    have eq: "m \<lparr>hm_message_end := en, hm_payload_end := ?pe + length payload, hm_expected_len := Some k\<rparr>
        = m \<lparr>hm_message_end := en, hm_payload_end := ?pe + length payload\<rparr>"
      using Some by simp
    have "append_hs self version payload en False = (Ret (hs_state_of (Some k) (length hs) (en < df_used self)), ?s (Some k))"
      using \<open>df_joining self = Some m\<close> Some pr [of "Some k", unfolded eq] by (simp add: append_hs_def Let_def sv(1) eq)
    then show ?thesis using ok [OF p] p by auto
  qed
qed

section \<open>Popping refines the specification\<close>

text \<open>A result of \<open>pop\<close> agrees with the specification's: the same message, the same record layer, and a buffer that again holds the
  joined data and the bytes left.\<close>

definition pop_rel ::
  "(rl_error, plain_message option \<times> hs_join \<times> record_layer \<times> bytes) outcome
     \<Rightarrow> (rl_error, deframed option) outcome \<times> message_deframer \<times> record_layer \<Rightarrow> bool" where
  "pop_rel spec res \<longleftrightarrow>
     (case spec of
        Ret (m, join, rl, rest) \<Rightarrow>
          (\<exists>x self. res = (Ret x, self, rl) \<and> map_option de_message x = m
             \<and> df_invar self \<and> df_join self = join \<and> df_pending self = rest)
      | Err e \<Rightarrow> fst res = Err e
      | Panic \<Rightarrow> False)"

definition finish_pop ::
  "(rl_error, loop_exit) outcome \<times> message_deframer \<times> record_layer
     \<Rightarrow> (rl_error, deframed option) outcome \<times> message_deframer \<times> record_layer" where
  "finish_pop r =
     (case r of
        (Ret (ExitReturn d), self', rl') \<Rightarrow> (Ret d, self', rl')
      | (Ret (ExitBreak expected_len), self', rl') \<Rightarrow>
          (case take_message self' expected_len of (r, self'') \<Rightarrow> (r, self'', rl'))
      | (Err e, self', rl') \<Rightarrow> (Err e, self', rl')
      | (Panic, self', rl') \<Rightarrow> (Panic, self', rl'))"

lemma take_message_spec:
  assumes inv: "df_invar self" and j: "df_join self = Some (v, hs)" and p: "payload_size hs = Ret (Some len)" and l: "len \<le> length hs"
  shows "pop_rel (spec_pop c nv (Some (v, hs)) rl (df_pending self)) (finish_pop (Ret (ExitBreak len), self, rl))"
proof -
  obtain m where m: "df_joining self = Some m" and v: "v = hm_version m"
    and hs: "hs = drop (hm_payload_start m) (take (hm_payload_end m) (df_buf self))"
    using j by (auto simp: df_join_def)
  let ?ps = "hm_payload_start m" and ?pe = "hm_payload_end m"
  have i: "?ps \<le> ?pe" "?pe \<le> hm_message_end m" "hm_message_end m \<le> df_used self" "df_used self \<le> length (df_buf self)"
    "\<not> hm_quic m" "0 < hm_message_end m" "df_last_error self = None"
    using inv m by (auto simp: df_invar_def)
  have lh: "length hs = ?pe - ?ps" "?pe \<le> length (df_buf self)"
    using hs i by auto
  have pay: "slice (df_buf self) ?ps (?ps + len) = Ret (take len hs)"
    using l lh i(1) hs by (simp add: slice_def drop_take min_def)
  show ?thesis
  proof (cases "len < length hs")
    case True
    have rest: "slice (df_buf self) (?ps + len) ?pe = Ret (drop len hs)"
      using True lh hs by (auto simp: slice_def drop_take add.commute)
    have tail: "drop (?ps + len) (take ?pe (df_buf self)) = drop len hs"
      by (simp add: hs add.commute)
    show ?thesis
    proof (cases "payload_size (drop len hs)")
      case (Ret n)
      then show ?thesis
        using True m i p lh v tail
        by (simp add: pop_rel_def finish_pop_def take_message_def spec_pop.simps take_hs_def meta_payload_len_def pay rest
            hs_message_def df_invar_def df_join_def df_pending_def df_start_def)
    next
      case (Err e)
      then show ?thesis
        using True m p lh
        by (simp add: pop_rel_def finish_pop_def take_message_def spec_pop.simps take_hs_def meta_payload_len_def pay rest)
    qed (use payload_size_not_panic in auto)
  next
    case False
    let ?s = "self \<lparr>df_joining := None\<rparr>"
    have d: "df_invar ?s" "df_joining ?s = None" "hm_message_end m \<le> df_used ?s"
      using i by (auto simp: df_invar_def)
    let ?x = "\<lparr>de_want_close = False, de_aligned = True, de_trial_finished = True, de_message = hs_message v hs\<rparr>"
    have e: "take len hs = hs" "len = length hs"
      using False l by auto
    have ml: "meta_payload_len m = len"
      using e lh(1) by (simp add: meta_payload_len_def)
    have "finish_pop (Ret (ExitBreak len), self, rl) = (Ret (Some ?x), discard ?s (hm_message_end m), rl)"
      using m v e(1) ml by (simp add: finish_pop_def take_message_def hs_message_def pay)
    moreover have "spec_pop c nv (Some (v, hs)) rl (df_pending self) = Ret (Some (hs_message v hs), None, rl, df_pending self)"
      using p e by (simp add: spec_pop.simps take_hs_def)
    moreover have "df_pending (discard ?s (hm_message_end m)) = df_pending self"
      using discard_spec(3) [OF d] m by (simp add: df_pending_def [of self] df_pending_def [of ?s] df_start_def)
    ultimately show ?thesis
      using discard_spec(1,2) [OF d] by (simp add: pop_rel_def df_join_def)
  qed
qed

lemma rec_step_empty: "rec_step c nv joining rl [] = Ret None"
  by (simp add: rec_step_def opaque_read_def ct_read_def read_u8_unread)

lemma rec_step_not_panic: "rec_step c nv joining rl buf \<noteq> Panic"
proof (cases "opaque_read (reader_init buf)")
  case (Ret p)
  obtain m rd where p: "p = (m, rd)" by (cases p)
  obtain r rl' where d: "decrypt_incoming c rl m = (r, rl')" by (cases "decrypt_incoming c rl m")
  show ?thesis
    using decrypt_incoming_not_panic [of c rl m] d
    by (auto simp: rec_step_def Ret p Let_def split: outcome.split option.split)
qed (use opaque_read_no_panic [of buf] in \<open>auto simp: rec_step_def\<close>)

lemma loop_start_join:
  assumes "df_invar self"
  shows "loop_start self =
    (case df_join self of
       None \<Rightarrow> Inr 0
     | Some (v, hs) \<Rightarrow>
         (case payload_size hs of
            Ret (Some len) \<Rightarrow> if len \<le> length hs then Inl (ExitBreak len) else Inr (df_start self)
          | _ \<Rightarrow> Inr (df_start self)))"
proof (cases "df_joining self")
  case (Some m)
  have "length (drop (hm_payload_start m) (take (hm_payload_end m) (df_buf self))) = meta_payload_len m"
    using assms Some by (auto simp: df_invar_def meta_payload_len_def)
  then show ?thesis
    using assms Some by (auto simp: loop_start_def df_join_def df_start_def df_invar_def split: option.splits)
qed (simp add: loop_start_def df_join_def)

text \<open>A record of the pending bytes lies inside the buffer, and its payload is no longer than the record.\<close>

lemma pending_record:
  assumes "df_invar self" "opaque_read (reader_init (df_pending self)) = Ret (m, rd)"
  shows "slice (df_buf self) (df_start self) (df_used self) = Ret (df_pending self)"
    "df_start self + reader_used rd \<le> df_used self" "length (om_payload m) + 5 = reader_used rd"
    "drop (reader_used rd) (df_pending self) = drop (df_start self + reader_used rd) (take (df_used self) (df_buf self))"
proof -
  have st: "df_start self \<le> df_used self" "df_used self \<le> length (df_buf self)"
    using assms(1) by (auto simp: df_invar_def df_start_def split: option.splits)
  then show "slice (df_buf self) (df_start self) (df_used self) = Ret (df_pending self)"
    by (simp add: slice_def df_pending_def drop_take)
  show "df_start self + reader_used rd \<le> df_used self"
    using opaque_read_used [OF assms(2)] st by (auto simp: df_pending_def)
  show "length (om_payload m) + 5 = reader_used rd"
    using opaque_read_Ret [OF assms(2)] by (auto simp: opaque_encode_def)
  show "drop (reader_used rd) (df_pending self) = drop (df_start self + reader_used rd) (take (df_used self) (df_buf self))"
    by (simp add: df_pending_def add.commute)
qed

text \<open>A handshake record: its piece is joined, and the loop stops or goes on.\<close>

lemma pop_piece:
  assumes inv: "df_invar self" and start: "loop_start self = Inr (df_start self)"
    and read: "opaque_read (reader_init (df_pending self)) = Ret (m, rd)"
    and plain: "\<not> (df_joining self = None \<and> allowed_plaintext nv rl m)"
    and dec: "decrypt_incoming c rl m = (Ret (Some d), rl')" "pm_typ (dc_plaintext d) = CT_Handshake"
      "length (pm_payload (dc_plaintext d)) \<le> length (om_payload m)"
    and IH: "\<And>self'. length (df_pending self') < length (df_pending self) \<Longrightarrow> df_invar self' \<Longrightarrow>
      pop_rel (spec_pop c nv (df_join self') rl' (df_pending self')) (finish_pop (pop_loop c nv self' rl'))"
  shows "pop_rel (spec_pop c nv (Some (absorb (df_join self) (dc_plaintext d))) rl' (drop (reader_used rd) (df_pending self)))
    (finish_pop (pop_loop c nv self rl))"
proof -
  let ?en = "df_start self + reader_used rd" and ?msg = "dc_plaintext d"
  note pr = pending_record [OF inv read]
  obtain v hs where ab: "absorb (df_join self) ?msg = (v, hs)" by (cases "absorb (df_join self) ?msg")
  have msg: "\<lparr>pm_typ = CT_Handshake, pm_version = pm_version ?msg, pm_payload = pm_payload ?msg\<rparr> = ?msg"
    using dec(2) by (metis plain_message.surjective old.unit.exhaust)
  note ap = append_hs_spec [of self "pm_payload ?msg" ?en CT_Handshake "pm_version ?msg" v hs, unfolded msg, OF inv _ pr(2) _ ab]
  have en: "df_start self + length (pm_payload ?msg) \<le> ?en" "0 < ?en"
    using pr(3) dec(3) by auto
  have loop: "pop_loop c nv self rl =
      (case append_hs self (pm_version ?msg) (pm_payload ?msg) ?en False of
         (Ret st, self') \<Rightarrow>
           (case st of
              HsBlocked \<Rightarrow> (Ret (ExitReturn None), self', rl')
            | HsComplete len \<Rightarrow> (Ret (ExitBreak len), self', rl')
            | HsContinue \<Rightarrow> pop_loop c nv self' rl')
       | (Err e, self') \<Rightarrow> (Err e, self', rl')
       | (Panic, self') \<Rightarrow> (Panic, self', rl'))"
    using plain dec by (subst pop_loop.simps) (auto simp: start pr(1) read Let_def)
  show ?thesis
  proof (cases "payload_size hs")
    case (Ret n)
    obtain self' where a: "append_hs self (pm_version ?msg) (pm_payload ?msg) ?en False
        = (Ret (hs_state_of n (length hs) (?en < df_used self)), self')"
      and s: "df_invar self'" "df_join self' = Some (v, hs)" "df_pending self' = drop ?en (take (df_used self) (df_buf self))"
      using ap [OF en] Ret by auto
    have rest: "drop (reader_used rd) (df_pending self) = df_pending self'"
      using pr(4) s(3) by simp
    consider (complete) len where "n = Some len" "len \<le> length hs"
      | (more) "hs_state_of n (length hs) (?en < df_used self) = HsContinue"
      | (block) "hs_state_of n (length hs) (?en < df_used self) = HsBlocked" "\<not> ?en < df_used self"
          "n = None \<or> (\<exists>len. n = Some len \<and> length hs < len)"
      by (cases n; cases "?en < df_used self"; cases "the n \<le> length hs") (auto simp: hs_state_of_def not_le)
    then show ?thesis
    proof cases
      case complete
      then show ?thesis
        using take_message_spec [OF s(1,2), of len c nv rl'] Ret
        by (simp add: loop a hs_state_of_def ab rest)
    next
      case more
      have "length (df_pending self') < length (df_pending self)"
        using opaque_read_used [OF read] by (auto simp flip: rest)
      then show ?thesis
        using IH [OF _ s(1)] more by (simp add: loop a ab rest s(2))
    next
      case block
      have "df_pending self' = []"
        using block(2) s(3) by simp
      then show ?thesis
        using block(1,3) Ret s
        by (auto simp: loop a ab rest finish_pop_def pop_rel_def spec_pop.simps take_hs_def rec_step_empty)
    qed
  next
    case (Err e)
    then show ?thesis
      using ap [OF en] by (auto simp: loop ab finish_pop_def pop_rel_def spec_pop.simps take_hs_def)
  qed (use payload_size_not_panic in auto)
qed

lemma pop_loop_spec:
  assumes "df_invar self" "aead_laws c" "dec_ok (rl_decrypter rl)"
  shows "pop_rel (spec_pop c nv (df_join self) rl (df_pending self)) (finish_pop (pop_loop c nv self rl))"
  using assms(1,3)
proof (induction "length (df_pending self)" arbitrary: self rl rule: less_induct)
  case less
  note inv = less.prems(1)
  show ?case
  proof (cases "loop_start self")
    case (Inl ex)
    then obtain v hs len where "df_join self = Some (v, hs)" "payload_size hs = Ret (Some len)" "len \<le> length hs" "ex = ExitBreak len"
      using loop_start_join [OF inv] by (auto split: option.splits outcome.splits if_splits)
    then show ?thesis
      using take_message_spec [OF inv, of v hs len c nv rl] Inl by (simp add: pop_loop.simps)
  next
    case (Inr start)
    have start: "loop_start self = Inr (df_start self)"
      using Inr by (auto simp: loop_start_def df_start_def split: option.splits if_splits)
    have hs: "(case df_join self of None \<Rightarrow> Ret None | Some (v, hs) \<Rightarrow> take_hs v hs) = Ret None"
      using loop_start_join [OF inv] Inr inv
      by (auto simp: take_hs_def df_join_def df_invar_def split: option.splits outcome.splits if_splits)
    have j: "df_join self = None \<longleftrightarrow> df_joining self = None"
      by (simp add: df_join_def)
    note spec = spec_pop.simps [of c nv "df_join self" rl "df_pending self", unfolded hs bnd.simps option.case]
    have sl: "slice (df_buf self) (df_start self) (df_used self) = Ret (df_pending self)"
      using inv by (auto simp: slice_def df_pending_def drop_take df_invar_def df_start_def split: option.splits)
    show ?thesis
    proof (cases "opaque_read (reader_init (df_pending self))")
      case (Err e)
      then show ?thesis
        by (subst pop_loop.simps) (auto simp: spec rec_step_def start sl finish_pop_def pop_rel_def inv)
    next
      case (Ret p)
      obtain m rd where read: "opaque_read (reader_init (df_pending self)) = Ret (m, rd)"
        using Ret by (cases p) auto
      note pr = pending_record [OF inv read]
      have disc: "df_invar (discard self (df_start self + reader_used rd))" "df_join (discard self (df_start self + reader_used rd)) = None"
        "df_pending (discard self (df_start self + reader_used rd)) = drop (reader_used rd) (df_pending self)" if "df_joining self = None"
        using discard_spec [OF inv that pr(2)] that by (simp_all add: df_start_def df_join_def)
      show ?thesis
      proof (cases "df_joining self = None \<and> allowed_plaintext nv rl m")
        case True
        then show ?thesis
          using disc by (subst pop_loop.simps)
            (auto simp: spec rec_step_def start sl read j finish_pop_def pop_rel_def as_deframed_def Let_def)
      next
        case False
        obtain r rl' where dec: "decrypt_incoming c rl m = (r, rl')" by (cases "decrypt_incoming c rl m")
        have ok: "dec_ok (rl_decrypter rl')"
          using decrypt_incoming_decrypter [OF dec] less.prems(2) by simp
        consider (piece) d where "r = Ret (Some d)" "pm_typ (dc_plaintext d) = CT_Handshake"
          | (skip) "r = Ret None" "df_joining self = None" | (other) "r \<noteq> Panic" "r = Ret None \<longrightarrow> df_joining self \<noteq> None"
            "\<forall>d. r = Ret (Some d) \<longrightarrow> pm_typ (dc_plaintext d) \<noteq> CT_Handshake"
          using decrypt_incoming_not_panic [of c rl m] dec by fastforce
        then show ?thesis
        proof cases
          case piece
          have l: "length (pm_payload (dc_plaintext d)) \<le> length (om_payload m)"
            using decrypt_incoming_length [OF assms(2) less.prems(2)] dec piece by simp
          show ?thesis
            using pop_piece [OF inv start read False _ piece(2) l, of c rl'] dec piece less.hyps ok False
            by (auto simp: spec rec_step_def read j)
        next
          case skip
          then have "pop_loop c nv self rl = pop_loop c nv (discard self (df_start self + reader_used rd)) rl'"
            using False by (subst pop_loop.simps) (simp add: start sl read dec Let_def)
          then show ?thesis
            using less.hyps [OF _ disc(1) ok] disc(2,3) skip False opaque_read_used [OF read]
            by (auto simp: spec rec_step_def read j dec)
        next
          case other
          then show ?thesis
            using disc False by (subst pop_loop.simps)
              (cases r; auto simp: spec rec_step_def start sl read dec j finish_pop_def pop_rel_def as_deframed_def Let_def split: option.split)
        qed
      qed
    qed (use opaque_read_no_panic in auto)
  qed
qed

text \<open>One call of \<open>pop\<close> on a buffer in order.\<close>

lemma deframer_pop_spec:
  assumes "df_invar self" "aead_laws c" "dec_ok (rl_decrypter rl)"
  shows "pop_rel (spec_pop c nv (df_join self) rl (df_pending self)) (deframer_pop c nv self rl)"
proof (cases "df_used self = 0")
  case True
  then have "df_join self = None" "df_pending self = []"
    using assms(1) by (cases "df_joining self"; auto simp: df_invar_def df_join_def df_pending_def)+
  moreover have "df_last_error self = None"
    using assms(1) by (simp add: df_invar_def)
  ultimately show ?thesis
    using True assms(1) by (simp add: spec_pop.simps rec_step_empty deframer_pop_def pop_rel_def)
next
  case False
  then have "deframer_pop c nv self rl = finish_pop (pop_loop c nv self rl)"
    using assms(1) by (simp add: deframer_pop_def finish_pop_def df_invar_def)
  then show ?thesis
    using pop_loop_spec [OF assms] by simp
qed

end
