(* ===== verification/Rustls_Receive.thy ===== *)
theory Rustls_Receive
  imports Rustls_Deframer
begin

text \<open>
  Receiving with the deframer of the TLS library: reads from a stream alternate with pops until nothing comes, as
  the connection does. What comes out depends on the bytes alone and not on how the stream delivers them; the specification is a parser
  of one record at a time that keeps the handshake data joined so far.
\<close>

section \<open>The specification of a stream of records\<close>

text \<open>Splitting joined handshake data into its complete messages and what is left, if anything is.\<close>

function split_hs :: "bytes \<Rightarrow> (rl_error, bytes list \<times> bytes option) outcome" where
  "split_hs hs =
     bnd (payload_size hs) (\<lambda>n.
     case n of
       None \<Rightarrow> Ret ([], Some hs)
     | Some len \<Rightarrow>
         if len < length hs \<and> 0 < len then bnd (split_hs (drop len hs)) (\<lambda>(ms, left). Ret (take len hs # ms, left))
         else if len = length hs then Ret ([hs], None)
         else Ret ([], Some hs))"
  by pat_completeness auto
termination
  by (relation "measure length") auto

declare split_hs.simps [simp del]

text \<open>One record, as a step of an incremental parser whose state is the joined data and the record layer.\<close>

definition dstep ::
  "prims \<Rightarrow> rl_version option \<Rightarrow> hs_join \<times> record_layer \<Rightarrow> bytes
     \<Rightarrow> (rl_error, (plain_message list \<times> (hs_join \<times> record_layer) \<times> bytes) option) outcome" where
  "dstep c nv st buf =
     (case st of (join, rl) \<Rightarrow>
        bnd (rec_step c nv (join \<noteq> None) rl buf) (\<lambda>r.
        case r of
          None \<Rightarrow> Ret None
        | Some (part, rl', rest) \<Rightarrow>
            (case part of
               RecEmit m \<Rightarrow> Ret (Some ([m], (None, rl'), rest))
             | RecSkip \<Rightarrow> Ret (Some ([], (None, rl'), rest))
             | RecPiece m \<Rightarrow>
                 (case absorb join m of (v, hs) \<Rightarrow>
                    bnd (split_hs hs) (\<lambda>(ms, left).
                    Ret (Some (map (hs_message v) ms, (map_option (Pair v) left, rl'), rest)))))))"

section \<open>Reading and popping\<close>

text \<open>Popping until nothing comes, as the connection does after every read.\<close>

fun pop_all ::
  "nat \<Rightarrow> prims \<Rightarrow> rl_version option \<Rightarrow> message_deframer \<Rightarrow> record_layer
     \<Rightarrow> (rl_error, plain_message list) outcome \<times> message_deframer \<times> record_layer" where
  "pop_all 0 c nv d rl = (Ret [], d, rl)"
| "pop_all (Suc n) c nv d rl =
     (case deframer_pop c nv d rl of
        (Ret (Some x), d', rl') \<Rightarrow>
          (case pop_all n c nv d' rl' of (r, d'', rl'') \<Rightarrow> (bnd r (\<lambda>xs. Ret (de_message x # xs)), d'', rl''))
      | (Ret None, d', rl') \<Rightarrow> (Ret [], d', rl')
      | (Err e, d', rl') \<Rightarrow> (Err e, d', rl')
      | (Panic, d', rl') \<Rightarrow> (Panic, d', rl'))"

text \<open>A number of reads, each followed by pops until nothing comes; \<open>Inl\<close> is a refused read, \<open>Inr\<close> an error of a pop.\<close>

fun recv_run ::
  "('s \<Rightarrow> nat \<Rightarrow> bytes \<times> 's) \<Rightarrow> prims \<Rightarrow> rl_version option \<Rightarrow> nat \<Rightarrow> 's \<Rightarrow> message_deframer \<Rightarrow> record_layer
     \<Rightarrow> (rstring + rl_error, plain_message list) outcome \<times> 's \<times> message_deframer \<times> record_layer" where
  "recv_run rd c nv 0 s d rl = (Ret [], s, d, rl)"
| "recv_run rd c nv (Suc n) s d rl =
     (case deframer_read rd s d of
        (Ret _, s', d') \<Rightarrow>
          (case pop_all (Suc (df_used d')) c nv d' rl of
             (Ret ms, d'', rl'') \<Rightarrow>
               (case recv_run rd c nv n s' d'' rl'' of (r, q) \<Rightarrow> (bnd r (\<lambda>xs. Ret (ms @ xs)), q))
           | (Err e, d'', rl'') \<Rightarrow> (Err (Inr e), s', d'', rl'')
           | (Panic, d'', rl'') \<Rightarrow> (Panic, s', d'', rl''))
      | (Err e, s', d') \<Rightarrow> (Err (Inl e), s', d', rl)
      | (Panic, s', d') \<Rightarrow> (Panic, s', d', rl))"

section \<open>The parser is incremental\<close>

lemma rec_step_stable:
  assumes "rec_step c nv joining rl buf = Ret (Some (part, rl', rest))"
  shows "rec_step c nv joining rl (buf @ extra) = Ret (Some (part, rl', rest @ extra))"
proof -
  obtain m rd where read: "opaque_read (reader_init buf) = Ret (m, rd)"
    using assms by (auto simp: rec_step_def split: outcome.splits if_splits)
  obtain q where q: "buf = opaque_encode m @ q" "opaque_ok m" "reader_used rd = length (opaque_encode m)"
    using opaque_read_Ret [OF read] by blast
  obtain rd' where rd': "opaque_read (reader_init (buf @ extra)) = Ret (m, rd')" "reader_used rd' = reader_used rd"
    using opaque_read_encode [OF q(2), of "q @ extra"] q by (auto simp: reader_used_def)
  have "drop (reader_used rd) (buf @ extra) = drop (reader_used rd) buf @ extra"
    using q by simp
  then show ?thesis
    using assms by (auto simp: rec_step_def read rd' Let_def split: outcome.splits prod.splits option.splits if_splits)
qed

lemma rec_step_stable_err:
  assumes "rec_step c nv joining rl buf = Err e"
  shows "rec_step c nv joining rl (buf @ extra) = Err e"
proof (cases "opaque_read (reader_init buf)")
  case (Ret p)
  obtain m rd where read: "opaque_read (reader_init buf) = Ret (m, rd)"
    using Ret by (cases p) auto
  obtain q where q: "buf = opaque_encode m @ q" "opaque_ok m"
    using opaque_read_Ret [OF read] by blast
  obtain rd' where "opaque_read (reader_init (buf @ extra)) = Ret (m, rd')"
    using opaque_read_encode [OF q(2), of "q @ extra"] q by auto
  then show ?thesis
    using assms by (auto simp: rec_step_def read Let_def split: outcome.splits prod.splits option.splits if_splits)
next
  case (Err x)
  then have "opaque_read (reader_init (buf @ extra)) = Err x" "x \<noteq> TooShortForHeader" "x \<noteq> TooShortForLength"
    using assms opaque_read_err_stable [of buf x extra] by (auto simp: rec_step_def split: if_splits)
  then show ?thesis
    using assms Err by (simp add: rec_step_def)
qed (use opaque_read_no_panic in auto)

lemma split_hs_not_panic: "split_hs hs \<noteq> Panic"
proof (induction hs rule: split_hs.induct)
  case (1 hs)
  then show ?case
    using payload_size_not_panic [of hs]
    by (subst split_hs.simps) (auto simp: bnd_Panic_iff split: option.splits prod.splits)
qed

text \<open>What a step makes of a record.\<close>

definition part_result ::
  "hs_join \<Rightarrow> rec_part \<Rightarrow> record_layer \<Rightarrow> bytes
     \<Rightarrow> (rl_error, (plain_message list \<times> (hs_join \<times> record_layer) \<times> bytes) option) outcome" where
  "part_result join part rl rest =
     (case part of
        RecEmit m \<Rightarrow> Ret (Some ([m], (None, rl), rest))
      | RecSkip \<Rightarrow> Ret (Some ([], (None, rl), rest))
      | RecPiece m \<Rightarrow>
          (case absorb join m of (v, hs) \<Rightarrow>
             bnd (split_hs hs) (\<lambda>(ms, left). Ret (Some (map (hs_message v) ms, (map_option (Pair v) left, rl), rest)))))"

lemma part_result_rest:
  "part_result join part rl rest = Ret (Some (x, s, r)) \<Longrightarrow> r = rest"
  "part_result join part rl rest = Ret (Some (x, s, r)) \<Longrightarrow> part_result join part rl rest' = Ret (Some (x, s, rest'))"
  "part_result join part rl rest = Err e \<Longrightarrow> part_result join part rl rest' = Err e"
  "part_result join part rl rest \<noteq> Ret None"
  by (cases part; auto simp: part_result_def bnd_Ret_iff bnd_Err_iff split: prod.splits)+

lemma part_result_not_panic: "part_result join part rl rest \<noteq> Panic"
  using split_hs_not_panic by (cases part) (auto simp: part_result_def bnd_Panic_iff split: prod.splits)

lemma dstep_eq:
  "dstep c nv (join, rl) buf =
     (case rec_step c nv (join \<noteq> None) rl buf of
        Ret None \<Rightarrow> Ret None
      | Ret (Some (part, rl', rest)) \<Rightarrow> part_result join part rl' rest
      | Err e \<Rightarrow> Err e
      | Panic \<Rightarrow> Panic)"
  by (cases "rec_step c nv (join \<noteq> None) rl buf") (auto simp: dstep_def part_result_def split: option.splits)

lemma dstep_Some:
  assumes "dstep c nv (join, rl) buf = Ret (Some (x, s', rest))"
  obtains part rl' where "rec_step c nv (join \<noteq> None) rl buf = Ret (Some (part, rl', rest))"
    "part_result join part rl' rest = Ret (Some (x, s', rest))"
proof -
  obtain part rl' r where r: "rec_step c nv (join \<noteq> None) rl buf = Ret (Some (part, rl', r))"
    and p: "part_result join part rl' r = Ret (Some (x, s', rest))"
    using assms by (auto simp: dstep_eq split: outcome.splits option.splits)
  show thesis
    using that r p part_result_rest(1) [OF p] by simp
qed

interpretation deframed_stream: incremental "dstep c nv"
proof
  fix s buf x s' rest extra
  assume d: "dstep c nv s buf = Ret (Some (x, s', rest))"
  obtain join rl where s: "s = (join, rl)" by (cases s)
  obtain part rl' where r: "rec_step c nv (join \<noteq> None) rl buf = Ret (Some (part, rl', rest))"
    "part_result join part rl' rest = Ret (Some (x, s', rest))"
    using dstep_Some [OF d [unfolded s]] .
  show "length rest < length buf"
    by (rule rec_step_shorter [OF r(1)])
  show "dstep c nv s (buf @ extra) = Ret (Some (x, s', rest @ extra))"
    by (simp add: s dstep_eq rec_step_stable [OF r(1)] part_result_rest(2) [OF r(2)] del: not_None_eq)
next
  fix s buf e extra
  assume d: "dstep c nv s buf = Err e"
  obtain join rl where s: "s = (join, rl)" by (cases s)
  consider (rec) "rec_step c nv (join \<noteq> None) rl buf = Err e"
    | (part) part rl' rest where "rec_step c nv (join \<noteq> None) rl buf = Ret (Some (part, rl', rest))" "part_result join part rl' rest = Err e"
    using d by (auto simp: s dstep_eq split: outcome.splits option.splits)
  then show "dstep c nv s (buf @ extra) = Err e"
  proof cases
    case rec
    then show ?thesis by (simp add: s dstep_eq rec_step_stable_err del: not_None_eq)
  next
    case part
    then show ?thesis by (simp add: s dstep_eq rec_step_stable [OF part(1)] part_result_rest(3) [OF part(2)] del: not_None_eq)
  qed
next
  show "dstep c nv s buf \<noteq> Panic" for s buf
    using rec_step_not_panic part_result_not_panic by (cases s) (auto simp: dstep_eq split: outcome.split option.split)
  show "dstep c nv s [] = Ret None" for s
    by (cases s) (simp add: dstep_eq rec_step_empty)
qed

section \<open>Popping until nothing comes\<close>

text \<open>The specification of all that comes: first the complete messages of the joined data, then what the records give.\<close>

type_synonym spec_result = "(rl_error, plain_message list \<times> hs_join \<times> record_layer \<times> bytes) outcome"

definition settle :: "hs_join \<Rightarrow> (rl_error, plain_message list \<times> hs_join) outcome" where
  "settle join =
     (case join of
        None \<Rightarrow> Ret ([], None)
      | Some (v, hs) \<Rightarrow> bnd (split_hs hs) (\<lambda>(ms, left). Ret (map (hs_message v) ms, map_option (Pair v) left)))"

fun of_drain :: "(hs_join \<times> record_layer, rl_error, plain_message list) drained \<Rightarrow> spec_result" where
  "of_drain (xs, None, (join, rl), rest) = Ret (concat xs, join, rl, rest)"
| "of_drain (xs, Some e, _, _) = Err e"

definition put_before :: "plain_message list \<Rightarrow> spec_result \<Rightarrow> spec_result" where
  "put_before ms r = bnd r (\<lambda>(xs, q). Ret (ms @ xs, q))"

definition stream_spec :: "prims \<Rightarrow> rl_version option \<Rightarrow> hs_join \<Rightarrow> record_layer \<Rightarrow> bytes \<Rightarrow> spec_result" where
  "stream_spec c nv join rl buf =
     bnd (settle join) (\<lambda>(ms, join'). put_before ms (of_drain (drain_all (dstep c nv) (join', rl) buf)))"

fun spec_all :: "nat \<Rightarrow> prims \<Rightarrow> rl_version option \<Rightarrow> hs_join \<Rightarrow> record_layer \<Rightarrow> bytes \<Rightarrow> spec_result" where
  "spec_all 0 c nv join rl buf = Ret ([], join, rl, buf)"
| "spec_all (Suc n) c nv join rl buf =
     bnd (spec_pop c nv join rl buf) (\<lambda>(m, join', rl', rest).
     case m of
       None \<Rightarrow> Ret ([], join', rl', rest)
     | Some x \<Rightarrow> put_before [x] (spec_all n c nv join' rl' rest))"

lemma put_before_simps [simp]:
  "put_before ms (Ret (xs, q)) = Ret (ms @ xs, q)" "put_before ms (Err e) = Err e" "put_before ms Panic = Panic"
  by (simp_all add: put_before_def)

lemma put_before_put: "put_before [x] (put_before ms r) = put_before (x # ms) r"
  by (cases r) (auto simp: put_before_def)

lemma put_before_Nil [simp]: "put_before [] r = r"
  by (cases r) (auto simp: put_before_def)

lemma put_before_bnd: "put_before [x] (bnd m (\<lambda>(ms, j). put_before ms (f j))) = bnd m (\<lambda>(ms, j). put_before (x # ms) (f j))"
  by (cases m) (auto simp: put_before_put)

lemma settle_first:
  assumes "take_hs v hs = Ret (Some (m, join))"
  shows "settle (Some (v, hs)) = bnd (settle join) (\<lambda>(ms, j). Ret (m # ms, j))"
proof -
  obtain len where p: "payload_size hs = Ret (Some len)" "len \<le> length hs"
    using assms by (auto simp: take_hs_def bnd_Ret_iff split: option.splits if_splits)
  have "0 < len"
    using payload_size_Some [OF p(1), of "[]"] by auto
  then have "split_hs hs = (if len < length hs then bnd (split_hs (drop len hs)) (\<lambda>(ms, left). Ret (take len hs # ms, left)) else Ret ([hs], None))"
    using p by (subst split_hs.simps) auto
  then show ?thesis
    using assms p by (cases "split_hs (drop len hs)") (auto simp: take_hs_def settle_def bnd_Ret_iff split: if_splits)
qed

lemma settle_wait:
  assumes "take_hs v hs = Ret None"
  shows "settle (Some (v, hs)) = Ret ([], Some (v, hs))"
  using assms by (auto simp: take_hs_def settle_def bnd_Ret_iff split_hs.simps [of hs] split: option.splits if_splits)

lemma settle_refuse:
  assumes "take_hs v hs = Err e"
  shows "settle (Some (v, hs)) = Err e"
proof -
  consider "payload_size hs = Err e"
    | len where "payload_size hs = Ret (Some len)" "len < length hs" "payload_size (drop len hs) = Err e"
    using assms by (auto simp: take_hs_def bnd_Err_iff split: option.splits if_splits)
  then show ?thesis
  proof cases
    case 2
    then show ?thesis
      using payload_size_Some [OF 2(1), of "[]"] by (auto simp add: settle_def split_hs.simps [of hs] split_hs.simps [of "drop len hs"])
  qed (simp add: settle_def split_hs.simps)
qed

text \<open>How the specification goes on after each kind of step.\<close>

lemma stream_spec_take:
  "take_hs v hs = Ret (Some (m, join)) \<Longrightarrow> stream_spec c nv (Some (v, hs)) rl buf = put_before [m] (stream_spec c nv join rl buf)"
  by (simp add: stream_spec_def settle_first put_before_bnd) (cases "settle join"; auto)

lemma stream_spec_settled:
  assumes "settle join = Ret ([], join)"
  shows "stream_spec c nv join rl buf =
    (case rec_step c nv (join \<noteq> None) rl buf of
       Ret None \<Rightarrow> Ret ([], join, rl, buf)
     | Ret (Some (part, rl', rest)) \<Rightarrow>
         (case part of
            RecEmit m \<Rightarrow> put_before [m] (stream_spec c nv None rl' rest)
          | RecSkip \<Rightarrow> stream_spec c nv None rl' rest
          | RecPiece m \<Rightarrow> stream_spec c nv (Some (absorb join m)) rl' rest)
     | Err e \<Rightarrow> Err e
     | Panic \<Rightarrow> Panic)"
proof -
  have put: "of_drain (let (xs, q) = d in (x # xs, q)) = put_before x (of_drain d)" for x d
    by (cases d rule: of_drain.cases) auto
  have none: "settle None = Ret ([], None)" by (simp add: settle_def)
  have step: "stream_spec c nv join rl buf = put_before x (of_drain (drain_all (dstep c nv) s' rest))"
    if "dstep c nv (join, rl) buf = Ret (Some (x, s', rest))" for x s' rest
    unfolding stream_spec_def assms bnd.simps prod.case put_before_Nil
    by (subst deframed_stream.drain_all_step) (simp only: that outcome.case option.case prod.case put)
  show ?thesis
  proof (cases "rec_step c nv (join \<noteq> None) rl buf")
    case (Ret r)
    show ?thesis
    proof (cases r)
      case None
      then show ?thesis
        using Ret by (simp add: stream_spec_def assms deframed_stream.drain_all_step [of c nv _ buf] dstep_eq del: not_None_eq)
    next
      case (Some q)
      obtain part rl' rest where q: "q = (part, rl', rest)" by (cases q)
      note rs = Ret [unfolded Some q]
      show ?thesis
      proof (cases part)
        case (RecEmit m)
        then show ?thesis
          using step [of "[m]" "(None, rl')" rest] by (simp add: rs dstep_eq part_result_def stream_spec_def none del: not_None_eq)
      next
        case (RecPiece m)
        obtain v hs where ab: "absorb join m = (v, hs)" by (cases "absorb join m")
        show ?thesis
        proof (cases "split_hs hs")
          case (Ret z)
          obtain ms left where z: "z = (ms, left)" by (cases z)
          then show ?thesis
            using step [of "map (hs_message v) ms" "(map_option (Pair v) left, rl')" rest] RecPiece Ret
            by (simp add: rs dstep_eq part_result_def stream_spec_def settle_def ab del: not_None_eq)
        next
          case (Err e)
          then show ?thesis
            unfolding stream_spec_def assms bnd.simps prod.case put_before_Nil
            by (subst deframed_stream.drain_all_step) (simp add: rs dstep_eq part_result_def settle_def RecPiece ab del: not_None_eq)
        qed (use split_hs_not_panic in auto)
      next
        case RecSkip
        then show ?thesis
          using step [of "[]" "(None, rl')" rest] by (simp add: rs dstep_eq part_result_def stream_spec_def none del: not_None_eq)
      qed
    qed
  qed (simp_all add: stream_spec_def assms deframed_stream.drain_all_step [of c nv _ buf] dstep_eq rec_step_not_panic del: not_None_eq)
qed

lemma rec_step_piece_length:
  assumes "aead_laws c" "dec_ok (rl_decrypter rl)" "rec_step c nv joining rl buf = Ret (Some (RecPiece m, rl', rest))"
  shows "length (pm_payload m) + length rest < length buf"
proof -
  obtain om rd d where read: "opaque_read (reader_init buf) = Ret (om, rd)"
    and d: "decrypt_incoming c rl om = (Ret (Some d), rl')" "m = dc_plaintext d" "rest = drop (reader_used rd) buf"
    using assms(3) by (auto simp: rec_step_def Let_def split: outcome.splits prod.splits option.splits if_splits)
  have "length (om_payload om) + 5 = reader_used rd" "reader_used rd \<le> length buf"
    using opaque_read_Ret [OF read] opaque_read_used [OF read] by (auto simp: opaque_encode_def)
  then show ?thesis
    using decrypt_incoming_length [OF assms(1,2) d(1)] d(2,3) by auto
qed

lemma rec_step_decrypter:
  "rec_step c nv joining rl buf = Ret (Some (part, rl', rest)) \<Longrightarrow> rl_decrypter rl' = rl_decrypter rl"
  by (auto simp: rec_step_def Let_def dest: decrypt_incoming_decrypter split: outcome.splits prod.splits option.splits if_splits)

text \<open>The complete message at the front of the joined data, if there is one.\<close>

definition front :: "hs_join \<Rightarrow> (rl_error, (plain_message \<times> hs_join) option) outcome" where
  "front join = (case join of None \<Rightarrow> Ret None | Some (v, hs) \<Rightarrow> take_hs v hs)"

lemma front_not_panic: "front join \<noteq> Panic"
  using payload_size_not_panic by (auto simp: front_def take_hs_def bnd_Panic_iff split: option.splits)

lemma spec_pop_front:
  "front join = Ret (Some (m, join')) \<Longrightarrow> spec_pop c nv join rl buf = Ret (Some m, join', rl, buf)"
  "front join = Err e \<Longrightarrow> spec_pop c nv join rl buf = Err e"
  by (simp_all add: spec_pop.simps [of c nv join] front_def)

lemma spec_pop_record:
  assumes "front join = Ret None"
  shows "spec_pop c nv join rl buf =
    (case rec_step c nv (join \<noteq> None) rl buf of
       Ret None \<Rightarrow> Ret (None, join, rl, buf)
     | Ret (Some (part, rl', rest)) \<Rightarrow>
         (case part of
            RecEmit m \<Rightarrow> Ret (Some m, None, rl', rest)
          | RecSkip \<Rightarrow> spec_pop c nv None rl' rest
          | RecPiece m \<Rightarrow> spec_pop c nv (Some (absorb join m)) rl' rest)
     | Err e \<Rightarrow> Err e
     | Panic \<Rightarrow> Panic)"
  unfolding spec_pop.simps [of c nv join] front_def [symmetric] assms bnd.simps option.case
  by (cases "rec_step c nv (join \<noteq> None) rl buf") (simp_all del: not_None_eq)

lemma front_settled: "front join = Ret None \<Longrightarrow> settle join = Ret ([], join)"
  by (auto simp: front_def settle_wait split: option.splits) (simp add: settle_def)

text \<open>The cases of a step of the specification.\<close>

lemma spec_cases [case_names taken refused wait bad step]:
  obtains (taken) m join' where "front join = Ret (Some (m, join'))"
  | (refused) e where "front join = Err e"
  | (wait) "front join = Ret None" "rec_step c nv (join \<noteq> None) rl buf = Ret None"
  | (bad) e where "front join = Ret None" "rec_step c nv (join \<noteq> None) rl buf = Err e"
  | (step) part rl' rest where "front join = Ret None" "rec_step c nv (join \<noteq> None) rl buf = Ret (Some (part, rl', rest))"
  using front_not_panic [of join] rec_step_not_panic [of c nv "join \<noteq> None" rl buf]
  by (metis outcome.exhaust option.exhaust prod_cases3 surj_pair)

lemma spec_pop_decrypter:
  "spec_pop c nv join rl buf = Ret (m, join', rl', rest) \<Longrightarrow> rl_decrypter rl' = rl_decrypter rl"
proof (induction "length buf" arbitrary: join rl buf rule: less_induct)
  case less
  show ?case
  proof (cases rule: spec_cases [where join = join and c = c and nv = nv and rl = rl and buf = buf])
    case (step part rl1 rest1)
    then show ?thesis
      using less.prems less.hyps [OF rec_step_shorter [OF step(2)]] rec_step_decrypter [OF step(2)]
      by (cases part) (auto simp: spec_pop_record simp del: not_None_eq)
  qed (use less.prems in \<open>auto simp: spec_pop_front spec_pop_record simp del: not_None_eq\<close>)
qed

text \<open>The bytes a state holds: each message popped takes at least one of them.\<close>

definition held :: "hs_join \<Rightarrow> bytes \<Rightarrow> nat" where
  "held join buf = length buf + (case join of None \<Rightarrow> 0 | Some (v, hs) \<Rightarrow> length hs)"

lemma front_shorter:
  assumes "front join = Ret (Some (m, join'))"
  shows "held join' buf < held join buf"
proof -
  obtain v hs where hs: "join = Some (v, hs)" "take_hs v hs = Ret (Some (m, join'))"
    using assms by (auto simp: front_def split: option.splits)
  then obtain len where "payload_size hs = Ret (Some len)"
    by (cases "payload_size hs") (auto simp: take_hs_def split: option.splits)
  then have j: "join = Some (v, hs)" "payload_size hs = Ret (Some len)" "len \<le> length hs"
    and j': "join' = None \<or> join' = Some (v, drop len hs)"
    using hs by (auto simp: take_hs_def bnd_Ret_iff split: if_splits)
  then show ?thesis
    using payload_size_Some [OF j(2), of "[]"] by (auto simp: held_def)
qed

lemma spec_all_stream:
  assumes "aead_laws c" "dec_ok (rl_decrypter rl)" "held join buf < n"
  shows "spec_all n c nv join rl buf = stream_spec c nv join rl buf"
  using assms(2,3)
proof (induction "held join buf" arbitrary: n join rl buf rule: less_induct)
  case less
  obtain k where n: "n = Suc k"
    using less.prems(2) by (cases n) auto
  show ?case
  proof (cases rule: spec_cases [where join = join and c = c and nv = nv and rl = rl and buf = buf])
    case (taken m join')
    have "spec_all k c nv join' rl buf = stream_spec c nv join' rl buf"
      using less front_shorter [OF taken, of buf] n by simp
    moreover obtain v hs where "join = Some (v, hs)" "take_hs v hs = Ret (Some (m, join'))"
      using taken by (auto simp: front_def split: option.splits)
    ultimately show ?thesis
      using taken by (simp add: n spec_pop_front stream_spec_take)
  next
    case (refused e)
    then have "settle join = Err e"
      by (auto simp: front_def settle_refuse split: option.splits)
    then show ?thesis
      using refused by (simp add: n spec_pop_front stream_spec_def)
  next
    case wait
    then show ?thesis
      by (simp add: n spec_pop_record stream_spec_settled front_settled del: not_None_eq)
  next
    case (bad e)
    then show ?thesis
      by (simp add: n spec_pop_record stream_spec_settled front_settled del: not_None_eq)
  next
    case (step part rl' rest)
    note sp = spec_pop_record [OF step(1), of c nv rl buf, unfolded step(2) outcome.case option.case prod.case]
    note st = stream_spec_settled [OF front_settled [OF step(1)], of c nv rl buf, unfolded step(2) outcome.case option.case prod.case]
    have ok: "dec_ok (rl_decrypter rl')"
      using rec_step_decrypter [OF step(2)] less.prems(1) by simp
    have l: "length rest < length buf" by (rule rec_step_shorter [OF step(2)])
    show ?thesis
    proof (cases part)
      case (RecEmit m)
      have "spec_all k c nv None rl' rest = stream_spec c nv None rl' rest"
        using less.hyps [OF _ ok, of None rest k] less.prems(2) l n by (simp add: held_def split: option.splits prod.splits)
      then show ?thesis
        using RecEmit by (simp add: n sp st)
    next
      case (RecPiece m)
      have h: "held (Some (absorb join m)) rest < held join buf"
        using rec_step_piece_length [OF assms(1) less.prems(1), of nv "join \<noteq> None" buf m] step(2) RecPiece
        by (auto simp: held_def absorb_def split: option.splits simp del: not_None_eq)
      then show ?thesis
        using less.hyps [OF h ok, of n] less.prems(2) RecPiece by (simp add: n sp st)
    next
      case RecSkip
      have h: "held None rest < held join buf"
        using l by (simp add: held_def)
      then show ?thesis
        using less.hyps [OF h ok, of n] less.prems(2) RecSkip by (simp add: n sp st)
    qed
  qed
qed

text \<open>Popping on the buffer agrees with the specification.\<close>

lemma pop_all_spec:
  assumes "aead_laws c" "dec_ok (rl_decrypter rl)" "df_invar d"
  shows "case spec_all n c nv (df_join d) rl (df_pending d) of
      Ret (ms, join, rl', rest) \<Rightarrow>
        (\<exists>d'. pop_all n c nv d rl = (Ret ms, d', rl') \<and> df_invar d' \<and> df_join d' = join \<and> df_pending d' = rest
           \<and> rl_decrypter rl' = rl_decrypter rl)
    | Err e \<Rightarrow> fst (pop_all n c nv d rl) = Err e
    | Panic \<Rightarrow> False"
  using assms(2,3)
proof (induction n arbitrary: d rl)
  case (Suc n)
  note p = deframer_pop_spec [OF Suc.prems(2) assms(1) Suc.prems(1), of nv]
  show ?case
  proof (cases "spec_pop c nv (df_join d) rl (df_pending d)")
    case (Ret q)
    obtain m join rl' rest where q: "q = (m, join, rl', rest)" by (cases q)
    obtain x d' where x: "deframer_pop c nv d rl = (Ret x, d', rl')" "map_option de_message x = m"
      "df_invar d'" "df_join d' = join" "df_pending d' = rest"
      using p Ret q by (auto simp: pop_rel_def)
    have dk: "rl_decrypter rl' = rl_decrypter rl"
      using spec_pop_decrypter [of c nv "df_join d" rl "df_pending d"] Ret q by simp
    show ?thesis
    proof (cases x)
      case (Some y)
      show ?thesis
        using Suc.IH [of rl' d'] Suc.prems(1) x Some Ret q dk
        by (cases "spec_all n c nv join rl' rest"; cases "pop_all n c nv d' rl'") auto
    qed (use x Ret q dk in auto)
  next
    case (Err e)
    then show ?thesis
      using p by (cases "deframer_pop c nv d rl") (simp add: pop_rel_def)
  qed (use p in \<open>simp add: pop_rel_def\<close>)
qed simp

section \<open>Reading\<close>

definition read_limit :: "message_deframer \<Rightarrow> nat" where
  "read_limit d = (if df_join d = None then 18437 else 65535)"

lemma take_vec_resize: "u \<le> n \<Longrightarrow> u \<le> length xs \<Longrightarrow> take u (vec_resize n xs) = take u xs"
  by (simp add: vec_resize_def min_def)

lemma length_vec_resize: "length (vec_resize n xs) = n"
  by (simp add: vec_resize_def)

text \<open>Making room keeps what the buffer holds and leaves room for a byte at least.\<close>

lemma prepare_read_spec:
  assumes "df_invar d"
  shows "if df_used d < read_limit d
    then \<exists>buf. prepare_read d = Ret (d \<lparr>df_buf := buf\<rparr>) \<and> take (df_used d) buf = take (df_used d) (df_buf d) \<and> df_used d < length buf
    else prepare_read d = Err (lit ''message buffer full'')"
proof -
  define lim where "lim = (case df_joining d of Some _ \<Rightarrow> unat MAX_HANDSHAKE_SIZE | None \<Rightarrow> MAX_WIRE_SIZE)"
  have lim: "lim = read_limit d"
    by (simp add: lim_def read_limit_def df_join_def MAX_HANDSHAKE_SIZE_def MAX_WIRE_SIZE_def MAX_PAYLOAD_def split: option.split)
  let ?n = "min lim (df_used d + READ_SIZE)"
  have u: "df_used d \<le> length (df_buf d)"
    using assms by (simp add: df_invar_def)
  show ?thesis
  proof (cases "df_used d < lim")
    case True
    then have n: "df_used d < ?n" by (simp add: READ_SIZE_def)
    define buf where "buf = (if ?n > length (df_buf d) \<or> df_used d = 0 \<or> length (df_buf d) > lim then vec_resize ?n (df_buf d) else df_buf d)"
    have "prepare_read d = Ret (d \<lparr>df_buf := buf\<rparr>)"
      using True by (auto simp: prepare_read_def buf_def guard_def Let_def simp flip: lim_def)
    moreover have "take (df_used d) buf = take (df_used d) (df_buf d)" "df_used d < length buf"
      using n u by (auto simp: buf_def take_vec_resize length_vec_resize)
    ultimately show ?thesis
      using True lim by auto
  next
    case False
    then show ?thesis
      using lim by (simp add: prepare_read_def guard_def Let_def flip: lim_def)
  qed
qed

lemma df_views_take:
  assumes "df_invar d" "take (df_used d) buf = take (df_used d) (df_buf d)" "df_used d + length x \<le> length buf"
  shows "let d' = d \<lparr>df_buf := take (df_used d) buf @ x @ drop (df_used d + length x) buf, df_used := df_used d + length x\<rparr>
    in df_invar d' \<and> df_join d' = df_join d \<and> df_pending d' = df_pending d @ x"
proof -
  let ?b = "take (df_used d) buf @ x @ drop (df_used d + length x) buf"
  have u: "df_used d \<le> length (df_buf d)"
    using assms(1) by (simp add: df_invar_def)
  have pre: "take k ?b = take k (df_buf d)" if "k \<le> df_used d" for k
    using that assms(2,3) u by (simp add: min_absorb1)
  show ?thesis
  proof (cases "df_joining d")
    case None
    then show ?thesis
      using assms u by (auto simp: df_invar_def df_join_def df_pending_def df_start_def Let_def)
  next
    case (Some m)
    then have m: "hm_payload_end m \<le> df_used d" "hm_message_end m \<le> df_used d"
      using assms(1) by (auto simp: df_invar_def)
    have "length ?b = length buf" "take (df_used d + length x) ?b = take (df_used d) (df_buf d) @ x"
      using assms(2,3) u by auto
    then show ?thesis
      using assms(1,3) Some m u pre [OF m(1)]
      by (auto simp: df_invar_def df_join_def df_pending_def df_start_def Let_def)
  qed
qed

lemma deframer_read_spec:
  assumes "df_invar d" "\<And>n. length (fst (rd s n)) \<le> n"
  shows "if df_used d < read_limit d
    then \<exists>n x s' d'. rd s n = (x, s') \<and> 0 < n \<and> deframer_read rd s d = (Ret (length x), s', d')
      \<and> df_invar d' \<and> df_join d' = df_join d \<and> df_pending d' = df_pending d @ x
    else deframer_read rd s d = (Err (lit ''message buffer full''), s, d)"
proof (cases "df_used d < read_limit d")
  case True
  obtain buf where b: "prepare_read d = Ret (d \<lparr>df_buf := buf\<rparr>)" "take (df_used d) buf = take (df_used d) (df_buf d)"
    "df_used d < length buf"
    using prepare_read_spec [OF assms(1)] True by auto
  let ?n = "length buf - df_used d"
  obtain x s' where x: "rd s ?n = (x, s')" by (cases "rd s ?n")
  have "df_used d + length x \<le> length buf"
    using assms(2) [of ?n] x b(3) by simp
  then have v: "let d' = d \<lparr>df_buf := take (df_used d) buf @ x @ drop (df_used d + length x) buf, df_used := df_used d + length x\<rparr>
    in df_invar d' \<and> df_join d' = df_join d \<and> df_pending d' = df_pending d @ x"
    by (rule df_views_take [OF assms(1) b(2)])
  have "deframer_read rd s d = (Ret (length x), s',
      d \<lparr>df_buf := take (df_used d) buf @ x @ drop (df_used d + length x) buf, df_used := df_used d + length x\<rparr>)"
    by (simp add: deframer_read_def b(1) x)
  then show ?thesis
    using True x b(3) v by (metis (no_types, lifting) zero_less_diff)
next
  case False
  then show ?thesis
    using prepare_read_spec [OF assms(1)] by (simp add: deframer_read_def)
qed

text \<open>A deframer with nothing left to pop.\<close>

definition quiet :: "prims \<Rightarrow> rl_version option \<Rightarrow> message_deframer \<Rightarrow> record_layer \<Rightarrow> bool" where
  "quiet c nv d rl \<longleftrightarrow> df_invar d \<and> settle (df_join d) = Ret ([], df_join d) \<and> dstep c nv (df_join d, rl) (df_pending d) = Ret None"

lemma settle_settles: "settle join = Ret (ms, join') \<Longrightarrow> settle join' = Ret ([], join')"
proof (induction "held join []" arbitrary: join ms rule: less_induct)
  case less
  show ?case
  proof (cases "front join")
    case (Ret r)
    show ?thesis
    proof (cases r)
      case None
      then show ?thesis
        using front_settled [of join] Ret less.prems by simp
    next
      case (Some q)
      obtain m j where q: "front join = Ret (Some (m, j))"
        using Ret Some by (cases q) auto
      obtain v hs where "join = Some (v, hs)" "take_hs v hs = Ret (Some (m, j))"
        using q by (auto simp: front_def split: option.splits)
      then show ?thesis
        using settle_first [of v hs m j] less.hyps [OF front_shorter [OF q]] less.prems by (auto simp: bnd_Ret_iff)
    qed
  next
    case (Err e)
    then show ?thesis
      using less.prems by (auto simp: front_def settle_refuse split: option.splits)
  qed (use front_not_panic in auto)
qed

lemma dstep_settles:
  assumes "dstep c nv s buf = Ret (Some (x, s', rest))"
  shows "settle (fst s') = Ret ([], fst s')"
proof -
  obtain join rl where s: "s = (join, rl)" by (cases s)
  obtain part rl' where p: "part_result join part rl' rest = Ret (Some (x, s', rest))"
    using dstep_Some [OF assms [unfolded s]] .
  show ?thesis
  proof (cases part)
    case (RecPiece m)
    obtain v hs where ab: "absorb join m = (v, hs)" by (cases "absorb join m")
    obtain ms left where sp: "split_hs hs = Ret (ms, left)" "fst s' = map_option (Pair v) left"
      using p RecPiece ab by (auto simp: part_result_def bnd_Ret_iff)
    then have "settle (Some (v, hs)) = Ret (map (hs_message v) ms, fst s')"
      by (simp add: settle_def)
    then show ?thesis by (rule settle_settles)
  qed (use p in \<open>auto simp: part_result_def settle_def\<close>)
qed

lemma drain_quiet:
  assumes "drain_all (dstep c nv) s buf = (xs, None, s', rest)"
  shows "dstep c nv s' rest = Ret None"
proof (rule ccontr)
  assume n: "dstep c nv s' rest \<noteq> Ret None"
  have "feed (dstep c nv) (xs, None, s', rest) [] = (xs, None, s', rest)"
    by (rule deframed_stream.drain_all_append [of c nv s buf "[]", unfolded append_Nil2 assms, symmetric])
  then have d: "drain_all (dstep c nv) s' rest = ([], None, s', rest)"
    by (auto simp: Let_def split: prod.splits)
  show False
    using d n deframed_stream.no_panics [of c nv s' rest]
    by (subst (asm) deframed_stream.drain_all_step)
      (auto simp: Let_def split: outcome.splits option.splits prod.splits)
qed

lemma held_used:
  assumes "df_invar d"
  shows "held (df_join d) (df_pending d) \<le> df_used d"
proof (cases "df_joining d")
  case (Some m)
  then show ?thesis
    using assms by (auto simp: held_def df_join_def df_pending_def df_start_def df_invar_def)
qed (use assms in \<open>auto simp: held_def df_join_def df_pending_def df_start_def df_invar_def\<close>)

text \<open>Popping everything that has been received, in terms of the record parser.\<close>

lemma pop_all_drain:
  assumes "aead_laws c" "dec_ok (rl_decrypter rl)" "df_invar d" "settle (df_join d) = Ret ([], df_join d)"
  shows "case drain_all (dstep c nv) (df_join d, rl) (df_pending d) of
      (xs, None, (join, rl'), rest) \<Rightarrow>
        (\<exists>d'. pop_all (Suc (df_used d)) c nv d rl = (Ret (concat xs), d', rl') \<and> quiet c nv d' rl' \<and> df_join d' = join \<and> df_pending d' = rest
           \<and> rl_decrypter rl' = rl_decrypter rl)
    | (xs, Some e, _) \<Rightarrow> fst (pop_all (Suc (df_used d)) c nv d rl) = Err e"
proof -
  obtain xs e join rl' rest where dr: "drain_all (dstep c nv) (df_join d, rl) (df_pending d) = (xs, e, (join, rl'), rest)"
    by (metis prod_cases3 surj_pair)
  have st: "spec_all (Suc (df_used d)) c nv (df_join d) rl (df_pending d) = of_drain (xs, e, (join, rl'), rest)"
    using spec_all_stream [OF assms(1,2), of "df_join d" "df_pending d" "Suc (df_used d)" nv] held_used [OF assms(3)]
    by (simp add: stream_spec_def assms(4) dr)
  have settled: "settle join = Ret ([], join)"
    using drain_state [where I = "\<lambda>s. settle (fst s) = Ret ([], fst s)" and s' = "(join, rl')", OF dr [unfolded drain_all_def]]
      assms(4) dstep_settles by fastforce
  show ?thesis
  proof (cases e)
    case None
    then show ?thesis
      using pop_all_spec [OF assms(1-3), of "Suc (df_used d)" nv] settled drain_quiet [OF dr [unfolded None]]
      by (auto simp: st dr quiet_def simp del: pop_all.simps spec_all.simps)
  next
    case (Some x)
    then show ?thesis
      using pop_all_spec [OF assms(1-3), of "Suc (df_used d)" nv] by (simp add: st dr del: pop_all.simps spec_all.simps)
  qed
qed

text \<open>With no handshake message in progress, what is left is less than one record, so the next read has room.\<close>

lemma quiet_room:
  assumes "quiet c nv d rl" "df_join d = None"
  shows "df_used d < read_limit d"
proof -
  have i: "df_joining d = None" "df_used d \<le> length (df_buf d)"
    using assms by (auto simp: df_join_def quiet_def df_invar_def)
  have r: "rec_step c nv False rl (df_pending d) = Ret None"
    using assms part_result_rest(4) by (auto simp: quiet_def dstep_eq split: outcome.splits option.splits)
  have "length (df_pending d) < 18437"
  proof (cases "length (df_pending d) < 5")
    case False
    then obtain t a b k l q where p: "df_pending d = t # a # b # k # l # q"
      using five_bytes [of "df_pending d"] by force
    have "opaque_read (reader_init (df_pending d)) = Err TooShortForLength \<or> opaque_read (reader_init (df_pending d)) = Err TooShortForHeader"
      using r by (auto simp: rec_step_def Let_def split: outcome.splits prod.splits option.splits if_splits)
    then have "length q < unat (be16 k l)" "\<not> MAX_PAYLOAD \<le> be16 k l"
      by (auto simp: p opaque_read_five split: if_splits)
    then show ?thesis
      by (simp add: p le_MAX_PAYLOAD)
  qed simp
  then show ?thesis
    using i assms(2) by (simp add: read_limit_def df_pending_def df_start_def)
qed

section \<open>Any stream, any number of reads\<close>

text \<open>What \<open>recv_run\<close> promises of a result: the bytes taken from the stream, run through the record parser in one piece, give
  the same messages, the same error, the same record layer and the same bytes waiting.\<close>

definition run_ok ::
  "('s \<Rightarrow> bytes) \<Rightarrow> prims \<Rightarrow> rl_version option \<Rightarrow> 's \<Rightarrow> message_deframer \<Rightarrow> record_layer
     \<Rightarrow> (rstring + rl_error, plain_message list) outcome \<times> 's \<times> message_deframer \<times> record_layer \<Rightarrow> bool" where
  "run_ok content c nv s d rl res \<longleftrightarrow>
     (case res of (r, s', d', rl') \<Rightarrow>
        \<exists>bs xs. content s = bs @ content s' \<and>
          (case r of
             Ret ms \<Rightarrow> drain_all (dstep c nv) (df_join d, rl) (df_pending d @ bs) = (xs, None, (df_join d', rl'), df_pending d')
               \<and> ms = concat xs \<and> quiet c nv d' rl'
           | Err (Inr e) \<Rightarrow> fst (snd (drain_all (dstep c nv) (df_join d, rl) (df_pending d @ bs))) = Some e
           | Err (Inl e) \<Rightarrow> drain_all (dstep c nv) (df_join d, rl) (df_pending d @ bs) = (xs, None, (df_join d', rl'), df_pending d')
               \<and> df_join d' \<noteq> None \<and> 65535 \<le> df_used d'
           | Panic \<Rightarrow> False))"

context byte_source
begin

lemma recv_run_ok:
  assumes "aead_laws c" "dec_ok (rl_decrypter rl)" "quiet c nv d rl"
  shows "run_ok content c nv s d rl (recv_run rd c nv n s d rl)"
  using assms(2,3)
proof (induction n arbitrary: s d rl)
  case 0
  have "drain_all (dstep c nv) (df_join d, rl) (df_pending d) = ([], None, (df_join d, rl), df_pending d)"
    using 0 by (subst deframed_stream.drain_all_step) (simp add: quiet_def)
  then show ?case
    using 0 by (auto simp: run_ok_def)
next
  case (Suc n)
  have inv: "df_invar d" and settled: "settle (df_join d) = Ret ([], df_join d)"
    and q: "drain_all (dstep c nv) (df_join d, rl) (df_pending d) = ([], None, (df_join d, rl), df_pending d)"
    using Suc.prems(2) by (auto simp: quiet_def deframed_stream.drain_all_step [of c nv _ "df_pending d"])
  have bound: "length (fst (rd s k)) \<le> k" for k
    using rd_bound [of s k] by (cases "rd s k") simp
  note rs = deframer_read_spec [OF inv, where rd = rd and s = s, OF bound]
  show ?case
  proof (cases "df_used d < read_limit d")
    case False
    then have "df_join d \<noteq> None" "65535 \<le> df_used d"
      using quiet_room [OF Suc.prems(2)] by (auto simp: read_limit_def split: if_splits)
    then show ?thesis
      using rs False q by (auto simp: run_ok_def)
  next
    case True
    obtain k x s1 d1 where k: "rd s k = (x, s1)" "deframer_read rd s d = (Ret (length x), s1, d1)"
      "df_invar d1" "df_join d1 = df_join d" "df_pending d1 = df_pending d @ x"
      using rs True by auto
    have cont: "content s = x @ content s1" by (rule rd_content [OF k(1)])
    note pa = pop_all_drain [OF assms(1) Suc.prems(1) k(3), of nv]
    obtain xs e join rl1 rest where dr: "drain_all (dstep c nv) (df_join d, rl) (df_pending d @ x) = (xs, e, (join, rl1), rest)"
      by (metis prod_cases3 surj_pair)
    show ?thesis
    proof (cases e)
      case (Some err)
      then have "fst (pop_all (Suc (df_used d1)) c nv d1 rl) = Err err"
        using pa settled k(4,5) dr by simp
      then show ?thesis
        using k(2) cont dr Some
        by (cases "pop_all (Suc (df_used d1)) c nv d1 rl") (auto simp: run_ok_def simp del: pop_all.simps)
    next
      case None
      obtain d2 where d2: "pop_all (Suc (df_used d1)) c nv d1 rl = (Ret (concat xs), d2, rl1)" "quiet c nv d2 rl1"
        "df_join d2 = join" "df_pending d2 = rest" "rl_decrypter rl1 = rl_decrypter rl"
        using pa settled k(4,5) dr None by (auto simp del: pop_all.simps)
      have IH: "run_ok content c nv s1 d2 rl1 (recv_run rd c nv n s1 d2 rl1)"
        using Suc.IH [of rl1 d2 s1] Suc.prems(1) d2 by simp
      have app: "drain_all (dstep c nv) (df_join d, rl) (df_pending d @ x @ bs)
          = (let (ys, q) = drain_all (dstep c nv) (join, rl1) (rest @ bs) in (xs @ ys, q))" for bs
        using deframed_stream.drain_all_append [of c nv "(df_join d, rl)" "df_pending d @ x" bs] dr None by simp
      obtain r s2 d3 rl2 where run: "recv_run rd c nv n s1 d2 rl1 = (r, s2, d3, rl2)"
        by (metis prod_cases4)
      obtain bs ys where bs: "content s1 = bs @ content s2"
        "case r of
             Ret ms \<Rightarrow> drain_all (dstep c nv) (join, rl1) (rest @ bs) = (ys, None, (df_join d3, rl2), df_pending d3)
               \<and> ms = concat ys \<and> quiet c nv d3 rl2
           | Err (Inr e) \<Rightarrow> fst (snd (drain_all (dstep c nv) (join, rl1) (rest @ bs))) = Some e
           | Err (Inl e) \<Rightarrow> drain_all (dstep c nv) (join, rl1) (rest @ bs) = (ys, None, (df_join d3, rl2), df_pending d3)
               \<and> df_join d3 \<noteq> None \<and> 65535 \<le> df_used d3
           | Panic \<Rightarrow> False"
        using IH [unfolded run_ok_def run prod.case d2(3,4)] by blast
      have "recv_run rd c nv (Suc n) s d rl = (bnd r (\<lambda>xs'. Ret (concat xs @ xs')), s2, d3, rl2)"
        by (simp add: k(2) d2(1) run del: pop_all.simps)
      then show ?thesis
        using bs cont unfolding run_ok_def
        by (intro case_prodI2 exI [of _ "x @ bs"] exI [of _ "xs @ ys"])
          (cases r; auto simp: app Let_def split: sum.splits prod.splits)
    qed
  qed
qed

end

lemma default_quiet: "quiet c nv deframer_default rl"
  by (simp add: quiet_def df_invar_def deframer_default_def df_join_def df_pending_def settle_def dstep_eq rec_step_empty)

section \<open>The property\<close>

text \<open>C28. The deframer of the TLS library, run on any bytes from the network: whatever number of reads and however the bytes are cut into
  segments, the code never panics (every slice and copy in its flat buffer is in range), and the messages it pops, the error that ends the
  connection, the record layer and the bytes left waiting are those of parsing the bytes read, one record at a time, in one piece. A read is
  refused only while a handshake message is being joined that fills the buffer of 65,535 bytes.\<close>

theorem deframer_stream:
  assumes "aead_laws c" "dec_ok (rl_decrypter rl)"
  shows "case recv_run tcp_read c nv n segs deframer_default rl of (r, segs', d, rl') \<Rightarrow>
    \<exists>bs xs. concat segs = bs @ concat segs' \<and>
      (case r of
         Ret ms \<Rightarrow> drain_all (dstep c nv) (None, rl) bs = (xs, None, (df_join d, rl'), df_pending d) \<and> ms = concat xs
       | Err (Inr e) \<Rightarrow> fst (snd (drain_all (dstep c nv) (None, rl) bs)) = Some e
       | Err (Inl e) \<Rightarrow> drain_all (dstep c nv) (None, rl) bs = (xs, None, (df_join d, rl'), df_pending d)
           \<and> df_join d \<noteq> None \<and> 65535 \<le> df_used d
       | Panic \<Rightarrow> False)"
proof -
  have e: "df_join deframer_default = None" "df_pending deframer_default = []"
    by (simp_all add: deframer_default_def df_join_def df_pending_def)
  obtain r segs' d rl' where run: "recv_run tcp_read c nv n segs deframer_default rl = (r, segs', d, rl')"
    by (metis prod_cases4)
  have "run_ok concat c nv segs deframer_default rl (recv_run tcp_read c nv n segs deframer_default rl)"
    by (rule tcp_source.recv_run_ok [OF assms default_quiet])
  then obtain bs xs where bs: "concat segs = bs @ concat segs'" and
    "case r of
         Ret ms \<Rightarrow> drain_all (dstep c nv) (None, rl) bs = (xs, None, (df_join d, rl'), df_pending d) \<and> ms = concat xs \<and> quiet c nv d rl'
       | Err (Inr e) \<Rightarrow> fst (snd (drain_all (dstep c nv) (None, rl) bs)) = Some e
       | Err (Inl e) \<Rightarrow> drain_all (dstep c nv) (None, rl) bs = (xs, None, (df_join d, rl'), df_pending d)
           \<and> df_join d \<noteq> None \<and> 65535 \<le> df_used d
       | Panic \<Rightarrow> False"
    unfolding run_ok_def run prod.case e append_Nil by blast
  then show ?thesis
    unfolding run prod.case using bs by (cases r rule: outcome.exhaust; cases "case r of Err z \<Rightarrow> z | _ \<Rightarrow> undefined") auto
qed

theorem deframer_stream_witness:
  "case recv_run tcp_read sample_prims None 3 [[0x16, 3], [3, 0, 4, 0, 0, 0, 0]] deframer_default record_layer_new of (r, segs', d, rl') \<Rightarrow>
    \<exists>bs xs. concat [[0x16, 3], [3, 0, 4, 0, 0, 0, 0]] = bs @ concat segs' \<and>
      (case r of
         Ret ms \<Rightarrow> drain_all (dstep sample_prims None) (None, record_layer_new) bs = (xs, None, (df_join d, rl'), df_pending d) \<and> ms = concat xs
       | Err (Inr e) \<Rightarrow> fst (snd (drain_all (dstep sample_prims None) (None, record_layer_new) bs)) = Some e
       | Err (Inl e) \<Rightarrow> drain_all (dstep sample_prims None) (None, record_layer_new) bs = (xs, None, (df_join d, rl'), df_pending d)
           \<and> df_join d \<noteq> None \<and> 65535 \<le> df_used d
       | Panic \<Rightarrow> False)"
  by (rule deframer_stream) (simp_all add: sample_aead_laws record_layer_new_def)

end
