(* ===== verification/Rustls_Codec.thy ===== *)
theory Rustls_Codec
  imports Rustls_Messages
begin

text \<open>
  Encoding and decoding in the TLS library: the trait \<open>Codec\<close> with the integers and the lists behind their length
  (\<open>rustls-reality/rustls/src/msgs/codec.rs\<close>), the payloads (\<open>msgs/base.rs\<close>) and the codec of an enumeration (\<open>msgs/macros.rs\<close>).

  The locales state what an implementation of \<open>Codec\<close> promises. The rules build the codec of a structure from those of its
  fields, so that the codec of a message is derived and not proved.
\<close>

section \<open>Readers\<close>

text \<open>What \<open>Codec::read\<close> does with a reader. A reader that loops for ever is \<open>None\<close>: reading a list ends only if its elements
  consume something.\<close>

type_synonym 'a rd = "reader \<Rightarrow> (invalid_message, 'a \<times> reader) outcome option"

definition rbind :: "(invalid_message, 'a) outcome option \<Rightarrow> ('a \<Rightarrow> (invalid_message, 'b) outcome option) \<Rightarrow> (invalid_message, 'b) outcome option" where
  "rbind m f =
     (case m of
        None \<Rightarrow> None
      | Some (Ret x) \<Rightarrow> f x
      | Some (Err e) \<Rightarrow> Some (Err e)
      | Some Panic \<Rightarrow> Some Panic)"

lemma rbind_simps [simp]:
  "rbind None f = None" "rbind (Some (Ret x)) f = f x" "rbind (Some (Err e)) f = Some (Err e)" "rbind (Some Panic) f = Some Panic"
  by (simp_all add: rbind_def)

definition rd_u8 :: "u8 rd" where
  "rd_u8 r = Some (read_u8 r)"

definition rd_u16 :: "u16 rd" where
  "rd_u16 r = Some (read_u16 r)"

definition rd_u24 :: "u32 rd" where
  "rd_u24 r = Some (read_u24 r)"

definition rd_u32 :: "u32 rd" where
  "rd_u32 r =
     Some (case reader_take 4 r of Some ([a, b, c, d], r') \<Rightarrow> Ret (be32 a b c d, r') | _ \<Rightarrow> Err (MissingData (lit ''u32'')))"

section \<open>Lists behind their length\<close>

text \<open>A list behind its length: the length of the prefix, and for three bytes a bound the length is cut to.\<close>

datatype list_length = ListU8 | ListU16 | ListU24 nat

definition read_len :: "list_length \<Rightarrow> reader \<Rightarrow> (invalid_message, nat \<times> reader) outcome" where
  "read_len size_len r =
     (case size_len of
        ListU8 \<Rightarrow> bnd (read_u8 r) (\<lambda>(n, r). Ret (unat n, r))
      | ListU16 \<Rightarrow> bnd (read_u16 r) (\<lambda>(n, r). Ret (unat n, r))
      | ListU24 mx \<Rightarrow> bnd (read_u24 r) (\<lambda>(n, r). Ret (min (unat n) mx, r)))"

text \<open>The loop over the elements. An element reader that consumes nothing would loop for ever, so the loop is
  partial.\<close>

partial_function (option) read_items ::
  "'a rd \<Rightarrow> reader \<Rightarrow> 'a list \<Rightarrow> (invalid_message, 'a list) outcome option" where
  "read_items read_item sub acc =
     (if reader_any_left sub then
        (case read_item sub of
           None \<Rightarrow> None
         | Some (Ret (x, sub')) \<Rightarrow> read_items read_item sub' (acc @ [x])
         | Some (Err e) \<Rightarrow> Some (Err e)
         | Some Panic \<Rightarrow> Some Panic)
      else Some (Ret acc))"

definition read_vec :: "list_length \<Rightarrow> 'a rd \<Rightarrow> 'a list rd" where
  "read_vec size_len read_item r =
     rbind (Some (read_len size_len r)) (\<lambda>(n, r).
     rbind (Some (reader_sub n r)) (\<lambda>(sub, r).
     rbind (read_items read_item sub []) (\<lambda>xs.
     Some (Ret (xs, r)))))"

text \<open>Encoding writes a placeholder, then the elements, and goes back to correct the length. The debug assertion on
  the length is not part of a release build.\<close>

definition len_placeholder :: "list_length \<Rightarrow> bytes" where
  "len_placeholder size_len = (case size_len of ListU8 \<Rightarrow> [0xff] | ListU16 \<Rightarrow> [0xff, 0xff] | ListU24 mx \<Rightarrow> [0xff, 0xff, 0xff])"

definition len_bytes :: "list_length \<Rightarrow> nat \<Rightarrow> bytes" where
  "len_bytes size_len n =
     (case size_len of ListU8 \<Rightarrow> [word_of_nat n] | ListU16 \<Rightarrow> u16_be (word_of_nat n) | ListU24 mx \<Rightarrow> encode_u24 (word_of_nat n))"

definition correct_len :: "list_length \<Rightarrow> nat \<Rightarrow> bytes \<Rightarrow> (unit, bytes) outcome" where
  "correct_len size_len len_offset buf =
     (let w = length (len_placeholder size_len); len = length buf - len_offset - w in
      splice buf len_offset (len_offset + w) (len_bytes size_len len))"

definition encode_vec :: "list_length \<Rightarrow> ('a \<Rightarrow> bytes) \<Rightarrow> 'a list \<Rightarrow> bytes \<Rightarrow> (unit, bytes) outcome" where
  "encode_vec size_len encode_item xs buf =
     (let len_offset = length buf;
          body = foldl (\<lambda>b x. b @ encode_item x) (buf @ len_placeholder size_len) xs
      in correct_len size_len len_offset body)"

text \<open>What a \<open>LengthPrefixedBuffer\<close> leaves: the length, corrected, and the body.\<close>

definition length_prefixed :: "list_length \<Rightarrow> bytes \<Rightarrow> bytes" where
  "length_prefixed size_len body = len_bytes size_len (length body) @ body"

definition encode_list :: "list_length \<Rightarrow> ('a \<Rightarrow> bytes) \<Rightarrow> 'a list \<Rightarrow> bytes" where
  "encode_list size_len encode_item xs = length_prefixed size_len (concat (map encode_item xs))"

section \<open>Payloads\<close>

definition payload_read :: "bytes rd" where
  "payload_read r = Some (Ret (reader_rest r))"

definition payload_u8_read :: "bytes rd" where
  "payload_u8_read r =
     rbind (rd_u8 r) (\<lambda>(len, r).
     rbind (Some (reader_sub (unat len) r)) (\<lambda>(sub, r).
     Some (Ret (fst (reader_rest sub), r))))"

definition payload_u8_encode :: "bytes \<Rightarrow> bytes" where
  "payload_u8_encode bs = word_of_nat (length bs) # bs"

definition payload_u16_read :: "bytes rd" where
  "payload_u16_read r =
     rbind (rd_u16 r) (\<lambda>(len, r).
     rbind (Some (reader_sub (unat len) r)) (\<lambda>(sub, r).
     Some (Ret (fst (reader_rest sub), r))))"

definition payload_u16_encode :: "bytes \<Rightarrow> bytes" where
  "payload_u16_encode bs = u16_be (word_of_nat (length bs)) @ bs"

definition payload_u24_read :: "bytes rd" where
  "payload_u24_read r =
     rbind (rd_u24 r) (\<lambda>(len, r).
     rbind (Some (reader_sub (unat len) r)) (\<lambda>(sub, r).
     Some (Ret (fst (reader_rest sub), r))))"

definition payload_u24_encode :: "bytes \<Rightarrow> bytes" where
  "payload_u24_encode bs = encode_u24 (word_of_nat (length bs)) @ bs"

section \<open>Enumerations\<close>

definition enum_u8_read :: "string \<Rightarrow> (u8 \<Rightarrow> 'e) \<Rightarrow> 'e rd" where
  "enum_u8_read name from_u8 r =
     Some (case read_u8 r of Ret (x, r') \<Rightarrow> Ret (from_u8 x, r') | _ \<Rightarrow> Err (MissingData (lit name)))"

definition enum_u16_read :: "string \<Rightarrow> (u16 \<Rightarrow> 'e) \<Rightarrow> 'e rd" where
  "enum_u16_read name from_u16 r =
     Some (case read_u16 r of Ret (x, r') \<Rightarrow> Ret (from_u16 x, r') | _ \<Rightarrow> Err (MissingData (lit name)))"

section \<open>Structures\<close>

text \<open>Fields read one after the other, a value built from them, and a check on the value.\<close>

definition rd_pair :: "'a rd \<Rightarrow> 'b rd \<Rightarrow> ('a \<times> 'b) rd" where
  "rd_pair ra rb r = rbind (ra r) (\<lambda>(a, r). rbind (rb r) (\<lambda>(b, r). Some (Ret ((a, b), r))))"

definition rd_map :: "('a \<Rightarrow> 'b) \<Rightarrow> 'a rd \<Rightarrow> 'b rd" where
  "rd_map f ra r = rbind (ra r) (\<lambda>(a, r). Some (Ret (f a, r)))"

definition rd_check :: "('a \<Rightarrow> bool) \<Rightarrow> invalid_message \<Rightarrow> 'a rd \<Rightarrow> 'a rd" where
  "rd_check bad e ra r = rbind (ra r) (\<lambda>(a, r). if bad a then Some (Err e) else Some (Ret (a, r)))"

definition rd_done :: "'a \<Rightarrow> 'a rd" where
  "rd_done x r = Some (Ret (x, r))"

text \<open>\<open>expect_empty\<close> after a value has been read.\<close>

definition rd_end :: "string \<Rightarrow> 'a rd \<Rightarrow> 'a rd" where
  "rd_end name ra r = rbind (ra r) (\<lambda>(a, r). rbind (Some (expect_empty (lit name) r)) (\<lambda>_. Some (Ret (a, r))))"

text \<open>The frame of an extension, the same in every list of extensions: its type, its length, and a body that must be used up.\<close>

definition et_read :: "extension_type rd" where
  "et_read = enum_u16_read ''ExtensionType'' et_from"

definition read_extension :: "string \<Rightarrow> (extension_type \<Rightarrow> 'a rd) \<Rightarrow> 'a rd" where
  "read_extension name body r =
     rbind (et_read r) (\<lambda>(typ, r).
     rbind (rd_u16 r) (\<lambda>(len, r).
     rbind (Some (reader_sub (unat len) r)) (\<lambda>(sub, r).
     rbind (rd_end name (body typ) sub) (\<lambda>(ext, sub).
     Some (Ret (ext, r))))))"

definition encode_extension :: "('a \<Rightarrow> extension_type) \<Rightarrow> ('a \<Rightarrow> bytes) \<Rightarrow> 'a \<Rightarrow> bytes" where
  "encode_extension get_type body ext = u16_be (et_get_u16 (get_type ext)) @ length_prefixed ListU16 (body ext)"

section \<open>Lemmas on lengths\<close>

definition len_fits :: "list_length \<Rightarrow> nat \<Rightarrow> bool" where
  "len_fits size_len n = (case size_len of ListU8 \<Rightarrow> n < 256 | ListU16 \<Rightarrow> n < 65536 | ListU24 mx \<Rightarrow> n \<le> mx \<and> n < 16777216)"

lemma be32_u24: "w < 16777216 \<Longrightarrow> be32 0 (ucast (drop_bit 16 w)) (ucast (drop_bit 8 w)) (ucast w) = w"
proof -
  assume "w < 16777216"
  then have "drop_bit 24 w = 0"
    by (simp add: drop_bit_eq_div div_word_less)
  then show ?thesis
    using be32_u32_be [of w] by simp
qed

lemma read_len_bytes:
  assumes "len_fits size_len n"
  shows "\<exists>r. read_len size_len (reader_init (len_bytes size_len n @ q)) = Ret (n, r) \<and> unread r = q"
proof (cases size_len)
  case (ListU24 mx)
  then have n: "n \<le> mx" "n < 16777216" using assms by (auto simp: len_fits_def)
  then have "be32 0 (ucast (drop_bit 16 (word_of_nat n :: u32))) (ucast (drop_bit 8 (word_of_nat n :: u32))) (ucast (word_of_nat n :: u32)) = word_of_nat n"
    by (intro be32_u24) (simp add: word_less_nat_alt)
  then show ?thesis
    using ListU24 n by (simp add: read_len_def len_bytes_def encode_u24_def u32_be_def read_u24_unread)
qed (use assms in \<open>simp_all add: len_fits_def read_len_def len_bytes_def read_u8_unread read_u16_unread u16_be_def\<close>)

lemma length_len_bytes: "length (len_bytes size_len n) = length (len_placeholder size_len)"
  by (simp add: len_bytes_def len_placeholder_def encode_u24_def split: list_length.splits)

lemma encode_vec_exact:
  "encode_vec size_len f xs buf = Ret (buf @ len_bytes size_len (length (concat (map f xs))) @ concat (map f xs))"
proof -
  have "foldl (\<lambda>b x. b @ f x) b xs = b @ concat (map f xs)" for b
    by (induction xs arbitrary: b) auto
  then show ?thesis
    by (simp add: encode_vec_def correct_len_def splice_def length_len_bytes Let_def)
qed

lemma encode_vec_list: "encode_vec size_len f xs buf = Ret (buf @ encode_list size_len f xs)"
  by (simp add: encode_vec_exact encode_list_def length_prefixed_def)

lemma be16_bytes: "ucast (drop_bit 8 (be16 a b)) = a" "ucast (be16 a b) = b"
  using u16_be_be16 [of a b] by (simp_all add: u16_be_def)

lemma u24_be_be32: "ucast (drop_bit 16 (be32 0 a b c)) = a" "ucast (drop_bit 8 (be32 0 a b c)) = b" "ucast (be32 0 a b c) = c"
  by (rule bit_word_eqI; auto simp: be32_def bit_simps dest: bit_imp_le_length)+

lemma u32_be_be32: "u32_be (be32 a b c d) = [a, b, c, d]"
proof -
  have "ucast (drop_bit 24 (be32 a b c d)) = a" "ucast (drop_bit 16 (be32 a b c d)) = b"
    "ucast (drop_bit 8 (be32 a b c d)) = c" "ucast (be32 a b c d) = d"
    by (rule bit_word_eqI; auto simp: be32_def bit_simps dest: bit_imp_le_length)+
  then show ?thesis by (simp add: u32_be_def)
qed

section \<open>The contract of a codec\<close>

text \<open>Reading ends, and does not panic; it consumes a prefix of the bytes and yields a well-formed value,
  whose encoding is not longer; and it inverts encoding, whatever follows.\<close>

locale tls_codec =
  fixes ok :: "'a \<Rightarrow> bool" and enc :: "'a \<Rightarrow> bytes" and rd :: "'a rd"
  assumes returns: "\<exists>res. rd r = Some res \<and> res \<noteq> Panic"
    and sound: "rd r = Some (Ret (x, r')) \<Longrightarrow> ok x \<and> (\<exists>bs. unread r = bs @ unread r' \<and> length (enc x) \<le> length bs)"
    and inverse: "ok x \<Longrightarrow> unread r = enc x @ rest \<Longrightarrow> \<exists>r'. rd r = Some (Ret (x, r')) \<and> unread r' = rest"

text \<open>An exact codec accepts encodings of well-formed values and nothing else.\<close>

locale exact_codec = tls_codec +
  assumes exact: "rd r = Some (Ret (x, r')) \<Longrightarrow> ok x \<and> unread r = enc x @ unread r'"

text \<open>An element of a list must consume something.\<close>

locale exact_element = exact_codec +
  assumes some_bytes: "ok x \<Longrightarrow> enc x \<noteq> []"

text \<open>An element that may take all that is left, and so can only be the last of its list.\<close>

locale greedy_element =
  fixes ok :: "'a \<Rightarrow> bool" and enc :: "'a \<Rightarrow> bytes" and rd :: "'a rd" and greedy :: "'a \<Rightarrow> bool"
  assumes item_returns: "\<exists>res. rd r = Some res \<and> res \<noteq> Panic"
    and item_inverse: "ok x \<Longrightarrow> (greedy x \<Longrightarrow> rest = []) \<Longrightarrow> unread r = enc x @ rest \<Longrightarrow>
      \<exists>r'. rd r = Some (Ret (x, r')) \<and> unread r' = rest"
    and item_exact: "rd r = Some (Ret (x, r')) \<Longrightarrow> ok x \<and> unread r = enc x @ unread r' \<and> (greedy x \<longrightarrow> unread r' = [])"
    and item_bytes: "ok x \<Longrightarrow> enc x \<noteq> []"

sublocale exact_element \<subseteq> greedy_element ok enc rd "\<lambda>_. False"
  by unfold_locales (use returns inverse exact some_bytes in auto)

text \<open>What is read from a reader of its own, and must use it up.\<close>

locale body_codec =
  fixes ok :: "'a \<Rightarrow> bool" and enc :: "'a \<Rightarrow> bytes" and rd :: "'a rd"
  assumes body_returns: "\<exists>res. rd r = Some res \<and> res \<noteq> Panic"
    and body_sound: "rd r = Some (Ret (x, r')) \<Longrightarrow> unread r' = [] \<Longrightarrow> ok x \<and> length (enc x) \<le> length (unread r)"
    and body_inverse: "ok x \<Longrightarrow> unread r = enc x \<Longrightarrow> \<exists>r'. rd r = Some (Ret (x, r')) \<and> unread r' = []"

locale exact_body = body_codec +
  assumes body_exact: "rd r = Some (Ret (x, r')) \<Longrightarrow> unread r' = [] \<Longrightarrow> ok x \<and> unread r = enc x"

sublocale tls_codec \<subseteq> body: body_codec
  by unfold_locales (use returns sound inverse [where rest = "[]"] in \<open>auto, fastforce\<close>)

sublocale exact_codec \<subseteq> body: exact_body
  by unfold_locales (use exact in auto)

section \<open>Rules\<close>

text \<open>The contracts as statements about the three functions, to derive one from another.\<close>

named_theorems codecs

lemmas codec_defs = tls_codec_def exact_codec_def exact_codec_axioms_def exact_element_def exact_element_axioms_def

lemma exact_codecI:
  assumes "\<And>r. \<exists>res. rd r = Some res \<and> res \<noteq> Panic"
    and "\<And>x r rest. ok x \<Longrightarrow> unread r = enc x @ rest \<Longrightarrow> \<exists>r'. rd r = Some (Ret (x, r')) \<and> unread r' = rest"
    and "\<And>x r r'. rd r = Some (Ret (x, r')) \<Longrightarrow> ok x \<and> unread r = enc x @ unread r'"
  shows "exact_codec ok enc rd"
proof
  show "rd r = Some (Ret (x, r')) \<Longrightarrow> ok x \<and> (\<exists>bs. unread r = bs @ unread r' \<and> length (enc x) \<le> length bs)" for r x r'
    using assms(3) [of r x r'] by auto
qed (use assms in simp_all)

lemma rbind_returns:
  "(\<exists>res. m = Some res \<and> res \<noteq> Panic) \<Longrightarrow> (\<And>x. m = Some (Ret x) \<Longrightarrow> \<exists>res. f x = Some res \<and> res \<noteq> Panic) \<Longrightarrow>
    \<exists>res. rbind m f = Some res \<and> res \<noteq> Panic"
  by (auto simp: rbind_def split: outcome.split)

lemma rbind_Ret_iff: "rbind m f = Some (Ret y) \<longleftrightarrow> (\<exists>x. m = Some (Ret x) \<and> f x = Some (Ret y))"
  by (auto simp: rbind_def split: option.splits outcome.splits)

lemma exact_returns: "exact_codec ok enc rd \<Longrightarrow> \<exists>res. rd r = Some res \<and> res \<noteq> Panic"
  by (simp add: exact_codec_def tls_codec_def)

lemma exact_inverse: "exact_codec ok enc rd \<Longrightarrow> ok x \<Longrightarrow> unread r = enc x @ rest \<Longrightarrow> \<exists>r'. rd r = Some (Ret (x, r')) \<and> unread r' = rest"
  by (simp add: exact_codec_def tls_codec_def)

lemma u8_codec [codecs]: "exact_element (\<lambda>_. True) (\<lambda>b. [b]) rd_u8"
  by (auto simp: codec_defs rd_u8_def read_u8_unread split: list.splits)

lemma u16_codec [codecs]: "exact_element (\<lambda>_. True) u16_be rd_u16"
  by (auto simp: codec_defs rd_u16_def read_u16_unread u16_be_def be16_bytes split: list.splits)

lemma enum_u8_codec:
  "(\<And>x. get (from_u8 x) = x) \<Longrightarrow> exact_element (\<lambda>e. from_u8 (get e) = e) (\<lambda>e. [get e]) (enum_u8_read name from_u8)"
  by (auto simp: codec_defs enum_u8_read_def read_u8_unread split: list.splits)

lemma enum_u16_codec:
  "(\<And>x. get (from_u16 x) = x) \<Longrightarrow> exact_element (\<lambda>e. from_u16 (get e) = e) (\<lambda>e. u16_be (get e)) (enum_u16_read name from_u16)"
  by (auto simp: codec_defs enum_u16_read_def read_u16_unread u16_be_def be16_bytes split: list.splits)

lemma rd_map_Ret: "rd_map f rd r = Some (Ret (y, r')) \<longleftrightarrow> (\<exists>x. y = f x \<and> rd r = Some (Ret (x, r')))"
  by (auto simp: rd_map_def rbind_Ret_iff)

lemma rd_map_returns: "(\<exists>res. rd r = Some res \<and> res \<noteq> Panic) \<Longrightarrow> \<exists>res. rd_map f rd r = Some res \<and> res \<noteq> Panic"
  unfolding rd_map_def by (rule rbind_returns) auto

lemma pair_exact [codecs]:
  assumes a: "exact_codec ok1 enc1 rd1" and b: "exact_codec ok2 enc2 rd2"
  shows "exact_codec (\<lambda>(x, y). ok1 x \<and> ok2 y) (\<lambda>(x, y). enc1 x @ enc2 y) (rd_pair rd1 rd2)"
proof (rule exact_codecI, goal_cases)
  case (1 r)
  show ?case
    unfolding rd_pair_def
    by (rule rbind_returns [OF exact_returns [OF a]]) (auto intro!: rbind_returns [OF exact_returns [OF b]])
next
  case (2 p r rest)
  then obtain x y where p: "p = (x, y)" "ok1 x" "ok2 y" "unread r = enc1 x @ enc2 y @ rest" by (cases p) auto
  obtain r1 where r1: "rd1 r = Some (Ret (x, r1))" "unread r1 = enc2 y @ rest"
    using exact_inverse [OF a p(2,4)] by blast
  obtain r2 where "rd2 r1 = Some (Ret (y, r2))" "unread r2 = rest"
    using exact_inverse [OF b p(3) r1(2)] by blast
  then show ?case
    using r1 p by (simp add: rd_pair_def)
next
  case (3 p r r')
  then show ?case
    using exact_codec.exact [OF a] exact_codec.exact [OF b] by (fastforce simp: rd_pair_def rbind_Ret_iff)
qed

lemma map_exact [codecs]:
  assumes "exact_codec ok enc rd" "\<And>x. g (f x) = x" "\<And>y. f (g y) = y"
  shows "exact_codec (\<lambda>y. ok (g y)) (\<lambda>y. enc (g y)) (rd_map f rd)"
proof (rule exact_codecI, goal_cases)
  case (1 r)
  show ?case
    unfolding rd_map_def by (rule rbind_returns [OF exact_returns [OF assms(1)]]) auto
next
  case (2 y r rest)
  then show ?case
    using exact_inverse [OF assms(1), of "g y" r rest] assms(3) by (auto simp: rd_map_def)
next
  case (3 y r r')
  then show ?case
    using exact_codec.exact [OF assms(1)] assms(2) by (fastforce simp: rd_map_def rbind_Ret_iff)
qed

lemma check_exact [codecs]:
  assumes "exact_codec ok enc rd"
  shows "exact_codec (\<lambda>x. ok x \<and> \<not> bad x) enc (rd_check bad e rd)"
proof (rule exact_codecI, goal_cases)
  case (1 r)
  show ?case
    unfolding rd_check_def by (rule rbind_returns [OF exact_returns [OF assms]]) auto
next
  case (2 x r rest)
  then show ?case
    using exact_inverse [OF assms, of x r rest] by (auto simp: rd_check_def)
next
  case (3 x r r')
  then show ?case
    using exact_codec.exact [OF assms] by (fastforce simp: rd_check_def rbind_Ret_iff split: if_splits)
qed

lemma sub_unread: "reader_sub n r = (if n \<le> length (unread r) then Ret (reader_init (take n (unread r)), r \<lparr>rd_cursor := rd_cursor r + n\<rparr>) else Err MessageTooShort)"
  by (simp add: reader_sub_def take_unread)

lemma rest_unread [simp]: "fst (reader_rest r) = unread r" "unread (snd (reader_rest r)) = []"
  by (simp_all add: reader_rest_def unread_def)

lemma image_exact:
  assumes "exact_codec ok enc rd" "\<And>y. ok' y \<longleftrightarrow> (\<exists>x. y = f x \<and> ok x)" "\<And>x. enc' (f x) = enc x"
  shows "exact_codec ok' enc' (rd_map f rd)"
proof (rule exact_codecI, goal_cases)
  case (1 r)
  show ?case by (rule rd_map_returns [OF exact_returns [OF assms(1)]])
next
  case (2 y r rest)
  then obtain x where x: "y = f x" "ok x" "unread r = enc x @ rest" using assms(2,3) by auto
  then show ?case using exact_inverse [OF assms(1) x(2,3)] by (auto simp: rd_map_Ret)
next
  case (3 y r r')
  then show ?case using exact_codec.exact [OF assms(1)] assms(2,3) by (auto simp: rd_map_Ret)
qed

text \<open>A structure of two fields.\<close>

lemma struct_exact:
  assumes "exact_codec ok1 enc1 rd1" "exact_codec ok2 enc2 rd2"
    and "\<And>x y. p (mk x y) = x" "\<And>x y. q (mk x y) = y" "\<And>z. mk (p z) (q z) = z"
    and "\<And>z. ok z \<longleftrightarrow> ok1 (p z) \<and> ok2 (q z)" "\<And>z. enc z = enc1 (p z) @ enc2 (q z)"
  shows "exact_codec ok enc (rd_map (\<lambda>(x, y). mk x y) (rd_pair rd1 rd2))"
proof -
  have "ok = (\<lambda>z. ok1 (p z) \<and> ok2 (q z))" "enc = (\<lambda>z. enc1 (p z) @ enc2 (q z))"
    using assms(6,7) by auto
  then show ?thesis
    using map_exact [OF pair_exact [OF assms(1,2)], where f = "\<lambda>(x, y). mk x y" and g = "\<lambda>z. (p z, q z)"] assms(3-5)
    by (simp add: case_prod_unfold)
qed

lemma exact_elementI: "exact_codec ok enc rd \<Longrightarrow> (\<And>x. ok x \<Longrightarrow> enc x \<noteq> []) \<Longrightarrow> exact_element ok enc rd"
  by (simp add: exact_element_def exact_element_axioms_def)

text \<open>The payload behind a length, for all three widths.\<close>

lemma prefixed_exact:
  assumes "exact_codec okl e rd_len" "\<And>n. n < k \<Longrightarrow> unat (w n) = n" "\<And>l. okl l \<Longrightarrow> unat l < k \<and> w (unat l) = l" "\<And>n. n < k \<Longrightarrow> okl (w n)"
  shows "exact_codec (\<lambda>bs. length bs < k) (\<lambda>bs. e (w (length bs)) @ bs)
    (\<lambda>r. rbind (rd_len r) (\<lambda>(len, r). rbind (Some (reader_sub (unat (len :: 'w :: len word)) r)) (\<lambda>(sub, r). Some (Ret (fst (reader_rest sub), r)))))"
proof (rule exact_codecI, goal_cases)
  case (1 r)
  show ?case
    by (rule rbind_returns [OF exact_returns [OF assms(1)]]) (auto simp: sub_unread)
next
  case (2 bs r rest)
  then obtain r1 where "rd_len r = Some (Ret (w (length bs), r1))" "unread r1 = bs @ rest"
    using exact_inverse [OF assms(1), of "w (length bs)" r "bs @ rest"] assms(4) by auto
  then show ?case
    using 2 assms(2) by (simp add: sub_unread)
next
  case (3 bs r r')
  then obtain l r1 where l: "rd_len r = Some (Ret (l, r1))" "unat l \<le> length (unread r1)" "bs = take (unat l) (unread r1)"
    "r' = r1 \<lparr>rd_cursor := rd_cursor r1 + unat l\<rparr>"
    by (auto simp: rbind_Ret_iff sub_unread split: if_splits)
  have "okl l" "unread r = e l @ unread r1"
    using exact_codec.exact [OF assms(1) l(1)] by auto
  then show ?case
    using l assms(3) [of l] by simp
qed

lemma payload_u8_codec [codecs]: "exact_codec (\<lambda>bs. length bs < 256) payload_u8_encode payload_u8_read"
proof -
  have "exact_codec (\<lambda>bs. length bs < 256) (\<lambda>bs. [word_of_nat (length bs)] @ bs)
    (\<lambda>r. rbind (rd_u8 r) (\<lambda>(len, r). rbind (Some (reader_sub (unat len) r)) (\<lambda>(sub, r). Some (Ret (fst (reader_rest sub), r)))))"
    by (rule prefixed_exact [OF exact_element.axioms(1) [OF u8_codec]]) (auto simp: unat_of_nat)
  then show ?thesis
    by (simp add: payload_u8_encode_def [abs_def] payload_u8_read_def [abs_def])
qed

lemma payload_u16_codec [codecs]: "exact_codec (\<lambda>bs. length bs < 65536) payload_u16_encode payload_u16_read"
proof -
  have "exact_codec (\<lambda>bs. length bs < 65536) (\<lambda>bs. u16_be (word_of_nat (length bs)) @ bs)
    (\<lambda>r. rbind (rd_u16 r) (\<lambda>(len, r). rbind (Some (reader_sub (unat len) r)) (\<lambda>(sub, r). Some (Ret (fst (reader_rest sub), r)))))"
    by (rule prefixed_exact [OF exact_element.axioms(1) [OF u16_codec]]) (auto simp: unat_of_nat)
  then show ?thesis
    by (simp add: payload_u16_encode_def [abs_def] payload_u16_read_def [abs_def])
qed

lemma u24_codec: "exact_element (\<lambda>w. unat w < 16777216) encode_u24 rd_u24"
proof -
  have "unat (be32 0 a b c) < 16777216" for a b c
  proof -
    have "drop_bit 24 (be32 0 a b c) = 0"
      by (rule bit_word_eqI) (auto simp: be32_def bit_simps dest: bit_imp_le_length)
    then have "drop_bit 24 (unat (be32 0 a b c)) = 0"
      by (metis unat_drop_bit_eq unat_0)
    then show ?thesis
      by (simp add: drop_bit_eq_div div_eq_0_iff)
  qed
  moreover have "be32 0 (ucast (drop_bit 16 w)) (ucast (drop_bit 8 w)) (ucast w) = w" if "unat w < 16777216" for w
    using that by (intro be32_u24) (simp add: word_less_nat_alt)
  ultimately show ?thesis
    by (auto simp: codec_defs rd_u24_def read_u24_unread encode_u24_def u32_be_def u24_be_be32 split: list.splits)
qed

lemma payload_u24_codec [codecs]: "exact_codec (\<lambda>bs. length bs < 16777216) payload_u24_encode payload_u24_read"
proof -
  have "exact_codec (\<lambda>bs. length bs < 16777216) (\<lambda>bs. encode_u24 (word_of_nat (length bs)) @ bs)
    (\<lambda>r. rbind (rd_u24 r) (\<lambda>(len, r). rbind (Some (reader_sub (unat len) r)) (\<lambda>(sub, r). Some (Ret (fst (reader_rest sub), r)))))"
    by (rule prefixed_exact [OF exact_element.axioms(1) [OF u24_codec]]) (auto simp: unat_of_nat)
  then show ?thesis
    by (simp add: payload_u24_encode_def [abs_def] payload_u24_read_def [abs_def])
qed

lemma u32_codec [codecs]: "exact_element (\<lambda>_. True) u32_be rd_u32"
proof -
  have r: "rd_u32 r = Some (case unread r of a # b # c # d # q \<Rightarrow> Ret (be32 a b c d, r \<lparr>rd_cursor := rd_cursor r + 4\<rparr>)
      | _ \<Rightarrow> Err (MissingData (lit ''u32'')))" for r
    by (auto simp: rd_u32_def take_unread numeral_eq_Suc split: list.splits)
  have b: "ucast (drop_bit 24 (be32 a b c d)) = a" "ucast (drop_bit 16 (be32 a b c d)) = b"
    "ucast (drop_bit 8 (be32 a b c d)) = c" "ucast (be32 a b c d) = d" for a b c d
    using u32_be_be32 [of a b c d] by (simp_all add: u32_be_def)
  show ?thesis
    by (auto simp: codec_defs r u32_be_def b split: list.splits)
qed

context exact_codec
begin

lemma is_body: "exact_body ok enc rd"
  by unfold_locales

lemma is_codec: "tls_codec ok enc rd"
  by unfold_locales

end

section \<open>Lists\<close>

lemma any_left_unread: "reader_any_left r \<longleftrightarrow> unread r \<noteq> []"
  by (auto simp: reader_any_left_def unread_def not_le)

definition vec_ok :: "list_length \<Rightarrow> ('a \<Rightarrow> bool) \<Rightarrow> ('a \<Rightarrow> bytes) \<Rightarrow> 'a list \<Rightarrow> bool" where
  "vec_ok size_len ok enc xs \<longleftrightarrow> list_all ok xs \<and> len_fits size_len (length (concat (map enc xs)))"

lemma read_len_returns: "read_len size_len r \<noteq> Panic"
  by (auto simp: read_len_def bnd_Panic_iff read_u8_unread read_u16_unread read_u24_unread split: list_length.splits list.splits)

lemma read_len_inverse:
  assumes "len_fits size_len n" "unread r = len_bytes size_len n @ q"
  shows "\<exists>r'. read_len size_len r = Ret (n, r') \<and> unread r' = q"
proof (cases size_len)
  case (ListU24 mx)
  then have n: "n \<le> mx" "n < 16777216" using assms by (auto simp: len_fits_def)
  then have "be32 0 (ucast (drop_bit 16 (word_of_nat n :: u32))) (ucast (drop_bit 8 (word_of_nat n :: u32))) (ucast (word_of_nat n :: u32)) = word_of_nat n"
    by (intro be32_u24) (simp add: word_less_nat_alt)
  then show ?thesis
    using ListU24 n assms(2) by (simp add: read_len_def len_bytes_def encode_u24_def u32_be_def read_u24_unread)
qed (use assms in \<open>simp_all add: len_fits_def read_len_def len_bytes_def read_u8_unread read_u16_unread u16_be_def\<close>)

text \<open>For one and two bytes of length the length is exact; for three bytes it is cut to the bound.\<close>

lemma read_len_exact:
  assumes "read_len size_len r = Ret (n, r')" "case size_len of ListU24 mx \<Rightarrow> False | _ \<Rightarrow> True"
  shows "unread r = len_bytes size_len n @ unread r'"
  using assms
  by (auto simp: read_len_def len_bytes_def bnd_Ret_iff read_u8_unread read_u16_unread u16_be_def be16_bytes
      split: list_length.splits list.splits)

lemma read_len_sound:
  assumes "read_len size_len r = Ret (n, r')"
  shows "len_fits size_len n" "\<exists>bs. unread r = bs @ unread r' \<and> length bs = length (len_placeholder size_len)"
proof -
  have 1: "unat (w :: u8) < 256" for w by (rule less_le_trans [OF unsigned_less]) simp
  have 2: "unat (w :: u16) < 65536" for w by (rule less_le_trans [OF unsigned_less]) simp
  have 3: "unat (be32 0 a b c) < 16777216" for a b c
    using exact_codec.exact [OF exact_element.axioms(1) [OF u24_codec], of "reader_init [a, b, c]"]
    by (simp add: rd_u24_def read_u24_unread)
  show "len_fits size_len n" "\<exists>bs. unread r = bs @ unread r' \<and> length bs = length (len_placeholder size_len)"
    using assms 1 2 3
    by (auto simp: read_len_def len_fits_def len_placeholder_def bnd_Ret_iff read_u8_unread read_u16_unread read_u24_unread min.strict_coboundedI1
        split: list_length.splits list.splits)
qed

context greedy_element
begin

lemma items_return: "\<exists>res. read_items rd sub acc = Some res \<and> res \<noteq> Panic"
proof (induction "length (unread sub)" arbitrary: sub acc rule: less_induct)
  case less
  obtain res where r: "rd sub = Some res" "res \<noteq> Panic" using item_returns by blast
  show ?case
  proof (cases "reader_any_left sub")
    case True
    show ?thesis
    proof (cases res)
      case (Ret p)
      then obtain x sub' where x: "rd sub = Some (Ret (x, sub'))" using r by (cases p) auto
      have "length (unread sub') < length (unread sub)" using item_exact [OF x] item_bytes [of x] by simp
      then show ?thesis
        using less x True by (subst read_items.simps) simp
    qed (use True r in \<open>subst read_items.simps, simp\<close>)+
  qed (subst read_items.simps, simp)
qed

lemma items_encode:
  "list_all ok xs \<Longrightarrow> list_all (\<lambda>x. \<not> greedy x) (butlast xs) \<Longrightarrow> unread sub = concat (map enc xs) \<Longrightarrow>
    read_items rd sub acc = Some (Ret (acc @ xs))"
proof (induction xs arbitrary: sub acc)
  case Nil
  then show ?case by (subst read_items.simps) (simp add: any_left_unread)
next
  case (Cons x xs)
  have u: "unread sub = enc x @ concat (map enc xs)" using Cons.prems(3) by simp
  have "greedy x \<Longrightarrow> concat (map enc xs) = []" using Cons.prems(2) by (cases xs) auto
  then obtain sub' where s: "rd sub = Some (Ret (x, sub'))" "unread sub' = concat (map enc xs)"
    using item_inverse [OF _ _ u] Cons.prems(1) by auto
  have "reader_any_left sub" using u item_bytes Cons.prems(1) by (simp add: any_left_unread)
  moreover have "list_all (\<lambda>x. \<not> greedy x) (butlast xs)" using Cons.prems(2) by (cases xs) auto
  then have "read_items rd sub' (acc @ [x]) = Some (Ret (acc @ x # xs))"
    using Cons.IH [OF _ _ s(2), of "acc @ [x]"] Cons.prems(1) by simp
  ultimately show ?case using s(1) by (subst read_items.simps) simp
qed

lemma items_exact:
  "read_items rd sub acc = Some (Ret ys) \<Longrightarrow>
    \<exists>xs. ys = acc @ xs \<and> list_all ok xs \<and> list_all (\<lambda>x. \<not> greedy x) (butlast xs) \<and> unread sub = concat (map enc xs)"
proof (induction "length (unread sub)" arbitrary: sub acc rule: less_induct)
  case less
  show ?case
  proof (cases "reader_any_left sub")
    case True
    obtain x sub' where x: "rd sub = Some (Ret (x, sub'))" "read_items rd sub' (acc @ [x]) = Some (Ret ys)"
      using less.prems True by (subst (asm) read_items.simps) (auto split: option.splits outcome.splits)
    have e: "ok x" "unread sub = enc x @ unread sub'" "greedy x \<longrightarrow> unread sub' = []"
      using item_exact [OF x(1)] by auto
    have "length (unread sub') < length (unread sub)"
      using e item_bytes [of x] by simp
    then obtain xs where xs: "ys = (acc @ [x]) @ xs" "list_all ok xs" "list_all (\<lambda>x. \<not> greedy x) (butlast xs)" "unread sub' = concat (map enc xs)"
      using less.hyps x(2) by blast
    have "greedy x \<Longrightarrow> xs = []"
      using e(3) xs(2,4) item_bytes by (cases xs) auto
    then show ?thesis
      using e xs by (intro exI [of _ "x # xs"]) auto
  next
    case False
    then show ?thesis
      using less.prems by (subst (asm) read_items.simps) (simp add: any_left_unread)
  qed
qed

lemma greedy_vec:
  "tls_codec (\<lambda>xs. vec_ok size_len ok enc xs \<and> list_all (\<lambda>x. \<not> greedy x) (butlast xs)) (encode_list size_len enc) (read_vec size_len rd)"
proof (unfold_locales, goal_cases)
  case (1 r)
  show ?case
    unfolding read_vec_def using read_len_returns items_return
    by (intro rbind_returns) (auto simp: sub_unread intro!: rbind_returns)
next
  case (2 r xs r')
  then obtain n r1 where n: "read_len size_len r = Ret (n, r1)" "n \<le> length (unread r1)" "r' = r1 \<lparr>rd_cursor := rd_cursor r1 + n\<rparr>"
    "read_items rd (reader_init (take n (unread r1))) [] = Some (Ret xs)"
    by (auto simp: read_vec_def rbind_Ret_iff sub_unread split: if_splits)
  obtain bs where bs: "unread r = bs @ unread r1" "length bs = length (len_placeholder size_len)"
    using read_len_sound(2) [OF n(1)] by blast
  then have u: "unread r = (bs @ take n (unread r1)) @ unread r'"
    using n(3) by simp
  have xs: "list_all ok xs" "list_all (\<lambda>x. \<not> greedy x) (butlast xs)" "take n (unread r1) = concat (map enc xs)"
    using items_exact [OF n(4)] by auto
  have l: "length (concat (map enc xs)) = n"
    using n(2) by (simp flip: xs(3))
  then have "length (encode_list size_len enc xs) \<le> length (bs @ take n (unread r1))"
    using bs(2) by (simp add: encode_list_def length_prefixed_def length_len_bytes xs(3))
  then show ?case
    using u l xs(1,2) read_len_sound(1) [OF n(1)] unfolding vec_ok_def by blast
next
  case (3 xs r rest)
  let ?body = "concat (map enc xs)"
  have o: "list_all ok xs" "len_fits size_len (length ?body)" "list_all (\<lambda>x. \<not> greedy x) (butlast xs)" using 3 by (auto simp: vec_ok_def)
  have "unread r = len_bytes size_len (length ?body) @ ?body @ rest"
    using 3 by (simp add: encode_list_def length_prefixed_def)
  then obtain r1 where r1: "read_len size_len r = Ret (length ?body, r1)" "unread r1 = ?body @ rest"
    using read_len_inverse [OF o(2)] by blast
  have "read_items rd (reader_init ?body) [] = Some (Ret xs)"
    using items_encode [OF o(1,3), of "reader_init ?body" "[]"] by simp
  then show ?case
    using r1 by (simp add: read_vec_def sub_unread)
qed

lemma greedy_vec_exact:
  assumes "case size_len of ListU24 mx \<Rightarrow> False | _ \<Rightarrow> True"
  shows "exact_codec (\<lambda>xs. vec_ok size_len ok enc xs \<and> list_all (\<lambda>x. \<not> greedy x) (butlast xs)) (encode_list size_len enc) (read_vec size_len rd)"
proof (rule exact_codecI, goal_cases)
  case (3 xs r r')
  then obtain n r1 where n: "read_len size_len r = Ret (n, r1)" "n \<le> length (unread r1)" "r' = r1 \<lparr>rd_cursor := rd_cursor r1 + n\<rparr>"
    "read_items rd (reader_init (take n (unread r1))) [] = Some (Ret xs)"
    by (auto simp: read_vec_def rbind_Ret_iff sub_unread split: if_splits)
  have xs: "take n (unread r1) = concat (map enc xs)"
    using items_exact [OF n(4)] by auto
  moreover have "length (concat (map enc xs)) = n"
    using n(2) by (simp flip: xs)
  ultimately have "unread r = encode_list size_len enc xs @ unread r'"
    using read_len_exact [OF n(1) assms] n(3) append_take_drop_id [of n "unread r1"] by (simp add: encode_list_def length_prefixed_def)
  then show ?case
    using tls_codec.sound [OF greedy_vec 3] by blast
qed (use tls_codec.returns [OF greedy_vec] tls_codec.inverse [OF greedy_vec] in simp_all)

end

context exact_element
begin

lemma is_exact: "exact_codec ok enc rd"
  by unfold_locales

lemma vec: "tls_codec (vec_ok size_len ok enc) (encode_list size_len enc) (read_vec size_len rd)"
  using greedy_vec by (simp add: list_all_iff)

lemma vec_exact:
  "case size_len of ListU24 mx \<Rightarrow> False | _ \<Rightarrow> True \<Longrightarrow> exact_codec (vec_ok size_len ok enc) (encode_list size_len enc) (read_vec size_len rd)"
  using greedy_vec_exact by (simp add: list_all_iff)

end

section \<open>Structures that are not exact\<close>

lemma pair_codec:
  assumes a: "tls_codec ok1 enc1 rd1" and b: "tls_codec ok2 enc2 rd2"
  shows "tls_codec (\<lambda>(x, y). ok1 x \<and> ok2 y) (\<lambda>(x, y). enc1 x @ enc2 y) (rd_pair rd1 rd2)"
proof (unfold_locales, goal_cases)
  case (1 r)
  show ?case
    unfolding rd_pair_def
    by (rule rbind_returns [OF tls_codec.returns [OF a]]) (auto intro!: rbind_returns [OF tls_codec.returns [OF b]])
next
  case (2 r p r')
  then obtain x y r1 where p: "p = (x, y)" "rd1 r = Some (Ret (x, r1))" "rd2 r1 = Some (Ret (y, r'))"
    by (auto simp: rd_pair_def rbind_Ret_iff)
  obtain bs cs where "unread r = (bs @ cs) @ unread r'" "length (enc1 x) \<le> length bs" "length (enc2 y) \<le> length cs"
    using tls_codec.sound [OF a p(2)] tls_codec.sound [OF b p(3)] by auto
  then show ?case
    using tls_codec.sound [OF a p(2)] tls_codec.sound [OF b p(3)] p(1) by (intro conjI exI [of _ "bs @ cs"]) auto
next
  case (3 p r rest)
  then obtain x y where p: "p = (x, y)" "ok1 x" "ok2 y" "unread r = enc1 x @ enc2 y @ rest" by (cases p) auto
  obtain r1 where r1: "rd1 r = Some (Ret (x, r1))" "unread r1 = enc2 y @ rest"
    using tls_codec.inverse [OF a p(2,4)] by blast
  obtain r2 where "rd2 r1 = Some (Ret (y, r2))" "unread r2 = rest"
    using tls_codec.inverse [OF b p(3) r1(2)] by blast
  then show ?case
    using r1 p by (simp add: rd_pair_def)
qed

section \<open>Bodies\<close>

text \<open>A body wrapped in a constructor: the values are the images of those of the body.\<close>

lemma map_body:
  assumes "body_codec ok enc rd" "\<And>y. ok' y \<longleftrightarrow> (\<exists>x. y = f x \<and> ok x)" "\<And>x. enc' (f x) = enc x"
  shows "body_codec ok' enc' (rd_map f rd)"
proof (unfold_locales, goal_cases)
  case (1 r)
  show ?case by (rule rd_map_returns [OF body_codec.body_returns [OF assms(1)]])
next
  case (2 r y r')
  then show ?case using body_codec.body_sound [OF assms(1)] assms(2,3) by (auto simp: rd_map_Ret)
next
  case (3 y r)
  then show ?case using body_codec.body_inverse [OF assms(1)] assms(2,3) by (fastforce simp: rd_map_Ret)
qed

lemma map_exact_body:
  assumes "exact_body ok enc rd" "\<And>y. ok' y \<longleftrightarrow> (\<exists>x. y = f x \<and> ok x)" "\<And>x. enc' (f x) = enc x"
  shows "exact_body ok' enc' (rd_map f rd)"
proof -
  have "body_codec ok' enc' (rd_map f rd)"
    using map_body [OF exact_body.axioms(1) [OF assms(1)] assms(2,3)] .
  then show ?thesis
    using exact_body.body_exact [OF assms(1)] assms(2,3)
    by (fastforce simp: exact_body_def exact_body_axioms_def rd_map_Ret)
qed

lemma payload_body: "exact_body (\<lambda>_. True) (\<lambda>bs. bs) payload_read"
  by unfold_locales (auto simp: payload_read_def reader_rest_def unread_def)

lemma unit_body: "exact_body (\<lambda>u. u = x) (\<lambda>_. []) (rd_done x)"
  by unfold_locales (auto simp: rd_done_def)

text \<open>A branch on whether anything is left.\<close>

lemma if_left_body:
  assumes a: "exact_body ok1 enc rd1" and b: "exact_body ok2 enc rd2"
    and ok: "\<And>x. ok x \<longleftrightarrow> ok1 x \<and> enc x \<noteq> [] \<or> ok2 x \<and> enc x = []"
  shows "exact_body ok enc (\<lambda>r. if reader_any_left r then rd1 r else rd2 r)"
proof -
  note returns = exact_body.axioms(1) [OF a, THEN body_codec.body_returns] exact_body.axioms(1) [OF b, THEN body_codec.body_returns]
  note inverse = exact_body.axioms(1) [OF a, THEN body_codec.body_inverse] exact_body.axioms(1) [OF b, THEN body_codec.body_inverse]
  note exact = exact_body.body_exact [OF a] exact_body.body_exact [OF b]
  show ?thesis
    by unfold_locales
      (use returns inverse exact ok in \<open>auto simp: any_left_unread split: if_splits\<close>)
qed

lemma rd_end_Ret: "rd_end name rd r = Some (Ret (x, r')) \<longleftrightarrow> rd r = Some (Ret (x, r')) \<and> unread r' = []"
  by (auto simp: rd_end_def rbind_Ret_iff expect_empty_def any_left_unread split: if_splits)

lemma rd_end_returns: "(\<exists>res. rd r = Some res \<and> res \<noteq> Panic) \<Longrightarrow> \<exists>res. rd_end name rd r = Some res \<and> res \<noteq> Panic"
  unfolding rd_end_def by (rule rbind_returns) (auto simp: expect_empty_def)

text \<open>The body of one constructor.\<close>

lemma constructor_body:
  assumes "exact_body ok enc rd" "\<And>x. ok' (C x) \<longleftrightarrow> ok x" "\<And>x. get_type (C x) = t" "\<And>x. enc' (C x) = enc x"
    and "\<And>y. get_type y = t \<Longrightarrow> ok' y \<Longrightarrow> \<exists>x. y = C x"
  shows "exact_body (\<lambda>y. ok' y \<and> get_type y = t) enc' (rd_map C rd)"
proof (rule map_exact_body [OF assms(1)])
  show "ok' y \<and> get_type y = t \<longleftrightarrow> (\<exists>x. y = C x \<and> ok x)" for y
  proof
    assume y: "ok' y \<and> get_type y = t"
    then obtain x where "y = C x" using assms(5) by blast
    then show "\<exists>x. y = C x \<and> ok x" using y assms(2) by blast
  next
    assume "\<exists>x. y = C x \<and> ok x"
    then show "ok' y \<and> get_type y = t" using assms(2,3) by blast
  qed
qed (rule assms(4))

text \<open>An empty body.\<close>

lemma done_body: "(\<And>y. ok y \<longleftrightarrow> y = x) \<Longrightarrow> enc x = [] \<Longrightarrow> exact_body ok enc (rd_done x)"
  by unfold_locales (auto simp: rd_done_def)

text \<open>A tag read first, which decides how the rest is read.\<close>

lemma tagged_body:
  assumes tag: "exact_codec tok tenc trd"
    and body: "\<And>t. tok t \<Longrightarrow> exact_body (\<lambda>x. ok x \<and> tag_of x = t) enc (rd t)"
    and ok: "\<And>x. ok x \<Longrightarrow> tok (tag_of x)"
  shows "exact_body ok (\<lambda>x. tenc (tag_of x) @ enc x) (\<lambda>r. rbind (trd r) (\<lambda>(t, r). rd t r))"
proof -
  let ?rd = "\<lambda>r. rbind (trd r) (\<lambda>(t, r). rd t r)"
  have exact: "ok x \<and> unread r = tenc (tag_of x) @ enc x" if a: "?rd r = Some (Ret (x, r'))" and b: "unread r' = []" for r x r'
  proof -
    obtain t r1 where t: "trd r = Some (Ret (t, r1))" "rd t r1 = Some (Ret (x, r'))"
      using a by (auto simp: rbind_Ret_iff)
    have e: "tok t" "unread r = tenc t @ unread r1"
      using exact_codec.exact [OF tag t(1)] by auto
    then show ?thesis
      using exact_body.body_exact [OF body [OF e(1)] t(2) b] by simp
  qed
  show ?thesis
  proof (unfold_locales, goal_cases)
    case (1 r)
    show ?case
    proof (rule rbind_returns [OF exact_returns [OF tag]])
      fix p
      assume p: "trd r = Some (Ret p)"
      obtain t r1 where "p = (t, r1)" by (cases p)
      then show "\<exists>res. (case p of (t, r) \<Rightarrow> rd t r) = Some res \<and> res \<noteq> Panic"
        using body_codec.body_returns [OF exact_body.axioms(1) [OF body]] exact_codec.exact [OF tag, of r t r1] p by simp
    qed
  next
    case (2 r x r')
    then show ?case using exact [of r x r'] by simp
  next
    case (3 x r)
    obtain r1 where r1: "trd r = Some (Ret (tag_of x, r1))" "unread r1 = enc x"
      using exact_inverse [OF tag ok [OF 3(1)] 3(2)] by blast
    then show ?case
      using body_codec.body_inverse [OF exact_body.axioms(1) [OF body [OF ok [OF 3(1)]]] _ r1(2)] 3(1) by auto
  next
    case (4 r x r')
    then show ?case using exact [of r x r'] by simp
  qed
qed

text \<open>Fields before the body, an error always, and checks after it.\<close>

lemma pair_body:
  assumes a: "tls_codec ok1 enc1 rd1" and b: "body_codec ok2 enc2 rd2"
  shows "body_codec (\<lambda>(x, y). ok1 x \<and> ok2 y) (\<lambda>(x, y). enc1 x @ enc2 y) (rd_pair rd1 rd2)"
proof (unfold_locales, goal_cases)
  case (1 r)
  show ?case
    unfolding rd_pair_def
    by (rule rbind_returns [OF tls_codec.returns [OF a]]) (auto intro!: rbind_returns [OF body_codec.body_returns [OF b]])
next
  case (2 r p r')
  then obtain x y r1 where p: "p = (x, y)" "rd1 r = Some (Ret (x, r1))" "rd2 r1 = Some (Ret (y, r'))"
    by (auto simp: rd_pair_def rbind_Ret_iff)
  obtain bs where "unread r = bs @ unread r1" "length (enc1 x) \<le> length bs" "ok1 x"
    using tls_codec.sound [OF a p(2)] by auto
  then show ?case
    using body_codec.body_sound [OF b p(3) 2(2)] p(1) by auto
next
  case (3 p r)
  then obtain x y where p: "p = (x, y)" "ok1 x" "ok2 y" "unread r = enc1 x @ enc2 y" by (cases p) auto
  obtain r1 where r1: "rd1 r = Some (Ret (x, r1))" "unread r1 = enc2 y"
    using tls_codec.inverse [OF a p(2,4)] by blast
  obtain r2 where "rd2 r1 = Some (Ret (y, r2))" "unread r2 = []"
    using body_codec.body_inverse [OF b p(3) r1(2)] by blast
  then show ?case
    using r1 p by (simp add: rd_pair_def)
qed

lemma error_body: "(\<And>x. \<not> ok x) \<Longrightarrow> exact_body ok enc (\<lambda>_. Some (Err e))"
  by unfold_locales auto

lemma check_body:
  assumes "body_codec ok enc rd"
  shows "body_codec (\<lambda>x. ok x \<and> \<not> bad x) enc (rd_check bad e rd)"
proof (unfold_locales, goal_cases)
  case (1 r)
  show ?case
    unfolding rd_check_def by (rule rbind_returns [OF body_codec.body_returns [OF assms]]) auto
next
  case (2 r x r')
  then show ?case
    using body_codec.body_sound [OF assms] by (auto simp: rd_check_def rbind_Ret_iff split: if_splits)
next
  case (3 x r)
  then show ?case
    using body_codec.body_inverse [OF assms, of x r] by (auto simp: rd_check_def)
qed

lemma end_body:
  assumes "body_codec ok enc rd"
  shows "body_codec ok enc (rd_end name rd)"
proof (unfold_locales, goal_cases)
  case (1 r)
  show ?case by (rule rd_end_returns [OF body_codec.body_returns [OF assms]])
next
  case (2 r x r')
  then show ?case using body_codec.body_sound [OF assms] by (auto simp: rd_end_Ret)
next
  case (3 x r)
  then show ?case using body_codec.body_inverse [OF assms, of x r] by (auto simp: rd_end_Ret)
qed

lemma et_codec: "exact_element (\<lambda>e. et_from (et_get_u16 e) = e) (\<lambda>e. u16_be (et_get_u16 e)) et_read"
  unfolding et_read_def by (rule enum_u16_codec) (rule et_get_from)

lemma extension_element:
  assumes body: "\<And>t. exact_body (\<lambda>x. ok x \<and> get_type x = t) enc (body t)"
  shows "exact_element (\<lambda>x. ok x \<and> et_from (et_get_u16 (get_type x)) = get_type x \<and> length (enc x) < 65536)
    (encode_extension get_type enc) (read_extension name body)"
proof -
  note returns = exact_element.is_exact [OF et_codec, THEN exact_returns] exact_element.is_exact [OF u16_codec, THEN exact_returns]
  note inverse = exact_element.is_exact [OF et_codec, THEN exact_inverse] exact_element.is_exact [OF u16_codec, THEN exact_inverse]
  note exact = exact_element.is_exact [OF et_codec, THEN exact_codec.exact] exact_element.is_exact [OF u16_codec, THEN exact_codec.exact]
  have "exact_codec (\<lambda>x. ok x \<and> et_from (et_get_u16 (get_type x)) = get_type x \<and> length (enc x) < 65536)
    (encode_extension get_type enc) (read_extension name body)"
  proof (rule exact_codecI, goal_cases)
    case (1 r)
    show ?case
      unfolding read_extension_def
      using returns body_codec.body_returns [OF exact_body.axioms(1) [OF body]]
      by (intro rbind_returns) (auto simp: sub_unread intro!: rbind_returns rd_end_returns)
  next
    case (2 x r rest)
    have "unread r = u16_be (et_get_u16 (get_type x)) @ u16_be (word_of_nat (length (enc x))) @ enc x @ rest"
      using 2(2) by (simp add: encode_extension_def length_prefixed_def len_bytes_def)
    then obtain r1 r2 where r2: "et_read r = Some (Ret (get_type x, r1))" "rd_u16 r1 = Some (Ret (word_of_nat (length (enc x)), r2))"
      "unread r2 = enc x @ rest"
      using inverse(1) inverse(2) 2(1) by blast
    moreover obtain r3 where "rd_end name (body (get_type x)) (reader_init (enc x)) = Some (Ret (x, r3))"
      using body_codec.body_inverse [OF exact_body.axioms(1) [OF body], of x "get_type x" "reader_init (enc x)"] 2(1)
      by (auto simp: rd_end_Ret)
    ultimately show ?case
      using 2(1) by (simp add: read_extension_def sub_unread unat_of_nat)
  next
    case (3 x r r')
    then obtain t r1 len r2 sub where t: "et_read r = Some (Ret (t, r1))" "rd_u16 r1 = Some (Ret (len, r2))" "unat len \<le> length (unread r2)"
      "r' = r2 \<lparr>rd_cursor := rd_cursor r2 + unat len\<rparr>" "body t (reader_init (take (unat len) (unread r2))) = Some (Ret (x, sub))" "unread sub = []"
      by (auto simp: read_extension_def rbind_Ret_iff sub_unread rd_end_Ret split: if_splits)
    have "ok x" "get_type x = t" "take (unat len) (unread r2) = enc x"
      using exact_body.body_exact [OF body t(5,6)] by auto
    moreover from this have "length (enc x) = unat len"
      using t(3) by (metis length_take min.absorb2)
    moreover have "et_from (et_get_u16 t) = t" "unread r = u16_be (et_get_u16 t) @ u16_be len @ unread r2"
      using exact(1) [OF t(1)] exact(2) [OF t(2)] by auto
    moreover have "unat len < 65536"
      by (rule less_le_trans [OF unsigned_less]) simp
    ultimately show ?case
      using t(4) append_take_drop_id [of "unat len" "unread r2"]
      by (simp add: encode_extension_def length_prefixed_def len_bytes_def)
  qed
  then show ?thesis
    by (simp add: exact_element_def exact_element_axioms_def encode_extension_def u16_be_def)
qed

end
