(* ===== verification/Rustls_Extensions.thy ===== *)
theory Rustls_Extensions
  imports Rustls_Codec
begin

text \<open>
  The parts of hello messages in the TLS library: randoms, session identifiers, names, key shares, pre-shared keys, and the
  extensions of client and server (\<open>rustls-reality/rustls/src/msgs/handshake.rs\<close>).

  \<open>DnsName\<close> belongs to another crate. It is the bytes of the name, and the argument \<open>dns\<close> says which bytes its \<open>try_from\<close>
  accepts.
\<close>

section \<open>The codecs of the enumerations\<close>

abbreviation epf_read :: "ec_point_format rd" where "epf_read \<equiv> enum_u8_read ''ECPointFormat'' epf_from"
abbreviation epf_encode :: "ec_point_format \<Rightarrow> bytes" where "epf_encode \<equiv> \<lambda>e. [epf_get_u8 e]"
abbreviation epf_ok :: "ec_point_format \<Rightarrow> bool" where "epf_ok \<equiv> \<lambda>e. epf_from (epf_get_u8 e) = e"
abbreviation ng_read :: "named_group rd" where "ng_read \<equiv> enum_u16_read ''NamedGroup'' ng_from"
abbreviation ng_encode :: "named_group \<Rightarrow> bytes" where "ng_encode \<equiv> \<lambda>e. u16_be (ng_get_u16 e)"
abbreviation ng_ok :: "named_group \<Rightarrow> bool" where "ng_ok \<equiv> \<lambda>e. ng_from (ng_get_u16 e) = e"
abbreviation ss_read :: "signature_scheme rd" where "ss_read \<equiv> enum_u16_read ''SignatureScheme'' ss_from"
abbreviation ss_encode :: "signature_scheme \<Rightarrow> bytes" where "ss_encode \<equiv> \<lambda>e. u16_be (ss_get_u16 e)"
abbreviation ss_ok :: "signature_scheme \<Rightarrow> bool" where "ss_ok \<equiv> \<lambda>e. ss_from (ss_get_u16 e) = e"
abbreviation snt_read :: "server_name_type rd" where "snt_read \<equiv> enum_u8_read ''ServerNameType'' snt_from"
abbreviation snt_encode :: "server_name_type \<Rightarrow> bytes" where "snt_encode \<equiv> \<lambda>e. [snt_get_u8 e]"
abbreviation snt_ok :: "server_name_type \<Rightarrow> bool" where "snt_ok \<equiv> \<lambda>e. snt_from (snt_get_u8 e) = e"
abbreviation pkm_read :: "psk_key_exchange_mode rd" where "pkm_read \<equiv> enum_u8_read ''PSKKeyExchangeMode'' pkm_from"
abbreviation pkm_encode :: "psk_key_exchange_mode \<Rightarrow> bytes" where "pkm_encode \<equiv> \<lambda>e. [pkm_get_u8 e]"
abbreviation pkm_ok :: "psk_key_exchange_mode \<Rightarrow> bool" where "pkm_ok \<equiv> \<lambda>e. pkm_from (pkm_get_u8 e) = e"
abbreviation cst_read :: "certificate_status_type rd" where "cst_read \<equiv> enum_u8_read ''CertificateStatusType'' cst_from"
abbreviation cst_encode :: "certificate_status_type \<Rightarrow> bytes" where "cst_encode \<equiv> \<lambda>e. [cst_get_u8 e]"
abbreviation cst_ok :: "certificate_status_type \<Rightarrow> bool" where "cst_ok \<equiv> \<lambda>e. cst_from (cst_get_u8 e) = e"
abbreviation cm_read :: "compression rd" where "cm_read \<equiv> enum_u8_read ''Compression'' cm_from"
abbreviation cm_encode :: "compression \<Rightarrow> bytes" where "cm_encode \<equiv> \<lambda>e. [cm_get_u8 e]"
abbreviation cm_ok :: "compression \<Rightarrow> bool" where "cm_ok \<equiv> \<lambda>e. cm_from (cm_get_u8 e) = e"
abbreviation vers_read :: "rl_version rd" where "vers_read \<equiv> enum_u16_read ''ProtocolVersion'' pv_from"
abbreviation vers_encode :: "rl_version \<Rightarrow> bytes" where "vers_encode \<equiv> \<lambda>e. u16_be (pv_get_u16 e)"
abbreviation vers_ok :: "rl_version \<Rightarrow> bool" where "vers_ok \<equiv> \<lambda>e. pv_from (pv_get_u16 e) = e"
abbreviation suite_read :: "cipher_suite rd" where "suite_read \<equiv> enum_u16_read ''CipherSuite'' (\<lambda>x. x)"

section \<open>Randoms and session identifiers\<close>

definition HELLO_RETRY_REQUEST_RANDOM :: bytes where
  "HELLO_RETRY_REQUEST_RANDOM =
    [0xcf, 0x21, 0xad, 0x74, 0xe5, 0x9a, 0x61, 0x11, 0xbe, 0x1d, 0x8c, 0x02, 0x1e, 0x65, 0xb8, 0x91,
     0xc2, 0xa2, 0x11, 0x16, 0x7a, 0xbb, 0x8c, 0x5e, 0x07, 0x9e, 0x09, 0xe2, 0xc8, 0xa8, 0x33, 0x9c]"

definition ZERO_RANDOM :: bytes where
  "ZERO_RANDOM = replicate 32 0"

definition random_read :: "bytes rd" where
  "random_read r =
     Some (case reader_take 32 r of Some (bs, r') \<Rightarrow> Ret (bs, r') | None \<Rightarrow> Err (MissingData (lit ''Random'')))"

record session_id =
  sid_len :: nat
  sid_data :: bytes

definition session_id_encode :: "session_id \<Rightarrow> bytes" where
  "session_id_encode s = word_of_nat (sid_len s) # take (sid_len s) (sid_data s)"

definition session_id_read :: "session_id rd" where
  "session_id_read r =
     rbind (rd_u8 r) (\<lambda>(n, r).
     if unat n > 32 then Some (Err (TrailingData (lit ''SessionID'')))
     else case reader_take (unat n) r of
       Some (bs, r) \<Rightarrow> Some (Ret (\<lparr>sid_len = unat n, sid_data = bs @ replicate (32 - unat n) 0\<rparr>, r))
     | None \<Rightarrow> Some (Err (MissingData (lit ''SessionID''))))"

definition session_id_random :: "bytes \<Rightarrow> session_id" where
  "session_id_random filled = \<lparr>sid_len = 32, sid_data = filled\<rparr>"

definition session_id_empty :: session_id where
  "session_id_empty = \<lparr>sid_len = 0, sid_data = replicate 32 0\<rparr>"

text \<open>The comparison that does not branch on the bytes.\<close>

definition session_id_eq :: "session_id \<Rightarrow> session_id \<Rightarrow> bool" where
  "session_id_eq a b \<longleftrightarrow>
     sid_len a = sid_len b \<and> foldl (\<lambda>diff i. diff OR (sid_data a ! i XOR sid_data b ! i)) 0 [0..<sid_len a] = 0"

section \<open>Names\<close>

datatype server_name_payload = SNP_HostName bytes | SNP_Unknown bytes

record server_name =
  sn_typ :: server_name_type
  sn_payload :: server_name_payload

definition read_hostname :: "(bytes \<Rightarrow> bool) \<Rightarrow> server_name_payload rd" where
  "read_hostname dns =
     rd_map SNP_HostName (rd_check (\<lambda>raw. \<not> dns raw) InvalidServerName payload_u16_read)"

definition server_name_payload_encode :: "server_name_payload \<Rightarrow> bytes" where
  "server_name_payload_encode p =
     (case p of
        SNP_HostName name \<Rightarrow> u16_be (word_of_nat (length name)) @ name
      | SNP_Unknown r \<Rightarrow> r)"

definition server_name_encode :: "server_name \<Rightarrow> bytes" where
  "server_name_encode n = snt_encode (sn_typ n) @ server_name_payload_encode (sn_payload n)"

definition server_name_read :: "(bytes \<Rightarrow> bool) \<Rightarrow> server_name rd" where
  "server_name_read dns r =
     rbind (snt_read r) (\<lambda>(typ, r).
     rd_map (\<lambda>payload. \<lparr>sn_typ = typ, sn_payload = payload\<rparr>)
       (case typ of SNT_HostName \<Rightarrow> read_hostname dns | _ \<Rightarrow> rd_map SNP_Unknown payload_read) r)"

text \<open>Whether a \<open>BTreeSet\<close> that takes the keys one by one meets one it has.\<close>

fun seen_before :: "'k list \<Rightarrow> 'k set \<Rightarrow> bool" where
  "seen_before [] seen \<longleftrightarrow> False"
| "seen_before (k # ks) seen \<longleftrightarrow> k \<in> seen \<or> seen_before ks (insert k seen)"

definition has_duplicate_names_for_type :: "server_name list \<Rightarrow> bool" where
  "has_duplicate_names_for_type names = seen_before (map (\<lambda>n. snt_get_u8 (sn_typ n)) names) {}"

definition only_dns_hostnames :: "server_name \<Rightarrow> bytes option" where
  "only_dns_hostnames n = (case sn_payload n of SNP_HostName d \<Rightarrow> Some d | SNP_Unknown _ \<Rightarrow> None)"

definition get_single_hostname :: "server_name list \<Rightarrow> bytes option" where
  "get_single_hostname names = (case List.map_filter only_dns_hostnames names of [] \<Rightarrow> None | d # _ \<Rightarrow> Some d)"

definition as_single_slice :: "bytes list \<Rightarrow> bytes option" where
  "as_single_slice protos = (if length protos = 1 then Some (protos ! 0) else None)"

section \<open>Key shares and pre-shared keys\<close>

record key_share_entry =
  kse_group :: named_group
  kse_payload :: bytes

definition kse_encode :: "key_share_entry \<Rightarrow> bytes" where
  "kse_encode k = ng_encode (kse_group k) @ payload_u16_encode (kse_payload k)"

definition kse_read :: "key_share_entry rd" where
  "kse_read = rd_map (\<lambda>(g, p). \<lparr>kse_group = g, kse_payload = p\<rparr>) (rd_pair ng_read payload_u16_read)"

record psk_identity =
  pski_identity :: bytes
  pski_age :: u32

definition psk_identity_encode :: "psk_identity \<Rightarrow> bytes" where
  "psk_identity_encode i = payload_u16_encode (pski_identity i) @ u32_be (pski_age i)"

definition psk_identity_read :: "psk_identity rd" where
  "psk_identity_read = rd_map (\<lambda>(i, a). \<lparr>pski_identity = i, pski_age = a\<rparr>) (rd_pair payload_u16_read rd_u32)"

record psk_offer =
  psko_identities :: "psk_identity list"
  psko_binders :: "bytes list"

definition psk_offer_encode :: "psk_offer \<Rightarrow> bytes" where
  "psk_offer_encode p =
     encode_list ListU16 psk_identity_encode (psko_identities p) @ encode_list ListU16 payload_u8_encode (psko_binders p)"

definition psk_offer_read :: "psk_offer rd" where
  "psk_offer_read =
     rd_map (\<lambda>(i, b). \<lparr>psko_identities = i, psko_binders = b\<rparr>)
       (rd_pair (read_vec ListU16 psk_identity_read) (read_vec ListU16 payload_u8_read))"

definition psk_offer_new :: "psk_identity \<Rightarrow> bytes \<Rightarrow> psk_offer" where
  "psk_offer_new i binder = \<lparr>psko_identities = [i], psko_binders = [binder]\<rparr>"

section \<open>Certificate status requests\<close>

record ocsp_request =
  ocsp_responder_ids :: "bytes list"
  ocsp_extensions :: bytes

definition ocsp_request_encode :: "ocsp_request \<Rightarrow> bytes" where
  "ocsp_request_encode q =
     cst_encode CST_OCSP @ encode_list ListU16 payload_u16_encode (ocsp_responder_ids q) @ payload_u16_encode (ocsp_extensions q)"

definition ocsp_request_read :: "ocsp_request rd" where
  "ocsp_request_read =
     rd_map (\<lambda>(i, e). \<lparr>ocsp_responder_ids = i, ocsp_extensions = e\<rparr>)
       (rd_pair (read_vec ListU16 payload_u16_read) payload_u16_read)"

datatype status_request = CSR_Ocsp ocsp_request | CSR_Unknown certificate_status_type bytes

definition status_request_encode :: "status_request \<Rightarrow> bytes" where
  "status_request_encode q =
     (case q of
        CSR_Ocsp r \<Rightarrow> ocsp_request_encode r
      | CSR_Unknown typ payload \<Rightarrow> cst_encode typ @ payload)"

definition status_request_read :: "status_request rd" where
  "status_request_read r =
     rbind (cst_read r) (\<lambda>(typ, r).
     case typ of
       CST_OCSP \<Rightarrow> rd_map CSR_Ocsp ocsp_request_read r
     | _ \<Rightarrow> rd_map (CSR_Unknown typ) payload_read r)"

definition build_ocsp :: status_request where
  "build_ocsp = CSR_Ocsp \<lparr>ocsp_responder_ids = [], ocsp_extensions = []\<rparr>"

section \<open>Extensions of the client\<close>

record unknown_extension =
  ue_typ :: extension_type
  ue_payload :: bytes

definition unknown_read :: "extension_type \<Rightarrow> unknown_extension rd" where
  "unknown_read t = rd_map (\<lambda>p. \<lparr>ue_typ = t, ue_payload = p\<rparr>) payload_read"

datatype client_session_ticket = Ticket_Request | Ticket_Offer bytes

datatype client_extension =
    CE_EcPointFormats "ec_point_format list"
  | CE_NamedGroups "named_group list"
  | CE_SignatureAlgorithms "signature_scheme list"
  | CE_ServerName "server_name list"
  | CE_SessionTicket client_session_ticket
  | CE_Protocols "bytes list"
  | CE_SupportedVersions "rl_version list"
  | CE_KeyShare "key_share_entry list"
  | CE_PresharedKeyModes "psk_key_exchange_mode list"
  | CE_PresharedKey psk_offer
  | CE_Cookie bytes
  | CE_ExtendedMasterSecretRequest
  | CE_CertificateStatusRequest status_request
  | CE_TransportParameters bytes
  | CE_TransportParametersDraft bytes
  | CE_EarlyData
  | CE_Unknown unknown_extension

primrec ce_get_type :: "client_extension \<Rightarrow> extension_type" where
  "ce_get_type (CE_EcPointFormats _) = ET_ECPointFormats"
| "ce_get_type (CE_NamedGroups _) = ET_EllipticCurves"
| "ce_get_type (CE_SignatureAlgorithms _) = ET_SignatureAlgorithms"
| "ce_get_type (CE_ServerName _) = ET_ServerName"
| "ce_get_type (CE_SessionTicket _) = ET_SessionTicket"
| "ce_get_type (CE_Protocols _) = ET_ALProtocolNegotiation"
| "ce_get_type (CE_SupportedVersions _) = ET_SupportedVersions"
| "ce_get_type (CE_KeyShare _) = ET_KeyShare"
| "ce_get_type (CE_PresharedKeyModes _) = ET_PSKKeyExchangeModes"
| "ce_get_type (CE_PresharedKey _) = ET_PreSharedKey"
| "ce_get_type (CE_Cookie _) = ET_Cookie"
| "ce_get_type CE_ExtendedMasterSecretRequest = ET_ExtendedMasterSecret"
| "ce_get_type (CE_CertificateStatusRequest _) = ET_StatusRequest"
| "ce_get_type (CE_TransportParameters _) = ET_TransportParameters"
| "ce_get_type (CE_TransportParametersDraft _) = ET_TransportParametersDraft"
| "ce_get_type CE_EarlyData = ET_EarlyData"
| "ce_get_type (CE_Unknown r) = ue_typ r"

primrec ce_body_encode :: "client_extension \<Rightarrow> bytes" where
  "ce_body_encode (CE_EcPointFormats r) = encode_list ListU8 epf_encode r"
| "ce_body_encode (CE_NamedGroups r) = encode_list ListU16 ng_encode r"
| "ce_body_encode (CE_SignatureAlgorithms r) = encode_list ListU16 ss_encode r"
| "ce_body_encode (CE_ServerName r) = encode_list ListU16 server_name_encode r"
| "ce_body_encode (CE_SessionTicket r) = (case r of Ticket_Request \<Rightarrow> [] | Ticket_Offer p \<Rightarrow> p)"
| "ce_body_encode (CE_Protocols r) = encode_list ListU16 payload_u8_encode r"
| "ce_body_encode (CE_SupportedVersions r) = encode_list ListU8 vers_encode r"
| "ce_body_encode (CE_KeyShare r) = encode_list ListU16 kse_encode r"
| "ce_body_encode (CE_PresharedKeyModes r) = encode_list ListU8 pkm_encode r"
| "ce_body_encode (CE_PresharedKey r) = psk_offer_encode r"
| "ce_body_encode (CE_Cookie r) = payload_u16_encode r"
| "ce_body_encode CE_ExtendedMasterSecretRequest = []"
| "ce_body_encode (CE_CertificateStatusRequest r) = status_request_encode r"
| "ce_body_encode (CE_TransportParameters r) = r"
| "ce_body_encode (CE_TransportParametersDraft r) = r"
| "ce_body_encode CE_EarlyData = []"
| "ce_body_encode (CE_Unknown r) = ue_payload r"

definition client_extension_encode :: "client_extension \<Rightarrow> bytes" where
  "client_extension_encode = encode_extension ce_get_type ce_body_encode"

definition ce_body_read :: "(bytes \<Rightarrow> bool) \<Rightarrow> extension_type \<Rightarrow> client_extension rd" where
  "ce_body_read dns t =
     (case t of
        ET_ECPointFormats \<Rightarrow> rd_map CE_EcPointFormats (read_vec ListU8 epf_read)
      | ET_EllipticCurves \<Rightarrow> rd_map CE_NamedGroups (read_vec ListU16 ng_read)
      | ET_SignatureAlgorithms \<Rightarrow> rd_map CE_SignatureAlgorithms (read_vec ListU16 ss_read)
      | ET_ServerName \<Rightarrow> rd_map CE_ServerName (read_vec ListU16 (server_name_read dns))
      | ET_SessionTicket \<Rightarrow> (\<lambda>sub.
          if reader_any_left sub then rd_map (\<lambda>p. CE_SessionTicket (Ticket_Offer p)) payload_read sub
          else rd_done (CE_SessionTicket Ticket_Request) sub)
      | ET_ALProtocolNegotiation \<Rightarrow> rd_map CE_Protocols (read_vec ListU16 payload_u8_read)
      | ET_SupportedVersions \<Rightarrow> rd_map CE_SupportedVersions (read_vec ListU8 vers_read)
      | ET_KeyShare \<Rightarrow> rd_map CE_KeyShare (read_vec ListU16 kse_read)
      | ET_PSKKeyExchangeModes \<Rightarrow> rd_map CE_PresharedKeyModes (read_vec ListU8 pkm_read)
      | ET_PreSharedKey \<Rightarrow> rd_map CE_PresharedKey psk_offer_read
      | ET_Cookie \<Rightarrow> rd_map CE_Cookie payload_u16_read
      | ET_ExtendedMasterSecret \<Rightarrow> (\<lambda>sub.
          if reader_any_left sub then rd_map CE_Unknown (unknown_read t) sub
          else rd_done CE_ExtendedMasterSecretRequest sub)
      | ET_StatusRequest \<Rightarrow> rd_map CE_CertificateStatusRequest status_request_read
      | ET_TransportParameters \<Rightarrow> rd_map CE_TransportParameters payload_read
      | ET_TransportParametersDraft \<Rightarrow> rd_map CE_TransportParametersDraft payload_read
      | ET_EarlyData \<Rightarrow> (\<lambda>sub.
          if reader_any_left sub then rd_map CE_Unknown (unknown_read t) sub
          else rd_done CE_EarlyData sub)
      | _ \<Rightarrow> rd_map CE_Unknown (unknown_read t))"

definition client_extension_read :: "(bytes \<Rightarrow> bool) \<Rightarrow> client_extension rd" where
  "client_extension_read dns = read_extension ''ClientExtension'' (ce_body_read dns)"

text \<open>The name without its trailing dot; what is left must be a name again.\<close>

definition trim_hostname_trailing_dot_for_sni :: "(bytes \<Rightarrow> bool) \<Rightarrow> bytes \<Rightarrow> (unit, bytes) outcome" where
  "trim_hostname_trailing_dot_for_sni dns name =
     (if name \<noteq> [] \<and> last name = 0x2e then (if dns (butlast name) then Ret (butlast name) else Panic) else Ret name)"

definition make_sni :: "(bytes \<Rightarrow> bool) \<Rightarrow> bytes \<Rightarrow> (unit, client_extension) outcome" where
  "make_sni dns name =
     bnd (trim_hostname_trailing_dot_for_sni dns name) (\<lambda>n.
     Ret (CE_ServerName [\<lparr>sn_typ = SNT_HostName, sn_payload = SNP_HostName n\<rparr>]))"

section \<open>Extensions of the server\<close>

datatype server_extension =
    SE_EcPointFormats "ec_point_format list"
  | SE_ServerNameAck
  | SE_SessionTicketAck
  | SE_RenegotiationInfo bytes
  | SE_Protocols "bytes list"
  | SE_KeyShare key_share_entry
  | SE_PresharedKey u16
  | SE_ExtendedMasterSecretAck
  | SE_CertificateStatusAck
  | SE_SupportedVersions rl_version
  | SE_TransportParameters bytes
  | SE_TransportParametersDraft bytes
  | SE_EarlyData
  | SE_Unknown unknown_extension

primrec se_get_type :: "server_extension \<Rightarrow> extension_type" where
  "se_get_type (SE_EcPointFormats _) = ET_ECPointFormats"
| "se_get_type SE_ServerNameAck = ET_ServerName"
| "se_get_type SE_SessionTicketAck = ET_SessionTicket"
| "se_get_type (SE_RenegotiationInfo _) = ET_RenegotiationInfo"
| "se_get_type (SE_Protocols _) = ET_ALProtocolNegotiation"
| "se_get_type (SE_KeyShare _) = ET_KeyShare"
| "se_get_type (SE_PresharedKey _) = ET_PreSharedKey"
| "se_get_type SE_ExtendedMasterSecretAck = ET_ExtendedMasterSecret"
| "se_get_type SE_CertificateStatusAck = ET_StatusRequest"
| "se_get_type (SE_SupportedVersions _) = ET_SupportedVersions"
| "se_get_type (SE_TransportParameters _) = ET_TransportParameters"
| "se_get_type (SE_TransportParametersDraft _) = ET_TransportParametersDraft"
| "se_get_type SE_EarlyData = ET_EarlyData"
| "se_get_type (SE_Unknown r) = ue_typ r"

primrec se_body_encode :: "server_extension \<Rightarrow> bytes" where
  "se_body_encode (SE_EcPointFormats r) = encode_list ListU8 epf_encode r"
| "se_body_encode SE_ServerNameAck = []"
| "se_body_encode SE_SessionTicketAck = []"
| "se_body_encode SE_ExtendedMasterSecretAck = []"
| "se_body_encode SE_CertificateStatusAck = []"
| "se_body_encode SE_EarlyData = []"
| "se_body_encode (SE_RenegotiationInfo r) = payload_u8_encode r"
| "se_body_encode (SE_Protocols r) = encode_list ListU16 payload_u8_encode r"
| "se_body_encode (SE_KeyShare r) = kse_encode r"
| "se_body_encode (SE_PresharedKey r) = u16_be r"
| "se_body_encode (SE_SupportedVersions r) = vers_encode r"
| "se_body_encode (SE_TransportParameters r) = r"
| "se_body_encode (SE_TransportParametersDraft r) = r"
| "se_body_encode (SE_Unknown r) = ue_payload r"

definition server_extension_encode :: "server_extension \<Rightarrow> bytes" where
  "server_extension_encode = encode_extension se_get_type se_body_encode"

definition se_body_read :: "extension_type \<Rightarrow> server_extension rd" where
  "se_body_read t =
     (case t of
        ET_ECPointFormats \<Rightarrow> rd_map SE_EcPointFormats (read_vec ListU8 epf_read)
      | ET_ServerName \<Rightarrow> rd_done SE_ServerNameAck
      | ET_SessionTicket \<Rightarrow> rd_done SE_SessionTicketAck
      | ET_StatusRequest \<Rightarrow> rd_done SE_CertificateStatusAck
      | ET_RenegotiationInfo \<Rightarrow> rd_map SE_RenegotiationInfo payload_u8_read
      | ET_ALProtocolNegotiation \<Rightarrow> rd_map SE_Protocols (read_vec ListU16 payload_u8_read)
      | ET_KeyShare \<Rightarrow> rd_map SE_KeyShare kse_read
      | ET_PreSharedKey \<Rightarrow> rd_map SE_PresharedKey rd_u16
      | ET_ExtendedMasterSecret \<Rightarrow> rd_done SE_ExtendedMasterSecretAck
      | ET_SupportedVersions \<Rightarrow> rd_map SE_SupportedVersions vers_read
      | ET_TransportParameters \<Rightarrow> rd_map SE_TransportParameters payload_read
      | ET_TransportParametersDraft \<Rightarrow> rd_map SE_TransportParametersDraft payload_read
      | ET_EarlyData \<Rightarrow> rd_done SE_EarlyData
      | _ \<Rightarrow> rd_map SE_Unknown (unknown_read t))"

definition server_extension_read :: "server_extension rd" where
  "server_extension_read = read_extension ''ServerExtension'' se_body_read"

definition make_alpn :: "bytes list \<Rightarrow> server_extension" where
  "make_alpn proto = SE_Protocols proto"

definition make_empty_renegotiation_info :: server_extension where
  "make_empty_renegotiation_info = SE_RenegotiationInfo []"

section \<open>Well-formed values\<close>

definition session_id_ok :: "session_id \<Rightarrow> bool" where
  "session_id_ok s \<longleftrightarrow> sid_len s \<le> 32 \<and> length (sid_data s) = 32 \<and> drop (sid_len s) (sid_data s) = replicate (32 - sid_len s) 0"

definition server_name_ok :: "(bytes \<Rightarrow> bool) \<Rightarrow> server_name \<Rightarrow> bool" where
  "server_name_ok dns n \<longleftrightarrow>
     (case sn_payload n of
        SNP_HostName d \<Rightarrow> sn_typ n = SNT_HostName \<and> dns d \<and> length d < 65536
      | SNP_Unknown p \<Rightarrow> sn_typ n \<noteq> SNT_HostName \<and> snt_ok (sn_typ n))"

text \<open>A name of an unknown type takes the rest of the list.\<close>

definition unknown_name :: "server_name \<Rightarrow> bool" where
  "unknown_name n = (case sn_payload n of SNP_HostName _ \<Rightarrow> False | SNP_Unknown _ \<Rightarrow> True)"

definition server_names_ok :: "(bytes \<Rightarrow> bool) \<Rightarrow> server_name list \<Rightarrow> bool" where
  "server_names_ok dns ns \<longleftrightarrow>
     vec_ok ListU16 (server_name_ok dns) server_name_encode ns \<and> list_all (\<lambda>n. \<not> unknown_name n) (butlast ns)"

definition kse_ok :: "key_share_entry \<Rightarrow> bool" where
  "kse_ok k \<longleftrightarrow> ng_ok (kse_group k) \<and> length (kse_payload k) < 65536"

definition psk_identity_ok :: "psk_identity \<Rightarrow> bool" where
  "psk_identity_ok i \<longleftrightarrow> length (pski_identity i) < 65536"

abbreviation short8 :: "bytes \<Rightarrow> bool" where "short8 \<equiv> \<lambda>bs. length bs < 256"
abbreviation short16 :: "bytes \<Rightarrow> bool" where "short16 \<equiv> \<lambda>bs. length bs < 65536"

definition psk_offer_ok :: "psk_offer \<Rightarrow> bool" where
  "psk_offer_ok p \<longleftrightarrow> vec_ok ListU16 psk_identity_ok psk_identity_encode (psko_identities p)
     \<and> vec_ok ListU16 short8 payload_u8_encode (psko_binders p)"

definition ocsp_request_ok :: "ocsp_request \<Rightarrow> bool" where
  "ocsp_request_ok q \<longleftrightarrow> vec_ok ListU16 short16 payload_u16_encode (ocsp_responder_ids q) \<and> short16 (ocsp_extensions q)"

primrec status_request_ok :: "status_request \<Rightarrow> bool" where
  "status_request_ok (CSR_Ocsp q) \<longleftrightarrow> ocsp_request_ok q"
| "status_request_ok (CSR_Unknown t p) \<longleftrightarrow> t \<noteq> CST_OCSP \<and> cst_ok t"

primrec ce_body_ok :: "(bytes \<Rightarrow> bool) \<Rightarrow> client_extension \<Rightarrow> bool" where
  "ce_body_ok dns (CE_EcPointFormats r) \<longleftrightarrow> vec_ok ListU8 epf_ok epf_encode r"
| "ce_body_ok dns (CE_NamedGroups r) \<longleftrightarrow> vec_ok ListU16 ng_ok ng_encode r"
| "ce_body_ok dns (CE_SignatureAlgorithms r) \<longleftrightarrow> vec_ok ListU16 ss_ok ss_encode r"
| "ce_body_ok dns (CE_ServerName r) \<longleftrightarrow> server_names_ok dns r"
| "ce_body_ok dns (CE_SessionTicket r) \<longleftrightarrow> r \<noteq> Ticket_Offer []"
| "ce_body_ok dns (CE_Protocols r) \<longleftrightarrow> vec_ok ListU16 short8 payload_u8_encode r"
| "ce_body_ok dns (CE_SupportedVersions r) \<longleftrightarrow> vec_ok ListU8 vers_ok vers_encode r"
| "ce_body_ok dns (CE_KeyShare r) \<longleftrightarrow> vec_ok ListU16 kse_ok kse_encode r"
| "ce_body_ok dns (CE_PresharedKeyModes r) \<longleftrightarrow> vec_ok ListU8 pkm_ok pkm_encode r"
| "ce_body_ok dns (CE_PresharedKey r) \<longleftrightarrow> psk_offer_ok r"
| "ce_body_ok dns (CE_Cookie r) \<longleftrightarrow> short16 r"
| "ce_body_ok dns CE_ExtendedMasterSecretRequest \<longleftrightarrow> True"
| "ce_body_ok dns (CE_CertificateStatusRequest r) \<longleftrightarrow> status_request_ok r"
| "ce_body_ok dns (CE_TransportParameters r) \<longleftrightarrow> True"
| "ce_body_ok dns (CE_TransportParametersDraft r) \<longleftrightarrow> True"
| "ce_body_ok dns CE_EarlyData \<longleftrightarrow> True"
| "ce_body_ok dns (CE_Unknown r) \<longleftrightarrow>
     (ue_payload r \<noteq> [] \<and> ue_typ r \<in> {ET_ExtendedMasterSecret, ET_EarlyData}) \<or>
     ue_typ r \<notin> {ET_ECPointFormats, ET_EllipticCurves, ET_SignatureAlgorithms, ET_ServerName, ET_SessionTicket,
       ET_ALProtocolNegotiation, ET_SupportedVersions, ET_KeyShare, ET_PSKKeyExchangeModes, ET_PreSharedKey, ET_Cookie,
       ET_ExtendedMasterSecret, ET_StatusRequest, ET_TransportParameters, ET_TransportParametersDraft, ET_EarlyData}"

definition extension_ok :: "('a \<Rightarrow> bool) \<Rightarrow> ('a \<Rightarrow> extension_type) \<Rightarrow> ('a \<Rightarrow> bytes) \<Rightarrow> 'a \<Rightarrow> bool" where
  "extension_ok body_ok get_type body x \<longleftrightarrow> body_ok x \<and> et_from (et_get_u16 (get_type x)) = get_type x \<and> length (body x) < 65536"

definition client_extension_ok :: "(bytes \<Rightarrow> bool) \<Rightarrow> client_extension \<Rightarrow> bool" where
  "client_extension_ok dns = extension_ok (ce_body_ok dns) ce_get_type ce_body_encode"

primrec se_body_ok :: "server_extension \<Rightarrow> bool" where
  "se_body_ok (SE_EcPointFormats r) \<longleftrightarrow> vec_ok ListU8 epf_ok epf_encode r"
| "se_body_ok SE_ServerNameAck \<longleftrightarrow> True"
| "se_body_ok SE_SessionTicketAck \<longleftrightarrow> True"
| "se_body_ok SE_ExtendedMasterSecretAck \<longleftrightarrow> True"
| "se_body_ok SE_CertificateStatusAck \<longleftrightarrow> True"
| "se_body_ok SE_EarlyData \<longleftrightarrow> True"
| "se_body_ok (SE_RenegotiationInfo r) \<longleftrightarrow> short8 r"
| "se_body_ok (SE_Protocols r) \<longleftrightarrow> vec_ok ListU16 short8 payload_u8_encode r"
| "se_body_ok (SE_KeyShare r) \<longleftrightarrow> kse_ok r"
| "se_body_ok (SE_PresharedKey r) \<longleftrightarrow> True"
| "se_body_ok (SE_SupportedVersions r) \<longleftrightarrow> vers_ok r"
| "se_body_ok (SE_TransportParameters r) \<longleftrightarrow> True"
| "se_body_ok (SE_TransportParametersDraft r) \<longleftrightarrow> True"
| "se_body_ok (SE_Unknown r) \<longleftrightarrow>
     ue_typ r \<notin> {ET_ECPointFormats, ET_ServerName, ET_SessionTicket, ET_StatusRequest, ET_RenegotiationInfo,
       ET_ALProtocolNegotiation, ET_KeyShare, ET_PreSharedKey, ET_ExtendedMasterSecret, ET_SupportedVersions,
       ET_TransportParameters, ET_TransportParametersDraft, ET_EarlyData}"

definition server_extension_ok :: "server_extension \<Rightarrow> bool" where
  "server_extension_ok = extension_ok se_body_ok se_get_type se_body_encode"

section \<open>The codecs of the parts\<close>

lemma epf_element: "exact_element epf_ok epf_encode epf_read"
  by (rule enum_u8_codec) simp

lemma ng_element: "exact_element ng_ok ng_encode ng_read"
  by (rule enum_u16_codec) simp

lemma ss_element: "exact_element ss_ok ss_encode ss_read"
  by (rule enum_u16_codec) simp

lemma snt_element: "exact_element snt_ok snt_encode snt_read"
  by (rule enum_u8_codec) simp

lemma pkm_element: "exact_element pkm_ok pkm_encode pkm_read"
  by (rule enum_u8_codec) simp

lemma cst_element: "exact_element cst_ok cst_encode cst_read"
  by (rule enum_u8_codec) simp

lemma cm_element: "exact_element cm_ok cm_encode cm_read"
  by (rule enum_u8_codec) simp

lemma vers_element: "exact_element vers_ok vers_encode vers_read"
  by (rule enum_u16_codec) simp

lemma suite_element: "exact_element (\<lambda>_. True) u16_be suite_read"
  using enum_u16_codec [of "\<lambda>x. x" "\<lambda>x. x"] by simp

lemma payload_u8_element: "exact_element short8 payload_u8_encode payload_u8_read"
  by (rule exact_elementI [OF payload_u8_codec]) (simp add: payload_u8_encode_def)

lemma payload_u16_element: "exact_element short16 payload_u16_encode payload_u16_read"
  by (rule exact_elementI [OF payload_u16_codec]) (simp add: payload_u16_encode_def u16_be_def)

lemmas exact_parts = exact_element.is_exact [OF epf_element] exact_element.is_exact [OF ng_element] exact_element.is_exact [OF ss_element]
  exact_element.is_exact [OF snt_element] exact_element.is_exact [OF pkm_element] exact_element.is_exact [OF cst_element]
  exact_element.is_exact [OF cm_element] exact_element.is_exact [OF vers_element] exact_element.is_exact [OF suite_element]
  exact_element.is_exact [OF u8_codec] exact_element.is_exact [OF u16_codec] exact_element.is_exact [OF u32_codec]
  payload_u8_codec payload_u16_codec payload_u24_codec

lemma random_codec: "exact_codec (\<lambda>bs. length bs = 32) (\<lambda>bs. bs) random_read"
  by (rule exact_codecI) (auto simp: random_read_def take_unread split: if_splits)

lemma session_id_codec: "exact_codec session_id_ok session_id_encode session_id_read"
proof (rule exact_codecI, goal_cases)
  case (1 r)
  show ?case
    unfolding session_id_read_def
    by (rule rbind_returns [OF exact_returns [OF exact_element.is_exact [OF u8_codec]]]) (auto split: option.split)
next
  case (2 s r rest)
  then have u: "unread r = [word_of_nat (sid_len s)] @ take (sid_len s) (sid_data s) @ rest"
    by (simp add: session_id_encode_def)
  obtain r1 where r1: "rd_u8 r = Some (Ret (word_of_nat (sid_len s), r1))" "unread r1 = take (sid_len s) (sid_data s) @ rest"
    using exact_inverse [OF exact_element.is_exact [OF u8_codec] _ u] by auto
  have n: "sid_len s \<le> 32" "length (sid_data s) = 32" "replicate (32 - sid_len s) 0 = drop (sid_len s) (sid_data s)"
    using 2(1) by (auto simp: session_id_ok_def)
  have w: "unat (word_of_nat (sid_len s) :: u8) = sid_len s"
    using n(1) by (simp add: unat_of_nat)
  show ?case
    using r1 n by (simp add: session_id_read_def w take_unread)
next
  case (3 s r r')
  then obtain n r1 where n: "rd_u8 r = Some (Ret (n, r1))" "unat n \<le> 32" "unat n \<le> length (unread r1)"
    "s = \<lparr>sid_len = unat n, sid_data = take (unat n) (unread r1) @ replicate (32 - unat n) 0\<rparr>" "r' = r1 \<lparr>rd_cursor := rd_cursor r1 + unat n\<rparr>"
    by (auto simp: session_id_read_def rbind_Ret_iff take_unread split: if_splits)
  then show ?case
    using exact_codec.exact [OF exact_element.is_exact [OF u8_codec] n(1)] by (simp add: session_id_ok_def session_id_encode_def)
qed

lemma kse_codec: "exact_codec kse_ok kse_encode kse_read"
  unfolding kse_read_def
  by (rule struct_exact [OF exact_element.is_exact [OF ng_element] payload_u16_codec, where p = kse_group and q = kse_payload])
    (simp_all add: kse_ok_def kse_encode_def)

lemma kse_element: "exact_element kse_ok kse_encode kse_read"
  by (rule exact_elementI [OF kse_codec]) (simp add: kse_encode_def u16_be_def)

lemma psk_identity_element: "exact_element psk_identity_ok psk_identity_encode psk_identity_read"
proof (rule exact_elementI)
  show "exact_codec psk_identity_ok psk_identity_encode psk_identity_read"
    unfolding psk_identity_read_def
    by (rule struct_exact [OF payload_u16_codec exact_element.is_exact [OF u32_codec], where p = pski_identity and q = pski_age])
      (simp_all add: psk_identity_ok_def psk_identity_encode_def)
qed (simp add: psk_identity_encode_def u32_be_def)

lemma psk_offer_codec: "exact_codec psk_offer_ok psk_offer_encode psk_offer_read"
  unfolding psk_offer_read_def
  by (rule struct_exact [OF exact_element.vec_exact [OF psk_identity_element] exact_element.vec_exact [OF payload_u8_element],
        where p = psko_identities and q = psko_binders])
    (simp_all add: psk_offer_ok_def psk_offer_encode_def)

definition status_type :: "status_request \<Rightarrow> certificate_status_type" where
  "status_type q = (case q of CSR_Ocsp _ \<Rightarrow> CST_OCSP | CSR_Unknown t _ \<Rightarrow> t)"

lemma ocsp_request_codec: "exact_codec ocsp_request_ok (\<lambda>q. encode_list ListU16 payload_u16_encode (ocsp_responder_ids q) @ payload_u16_encode (ocsp_extensions q)) ocsp_request_read"
  unfolding ocsp_request_read_def
  by (rule struct_exact [OF exact_element.vec_exact [OF payload_u16_element] payload_u16_codec, where p = ocsp_responder_ids and q = ocsp_extensions])
    (simp_all add: ocsp_request_ok_def)

lemma status_request_body: "exact_body status_request_ok status_request_encode status_request_read"
proof -
  define enc where "enc q = (case q of CSR_Ocsp c \<Rightarrow> encode_list ListU16 payload_u16_encode (ocsp_responder_ids c) @ payload_u16_encode (ocsp_extensions c)
    | CSR_Unknown t p \<Rightarrow> p)" for q
  have b: "exact_body (\<lambda>x. status_request_ok x \<and> status_type x = t) enc
    (case t of CST_OCSP \<Rightarrow> rd_map CSR_Ocsp ocsp_request_read | _ \<Rightarrow> rd_map (CSR_Unknown t) payload_read)" if "cst_ok t" for t
  proof (cases t)
    case CST_OCSP
    have "exact_body (\<lambda>x. status_request_ok x \<and> status_type x = t) enc (rd_map CSR_Ocsp ocsp_request_read)"
      by (rule map_exact_body [OF exact_codec.is_body [OF ocsp_request_codec]])
        (use CST_OCSP in \<open>auto simp: status_type_def enc_def split: status_request.splits\<close>)
    then show ?thesis using CST_OCSP by simp
  next
    case (CST_Unknown u)
    have "exact_body (\<lambda>x. status_request_ok x \<and> status_type x = t) enc (rd_map (CSR_Unknown t) payload_read)"
      by (rule map_exact_body [OF payload_body])
        (use CST_Unknown that in \<open>auto simp: status_type_def enc_def split: status_request.splits\<close>)
    then show ?thesis using CST_Unknown by simp
  qed
  have "exact_body status_request_ok (\<lambda>x. cst_encode (status_type x) @ enc x)
    (\<lambda>r. rbind (cst_read r) (\<lambda>(t, r). (case t of CST_OCSP \<Rightarrow> rd_map CSR_Ocsp ocsp_request_read | _ \<Rightarrow> rd_map (CSR_Unknown t) payload_read) r))"
  proof (rule tagged_body [OF exact_element.is_exact [OF cst_element] b])
    show "status_request_ok x \<Longrightarrow> cst_ok (status_type x)" for x
      by (cases x) (simp_all add: status_type_def cst_from_def)
  qed
  moreover have "(\<lambda>x. cst_encode (status_type x) @ enc x) = status_request_encode"
    by (auto simp: status_request_encode_def status_type_def enc_def ocsp_request_encode_def split: status_request.split)
  moreover have "(\<lambda>r. rbind (cst_read r) (\<lambda>(t, r). (case t of CST_OCSP \<Rightarrow> rd_map CSR_Ocsp ocsp_request_read | _ \<Rightarrow> rd_map (CSR_Unknown t) payload_read) r)) = status_request_read"
    by (rule ext, simp add: status_request_read_def, rule arg_cong [where f = "rbind (cst_read _)"]) (auto split: certificate_status_type.split)
  ultimately show ?thesis by simp
qed

section \<open>Server names\<close>

lemma hostname_codec:
  "exact_codec (\<lambda>p. \<exists>d. p = SNP_HostName d \<and> dns d \<and> short16 d) server_name_payload_encode (read_hostname dns)"
  unfolding read_hostname_def
  by (rule image_exact [OF check_exact [OF payload_u16_codec]])
    (auto simp: server_name_payload_encode_def payload_u16_encode_def)

lemma server_name_read_tag:
  "server_name_read dns r = rbind (snt_read r) (\<lambda>(t, r).
     (case t of SNT_HostName \<Rightarrow> rd_map (\<lambda>p. \<lparr>sn_typ = t, sn_payload = p\<rparr>) (read_hostname dns) r
      | SNT_Unknown _ \<Rightarrow> Some (Ret (\<lparr>sn_typ = t, sn_payload = SNP_Unknown (unread r)\<rparr>, snd (reader_rest r)))))"
  by (simp add: server_name_read_def, rule arg_cong [where f = "rbind (snt_read r)"])
    (auto simp: rd_map_def payload_read_def reader_rest_def unread_def split: server_name_type.split)

lemma server_name_greedy: "greedy_element (server_name_ok dns) server_name_encode (server_name_read dns) unknown_name"
proof (unfold_locales, goal_cases)
  case (1 r)
  show ?case
    unfolding server_name_read_tag
    by (rule rbind_returns [OF exact_returns [OF exact_element.is_exact [OF snt_element]]])
      (auto intro!: rd_map_returns [OF exact_returns [OF hostname_codec]] split: server_name_type.split)
next
  case (2 n rest r)
  have "snt_ok (sn_typ n)"
    using 2(1) by (auto simp: server_name_ok_def snt_from_def split: server_name_payload.splits)
  then obtain r1 where r1: "snt_read r = Some (Ret (sn_typ n, r1))" "unread r1 = server_name_payload_encode (sn_payload n) @ rest"
    using exact_inverse [OF exact_element.is_exact [OF snt_element], of "sn_typ n" r] 2(3) by (auto simp: server_name_encode_def)
  show ?case
  proof (cases "sn_payload n")
    case (SNP_HostName d)
    then have t: "sn_typ n = SNT_HostName" "dns d" "short16 d" using 2(1) by (auto simp: server_name_ok_def)
    obtain r2 where "read_hostname dns r1 = Some (Ret (sn_payload n, r2))" "unread r2 = rest"
      using exact_inverse [OF hostname_codec _ r1(2), of dns] SNP_HostName t by auto
    moreover have "\<lparr>sn_typ = SNT_HostName, sn_payload = sn_payload n\<rparr> = n"
      using t(1) by (cases n) simp
    ultimately show ?thesis
      using r1(1) t(1) by (simp add: server_name_read_tag rd_map_def)
  next
    case (SNP_Unknown p)
    then have "rest = []" "sn_typ n \<noteq> SNT_HostName" using 2(1,2) by (auto simp: unknown_name_def server_name_ok_def)
    then show ?thesis
      using r1 SNP_Unknown by (cases "sn_typ n") (auto simp: server_name_read_tag server_name_payload_encode_def)
  qed
next
  case (3 r n r')
  then obtain t r1 where t: "snt_read r = Some (Ret (t, r1))"
    "(case t of SNT_HostName \<Rightarrow> rd_map (\<lambda>p. \<lparr>sn_typ = t, sn_payload = p\<rparr>) (read_hostname dns) r1
      | SNT_Unknown _ \<Rightarrow> Some (Ret (\<lparr>sn_typ = t, sn_payload = SNP_Unknown (unread r1)\<rparr>, snd (reader_rest r1)))) = Some (Ret (n, r'))"
    by (auto simp: server_name_read_tag rbind_Ret_iff)
  have e: "snt_ok t" "unread r = snt_encode t @ unread r1"
    using exact_codec.exact [OF exact_element.is_exact [OF snt_element] t(1)] by auto
  show ?case
  proof (cases t)
    case SNT_HostName
    then obtain p where p: "n = \<lparr>sn_typ = t, sn_payload = p\<rparr>" "read_hostname dns r1 = Some (Ret (p, r'))"
      using t(2) by (auto simp: rd_map_Ret)
    then show ?thesis
      using exact_codec.exact [OF hostname_codec p(2)] e SNT_HostName
      by (auto simp: server_name_ok_def server_name_encode_def unknown_name_def)
  next
    case (SNT_Unknown u)
    then show ?thesis
      using e t(2) by (auto simp: server_name_ok_def server_name_encode_def unknown_name_def server_name_payload_encode_def)
  qed
next
  case (4 n)
  show ?case by (simp add: server_name_encode_def)
qed

lemma server_names_codec: "exact_codec (server_names_ok dns) (encode_list ListU16 server_name_encode) (read_vec ListU16 (server_name_read dns))"
  unfolding server_names_ok_def [abs_def] by (rule greedy_element.greedy_vec_exact [OF server_name_greedy]) simp

section \<open>Extensions\<close>

lemma unknown_body: "exact_body (\<lambda>u. ue_typ u = t) ue_payload (unknown_read t)"
proof -
  have "ue_typ u = t \<longleftrightarrow> (\<exists>p. u = \<lparr>ue_typ = t, ue_payload = p\<rparr>)" for u
    by (cases u) auto
  then show ?thesis
    unfolding unknown_read_def by (intro map_exact_body [OF payload_body]) auto
qed

lemmas vec_bodies =
  exact_codec.is_body [OF exact_element.vec_exact [OF epf_element]] exact_codec.is_body [OF exact_element.vec_exact [OF ng_element]]
  exact_codec.is_body [OF exact_element.vec_exact [OF ss_element]] exact_codec.is_body [OF exact_element.vec_exact [OF payload_u8_element]]
  exact_codec.is_body [OF exact_element.vec_exact [OF vers_element]] exact_codec.is_body [OF exact_element.vec_exact [OF kse_element]]
  exact_codec.is_body [OF exact_element.vec_exact [OF pkm_element]] exact_codec.is_body [OF server_names_codec]
  exact_codec.is_body [OF psk_offer_codec] exact_codec.is_body [OF kse_codec]

lemmas part_bodies = exact_parts [THEN exact_codec.is_body]

lemma unknown_or_done:
  assumes "\<And>y. ok y \<longleftrightarrow> y = x \<or> (\<exists>u. y = mk u \<and> ue_typ u = t \<and> ue_payload u \<noteq> [])" "enc x = []" "\<And>u. enc (mk u) = ue_payload u"
  shows "exact_body ok enc (\<lambda>r. if reader_any_left r then rd_map mk (unknown_read t) r else rd_done x r)"
  by (rule if_left_body [where ?ok1.0 = "\<lambda>y. \<exists>u. y = mk u \<and> ue_typ u = t" and ?ok2.0 = "\<lambda>y. y = x"])
    (use assms in \<open>auto intro: map_exact_body [OF unknown_body] done_body\<close>)

lemma ce_unknown:
  assumes "t \<notin> {ET_ECPointFormats, ET_EllipticCurves, ET_SignatureAlgorithms, ET_ServerName, ET_SessionTicket,
       ET_ALProtocolNegotiation, ET_SupportedVersions, ET_KeyShare, ET_PSKKeyExchangeModes, ET_PreSharedKey, ET_Cookie,
       ET_ExtendedMasterSecret, ET_StatusRequest, ET_TransportParameters, ET_TransportParametersDraft, ET_EarlyData}"
  shows "exact_body (\<lambda>y. ce_body_ok dns y \<and> ce_get_type y = t) ce_body_encode (rd_map CE_Unknown (unknown_read t))"
proof (rule map_exact_body [OF unknown_body])
  show "ce_body_ok dns y \<and> ce_get_type y = t \<longleftrightarrow> (\<exists>u. y = CE_Unknown u \<and> ue_typ u = t)" for y
    using assms by (cases y) auto
qed simp

lemma ce_body: "exact_body (\<lambda>x. ce_body_ok dns x \<and> ce_get_type x = t) ce_body_encode (ce_body_read dns t)"
proof (cases t)
  case ET_SessionTicket
  have "exact_body (\<lambda>x. ce_body_ok dns x \<and> ce_get_type x = t) ce_body_encode
    (\<lambda>sub. if reader_any_left sub then rd_map (\<lambda>p. CE_SessionTicket (Ticket_Offer p)) payload_read sub else rd_done (CE_SessionTicket Ticket_Request) sub)"
  proof (rule if_left_body)
    show "exact_body (\<lambda>x. \<exists>p. x = CE_SessionTicket (Ticket_Offer p)) ce_body_encode (rd_map (\<lambda>p. CE_SessionTicket (Ticket_Offer p)) payload_read)"
      by (rule map_exact_body [OF payload_body]) auto
    show "exact_body (\<lambda>x. x = CE_SessionTicket Ticket_Request) ce_body_encode (rd_done (CE_SessionTicket Ticket_Request))"
      by (rule done_body) auto
    show "ce_body_ok dns x \<and> ce_get_type x = t \<longleftrightarrow>
      (\<exists>p. x = CE_SessionTicket (Ticket_Offer p)) \<and> ce_body_encode x \<noteq> [] \<or> x = CE_SessionTicket Ticket_Request \<and> ce_body_encode x = []" for x
      using ET_SessionTicket by (cases x) (auto split: client_session_ticket.splits)
  qed
  then show ?thesis using ET_SessionTicket by (simp add: ce_body_read_def)
next
  case ET_ExtendedMasterSecret
  have "ce_body_ok dns x \<and> ce_get_type x = t \<longleftrightarrow> x = CE_ExtendedMasterSecretRequest \<or> (\<exists>u. x = CE_Unknown u \<and> ue_typ u = t \<and> ue_payload u \<noteq> [])" for x
    using ET_ExtendedMasterSecret by (cases x) auto
  from unknown_or_done [OF this, where enc = ce_body_encode] show ?thesis using ET_ExtendedMasterSecret by (simp add: ce_body_read_def cong del: if_weak_cong)
next
  case ET_EarlyData
  have "ce_body_ok dns x \<and> ce_get_type x = t \<longleftrightarrow> x = CE_EarlyData \<or> (\<exists>u. x = CE_Unknown u \<and> ue_typ u = t \<and> ue_payload u \<noteq> [])" for x
    using ET_EarlyData by (cases x) auto
  from unknown_or_done [OF this, where enc = ce_body_encode] show ?thesis using ET_EarlyData by (simp add: ce_body_read_def cong del: if_weak_cong)
next
  case ET_ECPointFormats
  show ?thesis
    unfolding ET_ECPointFormats ce_body_read_def extension_type.case
    by (rule constructor_body [OF vec_bodies(1)]) (simp_all, rename_tac y, case_tac y, auto)
next
  case ET_EllipticCurves
  show ?thesis
    unfolding ET_EllipticCurves ce_body_read_def extension_type.case
    by (rule constructor_body [OF vec_bodies(2)]) (simp_all, rename_tac y, case_tac y, auto)
next
  case ET_SignatureAlgorithms
  show ?thesis
    unfolding ET_SignatureAlgorithms ce_body_read_def extension_type.case
    by (rule constructor_body [OF vec_bodies(3)]) (simp_all, rename_tac y, case_tac y, auto)
next
  case ET_ServerName
  show ?thesis
    unfolding ET_ServerName ce_body_read_def extension_type.case
    by (rule constructor_body [OF vec_bodies(8)]) (simp_all, rename_tac y, case_tac y, auto)
next
  case ET_ALProtocolNegotiation
  show ?thesis
    unfolding ET_ALProtocolNegotiation ce_body_read_def extension_type.case
    by (rule constructor_body [OF vec_bodies(4)]) (simp_all, rename_tac y, case_tac y, auto)
next
  case ET_SupportedVersions
  show ?thesis
    unfolding ET_SupportedVersions ce_body_read_def extension_type.case
    by (rule constructor_body [OF vec_bodies(5)]) (simp_all, rename_tac y, case_tac y, auto)
next
  case ET_KeyShare
  show ?thesis
    unfolding ET_KeyShare ce_body_read_def extension_type.case
    by (rule constructor_body [OF vec_bodies(6)]) (simp_all, rename_tac y, case_tac y, auto)
next
  case ET_PSKKeyExchangeModes
  show ?thesis
    unfolding ET_PSKKeyExchangeModes ce_body_read_def extension_type.case
    by (rule constructor_body [OF vec_bodies(7)]) (simp_all, rename_tac y, case_tac y, auto)
next
  case ET_PreSharedKey
  show ?thesis
    unfolding ET_PreSharedKey ce_body_read_def extension_type.case
    by (rule constructor_body [OF vec_bodies(9)]) (simp_all, rename_tac y, case_tac y, auto)
next
  case ET_Cookie
  show ?thesis
    unfolding ET_Cookie ce_body_read_def extension_type.case
    by (rule constructor_body [OF part_bodies(14)]) (simp_all, rename_tac y, case_tac y, auto)
next
  case ET_StatusRequest
  show ?thesis
    unfolding ET_StatusRequest ce_body_read_def extension_type.case
    by (rule constructor_body [OF status_request_body]) (simp_all, rename_tac y, case_tac y, auto)
next
  case ET_TransportParameters
  show ?thesis
    unfolding ET_TransportParameters ce_body_read_def extension_type.case
    by (rule constructor_body [OF payload_body]) (simp_all, rename_tac y, case_tac y, auto)
next
  case ET_TransportParametersDraft
  show ?thesis
    unfolding ET_TransportParametersDraft ce_body_read_def extension_type.case
    by (rule constructor_body [OF payload_body]) (simp_all, rename_tac y, case_tac y, auto)
qed (simp_all only: ce_body_read_def extension_type.case, (rule ce_unknown, simp)+)

lemma se_unknown:
  assumes "t \<notin> {ET_ECPointFormats, ET_ServerName, ET_SessionTicket, ET_StatusRequest, ET_RenegotiationInfo,
       ET_ALProtocolNegotiation, ET_KeyShare, ET_PreSharedKey, ET_ExtendedMasterSecret, ET_SupportedVersions,
       ET_TransportParameters, ET_TransportParametersDraft, ET_EarlyData}"
  shows "exact_body (\<lambda>y. se_body_ok y \<and> se_get_type y = t) se_body_encode (rd_map SE_Unknown (unknown_read t))"
proof (rule map_exact_body [OF unknown_body])
  show "se_body_ok y \<and> se_get_type y = t \<longleftrightarrow> (\<exists>u. y = SE_Unknown u \<and> ue_typ u = t)" for y
    using assms by (cases y) auto
qed simp

lemma se_done:
  assumes "se_get_type x = t" "se_body_ok x" "se_body_encode x = []" "\<And>y. se_get_type y = t \<Longrightarrow> se_body_ok y \<Longrightarrow> y = x"
  shows "exact_body (\<lambda>y. se_body_ok y \<and> se_get_type y = t) se_body_encode (rd_done x)"
  by (rule done_body) (use assms in \<open>blast+\<close>)

lemma se_body: "exact_body (\<lambda>x. se_body_ok x \<and> se_get_type x = t) se_body_encode (se_body_read t)"
proof (cases t)
  case ET_ECPointFormats
  show ?thesis
    unfolding ET_ECPointFormats se_body_read_def extension_type.case
    by (rule constructor_body [OF vec_bodies(1)]) (simp_all, rename_tac y, case_tac y, auto)
next
  case ET_RenegotiationInfo
  show ?thesis
    unfolding ET_RenegotiationInfo se_body_read_def extension_type.case
    by (rule constructor_body [OF part_bodies(13)]) (simp_all, rename_tac y, case_tac y, auto)
next
  case ET_ALProtocolNegotiation
  show ?thesis
    unfolding ET_ALProtocolNegotiation se_body_read_def extension_type.case
    by (rule constructor_body [OF vec_bodies(4)]) (simp_all, rename_tac y, case_tac y, auto)
next
  case ET_KeyShare
  show ?thesis
    unfolding ET_KeyShare se_body_read_def extension_type.case
    by (rule constructor_body [OF vec_bodies(10)]) (simp_all, rename_tac y, case_tac y, auto)
next
  case ET_PreSharedKey
  show ?thesis
    unfolding ET_PreSharedKey se_body_read_def extension_type.case
    by (rule constructor_body [OF part_bodies(11)]) (simp_all, rename_tac y, case_tac y, auto)
next
  case ET_SupportedVersions
  show ?thesis
    unfolding ET_SupportedVersions se_body_read_def extension_type.case
    by (rule constructor_body [OF part_bodies(8)]) (simp_all, rename_tac y, case_tac y, auto)
next
  case ET_TransportParameters
  show ?thesis
    unfolding ET_TransportParameters se_body_read_def extension_type.case
    by (rule constructor_body [OF payload_body]) (simp_all, rename_tac y, case_tac y, auto)
next
  case ET_TransportParametersDraft
  show ?thesis
    unfolding ET_TransportParametersDraft se_body_read_def extension_type.case
    by (rule constructor_body [OF payload_body]) (simp_all, rename_tac y, case_tac y, auto)
next
  case ET_ServerName
  show ?thesis
    unfolding ET_ServerName se_body_read_def extension_type.case
    by (rule se_done) (simp_all, rename_tac y, case_tac y, auto)
next
  case ET_SessionTicket
  show ?thesis
    unfolding ET_SessionTicket se_body_read_def extension_type.case
    by (rule se_done) (simp_all, rename_tac y, case_tac y, auto)
next
  case ET_StatusRequest
  show ?thesis
    unfolding ET_StatusRequest se_body_read_def extension_type.case
    by (rule se_done) (simp_all, rename_tac y, case_tac y, auto)
next
  case ET_ExtendedMasterSecret
  show ?thesis
    unfolding ET_ExtendedMasterSecret se_body_read_def extension_type.case
    by (rule se_done) (simp_all, rename_tac y, case_tac y, auto)
next
  case ET_EarlyData
  show ?thesis
    unfolding ET_EarlyData se_body_read_def extension_type.case
    by (rule se_done) (simp_all, rename_tac y, case_tac y, auto)
qed (simp_all only: se_body_read_def extension_type.case, (rule se_unknown, simp)+)

lemma client_extension_element: "exact_element (client_extension_ok dns) client_extension_encode (client_extension_read dns)"
  using extension_element [where ok = "ce_body_ok dns", OF ce_body]
  by (simp add: client_extension_ok_def client_extension_encode_def client_extension_read_def extension_ok_def [abs_def])

lemma server_extension_element: "exact_element server_extension_ok server_extension_encode server_extension_read"
  using extension_element [where ok = se_body_ok, OF se_body]
  by (simp add: server_extension_ok_def server_extension_encode_def server_extension_read_def extension_ok_def [abs_def])

section \<open>Comparisons and searches\<close>

lemma seen_before_iff: "seen_before ks seen \<longleftrightarrow> \<not> distinct ks \<or> set ks \<inter> seen \<noteq> {}"
  by (induction ks arbitrary: seen) auto

lemma foldl_or_zero: "foldl (\<lambda>diff i. diff OR f i) z is = (0 :: u8) \<longleftrightarrow> z = 0 \<and> (\<forall>i \<in> set is. f i = 0)"
proof (induction "is" arbitrary: z)
  case (Cons i js)
  have "z OR f i = 0 \<longleftrightarrow> z = 0 \<and> f i = 0"
    by (rule or_eq_0_iff)
  then show ?case using Cons by auto
qed simp

text \<open>Comparing session identifiers compares the identifiers.\<close>

lemma session_id_eq_iff:
  assumes "session_id_ok a" "session_id_ok b"
  shows "session_id_eq a b \<longleftrightarrow> a = b"
proof -
  have x: "x XOR y = (0 :: u8) \<longleftrightarrow> x = y" for x y
    by (auto simp: bit_eq_iff bit_simps)
  have "a = b" if "session_id_eq a b"
  proof -
    have l: "sid_len a = sid_len b" and "\<forall>i < sid_len a. sid_data a ! i = sid_data b ! i"
      using that by (auto simp: session_id_eq_def foldl_or_zero x)
    then have "take (sid_len a) (sid_data a) = take (sid_len a) (sid_data b)"
      using assms by (intro nth_take_lemma) (auto simp: session_id_ok_def)
    moreover have "drop (sid_len a) (sid_data a) = drop (sid_len a) (sid_data b)"
      using assms l by (simp add: session_id_ok_def)
    ultimately have "sid_data a = sid_data b" by (metis append_take_drop_id)
    then show ?thesis using l by (cases a; cases b) simp
  qed
  then show ?thesis by (auto simp: session_id_eq_def foldl_or_zero)
qed

text \<open>The extension made for a name is well-formed, and the name is what a server finds in it.\<close>

lemma sni_ok:
  assumes "dns n" "length n < 65000"
  shows "client_extension_ok dns (CE_ServerName [\<lparr>sn_typ = SNT_HostName, sn_payload = SNP_HostName n\<rparr>])"
  using assms
  by (simp add: client_extension_ok_def extension_ok_def server_names_ok_def vec_ok_def server_name_ok_def server_name_encode_def
      server_name_payload_encode_def len_fits_def u16_be_def et_from_def encode_list_def length_prefixed_def len_bytes_def)

lemma make_sni_ok:
  assumes "dns name" "name \<noteq> [] \<and> last name = 0x2e \<longrightarrow> dns (butlast name)" "length name < 65000"
  shows "\<exists>n. make_sni dns name = Ret (CE_ServerName [\<lparr>sn_typ = SNT_HostName, sn_payload = SNP_HostName n\<rparr>])
    \<and> client_extension_ok dns (CE_ServerName [\<lparr>sn_typ = SNT_HostName, sn_payload = SNP_HostName n\<rparr>])
    \<and> get_single_hostname [\<lparr>sn_typ = SNT_HostName, sn_payload = SNP_HostName n\<rparr>] = Some n \<and> n \<in> {name, butlast name}"
proof -
  have g: "get_single_hostname [\<lparr>sn_typ = SNT_HostName, sn_payload = SNP_HostName n\<rparr>] = Some n" for n
    by (simp add: get_single_hostname_def only_dns_hostnames_def List.map_filter_def)
  show ?thesis
  proof (cases "name \<noteq> [] \<and> last name = 0x2e")
    case True
    then show ?thesis
      using assms sni_ok [of dns "butlast name"] g by (intro exI [of _ "butlast name"]) (simp add: make_sni_def trim_hostname_trailing_dot_for_sni_def)
  next
    case False
    then show ?thesis
      using assms sni_ok [of dns name] g by (intro exI [of _ name]) (auto simp: make_sni_def trim_hostname_trailing_dot_for_sni_def)
  qed
qed

end
