(* ===== verification/Rustls_Handshake.thy ===== *)
theory Rustls_Handshake
  imports Rustls_Extensions
begin

text \<open>
  Handshake messages in the TLS library: hellos, certificates, key exchanges, tickets, and the message around them
  (\<open>rustls-reality/rustls/src/msgs/handshake.rs\<close>, \<open>DigitallySignedStruct\<close> of \<open>verify.rs\<close>).

  Every payload has an encoder, a reader and a predicate for the values that can be encoded. The theorems: the parser
  returns for every input; what it accepts is well-formed; it inverts the encoder.
\<close>

section \<open>Client hello\<close>

record client_hello_payload =
  ch_client_version :: rl_version
  ch_random :: bytes
  ch_session_id :: session_id
  ch_cipher_suites :: "cipher_suite list"
  ch_compression_methods :: "compression list"
  ch_extensions :: "client_extension list"

definition client_hello_encode :: "client_hello_payload \<Rightarrow> bytes" where
  "client_hello_encode c =
     vers_encode (ch_client_version c) @ ch_random c @ session_id_encode (ch_session_id c)
     @ encode_list ListU16 u16_be (ch_cipher_suites c) @ encode_list ListU8 cm_encode (ch_compression_methods c)
     @ (if ch_extensions c \<noteq> [] then encode_list ListU16 client_extension_encode (ch_extensions c) else [])"

text \<open>A list that may be missing at the end.\<close>

definition rd_optional :: "'a list rd \<Rightarrow> 'a list rd" where
  "rd_optional rd r = (if reader_any_left r then rd r else Some (Ret ([], r)))"

definition client_hello_read :: "(bytes \<Rightarrow> bool) \<Rightarrow> client_hello_payload rd" where
  "client_hello_read dns =
     rd_check (\<lambda>ret. ch_extensions ret = []) (MissingData (lit ''ClientHelloPayload''))
       (rd_end ''ClientHelloPayload''
         (rd_map (\<lambda>(((((v, rnd), sid), cs), cm), exts).
             \<lparr>ch_client_version = v, ch_random = rnd, ch_session_id = sid, ch_cipher_suites = cs, ch_compression_methods = cm,
              ch_extensions = exts\<rparr>)
           (rd_pair (rd_pair (rd_pair (rd_pair (rd_pair vers_read random_read) session_id_read)
               (read_vec ListU16 suite_read)) (read_vec ListU8 cm_read))
             (rd_optional (read_vec ListU16 (client_extension_read dns))))))"

definition ch_has_duplicate_extension :: "client_hello_payload \<Rightarrow> bool" where
  "ch_has_duplicate_extension c = seen_before (map (\<lambda>e. et_get_u16 (ce_get_type e)) (ch_extensions c)) {}"

definition ch_find_extension :: "client_hello_payload \<Rightarrow> extension_type \<Rightarrow> client_extension option" where
  "ch_find_extension c t = find (\<lambda>x. ce_get_type x = t) (ch_extensions c)"

definition get_sni_extension :: "client_hello_payload \<Rightarrow> server_name list option" where
  "get_sni_extension c =
     (case ch_find_extension c ET_ServerName of Some (CE_ServerName req) \<Rightarrow> Some req | _ \<Rightarrow> None)"

definition get_sigalgs_extension :: "client_hello_payload \<Rightarrow> signature_scheme list option" where
  "get_sigalgs_extension c =
     (case ch_find_extension c ET_SignatureAlgorithms of Some (CE_SignatureAlgorithms req) \<Rightarrow> Some req | _ \<Rightarrow> None)"

definition get_namedgroups_extension :: "client_hello_payload \<Rightarrow> named_group list option" where
  "get_namedgroups_extension c =
     (case ch_find_extension c ET_EllipticCurves of Some (CE_NamedGroups req) \<Rightarrow> Some req | _ \<Rightarrow> None)"

definition get_ecpoints_extension :: "client_hello_payload \<Rightarrow> ec_point_format list option" where
  "get_ecpoints_extension c =
     (case ch_find_extension c ET_ECPointFormats of Some (CE_EcPointFormats req) \<Rightarrow> Some req | _ \<Rightarrow> None)"

definition get_alpn_extension :: "client_hello_payload \<Rightarrow> bytes list option" where
  "get_alpn_extension c =
     (case ch_find_extension c ET_ALProtocolNegotiation of Some (CE_Protocols req) \<Rightarrow> Some req | _ \<Rightarrow> None)"

definition get_quic_params_extension :: "client_hello_payload \<Rightarrow> bytes option" where
  "get_quic_params_extension c =
     (case (case ch_find_extension c ET_TransportParameters of
              Some e \<Rightarrow> Some e
            | None \<Rightarrow> ch_find_extension c ET_TransportParametersDraft) of
        Some (CE_TransportParameters b) \<Rightarrow> Some b
      | Some (CE_TransportParametersDraft b) \<Rightarrow> Some b
      | _ \<Rightarrow> None)"

definition get_ticket_extension :: "client_hello_payload \<Rightarrow> client_extension option" where
  "get_ticket_extension c = ch_find_extension c ET_SessionTicket"

definition get_versions_extension :: "client_hello_payload \<Rightarrow> rl_version list option" where
  "get_versions_extension c =
     (case ch_find_extension c ET_SupportedVersions of Some (CE_SupportedVersions vers) \<Rightarrow> Some vers | _ \<Rightarrow> None)"

definition get_keyshare_extension :: "client_hello_payload \<Rightarrow> key_share_entry list option" where
  "get_keyshare_extension c =
     (case ch_find_extension c ET_KeyShare of Some (CE_KeyShare shares) \<Rightarrow> Some shares | _ \<Rightarrow> None)"

definition has_keyshare_extension_with_duplicates :: "client_hello_payload \<Rightarrow> bool" where
  "has_keyshare_extension_with_duplicates c =
     (case get_keyshare_extension c of
        Some entries \<Rightarrow> seen_before (map (\<lambda>k. ng_get_u16 (kse_group k)) entries) {}
      | None \<Rightarrow> False)"

definition get_psk :: "client_hello_payload \<Rightarrow> psk_offer option" where
  "get_psk c = (case ch_find_extension c ET_PreSharedKey of Some (CE_PresharedKey psk) \<Rightarrow> Some psk | _ \<Rightarrow> None)"

definition check_psk_ext_is_last :: "client_hello_payload \<Rightarrow> bool" where
  "check_psk_ext_is_last c \<longleftrightarrow> ch_extensions c \<noteq> [] \<and> ce_get_type (last (ch_extensions c)) = ET_PreSharedKey"

definition get_psk_modes :: "client_hello_payload \<Rightarrow> psk_key_exchange_mode list option" where
  "get_psk_modes c =
     (case ch_find_extension c ET_PSKKeyExchangeModes of Some (CE_PresharedKeyModes m) \<Rightarrow> Some m | _ \<Rightarrow> None)"

definition psk_mode_offered :: "client_hello_payload \<Rightarrow> psk_key_exchange_mode \<Rightarrow> bool" where
  "psk_mode_offered c mode = (case get_psk_modes c of Some modes \<Rightarrow> mode \<in> set modes | None \<Rightarrow> False)"

text \<open>The binder of an offer without binders is an index out of range.\<close>

definition set_psk_binder :: "client_hello_payload \<Rightarrow> bytes \<Rightarrow> (unit, client_hello_payload) outcome" where
  "set_psk_binder c binder =
     (if ch_extensions c = [] then Ret c
      else case last (ch_extensions c) of
        CE_PresharedKey offer \<Rightarrow>
          if psko_binders offer = [] then Panic
          else Ret (c \<lparr>ch_extensions :=
            butlast (ch_extensions c) @ [CE_PresharedKey (offer \<lparr>psko_binders := (psko_binders offer)[0 := binder]\<rparr>)]\<rparr>)
      | _ \<Rightarrow> Ret c)"

definition ems_support_offered :: "client_hello_payload \<Rightarrow> bool" where
  "ems_support_offered c \<longleftrightarrow> ch_find_extension c ET_ExtendedMasterSecret \<noteq> None"

definition ch_early_data_extension_offered :: "client_hello_payload \<Rightarrow> bool" where
  "ch_early_data_extension_offered c \<longleftrightarrow> ch_find_extension c ET_EarlyData \<noteq> None"

section \<open>Hello retry request\<close>

datatype hello_retry_extension = HRE_KeyShare named_group | HRE_Cookie bytes | HRE_SupportedVersions rl_version | HRE_Unknown unknown_extension

primrec hre_get_type :: "hello_retry_extension \<Rightarrow> extension_type" where
  "hre_get_type (HRE_KeyShare _) = ET_KeyShare"
| "hre_get_type (HRE_Cookie _) = ET_Cookie"
| "hre_get_type (HRE_SupportedVersions _) = ET_SupportedVersions"
| "hre_get_type (HRE_Unknown r) = ue_typ r"

primrec hre_body_encode :: "hello_retry_extension \<Rightarrow> bytes" where
  "hre_body_encode (HRE_KeyShare r) = ng_encode r"
| "hre_body_encode (HRE_Cookie r) = payload_u16_encode r"
| "hre_body_encode (HRE_SupportedVersions r) = vers_encode r"
| "hre_body_encode (HRE_Unknown r) = ue_payload r"

definition hre_body_read :: "extension_type \<Rightarrow> hello_retry_extension rd" where
  "hre_body_read t =
     (case t of
        ET_KeyShare \<Rightarrow> rd_map HRE_KeyShare ng_read
      | ET_Cookie \<Rightarrow> rd_map HRE_Cookie payload_u16_read
      | ET_SupportedVersions \<Rightarrow> rd_map HRE_SupportedVersions vers_read
      | _ \<Rightarrow> rd_map HRE_Unknown (unknown_read t))"

definition hello_retry_extension_encode :: "hello_retry_extension \<Rightarrow> bytes" where
  "hello_retry_extension_encode = encode_extension hre_get_type hre_body_encode"

definition hello_retry_extension_read :: "hello_retry_extension rd" where
  "hello_retry_extension_read = read_extension ''HelloRetryExtension'' hre_body_read"

record hello_retry_request =
  hrr_legacy_version :: rl_version
  hrr_session_id :: session_id
  hrr_cipher_suite :: cipher_suite
  hrr_extensions :: "hello_retry_extension list"

definition hello_retry_request_encode :: "hello_retry_request \<Rightarrow> bytes" where
  "hello_retry_request_encode h =
     vers_encode (hrr_legacy_version h) @ HELLO_RETRY_REQUEST_RANDOM @ session_id_encode (hrr_session_id h)
     @ u16_be (hrr_cipher_suite h) @ cm_encode CM_Null @ encode_list ListU16 hello_retry_extension_encode (hrr_extensions h)"

definition hello_retry_request_read :: "hello_retry_request rd" where
  "hello_retry_request_read =
     rd_map (\<lambda>(sid, (suite, (compression, exts))).
         \<lparr>hrr_legacy_version = PV_Unknown 0, hrr_session_id = sid, hrr_cipher_suite = suite, hrr_extensions = exts\<rparr>)
       (rd_pair session_id_read (rd_pair suite_read
         (rd_pair (rd_check (\<lambda>c. c \<noteq> CM_Null) UnsupportedCompression cm_read) (read_vec ListU16 hello_retry_extension_read))))"

definition hrr_has_duplicate_extension :: "hello_retry_request \<Rightarrow> bool" where
  "hrr_has_duplicate_extension h = seen_before (map (\<lambda>e. et_get_u16 (hre_get_type e)) (hrr_extensions h)) {}"

definition hrr_has_unknown_extension :: "hello_retry_request \<Rightarrow> bool" where
  "hrr_has_unknown_extension h =
     list_ex (\<lambda>e. hre_get_type e \<noteq> ET_KeyShare \<and> hre_get_type e \<noteq> ET_SupportedVersions \<and> hre_get_type e \<noteq> ET_Cookie) (hrr_extensions h)"

definition hrr_find_extension :: "hello_retry_request \<Rightarrow> extension_type \<Rightarrow> hello_retry_extension option" where
  "hrr_find_extension h t = find (\<lambda>x. hre_get_type x = t) (hrr_extensions h)"

definition get_requested_key_share_group :: "hello_retry_request \<Rightarrow> named_group option" where
  "get_requested_key_share_group h = (case hrr_find_extension h ET_KeyShare of Some (HRE_KeyShare grp) \<Rightarrow> Some grp | _ \<Rightarrow> None)"

definition get_cookie :: "hello_retry_request \<Rightarrow> bytes option" where
  "get_cookie h = (case hrr_find_extension h ET_Cookie of Some (HRE_Cookie ck) \<Rightarrow> Some ck | _ \<Rightarrow> None)"

definition hrr_get_supported_versions :: "hello_retry_request \<Rightarrow> rl_version option" where
  "hrr_get_supported_versions h =
     (case hrr_find_extension h ET_SupportedVersions of Some (HRE_SupportedVersions ver) \<Rightarrow> Some ver | _ \<Rightarrow> None)"

section \<open>Server hello\<close>

record server_hello_payload =
  shp_legacy_version :: rl_version
  shp_random :: bytes
  shp_session_id :: session_id
  shp_cipher_suite :: cipher_suite
  shp_compression_method :: compression
  shp_extensions :: "server_extension list"

definition shp_encode :: "server_hello_payload \<Rightarrow> bytes" where
  "shp_encode s =
     vers_encode (shp_legacy_version s) @ shp_random s @ session_id_encode (shp_session_id s) @ u16_be (shp_cipher_suite s)
     @ cm_encode (shp_compression_method s)
     @ (if shp_extensions s \<noteq> [] then encode_list ListU16 server_extension_encode (shp_extensions s) else [])"

text \<open>Without version and random, which have been read already.\<close>

definition server_hello_read :: "server_hello_payload rd" where
  "server_hello_read =
     rd_end ''ServerHelloPayload''
       (rd_map (\<lambda>(((sid, suite), compression), exts).
           \<lparr>shp_legacy_version = PV_Unknown 0, shp_random = ZERO_RANDOM, shp_session_id = sid, shp_cipher_suite = suite,
            shp_compression_method = compression, shp_extensions = exts\<rparr>)
         (rd_pair (rd_pair (rd_pair session_id_read suite_read) cm_read)
           (rd_optional (read_vec ListU16 server_extension_read))))"

definition se_has_duplicate_extension :: "server_extension list \<Rightarrow> bool" where
  "se_has_duplicate_extension es = seen_before (map (\<lambda>e. et_get_u16 (se_get_type e)) es) {}"

definition se_find_extension :: "server_extension list \<Rightarrow> extension_type \<Rightarrow> server_extension option" where
  "se_find_extension es t = find (\<lambda>x. se_get_type x = t) es"

definition get_alpn_protocol :: "server_extension list \<Rightarrow> bytes option" where
  "get_alpn_protocol es =
     (case se_find_extension es ET_ALProtocolNegotiation of Some (SE_Protocols protos) \<Rightarrow> as_single_slice protos | _ \<Rightarrow> None)"

definition se_get_quic_params_extension :: "server_extension list \<Rightarrow> bytes option" where
  "se_get_quic_params_extension es =
     (case (case se_find_extension es ET_TransportParameters of
              Some e \<Rightarrow> Some e
            | None \<Rightarrow> se_find_extension es ET_TransportParametersDraft) of
        Some (SE_TransportParameters b) \<Rightarrow> Some b
      | Some (SE_TransportParametersDraft b) \<Rightarrow> Some b
      | _ \<Rightarrow> None)"

definition se_early_data_extension_offered :: "server_extension list \<Rightarrow> bool" where
  "se_early_data_extension_offered es \<longleftrightarrow> se_find_extension es ET_EarlyData \<noteq> None"

definition shp_get_key_share :: "server_hello_payload \<Rightarrow> key_share_entry option" where
  "shp_get_key_share s = (case se_find_extension (shp_extensions s) ET_KeyShare of Some (SE_KeyShare k) \<Rightarrow> Some k | _ \<Rightarrow> None)"

definition get_psk_index :: "server_hello_payload \<Rightarrow> u16 option" where
  "get_psk_index s = (case se_find_extension (shp_extensions s) ET_PreSharedKey of Some (SE_PresharedKey i) \<Rightarrow> Some i | _ \<Rightarrow> None)"

definition shp_get_ecpoints_extension :: "server_hello_payload \<Rightarrow> ec_point_format list option" where
  "shp_get_ecpoints_extension s =
     (case se_find_extension (shp_extensions s) ET_ECPointFormats of Some (SE_EcPointFormats f) \<Rightarrow> Some f | _ \<Rightarrow> None)"

definition ems_support_acked :: "server_hello_payload \<Rightarrow> bool" where
  "ems_support_acked s \<longleftrightarrow> se_find_extension (shp_extensions s) ET_ExtendedMasterSecret \<noteq> None"

definition shp_get_supported_versions :: "server_hello_payload \<Rightarrow> rl_version option" where
  "shp_get_supported_versions s =
     (case se_find_extension (shp_extensions s) ET_SupportedVersions of Some (SE_SupportedVersions v) \<Rightarrow> Some v | _ \<Rightarrow> None)"

section \<open>Certificates\<close>

abbreviation certificate_list :: list_length where "certificate_list \<equiv> ListU24 0x10000"

definition certificate_chain_encode :: "bytes list \<Rightarrow> bytes" where
  "certificate_chain_encode = encode_list certificate_list payload_u24_encode"

definition certificate_chain_read :: "bytes list rd" where
  "certificate_chain_read = read_vec certificate_list payload_u24_read"

record certificate_status =
  cs_ocsp_response :: bytes

definition certificate_status_encode :: "certificate_status \<Rightarrow> bytes" where
  "certificate_status_encode c = cst_encode CST_OCSP @ payload_u24_encode (cs_ocsp_response c)"

definition certificate_status_read :: "certificate_status rd" where
  "certificate_status_read r =
     rbind (cst_read r) (\<lambda>(t, r).
     case t of
       CST_OCSP \<Rightarrow> rd_map (\<lambda>p. \<lparr>cs_ocsp_response = p\<rparr>) payload_u24_read r
     | _ \<Rightarrow> Some (Err InvalidCertificateStatusType))"

datatype certificate_extension = CTE_CertificateStatus certificate_status | CTE_Unknown unknown_extension

primrec cte_get_type :: "certificate_extension \<Rightarrow> extension_type" where
  "cte_get_type (CTE_CertificateStatus _) = ET_StatusRequest"
| "cte_get_type (CTE_Unknown r) = ue_typ r"

definition get_cert_status :: "certificate_extension \<Rightarrow> bytes option" where
  "get_cert_status e = (case e of CTE_CertificateStatus cs \<Rightarrow> Some (cs_ocsp_response cs) | _ \<Rightarrow> None)"

primrec cte_body_encode :: "certificate_extension \<Rightarrow> bytes" where
  "cte_body_encode (CTE_CertificateStatus r) = certificate_status_encode r"
| "cte_body_encode (CTE_Unknown r) = ue_payload r"

definition cte_body_read :: "extension_type \<Rightarrow> certificate_extension rd" where
  "cte_body_read t =
     (case t of
        ET_StatusRequest \<Rightarrow> rd_map CTE_CertificateStatus certificate_status_read
      | _ \<Rightarrow> rd_map CTE_Unknown (unknown_read t))"

definition certificate_extension_encode :: "certificate_extension \<Rightarrow> bytes" where
  "certificate_extension_encode = encode_extension cte_get_type cte_body_encode"

definition certificate_extension_read :: "certificate_extension rd" where
  "certificate_extension_read = read_extension ''CertificateExtension'' cte_body_read"

record certificate_entry =
  cert_der :: bytes
  cert_exts :: "certificate_extension list"

definition certificate_entry_encode :: "certificate_entry \<Rightarrow> bytes" where
  "certificate_entry_encode e = payload_u24_encode (cert_der e) @ encode_list ListU16 certificate_extension_encode (cert_exts e)"

definition certificate_entry_read :: "certificate_entry rd" where
  "certificate_entry_read =
     rd_map (\<lambda>(c, e). \<lparr>cert_der = c, cert_exts = e\<rparr>) (rd_pair payload_u24_read (read_vec ListU16 certificate_extension_read))"

definition certificate_entry_new :: "bytes \<Rightarrow> certificate_entry" where
  "certificate_entry_new cert = \<lparr>cert_der = cert, cert_exts = []\<rparr>"

definition entry_has_duplicate_extension :: "certificate_entry \<Rightarrow> bool" where
  "entry_has_duplicate_extension e = seen_before (map (\<lambda>x. et_get_u16 (cte_get_type x)) (cert_exts e)) {}"

definition entry_has_unknown_extension :: "certificate_entry \<Rightarrow> bool" where
  "entry_has_unknown_extension e = list_ex (\<lambda>x. cte_get_type x \<noteq> ET_StatusRequest) (cert_exts e)"

definition get_ocsp_response :: "certificate_entry \<Rightarrow> bytes option" where
  "get_ocsp_response e =
     (case find (\<lambda>x. cte_get_type x = ET_StatusRequest) (cert_exts e) of Some x \<Rightarrow> get_cert_status x | None \<Rightarrow> None)"

record certificate_payload_tls13 =
  cp_context :: bytes
  cp_entries :: "certificate_entry list"

definition certificate_tls13_encode :: "certificate_payload_tls13 \<Rightarrow> bytes" where
  "certificate_tls13_encode p = payload_u8_encode (cp_context p) @ encode_list certificate_list certificate_entry_encode (cp_entries p)"

definition certificate_tls13_read :: "certificate_payload_tls13 rd" where
  "certificate_tls13_read =
     rd_map (\<lambda>(c, e). \<lparr>cp_context = c, cp_entries = e\<rparr>) (rd_pair payload_u8_read (read_vec certificate_list certificate_entry_read))"

definition certificate_tls13_new :: "certificate_entry list \<Rightarrow> certificate_payload_tls13" where
  "certificate_tls13_new entries = \<lparr>cp_context = [], cp_entries = entries\<rparr>"

definition any_entry_has_duplicate_extension :: "certificate_payload_tls13 \<Rightarrow> bool" where
  "any_entry_has_duplicate_extension p = list_ex entry_has_duplicate_extension (cp_entries p)"

definition any_entry_has_unknown_extension :: "certificate_payload_tls13 \<Rightarrow> bool" where
  "any_entry_has_unknown_extension p = list_ex entry_has_unknown_extension (cp_entries p)"

definition any_entry_has_extension :: "certificate_payload_tls13 \<Rightarrow> bool" where
  "any_entry_has_extension p = list_ex (\<lambda>e. cert_exts e \<noteq> []) (cp_entries p)"

definition get_end_entity_ocsp :: "certificate_payload_tls13 \<Rightarrow> bytes" where
  "get_end_entity_ocsp p =
     (case cp_entries p of
        [] \<Rightarrow> []
      | e # _ \<Rightarrow> (case get_ocsp_response e of Some o1 \<Rightarrow> o1 | None \<Rightarrow> []))"

definition certificate_convert :: "certificate_payload_tls13 \<Rightarrow> bytes list" where
  "certificate_convert p = map cert_der (cp_entries p)"

section \<open>Key exchange\<close>

record digitally_signed_struct =
  dss_scheme :: signature_scheme
  dss_sig :: bytes

definition dss_encode :: "digitally_signed_struct \<Rightarrow> bytes" where
  "dss_encode d = ss_encode (dss_scheme d) @ payload_u16_encode (dss_sig d)"

definition dss_read :: "digitally_signed_struct rd" where
  "dss_read = rd_map (\<lambda>(s, b). \<lparr>dss_scheme = s, dss_sig = b\<rparr>) (rd_pair ss_read payload_u16_read)"

record ec_parameters =
  ecp_curve_type :: ec_curve_type
  ecp_named_group :: named_group

abbreviation ect_read :: "ec_curve_type rd" where "ect_read \<equiv> enum_u8_read ''ECCurveType'' ect_from"
abbreviation ect_encode :: "ec_curve_type \<Rightarrow> bytes" where "ect_encode \<equiv> \<lambda>e. [ect_get_u8 e]"

definition ec_parameters_encode :: "ec_parameters \<Rightarrow> bytes" where
  "ec_parameters_encode p = ect_encode (ecp_curve_type p) @ ng_encode (ecp_named_group p)"

definition ec_parameters_read :: "ec_parameters rd" where
  "ec_parameters_read =
     rd_map (\<lambda>(ct, grp). \<lparr>ecp_curve_type = ct, ecp_named_group = grp\<rparr>)
       (rd_pair (rd_check (\<lambda>ct. ct \<noteq> ECT_NamedCurve) UnsupportedCurveType ect_read) ng_read)"

record server_ecdh_params =
  sep_curve_params :: ec_parameters
  sep_public :: bytes

definition server_ecdh_params_encode :: "server_ecdh_params \<Rightarrow> bytes" where
  "server_ecdh_params_encode p = ec_parameters_encode (sep_curve_params p) @ payload_u8_encode (sep_public p)"

definition server_ecdh_params_read :: "server_ecdh_params rd" where
  "server_ecdh_params_read =
     rd_map (\<lambda>(c, p). \<lparr>sep_curve_params = c, sep_public = p\<rparr>) (rd_pair ec_parameters_read payload_u8_read)"

record ecdhe_server_key_exchange =
  eske_params :: server_ecdh_params
  eske_dss :: digitally_signed_struct

definition ecdhe_encode :: "ecdhe_server_key_exchange \<Rightarrow> bytes" where
  "ecdhe_encode k = server_ecdh_params_encode (eske_params k) @ dss_encode (eske_dss k)"

definition ecdhe_read :: "ecdhe_server_key_exchange rd" where
  "ecdhe_read = rd_map (\<lambda>(p, d). \<lparr>eske_params = p, eske_dss = d\<rparr>) (rd_pair server_ecdh_params_read dss_read)"

datatype server_key_exchange_payload = SKE_Ecdhe ecdhe_server_key_exchange | SKE_Unknown bytes

primrec ske_encode :: "server_key_exchange_payload \<Rightarrow> bytes" where
  "ske_encode (SKE_Ecdhe x) = ecdhe_encode x"
| "ske_encode (SKE_Unknown x) = x"

definition ske_read :: "server_key_exchange_payload rd" where
  "ske_read = rd_map SKE_Unknown payload_read"

text \<open>There is one algorithm, ECDHE. The result of the read is kept only if nothing is left.\<close>

definition unwrap_given_kxa :: "server_key_exchange_payload \<Rightarrow> ecdhe_server_key_exchange option" where
  "unwrap_given_kxa p =
     (case p of
        SKE_Unknown unk \<Rightarrow>
          (case ecdhe_read (reader_init unk) of
             Some (Ret (k, r)) \<Rightarrow> if \<not> reader_any_left r then Some k else None
           | _ \<Rightarrow> None)
      | SKE_Ecdhe _ \<Rightarrow> None)"

section \<open>Certificate requests and tickets\<close>

abbreviation cct_read :: "client_certificate_type rd" where "cct_read \<equiv> enum_u8_read ''ClientCertificateType'' cct_from"
abbreviation cct_encode :: "client_certificate_type \<Rightarrow> bytes" where "cct_encode \<equiv> \<lambda>e. [cct_get_u8 e]"
abbreviation cct_ok :: "client_certificate_type \<Rightarrow> bool" where "cct_ok \<equiv> \<lambda>e. cct_from (cct_get_u8 e) = e"

record certificate_request_payload =
  crp_certtypes :: "client_certificate_type list"
  crp_sigschemes :: "signature_scheme list"
  crp_canames :: "bytes list"

definition certificate_request_encode :: "certificate_request_payload \<Rightarrow> bytes" where
  "certificate_request_encode p =
     encode_list ListU8 cct_encode (crp_certtypes p) @ encode_list ListU16 ss_encode (crp_sigschemes p)
     @ encode_list ListU16 payload_u16_encode (crp_canames p)"

definition certificate_request_read :: "certificate_request_payload rd" where
  "certificate_request_read =
     rd_check (\<lambda>p. crp_sigschemes p = []) NoSignatureSchemes
       (rd_map (\<lambda>(t, (s, c)). \<lparr>crp_certtypes = t, crp_sigschemes = s, crp_canames = c\<rparr>)
         (rd_pair (read_vec ListU8 cct_read) (rd_pair (read_vec ListU16 ss_read) (read_vec ListU16 payload_u16_read))))"

datatype cert_req_extension = CRE_SignatureAlgorithms "signature_scheme list" | CRE_AuthorityNames "bytes list" | CRE_Unknown unknown_extension

primrec cre_get_type :: "cert_req_extension \<Rightarrow> extension_type" where
  "cre_get_type (CRE_SignatureAlgorithms _) = ET_SignatureAlgorithms"
| "cre_get_type (CRE_AuthorityNames _) = ET_CertificateAuthorities"
| "cre_get_type (CRE_Unknown r) = ue_typ r"

primrec cre_body_encode :: "cert_req_extension \<Rightarrow> bytes" where
  "cre_body_encode (CRE_SignatureAlgorithms r) = encode_list ListU16 ss_encode r"
| "cre_body_encode (CRE_AuthorityNames r) = encode_list ListU16 payload_u16_encode r"
| "cre_body_encode (CRE_Unknown r) = ue_payload r"

definition cre_body_read :: "extension_type \<Rightarrow> cert_req_extension rd" where
  "cre_body_read t =
     (case t of
        ET_SignatureAlgorithms \<Rightarrow>
          rd_map CRE_SignatureAlgorithms (rd_check (\<lambda>schemes. schemes = []) NoSignatureSchemes (read_vec ListU16 ss_read))
      | ET_CertificateAuthorities \<Rightarrow> rd_map CRE_AuthorityNames (read_vec ListU16 payload_u16_read)
      | _ \<Rightarrow> rd_map CRE_Unknown (unknown_read t))"

definition cert_req_extension_encode :: "cert_req_extension \<Rightarrow> bytes" where
  "cert_req_extension_encode = encode_extension cre_get_type cre_body_encode"

definition cert_req_extension_read :: "cert_req_extension rd" where
  "cert_req_extension_read = read_extension ''CertReqExtension'' cre_body_read"

record certificate_request_tls13 =
  crt_context :: bytes
  crt_extensions :: "cert_req_extension list"

definition certificate_request_tls13_encode :: "certificate_request_tls13 \<Rightarrow> bytes" where
  "certificate_request_tls13_encode p = payload_u8_encode (crt_context p) @ encode_list ListU16 cert_req_extension_encode (crt_extensions p)"

definition certificate_request_tls13_read :: "certificate_request_tls13 rd" where
  "certificate_request_tls13_read =
     rd_map (\<lambda>(c, e). \<lparr>crt_context = c, crt_extensions = e\<rparr>) (rd_pair payload_u8_read (read_vec ListU16 cert_req_extension_read))"

definition crt_find_extension :: "certificate_request_tls13 \<Rightarrow> extension_type \<Rightarrow> cert_req_extension option" where
  "crt_find_extension p t = find (\<lambda>x. cre_get_type x = t) (crt_extensions p)"

definition crt_get_sigalgs_extension :: "certificate_request_tls13 \<Rightarrow> signature_scheme list option" where
  "crt_get_sigalgs_extension p =
     (case crt_find_extension p ET_SignatureAlgorithms of Some (CRE_SignatureAlgorithms sa) \<Rightarrow> Some sa | _ \<Rightarrow> None)"

definition get_authorities_extension :: "certificate_request_tls13 \<Rightarrow> bytes list option" where
  "get_authorities_extension p =
     (case crt_find_extension p ET_CertificateAuthorities of Some (CRE_AuthorityNames an) \<Rightarrow> Some an | _ \<Rightarrow> None)"

record new_session_ticket =
  nst_lifetime_hint :: u32
  nst_ticket :: bytes

definition new_session_ticket_encode :: "new_session_ticket \<Rightarrow> bytes" where
  "new_session_ticket_encode t = u32_be (nst_lifetime_hint t) @ payload_u16_encode (nst_ticket t)"

definition new_session_ticket_read :: "new_session_ticket rd" where
  "new_session_ticket_read = rd_map (\<lambda>(l, t). \<lparr>nst_lifetime_hint = l, nst_ticket = t\<rparr>) (rd_pair rd_u32 payload_u16_read)"

datatype new_session_ticket_extension = NSTE_EarlyData u32 | NSTE_Unknown unknown_extension

primrec nste_get_type :: "new_session_ticket_extension \<Rightarrow> extension_type" where
  "nste_get_type (NSTE_EarlyData _) = ET_EarlyData"
| "nste_get_type (NSTE_Unknown r) = ue_typ r"

primrec nste_body_encode :: "new_session_ticket_extension \<Rightarrow> bytes" where
  "nste_body_encode (NSTE_EarlyData r) = u32_be r"
| "nste_body_encode (NSTE_Unknown r) = ue_payload r"

definition nste_body_read :: "extension_type \<Rightarrow> new_session_ticket_extension rd" where
  "nste_body_read t =
     (case t of
        ET_EarlyData \<Rightarrow> rd_map NSTE_EarlyData rd_u32
      | _ \<Rightarrow> rd_map NSTE_Unknown (unknown_read t))"

definition nst_extension_encode :: "new_session_ticket_extension \<Rightarrow> bytes" where
  "nst_extension_encode = encode_extension nste_get_type nste_body_encode"

definition nst_extension_read :: "new_session_ticket_extension rd" where
  "nst_extension_read = read_extension ''NewSessionTicketExtension'' nste_body_read"

record new_session_ticket_tls13 =
  nst13_lifetime :: u32
  nst13_age_add :: u32
  nst13_nonce :: bytes
  nst13_ticket :: bytes
  nst13_exts :: "new_session_ticket_extension list"

definition nst13_new :: "u32 \<Rightarrow> u32 \<Rightarrow> bytes \<Rightarrow> bytes \<Rightarrow> new_session_ticket_tls13" where
  "nst13_new lifetime age_add nonce ticket =
     \<lparr>nst13_lifetime = lifetime, nst13_age_add = age_add, nst13_nonce = nonce, nst13_ticket = ticket, nst13_exts = []\<rparr>"

definition nst13_has_duplicate_extension :: "new_session_ticket_tls13 \<Rightarrow> bool" where
  "nst13_has_duplicate_extension t = seen_before (map (\<lambda>x. et_get_u16 (nste_get_type x)) (nst13_exts t)) {}"

definition nst13_find_extension :: "new_session_ticket_tls13 \<Rightarrow> extension_type \<Rightarrow> new_session_ticket_extension option" where
  "nst13_find_extension t e = find (\<lambda>x. nste_get_type x = e) (nst13_exts t)"

definition get_max_early_data_size :: "new_session_ticket_tls13 \<Rightarrow> u32 option" where
  "get_max_early_data_size t = (case nst13_find_extension t ET_EarlyData of Some (NSTE_EarlyData sz) \<Rightarrow> Some sz | _ \<Rightarrow> None)"

definition nst13_encode :: "new_session_ticket_tls13 \<Rightarrow> bytes" where
  "nst13_encode t =
     u32_be (nst13_lifetime t) @ u32_be (nst13_age_add t) @ payload_u8_encode (nst13_nonce t) @ payload_u16_encode (nst13_ticket t)
     @ encode_list ListU16 nst_extension_encode (nst13_exts t)"

definition nst13_read :: "new_session_ticket_tls13 rd" where
  "nst13_read =
     rd_map (\<lambda>(l, (a, (n, (t, e)))). \<lparr>nst13_lifetime = l, nst13_age_add = a, nst13_nonce = n, nst13_ticket = t, nst13_exts = e\<rparr>)
       (rd_pair rd_u32 (rd_pair rd_u32 (rd_pair payload_u8_read (rd_pair payload_u16_read (read_vec ListU16 nst_extension_read)))))"

section \<open>The message\<close>

abbreviation kur_read :: "key_update_request rd" where "kur_read \<equiv> enum_u8_read ''KeyUpdateRequest'' kur_from"
abbreviation kur_encode :: "key_update_request \<Rightarrow> bytes" where "kur_encode \<equiv> \<lambda>e. [kur_get_u8 e]"
abbreviation kur_ok :: "key_update_request \<Rightarrow> bool" where "kur_ok \<equiv> \<lambda>e. kur_from (kur_get_u8 e) = e"
abbreviation ht_read :: "rl_handshake_type rd" where "ht_read \<equiv> enum_u8_read ''HandshakeType'' ht_from"
abbreviation ht_ok :: "rl_handshake_type \<Rightarrow> bool" where "ht_ok \<equiv> \<lambda>e. ht_from (ht_get_u8 e) = e"

datatype hs_payload =
    HP_HelloRequest
  | HP_ClientHello client_hello_payload
  | HP_ServerHello server_hello_payload
  | HP_HelloRetryRequest hello_retry_request
  | HP_Certificate "bytes list"
  | HP_CertificateTls13 certificate_payload_tls13
  | HP_ServerKeyExchange server_key_exchange_payload
  | HP_CertificateRequest certificate_request_payload
  | HP_CertificateRequestTls13 certificate_request_tls13
  | HP_CertificateVerify digitally_signed_struct
  | HP_ServerHelloDone
  | HP_EndOfEarlyData
  | HP_ClientKeyExchange bytes
  | HP_NewSessionTicket new_session_ticket
  | HP_NewSessionTicketTls13 new_session_ticket_tls13
  | HP_EncryptedExtensions "server_extension list"
  | HP_KeyUpdate key_update_request
  | HP_Finished bytes
  | HP_CertificateStatus certificate_status
  | HP_MessageHash bytes
  | HP_Unknown bytes

primrec hp_encode :: "hs_payload \<Rightarrow> bytes" where
  "hp_encode HP_HelloRequest = []"
| "hp_encode HP_ServerHelloDone = []"
| "hp_encode HP_EndOfEarlyData = []"
| "hp_encode (HP_ClientHello x) = client_hello_encode x"
| "hp_encode (HP_ServerHello x) = shp_encode x"
| "hp_encode (HP_HelloRetryRequest x) = hello_retry_request_encode x"
| "hp_encode (HP_Certificate x) = certificate_chain_encode x"
| "hp_encode (HP_CertificateTls13 x) = certificate_tls13_encode x"
| "hp_encode (HP_ServerKeyExchange x) = ske_encode x"
| "hp_encode (HP_ClientKeyExchange x) = x"
| "hp_encode (HP_CertificateRequest x) = certificate_request_encode x"
| "hp_encode (HP_CertificateRequestTls13 x) = certificate_request_tls13_encode x"
| "hp_encode (HP_CertificateVerify x) = dss_encode x"
| "hp_encode (HP_NewSessionTicket x) = new_session_ticket_encode x"
| "hp_encode (HP_NewSessionTicketTls13 x) = nst13_encode x"
| "hp_encode (HP_EncryptedExtensions x) = encode_list ListU16 server_extension_encode x"
| "hp_encode (HP_KeyUpdate x) = kur_encode x"
| "hp_encode (HP_Finished x) = x"
| "hp_encode (HP_CertificateStatus x) = certificate_status_encode x"
| "hp_encode (HP_MessageHash x) = x"
| "hp_encode (HP_Unknown x) = x"

record handshake_message_payload =
  hmp_typ :: rl_handshake_type
  hmp_payload :: hs_payload

text \<open>A hello retry request goes out as a server hello.\<close>

definition wire_type :: "rl_handshake_type \<Rightarrow> rl_handshake_type" where
  "wire_type t = (case t of HT_HelloRetryRequest \<Rightarrow> HT_ServerHello | _ \<Rightarrow> t)"

definition handshake_encode :: "handshake_message_payload \<Rightarrow> bytes" where
  "handshake_encode m = ht_get_u8 (wire_type (hmp_typ m)) # length_prefixed (ListU24 (2 ^ 64 - 1)) (hp_encode (hmp_payload m))"

definition server_hello_body :: "handshake_message_payload rd" where
  "server_hello_body sub =
     rbind (vers_read sub) (\<lambda>(version, sub).
     rbind (random_read sub) (\<lambda>(random, sub).
     if random = HELLO_RETRY_REQUEST_RANDOM then
       rd_map (\<lambda>hrr. \<lparr>hmp_typ = HT_HelloRetryRequest, hmp_payload = HP_HelloRetryRequest (hrr \<lparr>hrr_legacy_version := version\<rparr>)\<rparr>)
         hello_retry_request_read sub
     else
       rd_map (\<lambda>shp. \<lparr>hmp_typ = HT_ServerHello, hmp_payload = HP_ServerHello (shp \<lparr>shp_legacy_version := version, shp_random := random\<rparr>)\<rparr>)
         server_hello_read sub))"

definition handshake_body :: "(bytes \<Rightarrow> bool) \<Rightarrow> rl_version \<Rightarrow> rl_handshake_type \<Rightarrow> handshake_message_payload rd" where
  "handshake_body dns vers t =
     (let mk = \<lambda>p. \<lparr>hmp_typ = t, hmp_payload = p\<rparr> in
      case t of
        HT_HelloRequest \<Rightarrow> (\<lambda>sub.
          if reader_any_left sub then rd_map (\<lambda>x. mk (HP_Unknown x)) payload_read sub else rd_done (mk HP_HelloRequest) sub)
      | HT_ClientHello \<Rightarrow> rd_map (\<lambda>x. mk (HP_ClientHello x)) (client_hello_read dns)
      | HT_ServerHello \<Rightarrow> server_hello_body
      | HT_Certificate \<Rightarrow>
          if vers = PV_TLSv1_3 then rd_map (\<lambda>x. mk (HP_CertificateTls13 x)) certificate_tls13_read
          else rd_map (\<lambda>x. mk (HP_Certificate x)) certificate_chain_read
      | HT_ServerKeyExchange \<Rightarrow> rd_map (\<lambda>x. mk (HP_ServerKeyExchange x)) ske_read
      | HT_ServerHelloDone \<Rightarrow> rd_end ''ServerHelloDone'' (rd_done (mk HP_ServerHelloDone))
      | HT_ClientKeyExchange \<Rightarrow> rd_map (\<lambda>x. mk (HP_ClientKeyExchange x)) payload_read
      | HT_CertificateRequest \<Rightarrow>
          if vers = PV_TLSv1_3 then rd_map (\<lambda>x. mk (HP_CertificateRequestTls13 x)) certificate_request_tls13_read
          else rd_map (\<lambda>x. mk (HP_CertificateRequest x)) certificate_request_read
      | HT_CertificateVerify \<Rightarrow> rd_map (\<lambda>x. mk (HP_CertificateVerify x)) dss_read
      | HT_NewSessionTicket \<Rightarrow>
          if vers = PV_TLSv1_3 then rd_map (\<lambda>x. mk (HP_NewSessionTicketTls13 x)) nst13_read
          else rd_map (\<lambda>x. mk (HP_NewSessionTicket x)) new_session_ticket_read
      | HT_EncryptedExtensions \<Rightarrow> rd_map (\<lambda>x. mk (HP_EncryptedExtensions x)) (read_vec ListU16 server_extension_read)
      | HT_KeyUpdate \<Rightarrow> rd_map (\<lambda>x. mk (HP_KeyUpdate x)) kur_read
      | HT_EndOfEarlyData \<Rightarrow> rd_end ''EndOfEarlyData'' (rd_done (mk HP_EndOfEarlyData))
      | HT_Finished \<Rightarrow> rd_map (\<lambda>x. mk (HP_Finished x)) payload_read
      | HT_CertificateStatus \<Rightarrow> rd_map (\<lambda>x. mk (HP_CertificateStatus x)) certificate_status_read
      | HT_MessageHash \<Rightarrow> (\<lambda>_. Some (Err (UnexpectedMessage (lit ''MessageHash''))))
      | HT_HelloRetryRequest \<Rightarrow> (\<lambda>_. Some (Err (UnexpectedMessage (lit ''HelloRetryRequest''))))
      | _ \<Rightarrow> rd_map (\<lambda>x. mk (HP_Unknown x)) payload_read)"

definition read_version :: "(bytes \<Rightarrow> bool) \<Rightarrow> rl_version \<Rightarrow> handshake_message_payload rd" where
  "read_version dns vers r =
     rbind (ht_read r) (\<lambda>(t, r).
     rbind (rd_u24 r) (\<lambda>(len, r).
     rbind (Some (reader_sub (unat len) r)) (\<lambda>(sub, r).
     rbind (rd_end ''HandshakeMessagePayload'' (handshake_body dns vers t) sub) (\<lambda>(m, sub).
     Some (Ret (m, r))))))"

definition handshake_read :: "(bytes \<Rightarrow> bool) \<Rightarrow> handshake_message_payload rd" where
  "handshake_read dns = read_version dns PV_TLSv1_2"

definition build_key_update_notify :: handshake_message_payload where
  "build_key_update_notify = \<lparr>hmp_typ = HT_KeyUpdate, hmp_payload = HP_KeyUpdate KUR_UpdateNotRequested\<rparr>"

definition build_handshake_hash :: "bytes \<Rightarrow> handshake_message_payload" where
  "build_handshake_hash hash = \<lparr>hmp_typ = HT_MessageHash, hmp_payload = HP_MessageHash hash\<rparr>"

text \<open>The encoding without the list of binders at its end; the subtraction is of lengths and would wrap.\<close>

definition get_encoding_for_binder_signing :: "handshake_message_payload \<Rightarrow> (unit, bytes) outcome" where
  "get_encoding_for_binder_signing m =
     (let ret = handshake_encode m;
          binder_len = (case hmp_payload m of
              HP_ClientHello ch \<Rightarrow>
                (if ch_extensions ch = [] then 0
                 else case last (ch_extensions ch) of
                   CE_PresharedKey offer \<Rightarrow> length (encode_list ListU16 payload_u8_encode (psko_binders offer))
                 | _ \<Rightarrow> 0)
            | _ \<Rightarrow> 0)
      in if length ret < binder_len then Panic else Ret (take (length ret - binder_len) ret))"

section \<open>Well-formed messages\<close>

definition client_hello_ok :: "(bytes \<Rightarrow> bool) \<Rightarrow> client_hello_payload \<Rightarrow> bool" where
  "client_hello_ok dns c \<longleftrightarrow> vers_ok (ch_client_version c) \<and> length (ch_random c) = 32 \<and> session_id_ok (ch_session_id c)
     \<and> vec_ok ListU16 (\<lambda>_. True) u16_be (ch_cipher_suites c) \<and> vec_ok ListU8 cm_ok cm_encode (ch_compression_methods c)
     \<and> vec_ok ListU16 (client_extension_ok dns) client_extension_encode (ch_extensions c) \<and> ch_extensions c \<noteq> []"

primrec hre_body_ok :: "hello_retry_extension \<Rightarrow> bool" where
  "hre_body_ok (HRE_KeyShare r) \<longleftrightarrow> ng_ok r"
| "hre_body_ok (HRE_Cookie r) \<longleftrightarrow> short16 r"
| "hre_body_ok (HRE_SupportedVersions r) \<longleftrightarrow> vers_ok r"
| "hre_body_ok (HRE_Unknown r) \<longleftrightarrow> ue_typ r \<notin> {ET_KeyShare, ET_Cookie, ET_SupportedVersions}"

definition hello_retry_extension_ok :: "hello_retry_extension \<Rightarrow> bool" where
  "hello_retry_extension_ok = extension_ok hre_body_ok hre_get_type hre_body_encode"

definition hello_retry_request_ok :: "hello_retry_request \<Rightarrow> bool" where
  "hello_retry_request_ok h \<longleftrightarrow> vers_ok (hrr_legacy_version h) \<and> session_id_ok (hrr_session_id h)
     \<and> vec_ok ListU16 hello_retry_extension_ok hello_retry_extension_encode (hrr_extensions h)"

definition server_hello_ok :: "server_hello_payload \<Rightarrow> bool" where
  "server_hello_ok s \<longleftrightarrow> vers_ok (shp_legacy_version s) \<and> length (shp_random s) = 32 \<and> shp_random s \<noteq> HELLO_RETRY_REQUEST_RANDOM
     \<and> session_id_ok (shp_session_id s) \<and> cm_ok (shp_compression_method s)
     \<and> vec_ok ListU16 server_extension_ok server_extension_encode (shp_extensions s)"

abbreviation short24 :: "bytes \<Rightarrow> bool" where "short24 \<equiv> \<lambda>bs. length bs < 16777216"

primrec cte_body_ok :: "certificate_extension \<Rightarrow> bool" where
  "cte_body_ok (CTE_CertificateStatus r) \<longleftrightarrow> short24 (cs_ocsp_response r)"
| "cte_body_ok (CTE_Unknown r) \<longleftrightarrow> ue_typ r \<noteq> ET_StatusRequest"

definition certificate_extension_ok :: "certificate_extension \<Rightarrow> bool" where
  "certificate_extension_ok = extension_ok cte_body_ok cte_get_type cte_body_encode"

definition certificate_entry_ok :: "certificate_entry \<Rightarrow> bool" where
  "certificate_entry_ok e \<longleftrightarrow> short24 (cert_der e) \<and> vec_ok ListU16 certificate_extension_ok certificate_extension_encode (cert_exts e)"

definition certificate_tls13_ok :: "certificate_payload_tls13 \<Rightarrow> bool" where
  "certificate_tls13_ok p \<longleftrightarrow> short8 (cp_context p) \<and> vec_ok certificate_list certificate_entry_ok certificate_entry_encode (cp_entries p)"

definition dss_ok :: "digitally_signed_struct \<Rightarrow> bool" where
  "dss_ok d \<longleftrightarrow> ss_ok (dss_scheme d) \<and> short16 (dss_sig d)"

definition ecdhe_ok :: "ecdhe_server_key_exchange \<Rightarrow> bool" where
  "ecdhe_ok k \<longleftrightarrow> ecp_curve_type (sep_curve_params (eske_params k)) = ECT_NamedCurve
     \<and> ng_ok (ecp_named_group (sep_curve_params (eske_params k))) \<and> short8 (sep_public (eske_params k)) \<and> dss_ok (eske_dss k)"

definition certificate_request_ok :: "certificate_request_payload \<Rightarrow> bool" where
  "certificate_request_ok p \<longleftrightarrow> vec_ok ListU8 cct_ok cct_encode (crp_certtypes p) \<and> vec_ok ListU16 ss_ok ss_encode (crp_sigschemes p)
     \<and> vec_ok ListU16 short16 payload_u16_encode (crp_canames p) \<and> crp_sigschemes p \<noteq> []"

primrec cre_body_ok :: "cert_req_extension \<Rightarrow> bool" where
  "cre_body_ok (CRE_SignatureAlgorithms r) \<longleftrightarrow> vec_ok ListU16 ss_ok ss_encode r \<and> r \<noteq> []"
| "cre_body_ok (CRE_AuthorityNames r) \<longleftrightarrow> vec_ok ListU16 short16 payload_u16_encode r"
| "cre_body_ok (CRE_Unknown r) \<longleftrightarrow> ue_typ r \<notin> {ET_SignatureAlgorithms, ET_CertificateAuthorities}"

definition cert_req_extension_ok :: "cert_req_extension \<Rightarrow> bool" where
  "cert_req_extension_ok = extension_ok cre_body_ok cre_get_type cre_body_encode"

definition certificate_request_tls13_ok :: "certificate_request_tls13 \<Rightarrow> bool" where
  "certificate_request_tls13_ok p \<longleftrightarrow> short8 (crt_context p) \<and> vec_ok ListU16 cert_req_extension_ok cert_req_extension_encode (crt_extensions p)"

primrec nste_body_ok :: "new_session_ticket_extension \<Rightarrow> bool" where
  "nste_body_ok (NSTE_EarlyData r) \<longleftrightarrow> True"
| "nste_body_ok (NSTE_Unknown r) \<longleftrightarrow> ue_typ r \<noteq> ET_EarlyData"

definition nst_extension_ok :: "new_session_ticket_extension \<Rightarrow> bool" where
  "nst_extension_ok = extension_ok nste_body_ok nste_get_type nste_body_encode"

definition nst13_ok :: "new_session_ticket_tls13 \<Rightarrow> bool" where
  "nst13_ok t \<longleftrightarrow> short8 (nst13_nonce t) \<and> short16 (nst13_ticket t) \<and> vec_ok ListU16 nst_extension_ok nst_extension_encode (nst13_exts t)"

text \<open>The values of a type of message, for a version: the certificate messages differ.\<close>

primrec payload_ok :: "(bytes \<Rightarrow> bool) \<Rightarrow> rl_version \<Rightarrow> rl_handshake_type \<Rightarrow> hs_payload \<Rightarrow> bool" where
  "payload_ok dns vers t HP_HelloRequest \<longleftrightarrow> t = HT_HelloRequest"
| "payload_ok dns vers t (HP_ClientHello x) \<longleftrightarrow> t = HT_ClientHello \<and> client_hello_ok dns x"
| "payload_ok dns vers t (HP_ServerHello x) \<longleftrightarrow> t = HT_ServerHello \<and> server_hello_ok x"
| "payload_ok dns vers t (HP_HelloRetryRequest x) \<longleftrightarrow> t = HT_HelloRetryRequest \<and> hello_retry_request_ok x"
| "payload_ok dns vers t (HP_Certificate x) \<longleftrightarrow> t = HT_Certificate \<and> vers \<noteq> PV_TLSv1_3 \<and> vec_ok certificate_list short24 payload_u24_encode x"
| "payload_ok dns vers t (HP_CertificateTls13 x) \<longleftrightarrow> t = HT_Certificate \<and> vers = PV_TLSv1_3 \<and> certificate_tls13_ok x"
| "payload_ok dns vers t (HP_ServerKeyExchange x) \<longleftrightarrow> t = HT_ServerKeyExchange \<and> (case x of SKE_Unknown _ \<Rightarrow> True | _ \<Rightarrow> False)"
| "payload_ok dns vers t (HP_CertificateRequest x) \<longleftrightarrow> t = HT_CertificateRequest \<and> vers \<noteq> PV_TLSv1_3 \<and> certificate_request_ok x"
| "payload_ok dns vers t (HP_CertificateRequestTls13 x) \<longleftrightarrow> t = HT_CertificateRequest \<and> vers = PV_TLSv1_3 \<and> certificate_request_tls13_ok x"
| "payload_ok dns vers t (HP_CertificateVerify x) \<longleftrightarrow> t = HT_CertificateVerify \<and> dss_ok x"
| "payload_ok dns vers t HP_ServerHelloDone \<longleftrightarrow> t = HT_ServerHelloDone"
| "payload_ok dns vers t HP_EndOfEarlyData \<longleftrightarrow> t = HT_EndOfEarlyData"
| "payload_ok dns vers t (HP_ClientKeyExchange x) \<longleftrightarrow> t = HT_ClientKeyExchange"
| "payload_ok dns vers t (HP_NewSessionTicket x) \<longleftrightarrow> t = HT_NewSessionTicket \<and> vers \<noteq> PV_TLSv1_3 \<and> short16 (nst_ticket x)"
| "payload_ok dns vers t (HP_NewSessionTicketTls13 x) \<longleftrightarrow> t = HT_NewSessionTicket \<and> vers = PV_TLSv1_3 \<and> nst13_ok x"
| "payload_ok dns vers t (HP_EncryptedExtensions x) \<longleftrightarrow> t = HT_EncryptedExtensions \<and> vec_ok ListU16 server_extension_ok server_extension_encode x"
| "payload_ok dns vers t (HP_KeyUpdate x) \<longleftrightarrow> t = HT_KeyUpdate \<and> kur_ok x"
| "payload_ok dns vers t (HP_Finished x) \<longleftrightarrow> t = HT_Finished"
| "payload_ok dns vers t (HP_CertificateStatus x) \<longleftrightarrow> t = HT_CertificateStatus \<and> short24 (cs_ocsp_response x)"
| "payload_ok dns vers t (HP_MessageHash x) \<longleftrightarrow> False"
| "payload_ok dns vers t (HP_Unknown x) \<longleftrightarrow>
     t = HT_HelloRequest \<and> x \<noteq> [] \<or> (case t of HT_HelloVerifyRequest \<Rightarrow> True | HT_CertificateURL \<Rightarrow> True | HT_Unknown _ \<Rightarrow> True | _ \<Rightarrow> False)"

definition handshake_ok :: "(bytes \<Rightarrow> bool) \<Rightarrow> rl_version \<Rightarrow> handshake_message_payload \<Rightarrow> bool" where
  "handshake_ok dns vers m \<longleftrightarrow> payload_ok dns vers (hmp_typ m) (hmp_payload m) \<and> ht_ok (hmp_typ m) \<and> length (hp_encode (hmp_payload m)) < 16777216"

end
