(* ===== verification/Rustls_Handshake_Codec.thy ===== *)
theory Rustls_Handshake_Codec
  imports Rustls_Handshake
begin

text \<open>
  The codec of handshake messages: what the parser accepts, that it returns for every input, and that it inverts the
  encoder (\<open>rustls-reality/rustls/src/msgs/handshake.rs\<close>). The codec of each message follows from those of its fields.
\<close>

section \<open>Extensions of the other messages\<close>

lemma hre_body: "exact_body (\<lambda>x. hre_body_ok x \<and> hre_get_type x = t) hre_body_encode (hre_body_read t)"
proof (cases t)
  case ET_KeyShare
  show ?thesis
    unfolding ET_KeyShare hre_body_read_def extension_type.case
    by (rule constructor_body [OF part_bodies(2)]) (simp_all, rename_tac y, case_tac y, auto)
next
  case ET_Cookie
  show ?thesis
    unfolding ET_Cookie hre_body_read_def extension_type.case
    by (rule constructor_body [OF part_bodies(14)]) (simp_all, rename_tac y, case_tac y, auto)
next
  case ET_SupportedVersions
  show ?thesis
    unfolding ET_SupportedVersions hre_body_read_def extension_type.case
    by (rule constructor_body [OF part_bodies(8)]) (simp_all, rename_tac y, case_tac y, auto)
qed (simp_all only: hre_body_read_def extension_type.case,
    (rule map_exact_body [OF unknown_body], rename_tac y, case_tac y, auto)+)

lemma hello_retry_extension_element: "exact_element hello_retry_extension_ok hello_retry_extension_encode hello_retry_extension_read"
  using extension_element [where ok = hre_body_ok, OF hre_body]
  by (simp add: hello_retry_extension_ok_def hello_retry_extension_encode_def hello_retry_extension_read_def extension_ok_def [abs_def])

lemma certificate_status_codec: "exact_codec (\<lambda>c. short24 (cs_ocsp_response c)) certificate_status_encode certificate_status_read"
proof (rule exact_codecI, goal_cases)
  case (1 r)
  show ?case
    unfolding certificate_status_read_def
    by (rule rbind_returns [OF exact_returns [OF exact_parts(6)]])
      (auto intro!: rd_map_returns [OF exact_returns [OF payload_u24_codec]] split: certificate_status_type.split)
next
  case (2 c r rest)
  then obtain r1 where r1: "cst_read r = Some (Ret (CST_OCSP, r1))" "unread r1 = payload_u24_encode (cs_ocsp_response c) @ rest"
    using exact_inverse [OF exact_parts(6), of CST_OCSP r] by (auto simp: certificate_status_encode_def cst_from_def)
  obtain r2 where "payload_u24_read r1 = Some (Ret (cs_ocsp_response c, r2))" "unread r2 = rest"
    using exact_inverse [OF payload_u24_codec 2(1) r1(2)] by blast
  then show ?case using r1 by (cases c) (simp add: certificate_status_read_def rd_map_Ret)
next
  case (3 c r r')
  then obtain t r1 where t: "cst_read r = Some (Ret (t, r1))"
    "(case t of CST_OCSP \<Rightarrow> rd_map (\<lambda>p. \<lparr>cs_ocsp_response = p\<rparr>) payload_u24_read r1 | _ \<Rightarrow> Some (Err InvalidCertificateStatusType)) = Some (Ret (c, r'))"
    by (auto simp: certificate_status_read_def rbind_Ret_iff)
  then obtain p where p: "t = CST_OCSP" "c = \<lparr>cs_ocsp_response = p\<rparr>" "payload_u24_read r1 = Some (Ret (p, r'))"
    by (cases t) (auto simp: rd_map_Ret)
  then show ?case
    using exact_codec.exact [OF exact_parts(6) t(1)] exact_codec.exact [OF payload_u24_codec p(3)]
    by (simp add: certificate_status_encode_def)
qed

lemma cte_body: "exact_body (\<lambda>x. cte_body_ok x \<and> cte_get_type x = t) cte_body_encode (cte_body_read t)"
proof (cases t)
  case ET_StatusRequest
  show ?thesis
    unfolding ET_StatusRequest cte_body_read_def extension_type.case
    by (rule constructor_body [OF exact_codec.is_body [OF certificate_status_codec]]) (simp_all, rename_tac y, case_tac y, auto)
qed (simp_all only: cte_body_read_def extension_type.case,
    (rule map_exact_body [OF unknown_body], rename_tac y, case_tac y, auto)+)

lemma certificate_extension_element: "exact_element certificate_extension_ok certificate_extension_encode certificate_extension_read"
  using extension_element [where ok = cte_body_ok, OF cte_body]
  by (simp add: certificate_extension_ok_def certificate_extension_encode_def certificate_extension_read_def extension_ok_def [abs_def])

lemma cre_body: "exact_body (\<lambda>x. cre_body_ok x \<and> cre_get_type x = t) cre_body_encode (cre_body_read t)"
proof (cases t)
  case ET_SignatureAlgorithms
  show ?thesis
    unfolding ET_SignatureAlgorithms cre_body_read_def extension_type.case
    by (rule constructor_body [OF exact_codec.is_body [OF check_exact [OF exact_element.vec_exact [OF ss_element]]]])
      (simp_all, rename_tac y, case_tac y, auto)
next
  case ET_CertificateAuthorities
  show ?thesis
    unfolding ET_CertificateAuthorities cre_body_read_def extension_type.case
    by (rule constructor_body [OF exact_codec.is_body [OF exact_element.vec_exact [OF payload_u16_element]]])
      (simp_all, rename_tac y, case_tac y, auto)
qed (simp_all only: cre_body_read_def extension_type.case,
    (rule map_exact_body [OF unknown_body], rename_tac y, case_tac y, auto)+)

lemma cert_req_extension_element: "exact_element cert_req_extension_ok cert_req_extension_encode cert_req_extension_read"
  using extension_element [where ok = cre_body_ok, OF cre_body]
  by (simp add: cert_req_extension_ok_def cert_req_extension_encode_def cert_req_extension_read_def extension_ok_def [abs_def])

lemma nste_body: "exact_body (\<lambda>x. nste_body_ok x \<and> nste_get_type x = t) nste_body_encode (nste_body_read t)"
proof (cases t)
  case ET_EarlyData
  show ?thesis
    unfolding ET_EarlyData nste_body_read_def extension_type.case
    by (rule constructor_body [OF part_bodies(12)]) (simp_all, rename_tac y, case_tac y, auto)
qed (simp_all only: nste_body_read_def extension_type.case,
    (rule map_exact_body [OF unknown_body], rename_tac y, case_tac y, auto)+)

lemma nst_extension_element: "exact_element nst_extension_ok nst_extension_encode nst_extension_read"
  using extension_element [where ok = nste_body_ok, OF nste_body]
  by (simp add: nst_extension_ok_def nst_extension_encode_def nst_extension_read_def extension_ok_def [abs_def])

section \<open>Payloads\<close>

lemma payload_u24_element: "exact_element short24 payload_u24_encode payload_u24_read"
  by (rule exact_elementI [OF payload_u24_codec]) (simp add: payload_u24_encode_def encode_u24_def u32_be_def)

lemma certificate_entry_element: "exact_element certificate_entry_ok certificate_entry_encode certificate_entry_read"
proof (rule exact_elementI)
  show "exact_codec certificate_entry_ok certificate_entry_encode certificate_entry_read"
    unfolding certificate_entry_read_def
    by (rule struct_exact [OF payload_u24_codec exact_element.vec_exact [OF certificate_extension_element], where p = cert_der and q = cert_exts])
      (simp_all add: certificate_entry_ok_def certificate_entry_encode_def)
qed (simp add: certificate_entry_encode_def payload_u24_encode_def encode_u24_def u32_be_def)

lemma dss_codec: "exact_codec dss_ok dss_encode dss_read"
  unfolding dss_read_def
  by (rule struct_exact [OF exact_parts(3) payload_u16_codec, where p = dss_scheme and q = dss_sig]) (simp_all add: dss_ok_def dss_encode_def)

lemma ec_parameters_codec:
  "exact_codec (\<lambda>p. ecp_curve_type p = ECT_NamedCurve \<and> ng_ok (ecp_named_group p)) ec_parameters_encode ec_parameters_read"
proof -
  have "exact_element (\<lambda>e. ect_from (ect_get_u8 e) = e) ect_encode ect_read"
    by (rule enum_u8_codec) simp
  from check_exact [OF exact_element.is_exact [OF this]]
  have c: "exact_codec (\<lambda>e. ect_from (ect_get_u8 e) = e \<and> \<not> e \<noteq> ECT_NamedCurve) ect_encode
    (rd_check (\<lambda>ct. ct \<noteq> ECT_NamedCurve) UnsupportedCurveType ect_read)" .
  show ?thesis
    unfolding ec_parameters_read_def
    by (rule struct_exact [OF c exact_parts(2), where p = ecp_curve_type and q = ecp_named_group])
      (auto simp: ec_parameters_encode_def ect_from_def)
qed

lemma ecdhe_codec: "exact_codec ecdhe_ok ecdhe_encode ecdhe_read"
proof -
  have "exact_codec (\<lambda>p. (ecp_curve_type (sep_curve_params p) = ECT_NamedCurve \<and> ng_ok (ecp_named_group (sep_curve_params p))) \<and> short8 (sep_public p))
    server_ecdh_params_encode server_ecdh_params_read"
    unfolding server_ecdh_params_read_def
    by (rule struct_exact [OF ec_parameters_codec payload_u8_codec, where p = sep_curve_params and q = sep_public])
      (simp_all add: server_ecdh_params_encode_def)
  then show ?thesis
    unfolding ecdhe_read_def
    by (rule struct_exact [OF _ dss_codec, where p = eske_params and q = eske_dss]) (auto simp: ecdhe_ok_def ecdhe_encode_def)
qed

lemma certificate_request_codec: "exact_codec certificate_request_ok certificate_request_encode certificate_request_read"
proof -
  have cct: "exact_element cct_ok cct_encode cct_read"
    by (rule enum_u8_codec) simp
  have "exact_codec (\<lambda>p. vec_ok ListU8 cct_ok cct_encode (crp_certtypes p) \<and> vec_ok ListU16 ss_ok ss_encode (crp_sigschemes p)
      \<and> vec_ok ListU16 short16 payload_u16_encode (crp_canames p)) certificate_request_encode
    (rd_map (\<lambda>(t, (s, c)). \<lparr>crp_certtypes = t, crp_sigschemes = s, crp_canames = c\<rparr>)
         (rd_pair (read_vec ListU8 cct_read) (rd_pair (read_vec ListU16 ss_read) (read_vec ListU16 payload_u16_read))))"
    (is "exact_codec ?ok _ _")
  proof (rule image_exact [OF pair_exact [OF exact_element.vec_exact [OF cct] pair_exact [OF exact_element.vec_exact [OF ss_element]
          exact_element.vec_exact [OF payload_u16_element]]]])
    show "?ok y \<longleftrightarrow> (\<exists>x. y = (case x of (t, s, c) \<Rightarrow> \<lparr>crp_certtypes = t, crp_sigschemes = s, crp_canames = c\<rparr>)
      \<and> (case x of (x, y) \<Rightarrow> vec_ok ListU8 cct_ok cct_encode x \<and> (case y of (x, y) \<Rightarrow> vec_ok ListU16 ss_ok ss_encode x \<and> vec_ok ListU16 short16 payload_u16_encode y)))" for y
      by (cases y) auto
  qed (auto simp: certificate_request_encode_def)
  from check_exact [OF this] show ?thesis
    unfolding certificate_request_read_def certificate_request_ok_def [abs_def] by (simp add: conj_assoc)
qed

lemma certificate_request_tls13_codec: "exact_codec certificate_request_tls13_ok certificate_request_tls13_encode certificate_request_tls13_read"
  unfolding certificate_request_tls13_read_def
  by (rule struct_exact [OF payload_u8_codec exact_element.vec_exact [OF cert_req_extension_element], where p = crt_context and q = crt_extensions])
    (simp_all add: certificate_request_tls13_ok_def certificate_request_tls13_encode_def)

lemma new_session_ticket_codec: "exact_codec (\<lambda>t. short16 (nst_ticket t)) new_session_ticket_encode new_session_ticket_read"
  unfolding new_session_ticket_read_def
  by (rule struct_exact [OF exact_parts(12) payload_u16_codec, where p = nst_lifetime_hint and q = nst_ticket])
    (simp_all add: new_session_ticket_encode_def)

lemma nst13_codec: "exact_codec nst13_ok nst13_encode nst13_read"
  unfolding nst13_read_def
proof (rule image_exact [OF pair_exact [OF exact_parts(12) pair_exact [OF exact_parts(12) pair_exact [OF payload_u8_codec
          pair_exact [OF payload_u16_codec exact_element.vec_exact [OF nst_extension_element]]]]]])
  fix y
  let ?f = "\<lambda>(l, (a, (n, (t, e)))). \<lparr>nst13_lifetime = l, nst13_age_add = a, nst13_nonce = n, nst13_ticket = t, nst13_exts = e\<rparr>"
  let ?ok = "\<lambda>(x, y). True \<and> (case y of (x, y) \<Rightarrow> True \<and> (case y of (x, y) \<Rightarrow> short8 x \<and> (case y of (x, y) \<Rightarrow> short16 x
    \<and> vec_ok ListU16 nst_extension_ok nst_extension_encode y)))"
  show "nst13_ok y \<longleftrightarrow> (\<exists>x. y = ?f x \<and> ?ok x)"
    by (cases y) (auto simp: nst13_ok_def)
qed (auto simp: nst13_encode_def)

section \<open>Hellos\<close>

definition optional_encode :: "('a \<Rightarrow> bytes) \<Rightarrow> 'a list \<Rightarrow> bytes" where
  "optional_encode enc xs = (if xs \<noteq> [] then encode_list ListU16 enc xs else [])"

lemma optional_exact:
  assumes "exact_element ok enc rd" "rd_optional (read_vec ListU16 rd) r = Some (Ret (xs, r'))" "xs \<noteq> []"
  shows "vec_ok ListU16 ok enc xs" "unread r = optional_encode enc xs @ unread r'"
  using exact_codec.exact [OF exact_element.vec_exact [OF assms(1)], of ListU16 r xs r'] assms(2,3)
  by (auto simp: rd_optional_def optional_encode_def split: if_splits)

lemma optional_body:
  assumes "exact_element ok enc rd"
  shows "body_codec (vec_ok ListU16 ok enc) (optional_encode enc) (rd_optional (read_vec ListU16 rd))"
proof -
  note vec = exact_element.vec_exact [OF assms, of ListU16, simplified]
  have nil: "vec_ok ListU16 ok enc []"
    by (simp add: vec_ok_def len_fits_def)
  show ?thesis
  proof (unfold_locales, goal_cases)
    case (1 r)
    show ?case using exact_returns [OF vec] by (simp add: rd_optional_def)
  next
    case (2 r xs r')
    show ?case
    proof (cases "xs = []")
      case True
      then show ?thesis using nil by (simp add: optional_encode_def)
    next
      case False
      then show ?thesis using optional_exact [OF assms 2(1)] by simp
    qed
  next
    case (3 xs r)
    show ?case
    proof (cases "xs = []")
      case True
      then show ?thesis using 3(2) by (simp add: rd_optional_def optional_encode_def any_left_unread)
    next
      case False
      then have u: "unread r = encode_list ListU16 enc xs @ []" using 3(2) by (simp add: optional_encode_def)
      then have "reader_any_left r"
        by (simp add: any_left_unread encode_list_def length_prefixed_def len_bytes_def u16_be_def)
      then show ?thesis using exact_inverse [OF vec 3(1) u] by (simp add: rd_optional_def)
    qed
  qed
qed

abbreviation hello_fields :: "((((rl_version \<times> bytes) \<times> session_id) \<times> cipher_suite list) \<times> compression list) rd" where
  "hello_fields \<equiv> rd_pair (rd_pair (rd_pair (rd_pair vers_read random_read) session_id_read) (read_vec ListU16 suite_read)) (read_vec ListU8 cm_read)"

definition hello_fields_ok :: "(((rl_version \<times> bytes) \<times> session_id) \<times> cipher_suite list) \<times> compression list \<Rightarrow> bool" where
  "hello_fields_ok = (\<lambda>((((v, rnd), sid), cs), cm). vers_ok v \<and> length rnd = 32 \<and> session_id_ok sid
     \<and> vec_ok ListU16 (\<lambda>_. True) u16_be cs \<and> vec_ok ListU8 cm_ok cm_encode cm)"

definition hello_fields_encode :: "(((rl_version \<times> bytes) \<times> session_id) \<times> cipher_suite list) \<times> compression list \<Rightarrow> bytes" where
  "hello_fields_encode = (\<lambda>((((v, rnd), sid), cs), cm). vers_encode v @ rnd @ session_id_encode sid
     @ encode_list ListU16 u16_be cs @ encode_list ListU8 cm_encode cm)"

lemma hello_fields_codec: "exact_codec hello_fields_ok hello_fields_encode hello_fields"
proof -
  have "exact_codec (\<lambda>(x, y). (case x of (x, y) \<Rightarrow> (case x of (x, y) \<Rightarrow> (case x of (x, y) \<Rightarrow> vers_ok x \<and> length y = 32) \<and> session_id_ok y)
      \<and> vec_ok ListU16 (\<lambda>_. True) u16_be y) \<and> vec_ok ListU8 cm_ok cm_encode y)
    (\<lambda>(x, y). (case x of (x, y) \<Rightarrow> (case x of (x, y) \<Rightarrow> (case x of (x, y) \<Rightarrow> vers_encode x @ y) @ session_id_encode y)
      @ encode_list ListU16 u16_be y) @ encode_list ListU8 cm_encode y) hello_fields"
    by (intro pair_exact exact_parts(8) random_codec session_id_codec exact_element.vec_exact [OF suite_element] exact_element.vec_exact [OF cm_element]) auto
  moreover have "hello_fields_ok = (\<lambda>(x, y). (case x of (x, y) \<Rightarrow> (case x of (x, y) \<Rightarrow> (case x of (x, y) \<Rightarrow> vers_ok x \<and> length y = 32) \<and> session_id_ok y)
      \<and> vec_ok ListU16 (\<lambda>_. True) u16_be y) \<and> vec_ok ListU8 cm_ok cm_encode y)"
    by (auto simp: hello_fields_ok_def)
  moreover have "hello_fields_encode = (\<lambda>(x, y). (case x of (x, y) \<Rightarrow> (case x of (x, y) \<Rightarrow> (case x of (x, y) \<Rightarrow> vers_encode x @ y) @ session_id_encode y)
      @ encode_list ListU16 u16_be y) @ encode_list ListU8 cm_encode y)"
    by (auto simp: hello_fields_encode_def)
  ultimately show ?thesis by simp
qed

definition hello_of :: "((((rl_version \<times> bytes) \<times> session_id) \<times> cipher_suite list) \<times> compression list) \<times> client_extension list \<Rightarrow> client_hello_payload" where
  "hello_of = (\<lambda>(((((v, rnd), sid), cs), cm), exts).
     \<lparr>ch_client_version = v, ch_random = rnd, ch_session_id = sid, ch_cipher_suites = cs, ch_compression_methods = cm, ch_extensions = exts\<rparr>)"

lemma hello_of_ok:
  "client_hello_ok dns c \<longleftrightarrow> (\<exists>f xs. c = hello_of (f, xs) \<and> hello_fields_ok f \<and> vec_ok ListU16 (client_extension_ok dns) client_extension_encode xs \<and> xs \<noteq> [])"
  by (cases c) (auto simp: client_hello_ok_def hello_of_def hello_fields_ok_def)

lemma hello_of_encode: "client_hello_encode (hello_of (f, xs)) = hello_fields_encode f @ optional_encode client_extension_encode xs"
  by (cases f) (auto simp: client_hello_encode_def hello_of_def hello_fields_encode_def optional_encode_def)

lemma client_hello_read_alt:
  "client_hello_read dns = rd_check (\<lambda>ret. ch_extensions ret = []) (MissingData (lit ''ClientHelloPayload''))
     (rd_end ''ClientHelloPayload'' (rd_map hello_of (rd_pair hello_fields (rd_optional (read_vec ListU16 (client_extension_read dns))))))"
  by (simp add: client_hello_read_def hello_of_def)

lemma client_hello_exact_body: "exact_body (client_hello_ok dns) client_hello_encode (client_hello_read dns)"
proof -
  let ?ok = "\<lambda>c. \<exists>f xs. c = hello_of (f, xs) \<and> hello_fields_ok f \<and> vec_ok ListU16 (client_extension_ok dns) client_extension_encode xs"
  have "body_codec ?ok client_hello_encode (rd_map hello_of (rd_pair hello_fields (rd_optional (read_vec ListU16 (client_extension_read dns)))))"
    by (rule map_body [OF pair_body [OF exact_codec.is_codec [OF hello_fields_codec] optional_body [OF client_extension_element]]])
      (auto simp: hello_of_encode)
  from check_body [OF end_body [OF this]]
  have "body_codec (\<lambda>c. ?ok c \<and> ch_extensions c \<noteq> []) client_hello_encode (client_hello_read dns)"
    unfolding client_hello_read_alt .
  moreover have "(\<lambda>c. ?ok c \<and> ch_extensions c \<noteq> []) = client_hello_ok dns"
    by (rule ext) (auto simp: hello_of_ok hello_of_def)
  ultimately have b: "body_codec (client_hello_ok dns) client_hello_encode (client_hello_read dns)"
    by simp
  show ?thesis
  proof (intro exact_body.intro [OF b] exact_body_axioms.intro)
    fix r c r'
    assume *: "client_hello_read dns r = Some (Ret (c, r'))" "unread r' = []"
    then obtain f xs r1 where f: "c = hello_of (f, xs)" "hello_fields r = Some (Ret (f, r1))"
      "rd_optional (read_vec ListU16 (client_extension_read dns)) r1 = Some (Ret (xs, r'))" "xs \<noteq> []"
      by (auto simp: client_hello_read_alt rd_check_def rbind_Ret_iff rd_end_Ret rd_map_Ret rd_pair_def hello_of_def split: if_splits)
    have "unread r = hello_fields_encode f @ unread r1"
      using exact_codec.exact [OF hello_fields_codec f(2)] by simp
    then show "client_hello_ok dns c \<and> unread r = client_hello_encode c"
      using optional_exact [OF client_extension_element f(3,4)] body_codec.body_sound [OF b *] f(1) *(2) by (simp add: hello_of_encode)
  qed
qed

section \<open>Server hello and hello retry request\<close>

text \<open>Fields that decide how the rest is read.\<close>

lemma prefix_body:
  assumes a: "tls_codec ok1 enc1 rd1" and b: "\<And>x. ok1 x \<Longrightarrow> body_codec (\<lambda>y. ok y \<and> p y = x) enc (rd x)"
    and ok: "\<And>y. ok y \<Longrightarrow> ok1 (p y)"
  shows "body_codec ok (\<lambda>y. enc1 (p y) @ enc y) (\<lambda>r. rbind (rd1 r) (\<lambda>(x, r). rd x r))"
proof (unfold_locales, goal_cases)
  case (1 r)
  show ?case
  proof (rule rbind_returns [OF tls_codec.returns [OF a]])
    fix q
    assume q: "rd1 r = Some (Ret q)"
    obtain x r1 where "q = (x, r1)" by (cases q)
    then show "\<exists>res. (case q of (x, r) \<Rightarrow> rd x r) = Some res \<and> res \<noteq> Panic"
      using body_codec.body_returns [OF b] tls_codec.sound [OF a, of r x r1] q by simp
  qed
next
  case (2 r y r')
  then obtain x r1 where x: "rd1 r = Some (Ret (x, r1))" "rd x r1 = Some (Ret (y, r'))"
    by (auto simp: rbind_Ret_iff)
  obtain bs where s: "ok1 x" "unread r = bs @ unread r1" "length (enc1 x) \<le> length bs"
    using tls_codec.sound [OF a x(1)] by blast
  then show ?case
    using body_codec.body_sound [OF b [OF s(1)] x(2) 2(2)] by simp
next
  case (3 y r)
  obtain r1 where r1: "rd1 r = Some (Ret (p y, r1))" "unread r1 = enc y"
    using tls_codec.inverse [OF a ok [OF 3(1)] 3(2)] by blast
  then show ?case
    using body_codec.body_inverse [OF b [OF ok [OF 3(1)]] _ r1(2)] 3(1) by auto
qed

text \<open>An encoder matters on well-formed values only.\<close>

lemma exact_codec_cong:
  assumes "exact_codec ok enc rd" "\<And>x. ok x \<Longrightarrow> enc x = enc' x"
  shows "exact_codec ok enc' rd"
proof (rule exact_codecI, goal_cases)
  case (2 x r rest)
  then show ?case using exact_inverse [OF assms(1)] assms(2) by simp
next
  case (3 x r r')
  then show ?case using exact_codec.exact [OF assms(1)] assms(2) by fastforce
qed (rule exact_returns [OF assms(1)])

lemma body_codec_cong:
  assumes "body_codec ok enc rd" "\<And>x. ok x \<Longrightarrow> enc x = enc' x"
  shows "body_codec ok enc' rd"
proof (unfold_locales, goal_cases)
  case (2 r x r')
  then show ?case using body_codec.body_sound [OF assms(1) 2] assms(2) [of x] by simp
next
  case (3 x r)
  then show ?case using body_codec.body_inverse [OF assms(1)] assms(2) [of x] by auto
qed (rule body_codec.body_returns [OF assms(1)])

definition hrr_rest_encode :: "hello_retry_request \<Rightarrow> bytes" where
  "hrr_rest_encode h = session_id_encode (hrr_session_id h) @ u16_be (hrr_cipher_suite h) @ cm_encode CM_Null
     @ encode_list ListU16 hello_retry_extension_encode (hrr_extensions h)"

lemma hrr_rest_codec:
  "exact_codec (\<lambda>h. hrr_legacy_version h = PV_Unknown 0 \<and> session_id_ok (hrr_session_id h)
      \<and> vec_ok ListU16 hello_retry_extension_ok hello_retry_extension_encode (hrr_extensions h)) hrr_rest_encode hello_retry_request_read"
proof -
  have null: "cm_ok c \<and> \<not> c \<noteq> CM_Null \<longleftrightarrow> c = CM_Null" for c
    by (auto simp: cm_from_def)
  note chk = check_exact [OF exact_parts(7), of "\<lambda>c. c \<noteq> CM_Null" UnsupportedCompression, unfolded null]
  have c: "exact_codec (\<lambda>c. c = CM_Null) (\<lambda>_. cm_encode CM_Null) (rd_check (\<lambda>c. c \<noteq> CM_Null) UnsupportedCompression cm_read)"
    by (rule exact_codec_cong [OF chk]) simp
  show ?thesis
    unfolding hello_retry_request_read_def
  proof (rule image_exact [OF pair_exact [OF session_id_codec pair_exact [OF exact_parts(9) pair_exact [OF c
            exact_element.vec_exact [OF hello_retry_extension_element]]]]])
    fix h :: hello_retry_request
    let ?f = "\<lambda>(sid, (suite, (compression, exts))).
         \<lparr>hrr_legacy_version = PV_Unknown 0, hrr_session_id = sid, hrr_cipher_suite = suite, hrr_extensions = exts\<rparr>"
    let ?ok = "\<lambda>(x, y). session_id_ok x \<and> (case y of (x, y) \<Rightarrow> True \<and> (case y of (x, y) \<Rightarrow> x = CM_Null
      \<and> vec_ok ListU16 hello_retry_extension_ok hello_retry_extension_encode y))"
    show "hrr_legacy_version h = PV_Unknown 0 \<and> session_id_ok (hrr_session_id h)
      \<and> vec_ok ListU16 hello_retry_extension_ok hello_retry_extension_encode (hrr_extensions h) \<longleftrightarrow> (\<exists>x. h = ?f x \<and> ?ok x)"
      by (cases h) auto
  qed (auto simp: hrr_rest_encode_def)
qed

definition shp_rest_encode :: "server_hello_payload \<Rightarrow> bytes" where
  "shp_rest_encode s = session_id_encode (shp_session_id s) @ u16_be (shp_cipher_suite s) @ cm_encode (shp_compression_method s)
     @ optional_encode server_extension_encode (shp_extensions s)"

lemma shp_rest_body:
  "body_codec (\<lambda>s. shp_legacy_version s = PV_Unknown 0 \<and> shp_random s = ZERO_RANDOM \<and> session_id_ok (shp_session_id s)
      \<and> cm_ok (shp_compression_method s) \<and> vec_ok ListU16 server_extension_ok server_extension_encode (shp_extensions s))
    shp_rest_encode server_hello_read"
  unfolding server_hello_read_def
proof (rule end_body, rule map_body [OF pair_body [OF exact_codec.is_codec [OF pair_exact [OF pair_exact [OF session_id_codec exact_parts(9)] exact_parts(7)]]
        optional_body [OF server_extension_element]]])
  fix s :: server_hello_payload
  let ?f = "\<lambda>(((sid, suite), compression), exts).
           \<lparr>shp_legacy_version = PV_Unknown 0, shp_random = ZERO_RANDOM, shp_session_id = sid, shp_cipher_suite = suite,
            shp_compression_method = compression, shp_extensions = exts\<rparr>"
  let ?ok = "\<lambda>(x, y). (case x of (x, y) \<Rightarrow> (case x of (x, y) \<Rightarrow> session_id_ok x \<and> True) \<and> cm_ok y)
    \<and> vec_ok ListU16 server_extension_ok server_extension_encode y"
  show "shp_legacy_version s = PV_Unknown 0 \<and> shp_random s = ZERO_RANDOM \<and> session_id_ok (shp_session_id s)
      \<and> cm_ok (shp_compression_method s) \<and> vec_ok ListU16 server_extension_ok server_extension_encode (shp_extensions s) \<longleftrightarrow> (\<exists>x. s = ?f x \<and> ?ok x)"
    by (cases s) auto
qed (auto simp: shp_rest_encode_def)

text \<open>The version and the random that come first, and what decides between the two messages.\<close>

definition hello_head :: "handshake_message_payload \<Rightarrow> rl_version \<times> bytes" where
  "hello_head m =
     (case hmp_payload m of
        HP_ServerHello s \<Rightarrow> (shp_legacy_version s, shp_random s)
      | HP_HelloRetryRequest h \<Rightarrow> (hrr_legacy_version h, HELLO_RETRY_REQUEST_RANDOM)
      | _ \<Rightarrow> (PV_Unknown 0, []))"

definition hello_rest :: "handshake_message_payload \<Rightarrow> bytes" where
  "hello_rest m = (case hmp_payload m of HP_ServerHello s \<Rightarrow> shp_rest_encode s | HP_HelloRetryRequest h \<Rightarrow> hrr_rest_encode h | _ \<Rightarrow> [])"

abbreviation server_hello_wf :: "handshake_message_payload \<Rightarrow> bool" where
  "server_hello_wf m \<equiv> (\<exists>s. m = \<lparr>hmp_typ = HT_ServerHello, hmp_payload = HP_ServerHello s\<rparr> \<and> server_hello_ok s)
     \<or> (\<exists>h. m = \<lparr>hmp_typ = HT_HelloRetryRequest, hmp_payload = HP_HelloRetryRequest h\<rparr> \<and> hello_retry_request_ok h)"

lemma hello_retry_branch:
  assumes "vers_ok v"
  shows "body_codec (\<lambda>m. server_hello_wf m \<and> hello_head m = (v, HELLO_RETRY_REQUEST_RANDOM)) hello_rest
    (rd_map (\<lambda>hrr. \<lparr>hmp_typ = HT_HelloRetryRequest, hmp_payload = HP_HelloRetryRequest (hrr \<lparr>hrr_legacy_version := v\<rparr>)\<rparr>) hello_retry_request_read)"
proof (rule map_body [OF exact_body.axioms(1) [OF exact_codec.is_body [OF hrr_rest_codec]]])
  fix m :: handshake_message_payload
  let ?f = "\<lambda>hrr. \<lparr>hmp_typ = HT_HelloRetryRequest, hmp_payload = HP_HelloRetryRequest (hrr \<lparr>hrr_legacy_version := v\<rparr>)\<rparr>"
  let ?ok = "\<lambda>h. hrr_legacy_version h = PV_Unknown 0 \<and> session_id_ok (hrr_session_id h)
      \<and> vec_ok ListU16 hello_retry_extension_ok hello_retry_extension_encode (hrr_extensions h)"
  show "server_hello_wf m \<and> hello_head m = (v, HELLO_RETRY_REQUEST_RANDOM) \<longleftrightarrow> (\<exists>x. m = ?f x \<and> ?ok x)"
  proof
    assume a: "server_hello_wf m \<and> hello_head m = (v, HELLO_RETRY_REQUEST_RANDOM)"
    then obtain h where h: "m = \<lparr>hmp_typ = HT_HelloRetryRequest, hmp_payload = HP_HelloRetryRequest h\<rparr>" "hello_retry_request_ok h" "hrr_legacy_version h = v"
      by (auto simp: hello_head_def server_hello_ok_def)
    then show "\<exists>x. m = ?f x \<and> ?ok x"
      by (intro exI [of _ "h \<lparr>hrr_legacy_version := PV_Unknown 0\<rparr>"]) (simp add: hello_retry_request_ok_def)
  qed (use assms in \<open>auto simp: hello_head_def hello_retry_request_ok_def\<close>)
qed (simp add: hello_rest_def hrr_rest_encode_def)

lemma server_hello_branch:
  assumes "vers_ok v" "length rnd = 32" "rnd \<noteq> HELLO_RETRY_REQUEST_RANDOM"
  shows "body_codec (\<lambda>m. server_hello_wf m \<and> hello_head m = (v, rnd)) hello_rest
    (rd_map (\<lambda>shp. \<lparr>hmp_typ = HT_ServerHello, hmp_payload = HP_ServerHello (shp \<lparr>shp_legacy_version := v, shp_random := rnd\<rparr>)\<rparr>) server_hello_read)"
proof (rule map_body [OF shp_rest_body])
  fix m :: handshake_message_payload
  let ?f = "\<lambda>shp. \<lparr>hmp_typ = HT_ServerHello, hmp_payload = HP_ServerHello (shp \<lparr>shp_legacy_version := v, shp_random := rnd\<rparr>)\<rparr>"
  let ?ok = "\<lambda>s. shp_legacy_version s = PV_Unknown 0 \<and> shp_random s = ZERO_RANDOM \<and> session_id_ok (shp_session_id s)
      \<and> cm_ok (shp_compression_method s) \<and> vec_ok ListU16 server_extension_ok server_extension_encode (shp_extensions s)"
  show "server_hello_wf m \<and> hello_head m = (v, rnd) \<longleftrightarrow> (\<exists>x. m = ?f x \<and> ?ok x)"
  proof
    assume a: "server_hello_wf m \<and> hello_head m = (v, rnd)"
    then obtain s where s: "m = \<lparr>hmp_typ = HT_ServerHello, hmp_payload = HP_ServerHello s\<rparr>" "server_hello_ok s" "shp_legacy_version s = v" "shp_random s = rnd"
      using assms(3) by (auto simp: hello_head_def)
    then show "\<exists>x. m = ?f x \<and> ?ok x"
      by (intro exI [of _ "s \<lparr>shp_legacy_version := PV_Unknown 0, shp_random := ZERO_RANDOM\<rparr>"]) (simp add: server_hello_ok_def)
  qed (use assms in \<open>auto simp: hello_head_def server_hello_ok_def\<close>)
qed (simp add: hello_rest_def shp_rest_encode_def)

lemma server_hello_body_alt:
  "server_hello_body = (\<lambda>r. rbind (rd_pair vers_read random_read r) (\<lambda>(x, r).
     (if snd x = HELLO_RETRY_REQUEST_RANDOM then
       rd_map (\<lambda>hrr. \<lparr>hmp_typ = HT_HelloRetryRequest, hmp_payload = HP_HelloRetryRequest (hrr \<lparr>hrr_legacy_version := fst x\<rparr>)\<rparr>) hello_retry_request_read
     else
       rd_map (\<lambda>shp. \<lparr>hmp_typ = HT_ServerHello, hmp_payload = HP_ServerHello (shp \<lparr>shp_legacy_version := fst x, shp_random := snd x\<rparr>)\<rparr>) server_hello_read) r))"
  by (rule ext) (simp add: server_hello_body_def rd_pair_def rbind_def split: option.split outcome.split prod.split)

lemma server_hello_body_codec: "body_codec server_hello_wf (\<lambda>m. hp_encode (hmp_payload m)) server_hello_body"
proof -
  let ?rd = "\<lambda>x. if snd x = HELLO_RETRY_REQUEST_RANDOM then
       rd_map (\<lambda>hrr. \<lparr>hmp_typ = HT_HelloRetryRequest, hmp_payload = HP_HelloRetryRequest (hrr \<lparr>hrr_legacy_version := fst x\<rparr>)\<rparr>) hello_retry_request_read
     else
       rd_map (\<lambda>shp. \<lparr>hmp_typ = HT_ServerHello, hmp_payload = HP_ServerHello (shp \<lparr>shp_legacy_version := fst x, shp_random := snd x\<rparr>)\<rparr>) server_hello_read"
  have b: "body_codec (\<lambda>m. server_hello_wf m \<and> hello_head m = x) hello_rest (?rd x)" if "case x of (v, rnd) \<Rightarrow> vers_ok v \<and> length rnd = 32" for x
    using that hello_retry_branch [of "fst x"] server_hello_branch [of "fst x" "snd x"] by (cases x) auto
  have "body_codec server_hello_wf (\<lambda>m. (case hello_head m of (v, rnd) \<Rightarrow> vers_encode v @ rnd) @ hello_rest m) server_hello_body"
    unfolding server_hello_body_alt
  proof (rule prefix_body [OF exact_codec.is_codec [OF pair_exact [OF exact_parts(8) random_codec]] b])
    show "server_hello_wf m \<Longrightarrow> case hello_head m of (v, rnd) \<Rightarrow> vers_ok v \<and> length rnd = 32" for m
      by (auto simp: hello_head_def server_hello_ok_def hello_retry_request_ok_def HELLO_RETRY_REQUEST_RANDOM_def)
  qed
  then show ?thesis
  proof (rule body_codec_cong)
    show "server_hello_wf m \<Longrightarrow> (case hello_head m of (v, rnd) \<Rightarrow> vers_encode v @ rnd) @ hello_rest m = hp_encode (hmp_payload m)" for m
      by (auto simp: hello_head_def hello_rest_def shp_encode_def hello_retry_request_encode_def
          shp_rest_encode_def hrr_rest_encode_def optional_encode_def)
  qed
qed

section \<open>Messages\<close>

text \<open>A type of message other than the two hellos of a server.\<close>

lemma typed_body:
  assumes "body_codec ok enc rd" "t \<notin> {HT_ServerHello, HT_HelloRetryRequest}"
    and "\<And>x. payload_ok dns vers t (C x) \<longleftrightarrow> ok x" "\<And>x. hp_encode (C x) = enc x" "\<And>p. payload_ok dns vers t p \<Longrightarrow> \<exists>x. p = C x"
  shows "body_codec (\<lambda>m. payload_ok dns vers (hmp_typ m) (hmp_payload m) \<and> wire_type (hmp_typ m) = t) (\<lambda>m. hp_encode (hmp_payload m))
    (rd_map (\<lambda>x. \<lparr>hmp_typ = t, hmp_payload = C x\<rparr>) rd)"
proof (rule map_body [OF assms(1)])
  fix m :: handshake_message_payload
  have w: "wire_type u = t \<longleftrightarrow> u = t" for u
    using assms(2) by (auto simp: wire_type_def split: rl_handshake_type.splits)
  show "payload_ok dns vers (hmp_typ m) (hmp_payload m) \<and> wire_type (hmp_typ m) = t \<longleftrightarrow> (\<exists>x. m = \<lparr>hmp_typ = t, hmp_payload = C x\<rparr> \<and> ok x)"
    using assms(3) assms(5) [of "hmp_payload m"] by (cases m) (auto simp: w)
qed (simp add: assms(4))

lemma typed_done:
  assumes "t \<notin> {HT_ServerHello, HT_HelloRetryRequest}" "payload_ok dns vers t p" "hp_encode p = []" "\<And>q. payload_ok dns vers t q \<Longrightarrow> q = p"
  shows "exact_body (\<lambda>m. payload_ok dns vers (hmp_typ m) (hmp_payload m) \<and> wire_type (hmp_typ m) = t) (\<lambda>m. hp_encode (hmp_payload m))
    (rd_done \<lparr>hmp_typ = t, hmp_payload = p\<rparr>)"
proof (rule done_body)
  have w: "wire_type u = t \<longleftrightarrow> u = t" for u
    using assms(1) by (auto simp: wire_type_def split: rl_handshake_type.splits)
  show "payload_ok dns vers (hmp_typ m) (hmp_payload m) \<and> wire_type (hmp_typ m) = t \<longleftrightarrow> m = \<lparr>hmp_typ = t, hmp_payload = p\<rparr>" for m :: handshake_message_payload
    using assms(2) assms(4) [of "hmp_payload m"] unfolding w by (cases m) auto
qed (simp add: assms(3))

lemma hello_request_body:
  "body_codec (\<lambda>m. payload_ok dns vers (hmp_typ m) (hmp_payload m) \<and> wire_type (hmp_typ m) = HT_HelloRequest) (\<lambda>m. hp_encode (hmp_payload m))
    (handshake_body dns vers HT_HelloRequest)"
proof -
  let ?mk = "\<lambda>p. \<lparr>hmp_typ = HT_HelloRequest, hmp_payload = p\<rparr>"
  have "exact_body (\<lambda>m. payload_ok dns vers (hmp_typ m) (hmp_payload m) \<and> wire_type (hmp_typ m) = HT_HelloRequest) (\<lambda>m. hp_encode (hmp_payload m))
    (\<lambda>sub. if reader_any_left sub then rd_map (\<lambda>x. ?mk (HP_Unknown x)) payload_read sub else rd_done (?mk HP_HelloRequest) sub)"
  proof (rule if_left_body)
    show "exact_body (\<lambda>m. \<exists>x. m = ?mk (HP_Unknown x)) (\<lambda>m. hp_encode (hmp_payload m)) (rd_map (\<lambda>x. ?mk (HP_Unknown x)) payload_read)"
      by (rule map_exact_body [OF payload_body]) auto
    show "exact_body (\<lambda>m. m = ?mk HP_HelloRequest) (\<lambda>m. hp_encode (hmp_payload m)) (rd_done (?mk HP_HelloRequest))"
      by (rule done_body) auto
    have w: "wire_type u = HT_HelloRequest \<longleftrightarrow> u = HT_HelloRequest" for u
      by (auto simp: wire_type_def split: rl_handshake_type.splits)
    show "payload_ok dns vers (hmp_typ m) (hmp_payload m) \<and> wire_type (hmp_typ m) = HT_HelloRequest \<longleftrightarrow>
      (\<exists>x. m = ?mk (HP_Unknown x)) \<and> hp_encode (hmp_payload m) \<noteq> [] \<or> m = ?mk HP_HelloRequest \<and> hp_encode (hmp_payload m) = []"
      for m :: handshake_message_payload
      unfolding w by (cases m; cases "hmp_payload m") auto
  qed
  from exact_body.axioms(1) [OF this] show ?thesis
    by (simp add: handshake_body_def Let_def)
qed

lemma server_hello_type:
  "server_hello_wf m \<longleftrightarrow> payload_ok dns vers (hmp_typ m) (hmp_payload m) \<and> wire_type (hmp_typ m) = HT_ServerHello"
proof -
  have w: "wire_type u = HT_ServerHello \<longleftrightarrow> u = HT_ServerHello \<or> u = HT_HelloRetryRequest" for u
    by (auto simp: wire_type_def split: rl_handshake_type.splits)
  show ?thesis
    unfolding w by (cases m; cases "hmp_payload m") auto
qed

context tls_codec
begin

lemma is_body_codec: "body_codec ok enc rd"
  by unfold_locales

end

lemmas exact_body_codec = exact_codec.is_codec [THEN tls_codec.is_body_codec]

lemma certificate_chain_codec: "tls_codec (vec_ok certificate_list short24 payload_u24_encode) certificate_chain_encode certificate_chain_read"
  unfolding certificate_chain_encode_def certificate_chain_read_def by (rule exact_element.vec [OF payload_u24_element])

lemma certificate_tls13_body: "body_codec certificate_tls13_ok certificate_tls13_encode certificate_tls13_read"
  unfolding certificate_tls13_read_def
proof (rule map_body [OF tls_codec.is_body_codec [OF pair_codec [OF exact_codec.is_codec [OF payload_u8_codec] exact_element.vec [OF certificate_entry_element]]]])
  fix p :: certificate_payload_tls13
  show "certificate_tls13_ok p \<longleftrightarrow> (\<exists>x. p = (case x of (c, e) \<Rightarrow> \<lparr>cp_context = c, cp_entries = e\<rparr>)
    \<and> (case x of (x, y) \<Rightarrow> short8 x \<and> vec_ok certificate_list certificate_entry_ok certificate_entry_encode y))"
    by (cases p) (auto simp: certificate_tls13_ok_def)
qed (auto simp: certificate_tls13_encode_def)

lemma kur_codec: "exact_codec kur_ok kur_encode kur_read"
  by (rule exact_element.is_exact [OF enum_u8_codec]) simp

lemma ske_body: "body_codec (\<lambda>x. case x of SKE_Unknown _ \<Rightarrow> True | _ \<Rightarrow> False) ske_encode ske_read"
  unfolding ske_read_def
  by (rule map_body [OF exact_body.axioms(1) [OF payload_body]]) (auto split: server_key_exchange_payload.splits)

lemma version_choice:
  "(vers = PV_TLSv1_3 \<Longrightarrow> body_codec ok enc rd1) \<Longrightarrow> (vers \<noteq> PV_TLSv1_3 \<Longrightarrow> body_codec ok enc rd2) \<Longrightarrow>
    body_codec ok enc (if vers = PV_TLSv1_3 then rd1 else rd2)"
  by simp

lemma message_body:
  "body_codec (\<lambda>m. payload_ok dns vers (hmp_typ m) (hmp_payload m) \<and> wire_type (hmp_typ m) = t) (\<lambda>m. hp_encode (hmp_payload m))
    (handshake_body dns vers t)"
proof (cases t)
  case HT_HelloRequest
  show ?thesis unfolding HT_HelloRequest by (rule hello_request_body)
next
  case HT_ServerHello
  show ?thesis
    using server_hello_body_codec by (simp add: HT_ServerHello handshake_body_def server_hello_type [where dns = dns and vers = vers])
next
  case HT_ClientHello
  show ?thesis
    unfolding HT_ClientHello handshake_body_def rl_handshake_type.case Let_def
    by (rule typed_body [OF exact_body.axioms(1) [OF client_hello_exact_body]]) (simp_all, rename_tac p, case_tac p, simp_all)
next
  case HT_Certificate
  show ?thesis
    unfolding HT_Certificate handshake_body_def rl_handshake_type.case Let_def
    by (rule version_choice, rule typed_body [OF certificate_tls13_body])
      (simp_all, rename_tac p, case_tac p, simp_all, rule typed_body [OF tls_codec.is_body_codec [OF certificate_chain_codec]], simp_all, rename_tac p, case_tac p, simp_all)
next
  case HT_CertificateRequest
  show ?thesis
    unfolding HT_CertificateRequest handshake_body_def rl_handshake_type.case Let_def
    by (rule version_choice, rule typed_body [OF exact_body_codec [OF certificate_request_tls13_codec]])
      (simp_all, rename_tac p, case_tac p, simp_all, rule typed_body [OF exact_body_codec [OF certificate_request_codec]], simp_all, rename_tac p, case_tac p, simp_all)
next
  case HT_NewSessionTicket
  show ?thesis
    unfolding HT_NewSessionTicket handshake_body_def rl_handshake_type.case Let_def
    by (rule version_choice, rule typed_body [OF exact_body_codec [OF nst13_codec]])
      (simp_all, rename_tac p, case_tac p, simp_all, rule typed_body [OF exact_body_codec [OF new_session_ticket_codec]], simp_all, rename_tac p, case_tac p, simp_all)
next
  case HT_ServerKeyExchange
  show ?thesis
    unfolding HT_ServerKeyExchange handshake_body_def rl_handshake_type.case Let_def
    by (rule typed_body [OF ske_body]) (simp_all, rename_tac p, case_tac p, simp_all)
next
  case HT_ClientKeyExchange
  show ?thesis
    unfolding HT_ClientKeyExchange handshake_body_def rl_handshake_type.case Let_def
    by (rule typed_body [OF exact_body.axioms(1) [OF payload_body]]) (simp_all, rename_tac p, case_tac p, simp_all)
next
  case HT_Finished
  show ?thesis
    unfolding HT_Finished handshake_body_def rl_handshake_type.case Let_def
    by (rule typed_body [OF exact_body.axioms(1) [OF payload_body]]) (simp_all, rename_tac p, case_tac p, simp_all)
next
  case HT_HelloVerifyRequest
  show ?thesis
    unfolding HT_HelloVerifyRequest handshake_body_def rl_handshake_type.case Let_def
    by (rule typed_body [OF exact_body.axioms(1) [OF payload_body]]) (simp_all, rename_tac p, case_tac p, simp_all)
next
  case HT_CertificateURL
  show ?thesis
    unfolding HT_CertificateURL handshake_body_def rl_handshake_type.case Let_def
    by (rule typed_body [OF exact_body.axioms(1) [OF payload_body]]) (simp_all, rename_tac p, case_tac p, simp_all)
next
  case HT_CertificateVerify
  show ?thesis
    unfolding HT_CertificateVerify handshake_body_def rl_handshake_type.case Let_def
    by (rule typed_body [OF exact_body_codec [OF dss_codec]]) (simp_all, rename_tac p, case_tac p, simp_all)
next
  case HT_EncryptedExtensions
  show ?thesis
    unfolding HT_EncryptedExtensions handshake_body_def rl_handshake_type.case Let_def
    by (rule typed_body [OF exact_body_codec [OF exact_element.vec_exact [OF server_extension_element]]]) (simp_all, rename_tac p, case_tac p, simp_all)
next
  case HT_KeyUpdate
  show ?thesis
    unfolding HT_KeyUpdate handshake_body_def rl_handshake_type.case Let_def
    by (rule typed_body [OF exact_body_codec [OF kur_codec]]) (simp_all, rename_tac p, case_tac p, simp_all)
next
  case HT_CertificateStatus
  show ?thesis
    unfolding HT_CertificateStatus handshake_body_def rl_handshake_type.case Let_def
    by (rule typed_body [OF exact_body_codec [OF certificate_status_codec]]) (simp_all, rename_tac p, case_tac p, simp_all)
next
  case HT_ServerHelloDone
  show ?thesis
    unfolding HT_ServerHelloDone handshake_body_def rl_handshake_type.case Let_def
    by (rule end_body [OF exact_body.axioms(1) [OF typed_done]]) (simp_all, rename_tac p, case_tac p, simp_all)
next
  case HT_EndOfEarlyData
  show ?thesis
    unfolding HT_EndOfEarlyData handshake_body_def rl_handshake_type.case Let_def
    by (rule end_body [OF exact_body.axioms(1) [OF typed_done]]) (simp_all, rename_tac p, case_tac p, simp_all)
next
  case HT_MessageHash
  have "\<not> (payload_ok dns vers (hmp_typ m) (hmp_payload m) \<and> wire_type (hmp_typ m) = HT_MessageHash)" for m :: handshake_message_payload
    by (cases "hmp_payload m") (auto simp: wire_type_def split: rl_handshake_type.splits)
  then show ?thesis
    unfolding HT_MessageHash handshake_body_def rl_handshake_type.case Let_def
    by (rule exact_body.axioms(1) [OF error_body])
next
  case HT_HelloRetryRequest
  have "\<not> (payload_ok dns vers (hmp_typ m) (hmp_payload m) \<and> wire_type (hmp_typ m) = HT_HelloRetryRequest)" for m :: handshake_message_payload
    by (cases "hmp_payload m") (auto simp: wire_type_def split: rl_handshake_type.splits)
  then show ?thesis
    unfolding HT_HelloRetryRequest handshake_body_def rl_handshake_type.case Let_def
    by (rule exact_body.axioms(1) [OF error_body])
next
  case (HT_Unknown u)
  show ?thesis
    unfolding HT_Unknown handshake_body_def rl_handshake_type.case Let_def
    by (rule typed_body [OF exact_body.axioms(1) [OF payload_body]]) (simp_all, rename_tac p, case_tac p, simp_all)
qed

lemma ht_codec: "exact_codec ht_ok (\<lambda>t. [ht_get_u8 t]) ht_read"
  by (rule exact_element.is_exact [OF enum_u8_codec]) simp

lemma handshake_codec: "tls_codec (handshake_ok dns vers) handshake_encode (read_version dns vers)"
proof -
  note u24 = exact_element.is_exact [OF u24_codec]
  show ?thesis
  proof (unfold_locales, goal_cases)
    case (1 r)
    show ?case
      unfolding read_version_def
      using exact_returns [OF ht_codec] exact_returns [OF u24] body_codec.body_returns [OF message_body]
      by (intro rbind_returns) (auto simp: sub_unread intro!: rbind_returns rd_end_returns)
  next
    case (2 r m r')
    then obtain t r1 len r2 sub where t: "ht_read r = Some (Ret (t, r1))" "rd_u24 r1 = Some (Ret (len, r2))" "unat len \<le> length (unread r2)"
      "r' = r2 \<lparr>rd_cursor := rd_cursor r2 + unat len\<rparr>" "handshake_body dns vers t (reader_init (take (unat len) (unread r2))) = Some (Ret (m, sub))"
      "unread sub = []"
      by (auto simp: read_version_def rbind_Ret_iff sub_unread rd_end_Ret split: if_splits)
    have p: "payload_ok dns vers (hmp_typ m) (hmp_payload m)" "wire_type (hmp_typ m) = t" "length (hp_encode (hmp_payload m)) \<le> unat len"
      using body_codec.body_sound [OF message_body t(5,6)] by auto
    have u: "ht_ok t" "unread r = ht_get_u8 t # unread r1" "unat len < 16777216" "unread r1 = encode_u24 len @ unread r2"
      using exact_codec.exact [OF ht_codec t(1)] exact_codec.exact [OF u24 t(2)] by auto
    have "ht_ok (hmp_typ m)"
      using p(2) u(1) by (auto simp: wire_type_def ht_from_def split: rl_handshake_type.splits)
    moreover have "unread r = (ht_get_u8 t # encode_u24 len @ take (unat len) (unread r2)) @ unread r'"
      using u t(4) by simp
    moreover have "length (handshake_encode m) \<le> length (ht_get_u8 t # encode_u24 len @ take (unat len) (unread r2))"
      using p(3) t(3) by (simp add: handshake_encode_def length_prefixed_def len_bytes_def encode_u24_def)
    ultimately show ?case
      using p(1,3) u(3) unfolding handshake_ok_def by (blast intro: le_less_trans)
  next
    case (3 m r rest)
    let ?t = "wire_type (hmp_typ m)" and ?body = "hp_encode (hmp_payload m)"
    have m: "payload_ok dns vers (hmp_typ m) (hmp_payload m)" "ht_ok ?t" "length ?body < 16777216"
      using 3(1) by (auto simp: handshake_ok_def wire_type_def ht_from_def split: rl_handshake_type.split)
    have w: "unat (word_of_nat (length ?body) :: u32) = length ?body"
      using m(3) by (simp add: unat_of_nat)
    have "unread r = [ht_get_u8 ?t] @ encode_u24 (word_of_nat (length ?body)) @ ?body @ rest"
      using 3(2) by (simp add: handshake_encode_def length_prefixed_def len_bytes_def)
    then obtain r1 r2 where "ht_read r = Some (Ret (?t, r1))" "rd_u24 r1 = Some (Ret (word_of_nat (length ?body), r2))" "unread r2 = ?body @ rest"
      using exact_inverse [OF ht_codec m(2)] exact_inverse [OF u24, of "word_of_nat (length ?body)"] m(3) w by metis
    moreover obtain r3 where "rd_end ''HandshakeMessagePayload'' (handshake_body dns vers ?t) (reader_init ?body) = Some (Ret (m, r3))"
      using body_codec.body_inverse [OF message_body, of dns vers m ?t "reader_init ?body"] m(1) by (auto simp: rd_end_Ret)
    ultimately show ?case
      using w by (simp add: read_version_def sub_unread)
  qed
qed

interpretation handshake_messages: tls_codec "handshake_ok dns vers" handshake_encode "read_version dns vers" for dns vers
  by (rule handshake_codec)

interpretation client_hellos: exact_body "client_hello_ok dns" client_hello_encode "client_hello_read dns" for dns
  by (rule client_hello_exact_body)

interpretation client_extensions: exact_element "client_extension_ok dns" client_extension_encode "client_extension_read dns" for dns
  by (rule client_extension_element)

interpretation server_extensions: exact_element server_extension_ok server_extension_encode server_extension_read
  by (rule server_extension_element)

interpretation server_name_list: greedy_element "server_name_ok dns" server_name_encode "server_name_read dns" unknown_name for dns
  by (rule server_name_greedy)

interpretation session_ids: exact_codec session_id_ok session_id_encode session_id_read
  by (rule session_id_codec)

interpretation server_hellos: body_codec server_hello_wf "\<lambda>m. hp_encode (hmp_payload m)" server_hello_body
  by (rule server_hello_body_codec)

end
