(* ===== verification/Rustls_Message_Payload.thy ===== *)
theory Rustls_Message_Payload
  imports Rustls_Handshake_Codec
begin

text \<open>
  Messages with a decoded payload in the TLS library: alerts (\<open>rustls-reality/rustls/src/msgs/alert.rs\<close>), change cipher spec
  (\<open>msgs/ccs.rs\<close>), \<open>MessagePayload\<close> and \<open>Message\<close> (\<open>msgs/message.rs\<close>). The theorems on handshake messages are stated here:
  the parser returns for every input, what it accepts is well-formed, it inverts the encoder, a client hello is accepted
  exactly if it is an encoding, a message goes back to the bytes it came from, and the bytes a binder is computed over do
  not depend on the binder.
\<close>

section \<open>Alerts and change cipher spec\<close>

abbreviation al_read :: "alert_level rd" where "al_read \<equiv> enum_u8_read ''AlertLevel'' al_from"
abbreviation ad_read :: "alert_description rd" where "ad_read \<equiv> enum_u8_read ''AlertDescription'' ad_from"

record alert_message =
  am_level :: alert_level
  am_description :: alert_description

definition alert_encode :: "alert_message \<Rightarrow> bytes" where
  "alert_encode a = [al_get_u8 (am_level a)] @ [ad_get_u8 (am_description a)]"

definition alert_read :: "alert_message rd" where
  "alert_read =
     rd_end ''AlertMessagePayload'' (rd_map (\<lambda>(l, d). \<lparr>am_level = l, am_description = d\<rparr>) (rd_pair al_read ad_read))"

definition ccs_encode :: bytes where
  "ccs_encode = [1]"

definition ccs_read :: "unit rd" where
  "ccs_read = rd_end ''ChangeCipherSpecPayload'' (rd_map (\<lambda>_. ()) (rd_check (\<lambda>t. t \<noteq> 1) InvalidCcs rd_u8))"

section \<open>Messages\<close>

text \<open>A handshake message keeps the bytes it was read from.\<close>

datatype message_payload =
    MP_Alert alert_message
  | MP_Handshake handshake_message_payload bytes
  | MP_ChangeCipherSpec
  | MP_ApplicationData bytes

primrec mp_encode :: "message_payload \<Rightarrow> bytes" where
  "mp_encode (MP_Alert x) = alert_encode x"
| "mp_encode (MP_Handshake parsed encoded) = encoded"
| "mp_encode MP_ChangeCipherSpec = ccs_encode"
| "mp_encode (MP_ApplicationData x) = x"

definition mp_handshake :: "handshake_message_payload \<Rightarrow> message_payload" where
  "mp_handshake parsed = MP_Handshake parsed (handshake_encode parsed)"

definition mp_new :: "(bytes \<Rightarrow> bool) \<Rightarrow> rl_content_type \<Rightarrow> rl_version \<Rightarrow> bytes \<Rightarrow> (invalid_message, message_payload) outcome option" where
  "mp_new dns t vers payload =
     (let r = reader_init payload in
      case t of
        CT_ApplicationData \<Rightarrow> Some (Ret (MP_ApplicationData payload))
      | CT_Alert \<Rightarrow> rbind (alert_read r) (\<lambda>(a, r). Some (Ret (MP_Alert a)))
      | CT_Handshake \<Rightarrow> rbind (read_version dns vers r) (\<lambda>(parsed, r). Some (Ret (MP_Handshake parsed payload)))
      | CT_ChangeCipherSpec \<Rightarrow> rbind (ccs_read r) (\<lambda>(_, r). Some (Ret MP_ChangeCipherSpec))
      | _ \<Rightarrow> Some (Err ImInvalidContentType))"

primrec mp_content_type :: "message_payload \<Rightarrow> rl_content_type" where
  "mp_content_type (MP_Alert _) = CT_Alert"
| "mp_content_type (MP_Handshake _ _) = CT_Handshake"
| "mp_content_type MP_ChangeCipherSpec = CT_ChangeCipherSpec"
| "mp_content_type (MP_ApplicationData _) = CT_ApplicationData"

record message =
  msg_version :: rl_version
  msg_payload :: message_payload

definition message_into_plain :: "message \<Rightarrow> plain_message" where
  "message_into_plain m =
     \<lparr>pm_typ = mp_content_type (msg_payload m), pm_version = msg_version m, pm_payload = mp_encode (msg_payload m)\<rparr>"

definition message_try_from :: "(bytes \<Rightarrow> bool) \<Rightarrow> plain_message \<Rightarrow> (rl_error, message) outcome option" where
  "message_try_from dns plain =
     map_option (\<lambda>res. map_err RlInvalidMessage (bnd res (\<lambda>p. Ret \<lparr>msg_version = pm_version plain, msg_payload = p\<rparr>)))
       (mp_new dns (pm_typ plain) (pm_version plain) (pm_payload plain))"

definition is_handshake_type :: "message \<Rightarrow> rl_handshake_type \<Rightarrow> bool" where
  "is_handshake_type m t = (case msg_payload m of MP_Handshake parsed _ \<Rightarrow> hmp_typ parsed = t | _ \<Rightarrow> False)"

definition build_alert :: "alert_level \<Rightarrow> alert_description \<Rightarrow> message" where
  "build_alert level desc = \<lparr>msg_version = PV_TLSv1_2, msg_payload = MP_Alert \<lparr>am_level = level, am_description = desc\<rparr>\<rparr>"

definition message_key_update_notify :: message where
  "message_key_update_notify = \<lparr>msg_version = PV_TLSv1_3, msg_payload = mp_handshake build_key_update_notify\<rparr>"

section \<open>Lemmas\<close>

definition alert_ok :: "alert_message \<Rightarrow> bool" where
  "alert_ok a \<longleftrightarrow> al_from (al_get_u8 (am_level a)) = am_level a \<and> ad_from (ad_get_u8 (am_description a)) = am_description a"

lemma alert_body: "exact_body alert_ok alert_encode alert_read"
proof -
  have l: "exact_element (\<lambda>e. al_from (al_get_u8 e) = e) (\<lambda>e. [al_get_u8 e]) al_read"
    by (rule enum_u8_codec) simp
  have d: "exact_element (\<lambda>e. ad_from (ad_get_u8 e) = e) (\<lambda>e. [ad_get_u8 e]) ad_read"
    by (rule enum_u8_codec) simp
  have c: "exact_codec alert_ok alert_encode (rd_map (\<lambda>(l, d). \<lparr>am_level = l, am_description = d\<rparr>) (rd_pair al_read ad_read))"
    by (rule struct_exact [OF exact_element.is_exact [OF l] exact_element.is_exact [OF d], where p = am_level and q = am_description])
      (simp_all add: alert_ok_def alert_encode_def)
  show ?thesis
    unfolding alert_read_def
    by (intro exact_body.intro end_body exact_body_codec [OF c] exact_body_axioms.intro)
      (use exact_body.body_exact [OF exact_codec.is_body [OF c]] in \<open>auto simp: rd_end_Ret\<close>)
qed

lemma ccs_body: "exact_body (\<lambda>_. True) (\<lambda>_. ccs_encode) ccs_read"
proof -
  have "ccs_read r = (case unread r of [] \<Rightarrow> Some (Err (MissingData (lit ''u8'')))
    | b # q \<Rightarrow> if b \<noteq> 1 then Some (Err InvalidCcs) else if q \<noteq> [] then Some (Err (TrailingData (lit ''ChangeCipherSpecPayload'')))
      else Some (Ret ((), r \<lparr>rd_cursor := rd_cursor r + 1\<rparr>)))" for r
    using unread_advance [of r 1]
    by (auto simp: ccs_read_def rd_end_def rd_map_def rd_check_def rd_u8_def read_u8_unread expect_empty_def any_left_unread split: list.split)
  then show ?thesis
    by unfold_locales (auto simp: ccs_encode_def split: list.splits if_splits)
qed

lemma mp_new_total: "\<exists>res. mp_new dns t vers payload = Some res \<and> res \<noteq> Panic"
  unfolding mp_new_def Let_def
  using body_codec.body_returns [OF exact_body.axioms(1) [OF alert_body]] body_codec.body_returns [OF exact_body.axioms(1) [OF ccs_body]]
    tls_codec.returns [OF handshake_codec]
  by (cases t) (auto intro!: rbind_returns)

lemma mp_new_encode: "mp_new dns t vers payload = Some (Ret p) \<Longrightarrow> mp_encode p = payload \<and> mp_content_type p = t"
proof (cases t)
  case CT_Alert
  moreover assume "mp_new dns t vers payload = Some (Ret p)"
  ultimately obtain a r where a: "p = MP_Alert a" "alert_read (reader_init payload) = Some (Ret (a, r))"
    by (auto simp: mp_new_def rbind_Ret_iff)
  then have "unread r = []" by (simp add: alert_read_def rd_end_Ret)
  then show ?thesis using exact_body.body_exact [OF alert_body a(2)] CT_Alert a(1) by simp
next
  case CT_ChangeCipherSpec
  moreover assume "mp_new dns t vers payload = Some (Ret p)"
  ultimately obtain r where a: "p = MP_ChangeCipherSpec" "ccs_read (reader_init payload) = Some (Ret ((), r))"
    by (auto simp: mp_new_def rbind_Ret_iff)
  then have "unread r = []" by (simp add: ccs_read_def rd_end_Ret)
  then show ?thesis using exact_body.body_exact [OF ccs_body a(2)] CT_ChangeCipherSpec a(1) by simp
qed (auto simp: mp_new_def rbind_Ret_iff)

definition sample_client_hello :: client_hello_payload where
  "sample_client_hello =
     \<lparr>ch_client_version = PV_TLSv1_2, ch_random = replicate 32 7, ch_session_id = session_id_empty, ch_cipher_suites = [0x1301],
      ch_compression_methods = [CM_Null],
      ch_extensions = [CE_SupportedVersions [PV_TLSv1_3], CE_KeyShare [\<lparr>kse_group = NG_X25519, kse_payload = replicate 32 9\<rparr>],
        CE_PresharedKey \<lparr>psko_identities = [\<lparr>pski_identity = [1, 2, 3], pski_age = 4\<rparr>], psko_binders = [replicate 32 0]\<rparr>]\<rparr>"

abbreviation hello_message :: "client_hello_payload \<Rightarrow> handshake_message_payload" where
  "hello_message c \<equiv> \<lparr>hmp_typ = HT_ClientHello, hmp_payload = HP_ClientHello c\<rparr>"

definition sample_hello_message :: handshake_message_payload where
  "sample_hello_message = hello_message sample_client_hello"

lemma sample_hello_ok: "handshake_ok (\<lambda>_. True) vers sample_hello_message"
  by (simp add: sample_hello_message_def sample_client_hello_def handshake_ok_def client_hello_ok_def session_id_ok_def session_id_empty_def
      vec_ok_def len_fits_def client_extension_ok_def extension_ok_def kse_ok_def psk_offer_ok_def psk_identity_ok_def pv_from_def ng_from_def
      cm_from_def et_from_def ht_from_def kse_encode_def psk_identity_encode_def psk_offer_encode_def payload_u8_encode_def payload_u16_encode_def
      u16_be_def u32_be_def encode_list_def length_prefixed_def len_bytes_def client_extension_encode_def encode_extension_def
      client_hello_encode_def session_id_encode_def)

text \<open>The encoding of a client hello whose last extension offers pre-shared keys, in front of the binders: it depends on the
  length of the list of binders only.\<close>

definition before_binders :: "client_hello_payload \<Rightarrow> client_extension list \<Rightarrow> psk_identity list \<Rightarrow> nat \<Rightarrow> bytes" where
  "before_binders c es ids n =
     (let offer = encode_list ListU16 psk_identity_encode ids;
          last_ext = u16_be (et_get_u16 ET_PreSharedKey) @ len_bytes ListU16 (length offer + n) @ offer;
          exts = concat (map client_extension_encode es) @ last_ext;
          fields = vers_encode (ch_client_version c) @ ch_random c @ session_id_encode (ch_session_id c)
            @ encode_list ListU16 u16_be (ch_cipher_suites c) @ encode_list ListU8 cm_encode (ch_compression_methods c);
          body = fields @ len_bytes ListU16 (length exts + n) @ exts
      in ht_get_u8 HT_ClientHello # len_bytes (ListU24 (2 ^ 64 - 1)) (length body + n) @ body)"

lemma hello_message_encode:
  assumes "ch_extensions c = es @ [CE_PresharedKey offer]"
  shows "handshake_encode (hello_message c) =
    before_binders c es (psko_identities offer) (length (encode_list ListU16 payload_u8_encode (psko_binders offer)))
      @ encode_list ListU16 payload_u8_encode (psko_binders offer)"
proof -
  let ?n = "length (encode_list ListU16 payload_u8_encode (psko_binders offer))" and ?ids = "encode_list ListU16 psk_identity_encode (psko_identities offer)"
  have last: "client_extension_encode (CE_PresharedKey offer) =
    u16_be (et_get_u16 ET_PreSharedKey) @ len_bytes ListU16 (length ?ids + ?n) @ ?ids @ encode_list ListU16 payload_u8_encode (psko_binders offer)"
    by (simp add: client_extension_encode_def encode_extension_def length_prefixed_def psk_offer_encode_def)
  have exts: "encode_list ListU16 client_extension_encode (es @ [CE_PresharedKey offer]) =
    len_bytes ListU16 (length (concat (map client_extension_encode es) @ client_extension_encode (CE_PresharedKey offer)))
      @ concat (map client_extension_encode es) @ client_extension_encode (CE_PresharedKey offer)"
    by (simp add: encode_list_def length_prefixed_def)
  show ?thesis
    by (simp add: handshake_encode_def wire_type_def length_prefixed_def client_hello_encode_def assms exts last before_binders_def Let_def add.assoc)
qed

lemma binder_signing_encode:
  assumes "ch_extensions c = es @ [CE_PresharedKey offer]"
  shows "get_encoding_for_binder_signing (hello_message c) =
    Ret (before_binders c es (psko_identities offer) (length (encode_list ListU16 payload_u8_encode (psko_binders offer))))"
  unfolding get_encoding_for_binder_signing_def by (simp add: hello_message_encode [OF assms]) (simp add: assms)

section \<open>Theorems\<close>

text \<open>C29. The handshake parser ends, for every version and every input, with a message or an error; it never loops and never
  panics. The loop over the elements of a list ends because every element consumes something.\<close>

theorem handshake_parse_total: "\<exists>res. read_version dns vers (reader_init bs) = Some res \<and> res \<noteq> Panic"
  by (rule handshake_messages.returns)

text \<open>C30. What the handshake parser accepts is a well-formed message of its type: lengths fit their prefixes, types and payloads
  belong together for the version, enumerations are canonical, session identifiers are padded, names of servers are names,
  and the required lists are not empty. It reads a prefix of the input, and the encoding of the message is not longer.\<close>

theorem handshake_parse_typed:
  assumes "read_version dns vers (reader_init bs) = Some (Ret (m, r))"
  shows "handshake_ok dns vers m \<and> (\<exists>used. bs = used @ unread r \<and> length (handshake_encode m) \<le> length used)"
  using handshake_messages.sound [OF assms] by simp

theorem handshake_parse_typed_witness:
  "read_version (\<lambda>_. True) PV_TLSv1_3 (reader_init [0x18, 0, 0, 1, 0, 7]) =
     Some (Ret (build_key_update_notify, \<lparr>rd_buffer = [0x18, 0, 0, 1, 0, 7], rd_cursor = 5\<rparr>))
   \<and> handshake_ok (\<lambda>_. True) PV_TLSv1_3 build_key_update_notify"
proof -
  have "read_version (\<lambda>_. True) PV_TLSv1_3 (reader_init [0x18, 0, 0, 1, 0, 7]) =
     Some (Ret (build_key_update_notify, \<lparr>rd_buffer = [0x18, 0, 0, 1, 0, 7], rd_cursor = 5\<rparr>))"
    by code_simp
  then show ?thesis
    using handshake_parse_typed by blast
qed

text \<open>C31. Parsing inverts encoding: a well-formed handshake message, whatever follows it, is read back.\<close>

theorem handshake_roundtrip:
  assumes "handshake_ok dns vers m"
  shows "\<exists>r. read_version dns vers (reader_init (handshake_encode m @ rest)) = Some (Ret (m, r)) \<and> unread r = rest"
  using handshake_messages.inverse [OF assms, of "reader_init (handshake_encode m @ rest)" rest] by simp

theorem handshake_roundtrip_witness:
  "\<exists>r. read_version (\<lambda>_. True) PV_TLSv1_2 (reader_init (handshake_encode sample_hello_message @ [7])) = Some (Ret (sample_hello_message, r)) \<and> unread r = [7]"
proof -
  have "handshake_ok (\<lambda>_. True) PV_TLSv1_2 sample_hello_message"
    by (rule sample_hello_ok)
  then show ?thesis
    by (rule handshake_roundtrip)
qed

text \<open>C32. A client hello is accepted exactly if the bytes are the encoding of a well-formed client hello, so no two byte strings
  mean the same client hello. A client hello without extensions is refused.\<close>

theorem client_hello_exact:
  "(\<exists>r. rd_end ''HandshakeMessagePayload'' (client_hello_read dns) (reader_init bs) = Some (Ret (c, r))) \<longleftrightarrow>
    client_hello_ok dns c \<and> bs = client_hello_encode c"
proof
  assume "\<exists>r. rd_end ''HandshakeMessagePayload'' (client_hello_read dns) (reader_init bs) = Some (Ret (c, r))"
  then show "client_hello_ok dns c \<and> bs = client_hello_encode c"
    using client_hellos.body_exact by (fastforce simp: rd_end_Ret)
next
  assume "client_hello_ok dns c \<and> bs = client_hello_encode c"
  then show "\<exists>r. rd_end ''HandshakeMessagePayload'' (client_hello_read dns) (reader_init bs) = Some (Ret (c, r))"
    using client_hellos.body_inverse [of dns c "reader_init bs"] by (auto simp: rd_end_Ret)
qed

text \<open>C33. A message goes back to what it came from: if a plaintext record of any type is decoded, encoding the message gives the
  type, version and bytes of the record again. So the transcript hash is taken over the bytes that were received. Decoding
  always ends, without a panic.\<close>

theorem message_bytes_kept:
  "(\<exists>res. message_try_from dns plain = Some res \<and> res \<noteq> Panic)
   \<and> (\<forall>m. message_try_from dns plain = Some (Ret m) \<longrightarrow> message_into_plain m = plain)"
proof (intro conjI allI impI)
  obtain res where "mp_new dns (pm_typ plain) (pm_version plain) (pm_payload plain) = Some res" "res \<noteq> Panic"
    using mp_new_total by blast
  then show "\<exists>res. message_try_from dns plain = Some res \<and> res \<noteq> Panic"
    by (cases res) (auto simp: message_try_from_def)
next
  fix m
  assume "message_try_from dns plain = Some (Ret m)"
  moreover obtain res where "mp_new dns (pm_typ plain) (pm_version plain) (pm_payload plain) = Some res" "res \<noteq> Panic"
    using mp_new_total by blast
  ultimately obtain p where p: "mp_new dns (pm_typ plain) (pm_version plain) (pm_payload plain) = Some (Ret p)"
    "m = \<lparr>msg_version = pm_version plain, msg_payload = p\<rparr>"
    by (cases res) (auto simp: message_try_from_def)
  then show "message_into_plain m = plain"
    using mp_new_encode [OF p(1)] by (simp add: message_into_plain_def)
qed

theorem message_bytes_kept_witness:
  "message_try_from (\<lambda>_. True) \<lparr>pm_typ = CT_Alert, pm_version = PV_TLSv1_2, pm_payload = [2, 40]\<rparr> =
     Some (Ret (build_alert AL_Fatal AD_HandshakeFailure))
   \<and> message_into_plain (build_alert AL_Fatal AD_HandshakeFailure) = \<lparr>pm_typ = CT_Alert, pm_version = PV_TLSv1_2, pm_payload = [2, 40]\<rparr>"
proof -
  have "message_try_from (\<lambda>_. True) \<lparr>pm_typ = CT_Alert, pm_version = PV_TLSv1_2, pm_payload = [2, 40]\<rparr> =
     Some (Ret (build_alert AL_Fatal AD_HandshakeFailure))"
    by code_simp
  then show ?thesis
    using message_bytes_kept by blast
qed

text \<open>C34. A binder is computed over bytes it does not change: with a binder of the same length filled in, the encoding to be
  signed is the same, and the message is that encoding followed by the list of binders.\<close>

theorem binder_signing_stable:
  assumes "ch_extensions c = es @ [CE_PresharedKey offer]" "psko_binders offer = old # bs" "length binder = length old"
  shows "\<exists>pre c'. get_encoding_for_binder_signing (hello_message c) = Ret pre
    \<and> handshake_encode (hello_message c) = pre @ encode_list ListU16 payload_u8_encode (old # bs)
    \<and> set_psk_binder c binder = Ret c'
    \<and> get_encoding_for_binder_signing (hello_message c') = Ret pre
    \<and> handshake_encode (hello_message c') = pre @ encode_list ListU16 payload_u8_encode (binder # bs)"
proof -
  let ?offer = "offer \<lparr>psko_binders := binder # bs\<rparr>"
  let ?c = "c \<lparr>ch_extensions := es @ [CE_PresharedKey ?offer]\<rparr>"
  have s: "set_psk_binder c binder = Ret ?c"
    by (simp add: set_psk_binder_def assms(1,2))
  have l: "length (encode_list ListU16 payload_u8_encode (binder # bs)) = length (encode_list ListU16 payload_u8_encode (old # bs))"
    using assms(3) by (simp add: encode_list_def length_prefixed_def length_len_bytes payload_u8_encode_def)
  have b: "before_binders ?c es ids n = before_binders c es ids n" for ids n
    by (simp add: before_binders_def)
  have e: "ch_extensions ?c = es @ [CE_PresharedKey ?offer]" by simp
  show ?thesis
    using s binder_signing_encode [OF assms(1)] hello_message_encode [OF assms(1)] binder_signing_encode [OF e] hello_message_encode [OF e] l b assms(2)
    by simp
qed

theorem binder_signing_stable_witness:
  "\<exists>pre c'. get_encoding_for_binder_signing (hello_message sample_client_hello) = Ret pre
    \<and> handshake_encode (hello_message sample_client_hello) = pre @ encode_list ListU16 payload_u8_encode [replicate 32 0]
    \<and> set_psk_binder sample_client_hello (replicate 32 5) = Ret c'
    \<and> get_encoding_for_binder_signing (hello_message c') = Ret pre
    \<and> handshake_encode (hello_message c') = pre @ encode_list ListU16 payload_u8_encode [replicate 32 5]"
proof -
  let ?es = "[CE_SupportedVersions [PV_TLSv1_3], CE_KeyShare [\<lparr>kse_group = NG_X25519, kse_payload = replicate 32 9\<rparr>]]"
  let ?offer = "\<lparr>psko_identities = [\<lparr>pski_identity = [1, 2, 3], pski_age = 4\<rparr>], psko_binders = [replicate 32 0]\<rparr>"
  have "ch_extensions sample_client_hello = ?es @ [CE_PresharedKey ?offer]" "psko_binders ?offer = replicate 32 0 # []" "length (replicate 32 (5 :: u8)) = length (replicate 32 (0 :: u8))"
    by (simp_all add: sample_client_hello_def)
  from binder_signing_stable [OF this] show ?thesis .
qed

end
