(* ===== verification/Rustls_Hkdf.thy ===== *)
theory Rustls_Hkdf
  imports Tls_Crypto Rustls_Messages
begin

text \<open>
  HKDF in the TLS library: the trait \<open>Hkdf\<close> and its implementation over HMAC (\<open>rustls-reality/rustls/src/crypto/tls13.rs\<close>), the
  implementation over \<open>ring\<close> (\<open>RingHkdf\<close> of \<open>crypto/ring/tls13.rs\<close>), and the labelled expansions of
  \<open>tls13/key_schedule.rs\<close>. A provider is the record of the trait's functions; a boxed expander is its
  pseudo-random key. Both implementations are shown to be RFC 5869.
\<close>

section \<open>Output blocks and keys\<close>

text \<open>\<open>OkmBlock\<close> and the tags are byte strings of at most 64 bytes; making one of more panics.\<close>

definition OKM_MAX_LEN :: nat where
  "OKM_MAX_LEN = 64"

definition okm_new :: "bytes \<Rightarrow> ('e, bytes) outcome" where
  "okm_new bs = (if length bs \<le> OKM_MAX_LEN then Ret bs else Panic)"

definition AEAD_KEY_MAX_LEN :: nat where
  "AEAD_KEY_MAX_LEN = 32"

definition aead_key_with_length :: "bytes \<Rightarrow> nat \<Rightarrow> ('e, bytes) outcome" where
  "aead_key_with_length self len = (if len \<le> length self then Ret (take len self) else Panic)"

section \<open>The provider\<close>

text \<open>\<open>Err\<close> of \<open>hk_expand_slice\<close> is \<open>OutputLengthError\<close>. An \<open>info\<close> is the list of its slices.\<close>

record hkdf_provider =
  hk_extract_from_zero_ikm :: "bytes option \<Rightarrow> (rl_error, bytes) outcome"
  hk_extract_from_secret :: "bytes option \<Rightarrow> bytes \<Rightarrow> (rl_error, bytes) outcome"
  hk_expander_for_okm :: "bytes \<Rightarrow> bytes"
  hk_hmac_sign :: "bytes \<Rightarrow> bytes \<Rightarrow> (rl_error, bytes) outcome"
  hk_expand_slice :: "bytes \<Rightarrow> bytes list \<Rightarrow> nat \<Rightarrow> (unit, bytes) outcome"
  hk_expand_block :: "bytes \<Rightarrow> bytes list \<Rightarrow> (rl_error, bytes) outcome"
  hk_hash_len :: nat

subsection \<open>Over HMAC\<close>

text \<open>An HMAC algorithm: \<open>sign\<close> of \<open>with_key\<close>, and the length of its tags.\<close>

record hmac_alg =
  hm_sign :: "bytes \<Rightarrow> bytes \<Rightarrow> bytes"
  hm_len :: nat

text \<open>The loop over the chunks of the output: \<open>n\<close> of them are filled, \<open>left\<close> bytes are not.\<close>

function expand_chunks :: "hmac_alg \<Rightarrow> bytes \<Rightarrow> bytes list \<Rightarrow> bytes \<Rightarrow> nat \<Rightarrow> nat \<Rightarrow> ('e, bytes) outcome" where
  "expand_chunks h key info term n left =
     (if left = 0 \<or> hm_len h = 0 then Ret []
      else
        let len = min (hm_len h) left;
            term = hm_sign h key (term @ concat info @ [word_of_nat (n + 1)]) in
        bnd (slice term 0 len) (\<lambda>chunk.
        bnd (expand_chunks h key info term (n + 1) (left - len)) (\<lambda>rest.
        Ret (chunk @ rest))))"
  by pat_completeness auto
termination
  by (relation "measure (\<lambda>(h, key, info, term, n, left). left)") auto

declare expand_chunks.simps [simp del]

definition expand_unchecked :: "hmac_alg \<Rightarrow> bytes \<Rightarrow> bytes list \<Rightarrow> nat \<Rightarrow> ('e, bytes) outcome" where
  "expand_unchecked h key info len = (if hm_len h = 0 then Panic else expand_chunks h key info [] 0 len)"

definition hmac_salt :: "hmac_alg \<Rightarrow> bytes option \<Rightarrow> ('e, bytes) outcome" where
  "hmac_salt h salt = (case salt of Some salt \<Rightarrow> Ret salt | None \<Rightarrow> slice (replicate OKM_MAX_LEN (0::u8)) 0 (hm_len h))"

definition hkdf_using_hmac :: "hmac_alg \<Rightarrow> hkdf_provider" where
  "hkdf_using_hmac h =
     \<lparr>hk_extract_from_zero_ikm = (\<lambda>salt.
        bnd (hmac_salt h salt) (\<lambda>salt.
        bnd (slice (replicate OKM_MAX_LEN (0::u8)) 0 (hm_len h)) (\<lambda>zeroes.
        Ret (hm_sign h salt zeroes)))),
      hk_extract_from_secret = (\<lambda>salt secret.
        bnd (hmac_salt h salt) (\<lambda>salt.
        Ret (hm_sign h salt secret))),
      hk_expander_for_okm = (\<lambda>okm. okm),
      hk_hmac_sign = (\<lambda>key message. Ret (hm_sign h key message)),
      hk_expand_slice = (\<lambda>prk info len.
        bnd (guard (len > 255 * hm_len h) ()) (\<lambda>_. expand_unchecked h prk info len)),
      hk_expand_block = (\<lambda>prk info.
        bnd (slice (replicate OKM_MAX_LEN (0::u8)) 0 (hm_len h)) (\<lambda>reduced_tag.
        bnd (expand_unchecked h prk info (length reduced_tag)) okm_new)),
      hk_hash_len = hm_len h\<rparr>"

subsection \<open>Over ring\<close>

text \<open>The algorithms of \<open>ring\<close>: extraction, expansion to a length (\<open>None\<close> is its error), the length of the hash, and HMAC.\<close>

record ring_hkdf =
  rh_extract :: "bytes \<Rightarrow> bytes \<Rightarrow> bytes"
  rh_expand :: "bytes \<Rightarrow> bytes \<Rightarrow> nat \<Rightarrow> bytes option"
  rh_len :: nat
  rh_hmac :: "bytes \<Rightarrow> bytes \<Rightarrow> bytes"

definition ring_salt :: "ring_hkdf \<Rightarrow> bytes option \<Rightarrow> ('e, bytes) outcome" where
  "ring_salt r salt = (case salt of Some salt \<Rightarrow> Ret salt | None \<Rightarrow> slice (replicate OKM_MAX_LEN (0::u8)) 0 (rh_len r))"

definition ring_hkdf_provider :: "ring_hkdf \<Rightarrow> hkdf_provider" where
  "ring_hkdf_provider r =
     \<lparr>hk_extract_from_zero_ikm = (\<lambda>salt.
        bnd (ring_salt r salt) (\<lambda>salt.
        bnd (slice (replicate OKM_MAX_LEN (0::u8)) 0 (rh_len r)) (\<lambda>zeroes.
        Ret (rh_extract r salt zeroes)))),
      hk_extract_from_secret = (\<lambda>salt secret.
        bnd (ring_salt r salt) (\<lambda>salt.
        Ret (rh_extract r salt secret))),
      hk_expander_for_okm = (\<lambda>okm. okm),
      hk_hmac_sign = (\<lambda>key message. okm_new (rh_hmac r key message)),
      hk_expand_slice = (\<lambda>prk info len. ok_or () (rh_expand r prk (concat info) len)),
      hk_expand_block = (\<lambda>prk info.
        bnd (slice (replicate OKM_MAX_LEN (0::u8)) 0 (rh_len r)) (\<lambda>output.
        case rh_expand r prk (concat info) (length output) of
          Some okm \<Rightarrow> okm_new okm
        | None \<Rightarrow> Panic)),
      hk_hash_len = rh_len r\<rparr>"

section \<open>Labelled expansion\<close>

definition expand_label_info :: "bytes \<Rightarrow> bytes \<Rightarrow> nat \<Rightarrow> bytes list" where
  "expand_label_info label context n =
     (let label_prefix = lit ''tls13 '';
          output_len = u16_be (word_of_nat n);
          label_len = [word_of_nat (length label_prefix + length label)];
          context_len = [word_of_nat (length context)] in
      [output_len, label_len, label_prefix, label, context_len, context])"

text \<open>\<open>expand\<close>: to an array of a length known at compile time, an error panics.\<close>

definition expand_array :: "hkdf_provider \<Rightarrow> bytes \<Rightarrow> bytes list \<Rightarrow> nat \<Rightarrow> (rl_error, bytes) outcome" where
  "expand_array p prk info n = (case hk_expand_slice p prk info n of Ret output \<Rightarrow> Ret output | _ \<Rightarrow> Panic)"

definition expand_label_array :: "hkdf_provider \<Rightarrow> bytes \<Rightarrow> bytes \<Rightarrow> bytes \<Rightarrow> nat \<Rightarrow> (rl_error, bytes) outcome" where
  "expand_label_array p prk label context n = expand_array p prk (expand_label_info label context n) n"

definition expand_label_block :: "hkdf_provider \<Rightarrow> bytes \<Rightarrow> bytes \<Rightarrow> bytes \<Rightarrow> (rl_error, bytes) outcome" where
  "expand_label_block p prk label context = hk_expand_block p prk (expand_label_info label context (hk_hash_len p))"

text \<open>The key of an AEAD is cut from an expansion to 32 bytes, the largest key.\<close>

definition expand_label_aead_key ::
  "hkdf_provider \<Rightarrow> bytes \<Rightarrow> nat \<Rightarrow> bytes \<Rightarrow> bytes \<Rightarrow> (rl_error, bytes) outcome" where
  "expand_label_aead_key p prk key_len label context =
     bnd (expand_array p prk (expand_label_info label context key_len) AEAD_KEY_MAX_LEN) (\<lambda>key.
     aead_key_with_length key key_len)"

definition expand_label_slice :: "hkdf_provider \<Rightarrow> bytes \<Rightarrow> bytes \<Rightarrow> bytes \<Rightarrow> nat \<Rightarrow> (unit, bytes) outcome" where
  "expand_label_slice p prk label context n = hk_expand_slice p prk (expand_label_info label context n) n"

definition derive_traffic_key :: "hkdf_provider \<Rightarrow> bytes \<Rightarrow> nat \<Rightarrow> (rl_error, bytes) outcome" where
  "derive_traffic_key p prk aead_key_len = expand_label_aead_key p prk aead_key_len (lit ''key'') []"

definition derive_traffic_iv :: "hkdf_provider \<Rightarrow> bytes \<Rightarrow> (rl_error, bytes) outcome" where
  "derive_traffic_iv p prk = expand_label_array p prk (lit ''iv'') [] 12"

section \<open>RFC 5869\<close>

fun hkdf_t :: "(bytes \<Rightarrow> bytes \<Rightarrow> bytes) \<Rightarrow> bytes \<Rightarrow> bytes \<Rightarrow> nat \<Rightarrow> bytes" where
  "hkdf_t hmac prk info 0 = []"
| "hkdf_t hmac prk info (Suc i) = hmac prk (hkdf_t hmac prk info i @ info @ [word_of_nat (Suc i)])"

text \<open>The first \<open>len\<close> bytes of T(1), T(2), ... up to T(n), where n times the hash length reaches \<open>len\<close>.\<close>

definition hkdf_okm :: "(bytes \<Rightarrow> bytes \<Rightarrow> bytes) \<Rightarrow> nat \<Rightarrow> bytes \<Rightarrow> bytes \<Rightarrow> nat \<Rightarrow> bytes" where
  "hkdf_okm hmac hash_len prk info len =
     take len (concat (map (hkdf_t hmac prk info) [1..<Suc ((len + hash_len - 1) div hash_len)]))"

definition hash_len_ok :: "(bytes \<Rightarrow> bytes \<Rightarrow> bytes) \<Rightarrow> nat \<Rightarrow> bool" where
  "hash_len_ok hmac hash_len \<longleftrightarrow>
     16 \<le> hash_len \<and> hash_len \<le> OKM_MAX_LEN \<and> (\<forall>k m. length (hmac k m) = hash_len)"

text \<open>What a provider does by the standard, for the HMAC of a hash function.\<close>

definition rfc5869 :: "hkdf_provider \<Rightarrow> (bytes \<Rightarrow> bytes \<Rightarrow> bytes) \<Rightarrow> nat \<Rightarrow> bool" where
  "rfc5869 p hmac hash_len \<longleftrightarrow>
     hash_len_ok hmac hash_len \<and> hk_hash_len p = hash_len \<and>
     (\<forall>salt. hk_extract_from_zero_ikm p salt =
        Ret (hmac (case salt of Some s \<Rightarrow> s | None \<Rightarrow> replicate hash_len 0) (replicate hash_len 0))) \<and>
     (\<forall>salt secret. hk_extract_from_secret p salt secret =
        Ret (hmac (case salt of Some s \<Rightarrow> s | None \<Rightarrow> replicate hash_len 0) secret)) \<and>
     (\<forall>okm. hk_expander_for_okm p okm = okm) \<and>
     (\<forall>key message. hk_hmac_sign p key message = Ret (hmac key message)) \<and>
     (\<forall>prk info len. hk_expand_slice p prk info len =
        (if len \<le> 255 * hash_len then Ret (hkdf_okm hmac hash_len prk (concat info) len) else Err ())) \<and>
     (\<forall>prk info. hk_expand_block p prk info = Ret (hkdf_okm hmac hash_len prk (concat info) hash_len))"

text \<open>What is known of \<open>ring\<close>: it documents RFC 5869.\<close>

definition ring_hkdf_laws :: "ring_hkdf \<Rightarrow> bool" where
  "ring_hkdf_laws r \<longleftrightarrow>
     hash_len_ok (rh_hmac r) (rh_len r) \<and>
     (\<forall>salt ikm. rh_extract r salt ikm = rh_hmac r salt ikm) \<and>
     (\<forall>prk info len. rh_expand r prk info len =
        (if len \<le> 255 * rh_len r then Some (hkdf_okm (rh_hmac r) (rh_len r) prk info len) else None))"

section \<open>Lemmas\<close>

lemma hkdf_t_length: "hash_len_ok hmac hl \<Longrightarrow> length (hkdf_t hmac prk info (Suc i)) = hl"
  by (simp add: hash_len_ok_def)

lemma ceil_div_step:
  assumes "0 < hl" and "0 < (left::nat)"
  shows "(left + hl - 1) div hl = Suc ((left - min hl left + hl - 1) div hl)"
proof -
  have "left + hl - 1 = (left - 1) + hl" using assms by simp
  then have "(left + hl - 1) div hl = Suc ((left - 1) div hl)" using assms by (simp only: div_add_self2)
  then show ?thesis using assms by (cases "hl \<le> left") auto
qed

lemma expand_chunks_rfc:
  assumes "hash_len_ok (hm_sign h) (hm_len h)"
  shows "(expand_chunks h key info (hkdf_t (hm_sign h) key (concat info) n) n left :: ('e, bytes) outcome) =
    Ret (take left (concat (map (hkdf_t (hm_sign h) key (concat info)) [Suc n..<Suc n + (left + hm_len h - 1) div hm_len h])))"
proof (induction left arbitrary: n rule: less_induct)
  case (less left)
  have pos: "0 < hm_len h" and len: "\<And>k m. length (hm_sign h k m) = hm_len h" using assms by (auto simp: hash_len_ok_def)
  show ?case
  proof (cases "left = 0")
    case True
    then show ?thesis by (simp add: expand_chunks.simps)
  next
    case False
    define len where "len = min (hm_len h) left"
    define T where "T = hkdf_t (hm_sign h) key (concat info)"
    have T: "T (Suc n) = hm_sign h key (T n @ concat info @ [word_of_nat (n + 1)])" by (simp add: T_def)
    have lt: "left - len < left" using False pos by (simp add: len_def)
    have tl: "length (T (Suc n)) = hm_len h" by (simp add: T len del: of_nat_Suc)
    have ih: "(expand_chunks h key info (T (Suc n)) (Suc n) (left - len) :: ('e, bytes) outcome) =
      Ret (take (left - len) (concat (map T [Suc (Suc n)..<Suc (Suc n) + (left - len + hm_len h - 1) div hm_len h])))"
      using less.IH [OF lt, of "Suc n"] unfolding T_def .
    have steps: "[Suc n..<Suc n + (left + hm_len h - 1) div hm_len h] =
      Suc n # [Suc (Suc n)..<Suc (Suc n) + (left - len + hm_len h - 1) div hm_len h]"
      using ceil_div_step [OF pos, of left] False by (simp add: len_def upt_rec)
    have cut: "take left (T (Suc n) @ xs) = take len (T (Suc n)) @ take (left - len) xs" for xs
      using tl by (auto simp: len_def min_def)
    have "(expand_chunks h key info (T n) n left :: ('e, bytes) outcome) =
      bnd (slice (T (Suc n)) 0 len) (\<lambda>chunk. bnd (expand_chunks h key info (T (Suc n)) (Suc n) (left - len)) (\<lambda>rest. Ret (chunk @ rest)))"
      by (subst expand_chunks.simps) (use False pos in \<open>simp add: len_def T Let_def del: of_nat_Suc\<close>)
    also have "\<dots> = Ret (take left (concat (map T [Suc n..<Suc n + (left + hm_len h - 1) div hm_len h])))"
      unfolding steps list.map concat.simps cut ih
      using tl by (simp add: slice_def len_def)
    finally show ?thesis by (simp add: T_def)
  qed
qed

lemma expand_unchecked_rfc:
  assumes "hash_len_ok (hm_sign h) (hm_len h)"
  shows "expand_unchecked h key info len = Ret (hkdf_okm (hm_sign h) (hm_len h) key (concat info) len)"
  using expand_chunks_rfc [OF assms, of key info 0 len] assms
  by (auto simp: expand_unchecked_def hkdf_okm_def hash_len_ok_def)

lemma hkdf_okm_length:
  assumes "hash_len_ok hmac hl"
  shows "length (hkdf_okm hmac hl prk info len) = len"
proof -
  have pos: "0 < hl" using assms by (simp add: hash_len_ok_def)
  define n where "n = (len + hl - 1) div hl"
  have "length (concat (map (hkdf_t hmac prk info) [Suc 0..<Suc k])) = k * hl" for k
    using hkdf_t_length [OF assms] by (induction k) auto
  then have all: "length (concat (map (hkdf_t hmac prk info) [Suc 0..<Suc n])) = n * hl" .
  have "len + hl - 1 < n * hl + hl"
    using dividend_less_div_times [OF pos, of "len + hl - 1"] by (simp add: n_def)
  then have "len \<le> n * hl" using pos by simp
  with all show ?thesis by (simp add: hkdf_okm_def n_def)
qed

lemma hkdf_okm_one:
  assumes "hash_len_ok hmac hl" and "0 < len" and "len \<le> hl"
  shows "hkdf_okm hmac hl prk info len = take len (hmac prk (info @ [1]))"
proof -
  have "(len + hl - 1) div hl = 1"
    using assms(2,3) by (intro div_nat_eqI) auto
  then show ?thesis by (simp add: hkdf_okm_def)
qed

lemma using_hmac_rfc5869:
  fixes h :: hmac_alg
  assumes ok: "hash_len_ok (hm_sign h) (hm_len h)"
  shows "rfc5869 (hkdf_using_hmac h) (hm_sign h) (hm_len h)"
  using ok
  by (auto simp: rfc5869_def hkdf_using_hmac_def expand_unchecked_rfc [OF ok] hkdf_okm_length [OF ok] okm_new_def slice_def hmac_salt_def
      hash_len_ok_def split: option.split)

lemma ring_rfc5869:
  fixes r :: ring_hkdf
  assumes ok: "ring_hkdf_laws r"
  shows "rfc5869 (ring_hkdf_provider r) (rh_hmac r) (rh_len r)"
  using ok hkdf_okm_length [of "rh_hmac r" "rh_len r"]
  by (auto simp: rfc5869_def ring_hkdf_provider_def ring_hkdf_laws_def okm_new_def slice_def ring_salt_def
      hash_len_ok_def split: option.split)

lemma expand_label_info_concat: "concat (expand_label_info label context n) = label_info label context n"
  by (simp add: expand_label_info_def label_info_def Let_def)

text \<open>An expansion of RFC 8446 with a hash function of any length.\<close>

definition rfc_expand_label :: "(bytes \<Rightarrow> bytes \<Rightarrow> bytes) \<Rightarrow> nat \<Rightarrow> bytes \<Rightarrow> bytes \<Rightarrow> bytes \<Rightarrow> nat \<Rightarrow> bytes" where
  "rfc_expand_label hmac hash_len secret label context len = hkdf_okm hmac hash_len secret (hkdf_label len label context) len"

lemma label_info_hkdf_label: "label_info label context n = hkdf_label n label context"
  by (simp add: label_info_def hkdf_label_def vec8_def Let_def)

lemma expand_label_block_rfc:
  "rfc5869 p hmac hl \<Longrightarrow> expand_label_block p prk label context = Ret (rfc_expand_label hmac hl prk label context hl)"
  by (simp add: expand_label_block_def rfc5869_def expand_label_info_concat label_info_hkdf_label rfc_expand_label_def)

lemma expand_label_array_rfc:
  "rfc5869 p hmac hl \<Longrightarrow> n \<le> 255 * hl \<Longrightarrow> expand_label_array p prk label context n = Ret (rfc_expand_label hmac hl prk label context n)"
  by (simp add: expand_label_array_def expand_array_def rfc5869_def expand_label_info_concat label_info_hkdf_label rfc_expand_label_def)

text \<open>Expanding further only appends.\<close>

lemma hkdf_okm_prefix:
  assumes ok: "hash_len_ok hmac hl" and le: "n \<le> m"
  shows "take n (hkdf_okm hmac hl prk info m) = hkdf_okm hmac hl prk info n"
proof -
  have pos: "0 < hl" using ok by (simp add: hash_len_ok_def)
  define T where "T = hkdf_t hmac prk info"
  define a where "a = (n + hl - 1) div hl"
  define b where "b = (m + hl - 1) div hl"
  have ab: "a \<le> b" using le unfolding a_def b_def by (intro div_le_mono) simp
  have split: "[1..<Suc b] = [1..<Suc a] @ [Suc a..<Suc b]"
    using upt_add_eq_append [of 1 "Suc a" "b - a"] ab by simp
  have "length (concat (map T [Suc 0..<Suc k])) = k * hl" for k
    unfolding T_def using hkdf_t_length [OF ok] by (induction k) auto
  then have "length (concat (map T [1..<Suc a])) = a * hl" by simp
  moreover have "n \<le> a * hl"
    using dividend_less_div_times [OF pos, of "n + hl - 1"] pos by (simp add: a_def)
  ultimately have "take n (concat (map T [1..<Suc b])) = take n (concat (map T [1..<Suc a]))"
    unfolding split by simp
  then show ?thesis using le by (simp add: hkdf_okm_def T_def a_def b_def min_def)
qed

lemma expand_label_aead_key_rfc:
  assumes p: "rfc5869 p hmac hl" and len: "key_len \<le> AEAD_KEY_MAX_LEN"
  shows "expand_label_aead_key p prk key_len label context = Ret (rfc_expand_label hmac hl prk label context key_len)"
proof -
  have ok: "hash_len_ok hmac hl" using p by (simp add: rfc5869_def)
  have "AEAD_KEY_MAX_LEN \<le> 255 * hl" using ok by (simp add: hash_len_ok_def AEAD_KEY_MAX_LEN_def)
  then show ?thesis
    using p len hkdf_okm_prefix [OF ok len] hkdf_okm_length [OF ok]
    by (simp add: expand_label_aead_key_def expand_array_def rfc5869_def expand_label_info_concat label_info_hkdf_label
        rfc_expand_label_def aead_key_with_length_def)
qed

lemma rfc_expand_label_length:
  "hash_len_ok hmac hl \<Longrightarrow> length (rfc_expand_label hmac hl secret label context n) = n"
  by (simp add: rfc_expand_label_def hkdf_okm_length)

end
