(* ===== verification/Rustls_Suites.thy ===== *)
theory Rustls_Suites
  imports Rustls_Hkdf
begin

text \<open>
  Cipher suites of the TLS library (\<open>rustls-reality/rustls/src/suites.rs\<close>, \<open>tls13/mod.rs\<close>, the suites of \<open>crypto/ring/tls13.rs\<close>) and how a
  server chooses one. A suite carries its hash function and its HKDF provider, which come from the crypto packages; its AEAD
  is the one of the record \<open>prims\<close> the connection is given.
\<close>

section \<open>Sides and protocols\<close>

datatype side = SideClient | SideServer

fun side_peer :: "side \<Rightarrow> side" where
  "side_peer SideClient = SideServer"
| "side_peer SideServer = SideClient"

datatype rl_protocol = ProtoTcp | ProtoQuic

section \<open>Suites\<close>

record suite_common =
  sc_suite :: cipher_suite
  sc_hash :: "bytes \<Rightarrow> bytes"
  sc_hash_algorithm :: u8
  sc_confidentiality_limit :: u64
  sc_integrity_limit :: u64

datatype aead_algorithm = Aes128GcmAead | Aes256GcmAead | Chacha20Poly1305Aead

text \<open>The lengths of the keys in \<open>ring\<close>.\<close>

fun aead_key_len :: "aead_algorithm \<Rightarrow> nat" where
  "aead_key_len Aes128GcmAead = 16"
| "aead_key_len Aes256GcmAead = 32"
| "aead_key_len Chacha20Poly1305Aead = 32"

text \<open>\<open>t13_quic\<close> says whether the suite has a QUIC algorithm.\<close>

record tls13_suite =
  t13_common :: suite_common
  t13_hkdf :: hkdf_provider
  t13_aead :: aead_algorithm
  t13_quic :: bool

record tls12_suite =
  t12_common :: suite_common
  t12_sign :: "signature_scheme list"

datatype supported_suite = Tls12 tls12_suite | Tls13 tls13_suite

fun suite_common_of :: "supported_suite \<Rightarrow> suite_common" where
  "suite_common_of (Tls12 inner) = t12_common inner"
| "suite_common_of (Tls13 inner) = t13_common inner"

definition suite_id :: "supported_suite \<Rightarrow> cipher_suite" where
  "suite_id self = sc_suite (suite_common_of self)"

fun suite_version :: "supported_suite \<Rightarrow> rl_version" where
  "suite_version (Tls12 _) = PV_TLSv1_2"
| "suite_version (Tls13 _) = PV_TLSv1_3"

fun usable_for_signature_algorithm :: "supported_suite \<Rightarrow> signature_algorithm \<Rightarrow> bool" where
  "usable_for_signature_algorithm (Tls13 _) sig_alg = True"
| "usable_for_signature_algorithm (Tls12 inner) sig_alg = list_ex (\<lambda>scheme. ss_sign scheme = sig_alg) (t12_sign inner)"

definition usable_for_protocol :: "supported_suite \<Rightarrow> rl_protocol \<Rightarrow> bool" where
  "usable_for_protocol self proto =
     (case proto of
        ProtoTcp \<Rightarrow> True
      | ProtoQuic \<Rightarrow> (case self of Tls12 _ \<Rightarrow> False | Tls13 cs \<Rightarrow> t13_quic cs))"

definition can_resume_from :: "tls13_suite \<Rightarrow> tls13_suite \<Rightarrow> tls13_suite option" where
  "can_resume_from self prev =
     (if sc_hash_algorithm (t13_common prev) = sc_hash_algorithm (t13_common self) then Some prev else None)"

section \<open>Choosing a suite\<close>

fun choose_ciphersuite_preferring_client :: "cipher_suite list \<Rightarrow> supported_suite list \<Rightarrow> supported_suite option" where
  "choose_ciphersuite_preferring_client [] server_suites = None"
| "choose_ciphersuite_preferring_client (client_suite # client_suites) server_suites =
     (case find (\<lambda>x. client_suite = suite_id x) server_suites of
        Some selected \<Rightarrow> Some selected
      | None \<Rightarrow> choose_ciphersuite_preferring_client client_suites server_suites)"

definition choose_ciphersuite_preferring_server :: "cipher_suite list \<Rightarrow> supported_suite list \<Rightarrow> supported_suite option" where
  "choose_ciphersuite_preferring_server client_suites server_suites =
     find (\<lambda>x. suite_id x \<in> set client_suites) server_suites"

definition reduce_given_sigalg :: "supported_suite list \<Rightarrow> signature_algorithm \<Rightarrow> supported_suite list" where
  "reduce_given_sigalg all sigalg = filter (\<lambda>suite. usable_for_signature_algorithm suite sigalg) all"

definition reduce_given_version_and_protocol ::
  "supported_suite list \<Rightarrow> rl_version \<Rightarrow> rl_protocol \<Rightarrow> supported_suite list" where
  "reduce_given_version_and_protocol all version proto =
     filter (\<lambda>suite. suite_version suite = version \<and> usable_for_protocol suite proto) all"

definition compatible_sigscheme_for_suites :: "signature_scheme \<Rightarrow> supported_suite list \<Rightarrow> bool" where
  "compatible_sigscheme_for_suites sigscheme common_suites =
     (let sigalg = ss_sign sigscheme in list_ex (\<lambda>suite. usable_for_signature_algorithm suite sigalg) common_suites)"

section \<open>The suites of ring\<close>

definition tls13_suite_ring :: "cipher_suite \<Rightarrow> (bytes \<Rightarrow> bytes) \<Rightarrow> u8 \<Rightarrow> u64 \<Rightarrow> u64 \<Rightarrow> ring_hkdf \<Rightarrow> aead_algorithm \<Rightarrow> tls13_suite" where
  "tls13_suite_ring suite hash alg conf_limit int_limit hkdf aead =
     \<lparr>t13_common = \<lparr>sc_suite = suite, sc_hash = hash, sc_hash_algorithm = alg,
        sc_confidentiality_limit = conf_limit, sc_integrity_limit = int_limit\<rparr>,
      t13_hkdf = ring_hkdf_provider hkdf, t13_aead = aead, t13_quic = True\<rparr>"

text \<open>\<open>sha256\<close> and the HKDF of SHA-256 are those of the same package.\<close>

definition TLS13_CHACHA20_POLY1305_SHA256 :: "(bytes \<Rightarrow> bytes) \<Rightarrow> ring_hkdf \<Rightarrow> tls13_suite" where
  "TLS13_CHACHA20_POLY1305_SHA256 hash hkdf =
     tls13_suite_ring 0x1303 hash 0x04 0xffffffffffffffff (2 ^ 36) hkdf Chacha20Poly1305Aead"

definition TLS13_AES_256_GCM_SHA384 :: "(bytes \<Rightarrow> bytes) \<Rightarrow> ring_hkdf \<Rightarrow> tls13_suite" where
  "TLS13_AES_256_GCM_SHA384 hash hkdf = tls13_suite_ring 0x1302 hash 0x05 (2 ^ 23) (2 ^ 52) hkdf Aes256GcmAead"

definition TLS13_AES_128_GCM_SHA256 :: "(bytes \<Rightarrow> bytes) \<Rightarrow> ring_hkdf \<Rightarrow> tls13_suite" where
  "TLS13_AES_128_GCM_SHA256 hash hkdf = tls13_suite_ring 0x1301 hash 0x04 (2 ^ 23) (2 ^ 52) hkdf Aes128GcmAead"

section \<open>Lemmas\<close>

lemma find_SomeD: "find P xs = Some x \<Longrightarrow> x \<in> set xs \<and> P x"
  by (auto simp: find_Some_iff)

lemma preferring_client_chosen:
  "choose_ciphersuite_preferring_client cs ss = Some s \<Longrightarrow> s \<in> set ss \<and> suite_id s \<in> set cs"
  by (induction cs) (auto split: option.splits dest!: find_SomeD)

lemma preferring_server_chosen:
  "choose_ciphersuite_preferring_server cs ss = Some s \<Longrightarrow> s \<in> set ss \<and> suite_id s \<in> set cs"
  by (auto simp: choose_ciphersuite_preferring_server_def dest!: find_SomeD)

text \<open>Neither order misses a suite that both have.\<close>

lemma preferring_client_None:
  "choose_ciphersuite_preferring_client cs ss = None \<longleftrightarrow> (\<forall>s\<in>set ss. suite_id s \<notin> set cs)"
  by (induction cs) (auto simp: find_None_iff split: option.splits dest!: find_SomeD)

lemma preferring_server_None:
  "choose_ciphersuite_preferring_server cs ss = None \<longleftrightarrow> (\<forall>s\<in>set ss. suite_id s \<notin> set cs)"
  by (auto simp: choose_ciphersuite_preferring_server_def find_None_iff)

end
