(* ===== verification/Rustls_Common_State.thy ===== *)
theory Rustls_Common_State
  imports Rustls_Suites Rustls_Deframer Rustls_Vecbuf Rustls_Message_Payload
begin

text \<open>
  The state that client and server connections of the TLS library share (\<open>rustls-reality/rustls/src/common_state.rs\<close>), with its sending side:
  fragmenting, sealing and queueing of messages, alerts, the queued key update, plaintext kept until the handshake is done.

  A call changes the state also when it fails, so it is a function from a state to an outcome and a state. Sending a fragment
  may send a close alert first, which is itself sent in fragments: the code is recursive and the model a partial function, where
  \<open>None\<close> is a call that never returns.
\<close>

section \<open>Calls on a state\<close>

type_synonym ('s, 'a) cmd = "'s \<Rightarrow> ((rl_error, 'a) outcome \<times> 's) option"

definition cret :: "'a \<Rightarrow> ('s, 'a) cmd" where
  "cret x s = Some (Ret x, s)"

definition cfail :: "rl_error \<Rightarrow> ('s, 'a) cmd" where
  "cfail e s = Some (Err e, s)"

definition cbind :: "('s, 'a) cmd \<Rightarrow> ('a \<Rightarrow> ('s, 'b) cmd) \<Rightarrow> ('s, 'b) cmd" where
  "cbind m f s =
     Option.bind (m s) (\<lambda>(r, s'). case r of Ret x \<Rightarrow> f x s' | Err e \<Rightarrow> Some (Err e, s') | Panic \<Rightarrow> Some (Panic, s'))"

definition cmod :: "('s \<Rightarrow> 's) \<Rightarrow> ('s, unit) cmd" where
  "cmod g s = Some (Ret (), g s)"

definition cget :: "('s \<Rightarrow> 'a) \<Rightarrow> ('s, 'a) cmd" where
  "cget g s = Some (Ret (g s), s)"

text \<open>A call that does not change the state.\<close>

definition ccall :: "(rl_error, 'a) outcome \<Rightarrow> ('s, 'a) cmd" where
  "ccall r s = Some (r, s)"

section \<open>State\<close>

datatype quic_version = QuicV1Draft | QuicV1 | QuicV2

record quic_secrets =
  qs_client :: bytes
  qs_server :: bytes
  qs_suite :: tls13_suite
  qs_side :: side
  qs_version :: quic_version

record quic_state =
  qc_params :: "bytes option"
  qc_alert :: "alert_description option"
  qc_hs_queue :: "(bool \<times> bytes) list"
  qc_early_secret :: "bytes option"
  qc_hs_secrets :: "quic_secrets option"
  qc_traffic_secrets :: "quic_secrets option"
  qc_returned_traffic_keys :: bool
  qc_version :: quic_version

record common_state =
  co_negotiated_version :: "rl_version option"
  co_side :: side
  co_record_layer :: record_layer
  co_suite :: "supported_suite option"
  co_alpn_protocol :: "bytes option"
  co_aligned_handshake :: bool
  co_may_send :: bool
  co_may_receive :: bool
  co_early_traffic :: bool
  co_sent_fatal_alert :: bool
  co_has_received_close_notify :: bool
  co_has_seen_eof :: bool
  co_received_middlebox_ccs :: u8
  co_peer_certificates :: "bytes list option"
  co_fragmenter :: message_fragmenter
  co_received_plaintext :: chunk_vec_buffer
  co_sendable_plaintext :: chunk_vec_buffer
  co_sendable_tls :: chunk_vec_buffer
  co_queued_key_update :: "bytes option"
  co_protocol :: rl_protocol
  co_quic :: quic_state
  co_enable_secret_extraction :: bool

definition quic_default :: quic_state where
  "quic_default = \<lparr>qc_params = None, qc_alert = None, qc_hs_queue = [], qc_early_secret = None, qc_hs_secrets = None,
     qc_traffic_secrets = None, qc_returned_traffic_keys = False, qc_version = QuicV1\<rparr>"

definition DEFAULT_RECEIVED_PLAINTEXT_LIMIT :: nat where
  "DEFAULT_RECEIVED_PLAINTEXT_LIMIT = 16 * 1024"

definition DEFAULT_BUFFER_LIMIT :: nat where
  "DEFAULT_BUFFER_LIMIT = 64 * 1024"

definition common_state_new :: "side \<Rightarrow> common_state" where
  "common_state_new side =
     \<lparr>co_negotiated_version = None, co_side = side, co_record_layer = record_layer_new, co_suite = None, co_alpn_protocol = None,
      co_aligned_handshake = True, co_may_send = False, co_may_receive = False, co_early_traffic = False,
      co_sent_fatal_alert = False, co_has_received_close_notify = False, co_has_seen_eof = False,
      co_received_middlebox_ccs = 0, co_peer_certificates = None, co_fragmenter = fragmenter_default,
      co_received_plaintext = cvb_new (Some DEFAULT_RECEIVED_PLAINTEXT_LIMIT),
      co_sendable_plaintext = cvb_new (Some DEFAULT_BUFFER_LIMIT), co_sendable_tls = cvb_new (Some DEFAULT_BUFFER_LIMIT),
      co_queued_key_update = None, co_protocol = ProtoTcp, co_quic = quic_default, co_enable_secret_extraction = False\<rparr>"

section \<open>Queries\<close>

definition wants_write :: "common_state \<Rightarrow> bool" where
  "wants_write self \<longleftrightarrow> \<not> cvb_is_empty (co_sendable_tls self)"

definition is_handshaking :: "common_state \<Rightarrow> bool" where
  "is_handshaking self \<longleftrightarrow> \<not> (co_may_send self \<and> co_may_receive self)"

definition is_tls13 :: "common_state \<Rightarrow> bool" where
  "is_tls13 self \<longleftrightarrow> co_negotiated_version self = Some PV_TLSv1_3"

definition is_quic :: "common_state \<Rightarrow> bool" where
  "is_quic self \<longleftrightarrow> co_protocol self = ProtoQuic"

definition wants_read :: "common_state \<Rightarrow> bool" where
  "wants_read self \<longleftrightarrow>
     cvb_is_empty (co_received_plaintext self) \<and> \<not> co_has_received_close_notify self
     \<and> (co_may_send self \<or> cvb_is_empty (co_sendable_tls self))"

record io_state =
  io_tls_bytes_to_write :: nat
  io_plaintext_bytes_to_read :: nat
  io_peer_has_closed :: bool

definition current_io_state :: "common_state \<Rightarrow> io_state" where
  "current_io_state self =
     \<lparr>io_tls_bytes_to_write = cvb_len (co_sendable_tls self), io_plaintext_bytes_to_read = cvb_len (co_received_plaintext self),
      io_peer_has_closed = co_has_received_close_notify self\<rparr>"

section \<open>Sending messages\<close>

definition queue_tls_message :: "common_state \<Rightarrow> opaque_message \<Rightarrow> common_state" where
  "queue_tls_message self m = self \<lparr>co_sendable_tls := snd (cvb_append (co_sendable_tls self) (opaque_encode m))\<rparr>"

definition quic_alert :: "common_state \<Rightarrow> alert_description \<Rightarrow> common_state" where
  "quic_alert self desc = self \<lparr>co_quic := (co_quic self) \<lparr>qc_alert := Some desc\<rparr>\<rparr>"

text \<open>\<open>send_msg\<close>, with the loop that seals and queues fragments as an argument.\<close>

definition send_msg_using ::
  "(plain_message list \<Rightarrow> (common_state, unit) cmd) \<Rightarrow> message \<Rightarrow> bool \<Rightarrow> (common_state, unit) cmd" where
  "send_msg_using send m must_encrypt self =
     (if co_protocol self = ProtoQuic then
        (case msg_payload m of
           MP_Alert alert \<Rightarrow> Some (Ret (), quic_alert self (am_description alert))
         | _ \<Rightarrow> Some (Ret (), self \<lparr>co_quic := (co_quic self)
                  \<lparr>qc_hs_queue := qc_hs_queue (co_quic self) @ [(must_encrypt, mp_encode (msg_payload m))]\<rparr>\<rparr>))
      else
        (case fragment_message (co_fragmenter self) (message_into_plain m) of
           Ret ms \<Rightarrow>
             if \<not> must_encrypt then Some (Ret (), foldl (\<lambda>self m. queue_tls_message self (into_unencrypted_opaque m)) self ms)
             else send ms self
         | Err e \<Rightarrow> Some (Err e, self)
         | Panic \<Rightarrow> Some (Panic, self)))"

lemma send_msg_using_mono [partial_function_mono]:
  assumes "\<And>ms s. mono_option (\<lambda>f. send f ms s)"
  shows "mono_option (\<lambda>f. send_msg_using (send f) m must_encrypt self)"
  using assms unfolding send_msg_using_def
  by (cases "fragment_message (co_fragmenter self) (message_into_plain m)") (auto simp: monotone_def flat_ord_def)

text \<open>The loop of \<open>send_msg_encrypt\<close> and \<open>send_appdata_encrypt\<close> over the fragments, with \<open>send_single_fragment\<close> for each;
  close to the end of the sequence numbers a close alert is sent first, by \<open>send_close_notify\<close>.\<close>

partial_function (option) send_fragments :: "prims \<Rightarrow> plain_message list \<Rightarrow> (common_state, unit) cmd" where
  "send_fragments c ms self =
     (case ms of
        [] \<Rightarrow> Some (Ret (), self)
      | m # rest \<Rightarrow>
          Option.bind
            (if wants_close_before_encrypt (co_record_layer self) then
               send_msg_using (\<lambda>ms self. send_fragments c ms self) (build_alert AL_Warning AD_CloseNotify)
                 (is_encrypting (co_record_layer self)) self
             else Some (Ret (), self))
            (\<lambda>(r, self).
               case r of
                 Ret _ \<Rightarrow>
                   if encrypt_exhausted (co_record_layer self) then send_fragments c rest self
                   else
                     (case encrypt_outgoing c (co_record_layer self) m of
                        Ret (em, rl) \<Rightarrow> send_fragments c rest (queue_tls_message (self \<lparr>co_record_layer := rl\<rparr>) em)
                      | _ \<Rightarrow> Some (Panic, self))
               | Err e \<Rightarrow> Some (Err e, self)
               | Panic \<Rightarrow> Some (Panic, self)))"

definition send_msg :: "prims \<Rightarrow> message \<Rightarrow> bool \<Rightarrow> (common_state, unit) cmd" where
  "send_msg c = send_msg_using (send_fragments c)"

definition send_msg_encrypt :: "prims \<Rightarrow> plain_message \<Rightarrow> (common_state, unit) cmd" where
  "send_msg_encrypt c m self =
     cbind (ccall (fragment_message (co_fragmenter self) m)) (send_fragments c) self"

section \<open>Alerts\<close>

definition send_warning_alert :: "prims \<Rightarrow> alert_description \<Rightarrow> (common_state, unit) cmd" where
  "send_warning_alert c desc self =
     send_msg c (build_alert AL_Warning desc) (is_encrypting (co_record_layer self)) self"

definition send_close_notify :: "prims \<Rightarrow> (common_state, unit) cmd" where
  "send_close_notify c = send_warning_alert c AD_CloseNotify"

text \<open>The error it returns is returned by every caller.\<close>

definition send_fatal_alert :: "prims \<Rightarrow> alert_description \<Rightarrow> rl_error \<Rightarrow> (common_state, 'a) cmd" where
  "send_fatal_alert c desc err self =
     cbind (send_msg c (build_alert AL_Fatal desc) (is_encrypting (co_record_layer self))) (\<lambda>_.
     cbind (cmod (\<lambda>self. self \<lparr>co_sent_fatal_alert := True\<rparr>)) (\<lambda>_.
     cfail err)) self"

definition missing_extension :: "prims \<Rightarrow> peer_misbehaved \<Rightarrow> (common_state, 'a) cmd" where
  "missing_extension c why = send_fatal_alert c AD_MissingExtension (PeerMisbehaved why)"

definition send_cert_verify_error_alert :: "prims \<Rightarrow> rl_error \<Rightarrow> (common_state, 'a) cmd" where
  "send_cert_verify_error_alert c err =
     send_fatal_alert c
       (case err of
          InvalidCertificate e \<Rightarrow> certificate_error_alert e
        | PeerMisbehaved _ \<Rightarrow> AD_IllegalParameter
        | _ \<Rightarrow> AD_HandshakeFailure) err"

definition check_aligned_handshake :: "prims \<Rightarrow> (common_state, unit) cmd" where
  "check_aligned_handshake c self =
     (if \<not> co_aligned_handshake self
      then send_fatal_alert c AD_UnexpectedMessage (PeerMisbehaved PM_KeyEpochWithPendingFragment) self
      else cret () self)"

definition process_alert :: "prims \<Rightarrow> alert_message \<Rightarrow> (common_state, unit) cmd" where
  "process_alert c alert self =
     (case am_level alert of
        AL_Unknown _ \<Rightarrow> send_fatal_alert c AD_IllegalParameter (AlertReceived (am_description alert)) self
      | _ \<Rightarrow>
          if am_description alert = AD_CloseNotify then cret () (self \<lparr>co_has_received_close_notify := True\<rparr>)
          else if am_level alert = AL_Warning then
            (if is_tls13 self \<and> am_description alert \<noteq> AD_UserCanceled
             then send_fatal_alert c AD_DecodeError (AlertReceived (am_description alert)) self
             else cret () self)
          else cfail (AlertReceived (am_description alert)) self)"

section \<open>Sending application data\<close>

datatype limit = LimitYes | LimitNo

definition send_appdata_encrypt :: "prims \<Rightarrow> bytes \<Rightarrow> limit \<Rightarrow> (common_state, nat) cmd" where
  "send_appdata_encrypt c payload limit self =
     (let len = (case limit of LimitYes \<Rightarrow> apply_limit (co_sendable_tls self) (length payload) | LimitNo \<Rightarrow> length payload) in
      cbind (ccall (slice payload 0 len)) (\<lambda>part.
      cbind (ccall (fragment_slice (co_fragmenter self) CT_ApplicationData PV_TLSv1_2 part)) (\<lambda>ms.
      cbind (send_fragments c ms) (\<lambda>_.
      cret len))) self)"

definition send_plain :: "prims \<Rightarrow> bytes \<Rightarrow> limit \<Rightarrow> (common_state, nat) cmd" where
  "send_plain c data limit self =
     (if \<not> co_may_send self then
        (case (case limit of
                 LimitYes \<Rightarrow> append_limited_copy (co_sendable_plaintext self) data
               | LimitNo \<Rightarrow> cvb_append (co_sendable_plaintext self) data) of
           (len, buf) \<Rightarrow> Some (Ret len, self \<lparr>co_sendable_plaintext := buf\<rparr>))
      else if data = [] then Some (Ret 0, self)
      else send_appdata_encrypt c data limit self)"

definition send_early_plaintext :: "prims \<Rightarrow> bytes \<Rightarrow> (common_state, nat) cmd" where
  "send_early_plaintext c data self =
     (if data = [] then Some (Ret 0, self) else send_appdata_encrypt c data LimitYes self)"

definition perhaps_write_key_update :: "common_state \<Rightarrow> common_state" where
  "perhaps_write_key_update self =
     (case co_queued_key_update self of
        Some message \<Rightarrow>
          self \<lparr>co_queued_key_update := None, co_sendable_tls := snd (cvb_append (co_sendable_tls self) message)\<rparr>
      | None \<Rightarrow> self)"

definition send_some_plaintext :: "prims \<Rightarrow> bytes \<Rightarrow> (common_state, nat) cmd" where
  "send_some_plaintext c data self = send_plain c data LimitYes (perhaps_write_key_update self)"

text \<open>The loop of \<open>flush_plaintext\<close>, one buffered chunk at a time.\<close>

partial_function (option) flush_loop :: "prims \<Rightarrow> (common_state, unit) cmd" where
  "flush_loop c self =
     (case cvb_pop (co_sendable_plaintext self) of
        (None, buf) \<Rightarrow> Some (Ret (), self)
      | (Some data, buf) \<Rightarrow>
          Option.bind (send_plain c data LimitNo (self \<lparr>co_sendable_plaintext := buf\<rparr>))
            (\<lambda>(r, self).
               case r of
                 Ret _ \<Rightarrow> flush_loop c self
               | Err e \<Rightarrow> Some (Err e, self)
               | Panic \<Rightarrow> Some (Panic, self)))"

definition flush_plaintext :: "prims \<Rightarrow> (common_state, unit) cmd" where
  "flush_plaintext c self = (if \<not> co_may_send self then Some (Ret (), self) else flush_loop c self)"

definition start_outgoing_traffic :: "prims \<Rightarrow> (common_state, unit) cmd" where
  "start_outgoing_traffic c self = flush_plaintext c (self \<lparr>co_may_send := True\<rparr>)"

definition start_traffic :: "prims \<Rightarrow> (common_state, unit) cmd" where
  "start_traffic c self = start_outgoing_traffic c (self \<lparr>co_may_receive := True\<rparr>)"

definition set_buffer_limit :: "common_state \<Rightarrow> nat option \<Rightarrow> common_state" where
  "set_buffer_limit self limit =
     self \<lparr>co_sendable_plaintext := cvb_set_limit (co_sendable_plaintext self) limit,
           co_sendable_tls := cvb_set_limit (co_sendable_tls self) limit\<rparr>"

definition co_set_max_fragment_size :: "common_state \<Rightarrow> nat option \<Rightarrow> (rl_error, common_state) outcome" where
  "co_set_max_fragment_size self new =
     bnd (set_max_fragment_size (co_fragmenter self) new) (\<lambda>fr. Ret (self \<lparr>co_fragmenter := fr\<rparr>))"

definition take_received_plaintext :: "common_state \<Rightarrow> bytes \<Rightarrow> common_state" where
  "take_received_plaintext self bs = self \<lparr>co_received_plaintext := snd (cvb_append (co_received_plaintext self) bs)\<rparr>"

section \<open>Key updates\<close>

definition should_update_key :: "prims \<Rightarrow> key_update_request \<Rightarrow> (common_state, bool) cmd" where
  "should_update_key c key_update_request self =
     (case key_update_request of
        KUR_UpdateNotRequested \<Rightarrow> cret False self
      | KUR_UpdateRequested \<Rightarrow> cret (co_queued_key_update self = None) self
      | _ \<Rightarrow> send_fatal_alert c AD_IllegalParameter (RlInvalidMessage InvalidKeyUpdate) self)"

definition enqueue_key_update_notification :: "prims \<Rightarrow> (common_state, unit) cmd" where
  "enqueue_key_update_notification c self =
     (case encrypt_outgoing c (co_record_layer self) (message_into_plain message_key_update_notify) of
        Ret (em, rl) \<Rightarrow> Some (Ret (), self \<lparr>co_record_layer := rl, co_queued_key_update := Some (opaque_encode em)\<rparr>)
      | Err e \<Rightarrow> Some (Err e, self)
      | Panic \<Rightarrow> Some (Panic, self))"

section \<open>What the theorems speak about\<close>

text \<open>A connection over TCP that seals what it sends with keys of TLS 1.3.\<close>

definition sealing :: "common_state \<Rightarrow> bool" where
  "sealing self \<longleftrightarrow>
     co_protocol self = ProtoTcp \<and> frag_ok (co_fragmenter self) \<and> is_encrypting (co_record_layer self)
     \<and> (case rl_encrypter (co_record_layer self) of Tls13MessageEncrypter key iv \<Rightarrow> length iv = 12 | _ \<Rightarrow> False)"

text \<open>Sealing one message after the other.\<close>

fun seal_all :: "prims \<Rightarrow> record_layer \<Rightarrow> plain_message list \<Rightarrow> (rl_error, opaque_message list \<times> record_layer) outcome" where
  "seal_all c rl [] = Ret ([], rl)"
| "seal_all c rl (m # ms) =
     bnd (encrypt_outgoing c rl m) (\<lambda>(em, rl). bnd (seal_all c rl ms) (\<lambda>(ems, rl). Ret (em # ems, rl)))"

definition queue_all :: "common_state \<Rightarrow> opaque_message list \<Rightarrow> common_state" where
  "queue_all self ems = foldl queue_tls_message self ems"

abbreviation write_seq :: "common_state \<Rightarrow> nat" where
  "write_seq self \<equiv> unat (rl_write_seq (co_record_layer self))"

abbreviation soft_limit :: nat where
  "soft_limit \<equiv> unat SEQ_SOFT_LIMIT"

section \<open>Lemmas\<close>

lemma cbind_simps [simp]:
  "cbind (cret x) f s = f x s"
  "cbind (cfail e) f s = cfail e s"
  "cbind (cmod g) k s = k () (g s)"
  "cbind (cget h) f s = f (h s) s"
  "cbind (ccall (Ret x)) f s = f x s"
  "cbind (ccall (Err e)) f s = Some (Err e, s)"
  "cbind (ccall Panic) f s = Some (Panic, s)"
  by (simp_all add: cbind_def cret_def cfail_def cmod_def cget_def ccall_def)

lemma cbind_Some:
  "m s = Some (Ret x, s') \<Longrightarrow> cbind m f s = f x s'"
  "m s = Some (Err e, s') \<Longrightarrow> cbind m f s = Some (Err e, s')"
  "m s = Some (Panic, s') \<Longrightarrow> cbind m f s = Some (Panic, s')"
  "m s = None \<Longrightarrow> cbind m f s = None"
  by (simp_all add: cbind_def)

lemma cbind_Ret_iff: "cbind m f s = Some (Ret y, s'') \<longleftrightarrow> (\<exists>x s'. m s = Some (Ret x, s') \<and> f x s' = Some (Ret y, s''))"
  by (cases "m s") (auto simp: cbind_def split: outcome.splits)

lemma alert_fragments:
  assumes "frag_ok f"
  shows "fragment_message f (message_into_plain (build_alert level desc)) = Ret [message_into_plain (build_alert level desc)]"
proof -
  have n: "max_frag f \<noteq> 0" "2 \<le> max_frag f" using assms by (auto simp: frag_ok_def)
  then show ?thesis
    by (simp add: fragment_message_def fragment_slice_def message_into_plain_def build_alert_def alert_encode_def chunks.simps)
qed

lemma queue_tls_message_fields [simp]:
  "co_record_layer (queue_tls_message self m) = co_record_layer self"
  "co_protocol (queue_tls_message self m) = co_protocol self"
  "co_fragmenter (queue_tls_message self m) = co_fragmenter self"
  "co_may_send (queue_tls_message self m) = co_may_send self"
  "co_sendable_plaintext (queue_tls_message self m) = co_sendable_plaintext self"
  "cvb_bytes (co_sendable_tls (queue_tls_message self m)) = cvb_bytes (co_sendable_tls self) @ opaque_encode m"
  by (simp_all add: queue_tls_message_def)

lemma queue_all_fields [simp]:
  "co_record_layer (queue_all self ems) = co_record_layer self"
  "co_protocol (queue_all self ems) = co_protocol self"
  "co_fragmenter (queue_all self ems) = co_fragmenter self"
  "co_may_send (queue_all self ems) = co_may_send self"
  "co_sendable_plaintext (queue_all self ems) = co_sendable_plaintext self"
  "cvb_bytes (co_sendable_tls (queue_all self ems)) = cvb_bytes (co_sendable_tls self) @ concat (map opaque_encode ems)"
  unfolding queue_all_def by (induction ems arbitrary: self) simp_all

subsection \<open>Where sending does not return\<close>

text \<open>At the soft limit the alert is sent by the same loop, in the same state.\<close>

lemma send_fragments_stuck:
  "send_fragments c ms self = Some r \<Longrightarrow> ms \<noteq> [] \<longrightarrow> sealing self \<longrightarrow> \<not> wants_close_before_encrypt (co_record_layer self)"
proof (rule send_fragments.raw_induct [of "\<lambda>c ms self r. ms \<noteq> [] \<longrightarrow> sealing self \<longrightarrow> \<not> wants_close_before_encrypt (co_record_layer self)"])
  fix f c ms self r
  assume IH: "\<And>c ms self r. f c ms self = Some r \<Longrightarrow> ms \<noteq> [] \<longrightarrow> sealing self \<longrightarrow> \<not> wants_close_before_encrypt (co_record_layer self)"
    and body: "(case ms of
        [] \<Rightarrow> Some (Ret (), self)
      | m # rest \<Rightarrow>
          Option.bind
            (if wants_close_before_encrypt (co_record_layer self) then
               send_msg_using (\<lambda>ms self. f c ms self) (build_alert AL_Warning AD_CloseNotify)
                 (is_encrypting (co_record_layer self)) self
             else Some (Ret (), self))
            (\<lambda>(r, self).
               case r of
                 Ret _ \<Rightarrow>
                   if encrypt_exhausted (co_record_layer self) then f c rest self
                   else
                     (case encrypt_outgoing c (co_record_layer self) m of
                        Ret (em, rl) \<Rightarrow> f c rest (queue_tls_message (self \<lparr>co_record_layer := rl\<rparr>) em)
                      | _ \<Rightarrow> Some (Panic, self))
               | Err e \<Rightarrow> Some (Err e, self)
               | Panic \<Rightarrow> Some (Panic, self))) = Some r"
  show "ms \<noteq> [] \<longrightarrow> sealing self \<longrightarrow> \<not> wants_close_before_encrypt (co_record_layer self)"
  proof (intro impI notI)
    assume ms: "ms \<noteq> []" and s: "sealing self" and w: "wants_close_before_encrypt (co_record_layer self)"
    have enc: "is_encrypting (co_record_layer self)" and tcp: "co_protocol self = ProtoTcp" and fr: "frag_ok (co_fragmenter self)"
      using s by (auto simp: sealing_def)
    obtain m rest where m: "ms = m # rest" using ms by (cases ms) auto
    have "send_msg_using (\<lambda>ms self. f c ms self) (build_alert AL_Warning AD_CloseNotify) True self =
        f c [message_into_plain (build_alert AL_Warning AD_CloseNotify)] self"
      using tcp by (simp add: send_msg_using_def alert_fragments [OF fr])
    then obtain q where "f c [message_into_plain (build_alert AL_Warning AD_CloseNotify)] self = Some q"
      using body m w enc by (auto simp: bind_eq_Some_conv)
    then show False using IH s w by blast
  qed
qed

subsection \<open>Where it returns\<close>

lemma encrypt_outgoing_sealing:
  assumes "aead_laws c" "sealing self" "length (pm_payload m) \<le> MAX_FRAGMENT_LEN" "\<not> encrypt_exhausted (co_record_layer self)"
  shows "\<exists>em. encrypt_outgoing c (co_record_layer self) m =
      Ret (em, (co_record_layer self) \<lparr>rl_write_seq := rl_write_seq (co_record_layer self) + 1\<rparr>)"
proof -
  obtain key iv where "rl_encrypter (co_record_layer self) = Tls13MessageEncrypter key iv" "length iv = 12"
    using assms(2) by (auto simp: sealing_def split: message_encrypter.splits)
  then show ?thesis
    using rl_encrypt_Ret [OF assms(1) _ assms(3), of iv key "rl_write_seq (co_record_layer self)"] assms(4)
    by (auto simp: encrypt_outgoing_Ret)
qed

lemma sealing_advance: "sealing self \<Longrightarrow> sealing (self \<lparr>co_record_layer := (co_record_layer self) \<lparr>rl_write_seq := n\<rparr>\<rparr>)"
  by (simp add: sealing_def is_encrypting_def)

lemma sealing_queue [simp]: "sealing (queue_tls_message self m) = sealing self"
  by (simp add: sealing_def)

lemma seq_step:
  assumes "\<not> encrypt_exhausted (co_record_layer self)"
  shows "unat (rl_write_seq (co_record_layer self) + 1) = Suc (write_seq self)"
proof -
  have "write_seq self < 18446744073709551614"
    using assms by (simp add: encrypt_exhausted_def SEQ_HARD_LIMIT_def not_le word_less_nat_alt)
  then show ?thesis by (simp add: unat_word_ariths)
qed

lemma seq_limits:
  "wants_close_before_encrypt rl \<longleftrightarrow> unat (rl_write_seq rl) = soft_limit"
  "unat (rl_write_seq rl) < soft_limit \<Longrightarrow> \<not> encrypt_exhausted rl"
  by (auto simp: wants_close_before_encrypt_def encrypt_exhausted_def SEQ_SOFT_LIMIT_def SEQ_HARD_LIMIT_def word_le_nat_alt
      word_unat_eq_iff)

lemma send_fragments_step:
  assumes "aead_laws c" "sealing self" "length (pm_payload m) \<le> MAX_FRAGMENT_LEN" "write_seq self \<noteq> soft_limit"
    and "\<not> encrypt_exhausted (co_record_layer self)"
  shows "\<exists>em rl. encrypt_outgoing c (co_record_layer self) m = Ret (em, rl)
    \<and> send_fragments c (m # ms) self = send_fragments c ms (queue_tls_message (self \<lparr>co_record_layer := rl\<rparr>) em)
    \<and> sealing (self \<lparr>co_record_layer := rl\<rparr>) \<and> unat (rl_write_seq rl) = Suc (write_seq self)"
proof -
  obtain em where em: "encrypt_outgoing c (co_record_layer self) m =
      Ret (em, (co_record_layer self) \<lparr>rl_write_seq := rl_write_seq (co_record_layer self) + 1\<rparr>)"
    using encrypt_outgoing_sealing [OF assms(1-3,5)] by blast
  then show ?thesis
    using assms(4,5) sealing_advance [OF assms(2)] seq_step [OF assms(5)]
    by (subst send_fragments.simps) (auto simp: seq_limits(1))
qed

text \<open>Below the soft limit every fragment is sealed and queued, in order.\<close>

lemma send_fragments_below:
  assumes "aead_laws c"
  shows "sealing self \<Longrightarrow> \<forall>m\<in>set ms. length (pm_payload m) \<le> MAX_FRAGMENT_LEN \<Longrightarrow> write_seq self + length ms \<le> soft_limit \<Longrightarrow>
    \<exists>ems rl. seal_all c (co_record_layer self) ms = Ret (ems, rl)
      \<and> send_fragments c ms self = Some (Ret (), queue_all (self \<lparr>co_record_layer := rl\<rparr>) ems)
      \<and> sealing (self \<lparr>co_record_layer := rl\<rparr>) \<and> unat (rl_write_seq rl) = write_seq self + length ms"
proof (induction ms arbitrary: self)
  case Nil
  then show ?case by (simp add: send_fragments.simps queue_all_def)
next
  case (Cons m ms)
  have lt: "write_seq self < soft_limit" using Cons.prems(3) by simp
  obtain em rl where 1: "encrypt_outgoing c (co_record_layer self) m = Ret (em, rl)"
    "send_fragments c (m # ms) self = send_fragments c ms (queue_tls_message (self \<lparr>co_record_layer := rl\<rparr>) em)"
    "sealing (self \<lparr>co_record_layer := rl\<rparr>)" "unat (rl_write_seq rl) = Suc (write_seq self)"
    using send_fragments_step [OF assms Cons.prems(1), of m ms] Cons.prems(2) lt seq_limits(2) [OF lt] by auto
  define self' where "self' = queue_tls_message (self \<lparr>co_record_layer := rl\<rparr>) em"
  have rl: "co_record_layer self' = rl" by (simp add: self'_def)
  obtain ems rl' where 2: "seal_all c rl ms = Ret (ems, rl')"
    "send_fragments c ms self' = Some (Ret (), queue_all (self' \<lparr>co_record_layer := rl'\<rparr>) ems)"
    "sealing (self' \<lparr>co_record_layer := rl'\<rparr>)" "unat (rl_write_seq rl') = Suc (write_seq self) + length ms"
    using Cons.IH [of self'] 1(3,4) Cons.prems(2,3) by (auto simp: self'_def)
  have "queue_all (self' \<lparr>co_record_layer := rl'\<rparr>) ems = queue_all (self \<lparr>co_record_layer := rl'\<rparr>) (em # ems)"
    by (cases self) (simp add: self'_def queue_all_def queue_tls_message_def)
  moreover have "sealing (self \<lparr>co_record_layer := rl'\<rparr>)" using 2(3) by (simp add: self'_def sealing_def)
  ultimately show ?case using 1 2 by (simp add: self'_def)
qed

text \<open>Beyond it nothing stops the loop: fragments are sealed, or dropped once the numbers are used up.\<close>

lemma send_fragments_above:
  assumes "aead_laws c"
  shows "sealing self \<Longrightarrow> \<forall>m\<in>set ms. length (pm_payload m) \<le> MAX_FRAGMENT_LEN \<Longrightarrow> soft_limit < write_seq self \<Longrightarrow>
    \<exists>self'. send_fragments c ms self = Some (Ret (), self')"
proof (induction ms arbitrary: self)
  case Nil
  then show ?case by (simp add: send_fragments.simps)
next
  case (Cons m ms)
  show ?case
  proof (cases "encrypt_exhausted (co_record_layer self)")
    case True
    then have "send_fragments c (m # ms) self = send_fragments c ms self"
      using Cons.prems(3) by (subst send_fragments.simps) (simp add: seq_limits(1))
    then show ?thesis using Cons by simp
  next
    case False
    obtain em rl where "send_fragments c (m # ms) self = send_fragments c ms (queue_tls_message (self \<lparr>co_record_layer := rl\<rparr>) em)"
      "sealing (self \<lparr>co_record_layer := rl\<rparr>)" "unat (rl_write_seq rl) = Suc (write_seq self)"
      using send_fragments_step [OF assms Cons.prems(1) _ _ False, of m ms] Cons.prems(2,3) by auto
    then show ?thesis
      using Cons.IH [of "queue_tls_message (self \<lparr>co_record_layer := rl\<rparr>) em"] Cons.prems(2,3) by simp
  qed
qed

text \<open>Fragments that cross the soft limit.\<close>

lemma send_fragments_crossing:
  assumes "aead_laws c"
  shows "sealing self \<Longrightarrow> \<forall>m\<in>set ms. length (pm_payload m) \<le> MAX_FRAGMENT_LEN \<Longrightarrow> write_seq self \<le> soft_limit \<Longrightarrow>
    soft_limit < write_seq self + length ms \<Longrightarrow> send_fragments c ms self = None"
proof (induction ms arbitrary: self)
  case Nil
  then show ?case by simp
next
  case (Cons m ms)
  show ?case
  proof (cases "write_seq self = soft_limit")
    case True
    then show ?thesis
      using send_fragments_stuck [of c "m # ms" self] Cons.prems(1)
      by (cases "send_fragments c (m # ms) self") (auto simp: seq_limits(1))
  next
    case False
    then have lt: "write_seq self < soft_limit" using Cons.prems(3) by simp
    obtain em rl where "send_fragments c (m # ms) self = send_fragments c ms (queue_tls_message (self \<lparr>co_record_layer := rl\<rparr>) em)"
      "sealing (self \<lparr>co_record_layer := rl\<rparr>)" "unat (rl_write_seq rl) = Suc (write_seq self)"
      using send_fragments_step [OF assms Cons.prems(1) _ False seq_limits(2) [OF lt], of m ms] Cons.prems(2) by auto
    then show ?thesis
      using Cons.IH [of "queue_tls_message (self \<lparr>co_record_layer := rl\<rparr>) em"] Cons.prems(2,4) lt by simp
  qed
qed

lemma fragments_small:
  assumes "frag_ok f" "fragment_message f m = Ret ms"
  shows "\<forall>m\<in>set ms. length (pm_payload m) \<le> MAX_FRAGMENT_LEN" and "length ms = length (chunks (max_frag f) (pm_payload m))"
  using assms chunks_bound [of _ "max_frag f" "pm_payload m"]
  by (force simp: fragment_message_def fragment_slice_def frag_ok_def split: if_splits)+

lemma fragment_message_Ret: "frag_ok f \<Longrightarrow> \<exists>ms. fragment_message f m = Ret ms"
  by (simp add: fragment_message_def fragment_slice_def frag_ok_def)

text \<open>A connection with keys that has sealed \<open>n\<close> records.\<close>

definition sample_common :: "u64 \<Rightarrow> common_state" where
  "sample_common n = (common_state_new SideServer)
     \<lparr>co_record_layer := (set_message_encrypter record_layer_new (Tls13MessageEncrypter (replicate 16 1) (replicate 12 2)))
        \<lparr>rl_write_seq := n\<rparr>\<rparr>"

lemma sample_common_sealing: "sealing (sample_common n)"
  by (simp add: sealing_def sample_common_def common_state_new_def is_encrypting_def set_message_encrypter_def start_encrypting_def
      prepare_message_encrypter_def fragmenter_default_ok)

section \<open>Properties\<close>

text \<open>C35. Sending a message under encryption returns for exactly the sequence numbers the code can count to: if no
  fragment of the message meets the soft limit of the write sequence number, the call returns without an error; if one does, it never
  returns, because the close alert it sends first is sent by the same code in the same state.\<close>

theorem sending_returns:
  fixes m :: message
  assumes "aead_laws c" and "sealing self"
  defines "n \<equiv> length (chunks (max_frag (co_fragmenter self)) (mp_encode (msg_payload m)))"
  shows "(send_msg c m True self = None \<longleftrightarrow> write_seq self \<le> soft_limit \<and> soft_limit < write_seq self + n)
    \<and> (send_msg c m True self \<noteq> None \<longleftrightarrow> (\<exists>self'. send_msg c m True self = Some (Ret (), self')))"
proof -
  have fr: "frag_ok (co_fragmenter self)" and tcp: "co_protocol self = ProtoTcp" using assms(2) by (simp_all add: sealing_def)
  obtain ms where ms: "fragment_message (co_fragmenter self) (message_into_plain m) = Ret ms"
    using fragment_message_Ret [OF fr] by blast
  note small = fragments_small [OF fr ms]
  have len: "length ms = n" using small(2) by (simp add: n_def message_into_plain_def)
  have send: "send_msg c m True self = send_fragments c ms self" using ms tcp by (simp add: send_msg_def send_msg_using_def)
  show ?thesis
  proof (cases "write_seq self \<le> soft_limit")
    case True
    then show ?thesis
      unfolding send using send_fragments_crossing [OF assms(1,2) small(1) True] send_fragments_below [OF assms(1,2) small(1)] len
      by (cases "soft_limit < write_seq self + n") auto
  next
    case False
    then show ?thesis unfolding send using send_fragments_above [OF assms(1,2) small(1)] by auto
  qed
qed

theorem sending_returns_witness:
  "send_msg sample_prims (build_alert AL_Warning AD_UserCanceled) True (sample_common SEQ_SOFT_LIMIT) = None
    \<and> (\<exists>self'. send_msg sample_prims (build_alert AL_Warning AD_UserCanceled) True (sample_common 7) = Some (Ret (), self'))"
proof -
  have n: "length (chunks (max_frag (co_fragmenter (sample_common k))) (mp_encode (msg_payload (build_alert AL_Warning AD_UserCanceled)))) = 1" for k
    by (simp add: sample_common_def common_state_new_def fragmenter_default_def MAX_FRAGMENT_LEN_def build_alert_def alert_encode_def
        chunks.simps)
  have w: "write_seq (sample_common k) = unat k" for k by (simp add: sample_common_def)
  note at = sending_returns [OF sample_aead_laws sample_common_sealing, of "build_alert AL_Warning AD_UserCanceled"]
  have "send_msg sample_prims (build_alert AL_Warning AD_UserCanceled) True (sample_common 7) \<noteq> None"
    using at [of 7] unfolding n w by (simp add: SEQ_SOFT_LIMIT_def del: not_None_eq)
  moreover have "send_msg sample_prims (build_alert AL_Warning AD_UserCanceled) True (sample_common SEQ_SOFT_LIMIT) = None"
    using at [of SEQ_SOFT_LIMIT] unfolding n w by simp
  ultimately show ?thesis using at [of 7] by blast
qed

end
