(* ===== verification/Rustls_Key_Schedule.thy ===== *)
theory Rustls_Key_Schedule
  imports Rustls_Common_State
begin

text \<open>
  The TLS 1.3 key schedule of the TLS library (\<open>rustls-reality/rustls/src/tls13/key_schedule.rs\<close>): the secrets, the typestates that carry
  them through a handshake, and the keys they install in the record layer of the connection. The typestates with a single
  field, \<open>KeyScheduleEarly\<close>, \<open>KeySchedulePreHandshake\<close> and \<open>KeyScheduleHandshakeStart\<close>, are the schedule itself. A key
  exchange is the function that completes it with the peer's share; what a key log is told is returned as lines.
\<close>

section \<open>Secrets\<close>

datatype secret_kind = ResumptionPskBinderKey | ClientEarlyTrafficSecret | ClientHandshakeTrafficSecret
  | ServerHandshakeTrafficSecret | ClientApplicationTrafficSecret | ServerApplicationTrafficSecret
  | ExporterMasterSecret | ResumptionMasterSecret | DerivedSecret

fun secret_kind_bytes :: "secret_kind \<Rightarrow> bytes" where
  "secret_kind_bytes ResumptionPskBinderKey = lit ''res binder''"
| "secret_kind_bytes ClientEarlyTrafficSecret = lit ''c e traffic''"
| "secret_kind_bytes ClientHandshakeTrafficSecret = lit ''c hs traffic''"
| "secret_kind_bytes ServerHandshakeTrafficSecret = lit ''s hs traffic''"
| "secret_kind_bytes ClientApplicationTrafficSecret = lit ''c ap traffic''"
| "secret_kind_bytes ServerApplicationTrafficSecret = lit ''s ap traffic''"
| "secret_kind_bytes ExporterMasterSecret = lit ''exp master''"
| "secret_kind_bytes ResumptionMasterSecret = lit ''res master''"
| "secret_kind_bytes DerivedSecret = lit ''derived''"

fun log_label :: "secret_kind \<Rightarrow> rstring option" where
  "log_label ClientEarlyTrafficSecret = Some (lit ''CLIENT_EARLY_TRAFFIC_SECRET'')"
| "log_label ClientHandshakeTrafficSecret = Some (lit ''CLIENT_HANDSHAKE_TRAFFIC_SECRET'')"
| "log_label ServerHandshakeTrafficSecret = Some (lit ''SERVER_HANDSHAKE_TRAFFIC_SECRET'')"
| "log_label ClientApplicationTrafficSecret = Some (lit ''CLIENT_TRAFFIC_SECRET_0'')"
| "log_label ServerApplicationTrafficSecret = Some (lit ''SERVER_TRAFFIC_SECRET_0'')"
| "log_label ExporterMasterSecret = Some (lit ''EXPORTER_SECRET'')"
| "log_label _ = None"

text \<open>A line of the key log: label, client random, secret. The log is asked by label whether it takes it.\<close>

type_synonym log_line = "rstring \<times> bytes \<times> bytes"

section \<open>The schedule\<close>

record key_schedule =
  ks_current :: bytes
  ks_suite :: tls13_suite

abbreviation ks_hkdf :: "key_schedule \<Rightarrow> hkdf_provider" where
  "ks_hkdf ks \<equiv> t13_hkdf (ks_suite ks)"

definition key_schedule_new :: "tls13_suite \<Rightarrow> bytes \<Rightarrow> (rl_error, key_schedule) outcome" where
  "key_schedule_new suite secret =
     bnd (hk_extract_from_secret (t13_hkdf suite) None secret) (\<lambda>current.
     Ret \<lparr>ks_current = current, ks_suite = suite\<rparr>)"

definition new_with_empty_secret :: "tls13_suite \<Rightarrow> (rl_error, key_schedule) outcome" where
  "new_with_empty_secret suite =
     bnd (hk_extract_from_zero_ikm (t13_hkdf suite) None) (\<lambda>current.
     Ret \<lparr>ks_current = current, ks_suite = suite\<rparr>)"

definition ks_derive :: "key_schedule \<Rightarrow> secret_kind \<Rightarrow> bytes \<Rightarrow> (rl_error, bytes) outcome" where
  "ks_derive self kind hs_hash = expand_label_block (ks_hkdf self) (ks_current self) (secret_kind_bytes kind) hs_hash"

definition derive_for_empty_hash :: "key_schedule \<Rightarrow> secret_kind \<Rightarrow> (rl_error, bytes) outcome" where
  "derive_for_empty_hash self kind = ks_derive self kind (sc_hash (t13_common (ks_suite self)) [])"

definition derive_logged_secret ::
  "key_schedule \<Rightarrow> secret_kind \<Rightarrow> bytes \<Rightarrow> (rstring \<Rightarrow> bool) \<Rightarrow> bytes \<Rightarrow> (rl_error, bytes \<times> log_line list) outcome" where
  "derive_logged_secret self kind hs_hash will_log client_random =
     bnd (ks_derive self kind hs_hash) (\<lambda>output.
     case log_label kind of
       None \<Rightarrow> Panic
     | Some label \<Rightarrow> Ret (output, if will_log label then [(label, client_random, output)] else []))"

definition input_empty :: "key_schedule \<Rightarrow> (rl_error, key_schedule) outcome" where
  "input_empty self =
     bnd (derive_for_empty_hash self DerivedSecret) (\<lambda>salt.
     bnd (hk_extract_from_zero_ikm (ks_hkdf self) (Some salt)) (\<lambda>current.
     Ret (self \<lparr>ks_current := current\<rparr>)))"

definition extract_from_kx_shared_secret ::
  "hkdf_provider \<Rightarrow> bytes option \<Rightarrow> (bytes \<Rightarrow> (rl_error, bytes) outcome) \<Rightarrow> bytes \<Rightarrow> (rl_error, bytes) outcome" where
  "extract_from_kx_shared_secret self salt kx peer_pub_key =
     bnd (kx peer_pub_key) (\<lambda>secret. hk_extract_from_secret self salt secret)"

definition input_from_key_exchange ::
  "key_schedule \<Rightarrow> (bytes \<Rightarrow> (rl_error, bytes) outcome) \<Rightarrow> bytes \<Rightarrow> (rl_error, key_schedule) outcome" where
  "input_from_key_exchange self kx peer_public_key =
     bnd (derive_for_empty_hash self DerivedSecret) (\<lambda>salt.
     bnd (extract_from_kx_shared_secret (ks_hkdf self) (Some salt) kx peer_public_key) (\<lambda>current.
     Ret (self \<lparr>ks_current := current\<rparr>)))"

text \<open>Making a key of \<open>ring\<close> from bytes of a wrong length fails, which is unwrapped.\<close>

definition aead_encrypter :: "aead_algorithm \<Rightarrow> bytes \<Rightarrow> bytes \<Rightarrow> (rl_error, message_encrypter) outcome" where
  "aead_encrypter alg key iv = (if length key = aead_key_len alg then Ret (Tls13MessageEncrypter key iv) else Panic)"

definition aead_decrypter :: "aead_algorithm \<Rightarrow> bytes \<Rightarrow> bytes \<Rightarrow> (rl_error, message_decrypter) outcome" where
  "aead_decrypter alg key iv = (if length key = aead_key_len alg then Ret (Tls13MessageDecrypter key iv) else Panic)"

definition set_encrypter :: "key_schedule \<Rightarrow> bytes \<Rightarrow> common_state \<Rightarrow> (rl_error, common_state) outcome" where
  "set_encrypter self secret common =
     (let prk = hk_expander_for_okm (ks_hkdf self) secret in
      bnd (derive_traffic_key (ks_hkdf self) prk (aead_key_len (t13_aead (ks_suite self)))) (\<lambda>key.
      bnd (derive_traffic_iv (ks_hkdf self) prk) (\<lambda>iv.
      bnd (aead_encrypter (t13_aead (ks_suite self)) key iv) (\<lambda>enc.
      Ret (common \<lparr>co_record_layer := set_message_encrypter (co_record_layer common) enc\<rparr>)))))"

definition derive_decrypter :: "key_schedule \<Rightarrow> bytes \<Rightarrow> (rl_error, message_decrypter) outcome" where
  "derive_decrypter self secret =
     (let prk = hk_expander_for_okm (ks_hkdf self) secret in
      bnd (derive_traffic_key (ks_hkdf self) prk (aead_key_len (t13_aead (ks_suite self)))) (\<lambda>key.
      bnd (derive_traffic_iv (ks_hkdf self) prk) (\<lambda>iv.
      aead_decrypter (t13_aead (ks_suite self)) key iv)))"

definition set_decrypter :: "key_schedule \<Rightarrow> bytes \<Rightarrow> common_state \<Rightarrow> (rl_error, common_state) outcome" where
  "set_decrypter self secret common =
     bnd (derive_decrypter self secret) (\<lambda>dec.
     Ret (common \<lparr>co_record_layer := set_message_decrypter (co_record_layer common) dec\<rparr>))"

definition sign_verify_data :: "key_schedule \<Rightarrow> bytes \<Rightarrow> bytes \<Rightarrow> (rl_error, bytes) outcome" where
  "sign_verify_data self base_key hs_hash =
     (let prk = hk_expander_for_okm (ks_hkdf self) base_key in
      bnd (expand_label_block (ks_hkdf self) prk (lit ''finished'') []) (\<lambda>hmac_key.
      hk_hmac_sign (ks_hkdf self) hmac_key hs_hash))"

definition derive_next :: "key_schedule \<Rightarrow> bytes \<Rightarrow> (rl_error, bytes) outcome" where
  "derive_next self base_key =
     expand_label_block (ks_hkdf self) (hk_expander_for_okm (ks_hkdf self) base_key) (lit ''traffic upd'') []"

definition derive_ticket_psk :: "key_schedule \<Rightarrow> bytes \<Rightarrow> bytes \<Rightarrow> (rl_error, bytes) outcome" where
  "derive_ticket_psk self rms nonce =
     expand_label_block (ks_hkdf self) (hk_expander_for_okm (ks_hkdf self) rms) (lit ''resumption'') nonce"

definition ks_export_keying_material ::
  "key_schedule \<Rightarrow> bytes \<Rightarrow> nat \<Rightarrow> bytes \<Rightarrow> bytes option \<Rightarrow> (rl_error, bytes) outcome" where
  "ks_export_keying_material self current_exporter_secret len label context =
     (let hash = sc_hash (t13_common (ks_suite self));
          h_empty = hash [] in
      bnd (expand_label_block (ks_hkdf self) (hk_expander_for_okm (ks_hkdf self) current_exporter_secret) label h_empty) (\<lambda>secret.
      let h_context = hash (case context of Some x \<Rightarrow> x | None \<Rightarrow> []) in
      map_err (\<lambda>_. RlGeneral (lit ''exporting too much''))
        (expand_label_slice (ks_hkdf self) (hk_expander_for_okm (ks_hkdf self) secret) (lit ''exporter'') h_context len)))"

section \<open>Early data and the start of the handshake\<close>

definition client_early_traffic_secret ::
  "key_schedule \<Rightarrow> bytes \<Rightarrow> (rstring \<Rightarrow> bool) \<Rightarrow> bytes \<Rightarrow> common_state \<Rightarrow> (rl_error, common_state \<times> log_line list) outcome" where
  "client_early_traffic_secret self hs_hash will_log client_random common =
     bnd (derive_logged_secret self ClientEarlyTrafficSecret hs_hash will_log client_random) (\<lambda>(secret, log).
     bnd (case co_side common of
            SideClient \<Rightarrow> set_encrypter self secret common
          | SideServer \<Rightarrow> set_decrypter self secret common) (\<lambda>common.
     Ret (if is_quic common then common \<lparr>co_quic := (co_quic common) \<lparr>qc_early_secret := Some secret\<rparr>\<rparr> else common, log)))"

definition resumption_psk_binder_key_and_sign_verify_data :: "key_schedule \<Rightarrow> bytes \<Rightarrow> (rl_error, bytes) outcome" where
  "resumption_psk_binder_key_and_sign_verify_data self hs_hash =
     bnd (derive_for_empty_hash self ResumptionPskBinderKey) (\<lambda>resumption_psk_binder_key.
     sign_verify_data self resumption_psk_binder_key hs_hash)"

definition pre_handshake_into_handshake ::
  "key_schedule \<Rightarrow> (bytes \<Rightarrow> (rl_error, bytes) outcome) \<Rightarrow> bytes \<Rightarrow> (rl_error, key_schedule) outcome" where
  "pre_handshake_into_handshake self kx peer_public_key = input_from_key_exchange self kx peer_public_key"

section \<open>The handshake\<close>

record key_schedule_handshake =
  ksh_ks :: key_schedule
  ksh_client_handshake_traffic_secret :: bytes
  ksh_server_handshake_traffic_secret :: bytes

text \<open>\<open>quic::Secrets::new\<close>, with the algorithm of the suite unwrapped.\<close>

definition quic_secrets_of :: "key_schedule \<Rightarrow> bytes \<Rightarrow> bytes \<Rightarrow> common_state \<Rightarrow> (rl_error, quic_secrets) outcome" where
  "quic_secrets_of ks client_secret server_secret common =
     (if t13_quic (ks_suite ks)
      then Ret \<lparr>qs_client = client_secret, qs_server = server_secret, qs_suite = ks_suite ks, qs_side = co_side common,
                qs_version = qc_version (co_quic common)\<rparr>
      else Panic)"

definition into_handshake ::
  "key_schedule \<Rightarrow> bytes \<Rightarrow> (rstring \<Rightarrow> bool) \<Rightarrow> bytes \<Rightarrow> common_state
     \<Rightarrow> (rl_error, key_schedule_handshake \<times> common_state \<times> log_line list) outcome" where
  "into_handshake self hs_hash will_log client_random common =
     bnd (derive_logged_secret self ClientHandshakeTrafficSecret hs_hash will_log client_random) (\<lambda>(client_secret, log1).
     bnd (derive_logged_secret self ServerHandshakeTrafficSecret hs_hash will_log client_random) (\<lambda>(server_secret, log2).
     bnd (if is_quic common then
            bnd (quic_secrets_of self client_secret server_secret common) (\<lambda>secrets.
            Ret (common \<lparr>co_quic := (co_quic common) \<lparr>qc_hs_secrets := Some secrets\<rparr>\<rparr>))
          else Ret common) (\<lambda>common.
     Ret (\<lparr>ksh_ks = self, ksh_client_handshake_traffic_secret = client_secret,
           ksh_server_handshake_traffic_secret = server_secret\<rparr>, common, log1 @ log2))))"

definition derive_client_handshake_secrets ::
  "key_schedule \<Rightarrow> bool \<Rightarrow> bytes \<Rightarrow> tls13_suite \<Rightarrow> (rstring \<Rightarrow> bool) \<Rightarrow> bytes \<Rightarrow> common_state
     \<Rightarrow> (rl_error, key_schedule_handshake \<times> common_state \<times> log_line list) outcome" where
  "derive_client_handshake_secrets self early_data_enabled hs_hash suite will_log client_random common =
     bnd (into_handshake (self \<lparr>ks_suite := suite\<rparr>) hs_hash will_log client_random common) (\<lambda>(new, common, log).
     bnd (set_decrypter (ksh_ks new) (ksh_server_handshake_traffic_secret new) common) (\<lambda>common.
     bnd (if \<not> early_data_enabled then set_encrypter (ksh_ks new) (ksh_client_handshake_traffic_secret new) common
          else Ret common) (\<lambda>common.
     Ret (new, common, log))))"

definition derive_server_handshake_secrets ::
  "key_schedule \<Rightarrow> bytes \<Rightarrow> (rstring \<Rightarrow> bool) \<Rightarrow> bytes \<Rightarrow> common_state
     \<Rightarrow> (rl_error, key_schedule_handshake \<times> common_state \<times> log_line list) outcome" where
  "derive_server_handshake_secrets self hs_hash will_log client_random common =
     bnd (into_handshake self hs_hash will_log client_random common) (\<lambda>(new, common, log).
     bnd (set_encrypter (ksh_ks new) (ksh_server_handshake_traffic_secret new) common) (\<lambda>common.
     Ret (new, common, log)))"

definition sign_server_finish :: "key_schedule_handshake \<Rightarrow> bytes \<Rightarrow> (rl_error, bytes) outcome" where
  "sign_server_finish self hs_hash = sign_verify_data (ksh_ks self) (ksh_server_handshake_traffic_secret self) hs_hash"

definition set_handshake_encrypter :: "key_schedule_handshake \<Rightarrow> common_state \<Rightarrow> (rl_error, common_state) outcome" where
  "set_handshake_encrypter self common = set_encrypter (ksh_ks self) (ksh_client_handshake_traffic_secret self) common"

definition set_handshake_decrypter ::
  "key_schedule_handshake \<Rightarrow> nat option \<Rightarrow> common_state \<Rightarrow> (rl_error, common_state) outcome" where
  "set_handshake_decrypter self skip_requested common =
     (let secret = ksh_client_handshake_traffic_secret self in
      case skip_requested of
        None \<Rightarrow> set_decrypter (ksh_ks self) secret common
      | Some max_early_data_size \<Rightarrow>
          bnd (derive_decrypter (ksh_ks self) secret) (\<lambda>dec.
          Ret (common \<lparr>co_record_layer :=
            set_message_decrypter_with_trial_decryption (co_record_layer common) dec max_early_data_size\<rparr>)))"

section \<open>Traffic\<close>

record key_schedule_traffic =
  kst_ks :: key_schedule
  kst_client :: bytes
  kst_server :: bytes
  kst_exporter :: bytes

record key_schedule_pending =
  ksp_handshake_client_traffic_secret :: bytes
  ksp_traffic :: key_schedule_traffic

definition key_schedule_traffic_new ::
  "key_schedule \<Rightarrow> bytes \<Rightarrow> (rstring \<Rightarrow> bool) \<Rightarrow> bytes \<Rightarrow> (rl_error, key_schedule_traffic \<times> log_line list) outcome" where
  "key_schedule_traffic_new ks hs_hash will_log client_random =
     bnd (input_empty ks) (\<lambda>ks.
     bnd (derive_logged_secret ks ClientApplicationTrafficSecret hs_hash will_log client_random) (\<lambda>(client, log1).
     bnd (derive_logged_secret ks ServerApplicationTrafficSecret hs_hash will_log client_random) (\<lambda>(server, log2).
     bnd (derive_logged_secret ks ExporterMasterSecret hs_hash will_log client_random) (\<lambda>(exporter, log3).
     Ret (\<lparr>kst_ks = ks, kst_client = client, kst_server = server, kst_exporter = exporter\<rparr>, log1 @ log2 @ log3)))))"

definition quic_traffic_secrets :: "key_schedule_traffic \<Rightarrow> common_state \<Rightarrow> (rl_error, common_state) outcome" where
  "quic_traffic_secrets traffic common =
     (if is_quic common then
        bnd (quic_secrets_of (kst_ks traffic) (kst_client traffic) (kst_server traffic) common) (\<lambda>secrets.
        Ret (common \<lparr>co_quic := (co_quic common) \<lparr>qc_traffic_secrets := Some secrets\<rparr>\<rparr>))
      else Ret common)"

definition into_traffic_with_client_finished_pending ::
  "key_schedule_handshake \<Rightarrow> bytes \<Rightarrow> (rstring \<Rightarrow> bool) \<Rightarrow> bytes \<Rightarrow> common_state
     \<Rightarrow> (rl_error, key_schedule_pending \<times> common_state \<times> log_line list) outcome" where
  "into_traffic_with_client_finished_pending self hs_hash will_log client_random common =
     bnd (key_schedule_traffic_new (ksh_ks self) hs_hash will_log client_random) (\<lambda>(traffic, log).
     bnd (set_encrypter (kst_ks traffic) (kst_server traffic) common) (\<lambda>common.
     bnd (quic_traffic_secrets traffic common) (\<lambda>common.
     Ret (\<lparr>ksp_handshake_client_traffic_secret = ksh_client_handshake_traffic_secret self, ksp_traffic = traffic\<rparr>,
          common, log))))"

definition into_pre_finished_client_traffic ::
  "key_schedule_handshake \<Rightarrow> bytes \<Rightarrow> bytes \<Rightarrow> (rstring \<Rightarrow> bool) \<Rightarrow> bytes
     \<Rightarrow> (rl_error, key_schedule_traffic \<times> bytes \<times> log_line list) outcome" where
  "into_pre_finished_client_traffic self pre_finished_hash handshake_hash will_log client_random =
     bnd (key_schedule_traffic_new (ksh_ks self) pre_finished_hash will_log client_random) (\<lambda>(traffic, log).
     bnd (sign_verify_data (kst_ks traffic) (ksh_client_handshake_traffic_secret self) handshake_hash) (\<lambda>tag.
     Ret (traffic, tag, log)))"

definition client_into_traffic :: "key_schedule_traffic \<Rightarrow> common_state \<Rightarrow> (rl_error, key_schedule_traffic \<times> common_state) outcome" where
  "client_into_traffic traffic common =
     bnd (set_decrypter (kst_ks traffic) (kst_server traffic) common) (\<lambda>common.
     bnd (set_encrypter (kst_ks traffic) (kst_client traffic) common) (\<lambda>common.
     bnd (quic_traffic_secrets traffic common) (\<lambda>common.
     Ret (traffic, common))))"

definition pending_update_decrypter :: "key_schedule_pending \<Rightarrow> common_state \<Rightarrow> (rl_error, common_state) outcome" where
  "pending_update_decrypter self common =
     set_decrypter (kst_ks (ksp_traffic self)) (ksp_handshake_client_traffic_secret self) common"

definition sign_client_finish ::
  "key_schedule_pending \<Rightarrow> bytes \<Rightarrow> common_state \<Rightarrow> (rl_error, key_schedule_traffic \<times> bytes \<times> common_state) outcome" where
  "sign_client_finish self hs_hash common =
     bnd (sign_verify_data (kst_ks (ksp_traffic self)) (ksp_handshake_client_traffic_secret self) hs_hash) (\<lambda>tag.
     bnd (set_decrypter (kst_ks (ksp_traffic self)) (kst_client (ksp_traffic self)) common) (\<lambda>common.
     Ret (ksp_traffic self, tag, common)))"

definition next_application_traffic_secret ::
  "key_schedule_traffic \<Rightarrow> side \<Rightarrow> (rl_error, bytes \<times> key_schedule_traffic) outcome" where
  "next_application_traffic_secret self side =
     (case side of
        SideClient \<Rightarrow>
          bnd (derive_next (kst_ks self) (kst_client self)) (\<lambda>secret. Ret (secret, self \<lparr>kst_client := secret\<rparr>))
      | SideServer \<Rightarrow>
          bnd (derive_next (kst_ks self) (kst_server self)) (\<lambda>secret. Ret (secret, self \<lparr>kst_server := secret\<rparr>)))"

definition update_encrypter_and_notify ::
  "prims \<Rightarrow> key_schedule_traffic \<Rightarrow> (common_state, key_schedule_traffic) cmd" where
  "update_encrypter_and_notify c self common =
     cbind (ccall (next_application_traffic_secret self (co_side common))) (\<lambda>(secret, self).
     cbind (enqueue_key_update_notification c) (\<lambda>_ common.
     cbind (ccall (set_encrypter (kst_ks self) secret common)) (\<lambda>common'.
     cbind (cmod (\<lambda>_. common')) (\<lambda>_.
     cret self)) common)) common"

definition update_decrypter :: "key_schedule_traffic \<Rightarrow> common_state \<Rightarrow> (rl_error, key_schedule_traffic \<times> common_state) outcome" where
  "update_decrypter self common =
     bnd (next_application_traffic_secret self (side_peer (co_side common))) (\<lambda>(secret, self).
     bnd (set_decrypter (kst_ks self) secret common) (\<lambda>common.
     Ret (self, common)))"

definition resumption_master_secret_and_derive_ticket_psk ::
  "key_schedule_traffic \<Rightarrow> bytes \<Rightarrow> bytes \<Rightarrow> (rl_error, bytes) outcome" where
  "resumption_master_secret_and_derive_ticket_psk self hs_hash nonce =
     bnd (ks_derive (kst_ks self) ResumptionMasterSecret hs_hash) (\<lambda>resumption_master_secret.
     derive_ticket_psk (kst_ks self) resumption_master_secret nonce)"

definition export_keying_material ::
  "key_schedule_traffic \<Rightarrow> nat \<Rightarrow> bytes \<Rightarrow> bytes option \<Rightarrow> (rl_error, bytes) outcome" where
  "export_keying_material self len label context = ks_export_keying_material (kst_ks self) (kst_exporter self) len label context"

text \<open>\<open>extract_keys\<close> of every AEAD algorithm wraps the key and IV; the algorithm names the variant.\<close>

type_synonym traffic_secrets = "aead_algorithm \<times> bytes \<times> bytes"

definition extract_secrets :: "key_schedule_traffic \<Rightarrow> side \<Rightarrow> (rl_error, traffic_secrets \<times> traffic_secrets) outcome" where
  "extract_secrets self side =
     (let p = ks_hkdf (kst_ks self); alg = t13_aead (ks_suite (kst_ks self));
          expand = (\<lambda>secret.
            let prk = hk_expander_for_okm p secret in
            bnd (expand_label_aead_key p prk (aead_key_len alg) (lit ''key'') []) (\<lambda>key.
            bnd (expand_label_array p prk (lit ''iv'') [] 12) (\<lambda>iv.
            Ret (alg, key, iv)))) in
      bnd (expand (kst_client self)) (\<lambda>client_secrets.
      bnd (expand (kst_server self)) (\<lambda>server_secrets.
      Ret (case side of
             SideClient \<Rightarrow> (client_secrets, server_secrets)
           | SideServer \<Rightarrow> (server_secrets, client_secrets)))))"

section \<open>RFC 8446, section 7.1\<close>

text \<open>For a hash function of any length, with or without a pre-shared key; \<open>e\<close> is the hash of the empty string.\<close>

definition rfc_secret :: "(bytes \<Rightarrow> bytes \<Rightarrow> bytes) \<Rightarrow> nat \<Rightarrow> bytes \<Rightarrow> string \<Rightarrow> bytes \<Rightarrow> bytes" where
  "rfc_secret hmac hl secret label hash = rfc_expand_label hmac hl secret (lit label) hash hl"

definition rfc_early :: "(bytes \<Rightarrow> bytes \<Rightarrow> bytes) \<Rightarrow> nat \<Rightarrow> bytes option \<Rightarrow> bytes" where
  "rfc_early hmac hl psk = hmac (replicate hl 0) (case psk of Some k \<Rightarrow> k | None \<Rightarrow> replicate hl 0)"

definition rfc_handshake :: "(bytes \<Rightarrow> bytes \<Rightarrow> bytes) \<Rightarrow> nat \<Rightarrow> bytes \<Rightarrow> bytes option \<Rightarrow> bytes \<Rightarrow> bytes" where
  "rfc_handshake hmac hl e psk dhe = hmac (rfc_secret hmac hl (rfc_early hmac hl psk) ''derived'' e) dhe"

definition rfc_master :: "(bytes \<Rightarrow> bytes \<Rightarrow> bytes) \<Rightarrow> nat \<Rightarrow> bytes \<Rightarrow> bytes option \<Rightarrow> bytes \<Rightarrow> bytes" where
  "rfc_master hmac hl e psk dhe =
     hmac (rfc_secret hmac hl (rfc_handshake hmac hl e psk dhe) ''derived'' e) (replicate hl 0)"

definition rfc_key :: "(bytes \<Rightarrow> bytes \<Rightarrow> bytes) \<Rightarrow> nat \<Rightarrow> tls13_suite \<Rightarrow> bytes \<Rightarrow> bytes" where
  "rfc_key hmac hl suite secret = rfc_expand_label hmac hl secret (lit ''key'') [] (aead_key_len (t13_aead suite))"

definition rfc_iv :: "(bytes \<Rightarrow> bytes \<Rightarrow> bytes) \<Rightarrow> nat \<Rightarrow> bytes \<Rightarrow> bytes" where
  "rfc_iv hmac hl secret = rfc_expand_label hmac hl secret (lit ''iv'') [] 12"

definition rfc_finished :: "(bytes \<Rightarrow> bytes \<Rightarrow> bytes) \<Rightarrow> nat \<Rightarrow> bytes \<Rightarrow> bytes \<Rightarrow> bytes" where
  "rfc_finished hmac hl secret hash = hmac (rfc_secret hmac hl secret ''finished'' []) hash"

text \<open>The calls a server makes on the schedule in a handshake over TCP, with the hashes of the transcript up to the server hello,
  before and after its Finished, and before the client's. Returned are the two tags, the traffic secrets, and the record layer after each step.\<close>

definition server_schedule ::
  "tls13_suite \<Rightarrow> bytes option \<Rightarrow> (bytes \<Rightarrow> (rl_error, bytes) outcome) \<Rightarrow> bytes \<Rightarrow> bytes \<Rightarrow> bytes \<Rightarrow> bytes \<Rightarrow> bytes \<Rightarrow> common_state
     \<Rightarrow> (rl_error, (bytes \<times> bytes) \<times> key_schedule_traffic \<times> record_layer \<times> record_layer \<times> record_layer \<times> record_layer) outcome" where
  "server_schedule suite psk kx share h_hello h_before h_after h_client common =
     bnd (case psk of Some k \<Rightarrow> key_schedule_new suite k | None \<Rightarrow> new_with_empty_secret suite) (\<lambda>ks.
     bnd (pre_handshake_into_handshake ks kx share) (\<lambda>ks.
     bnd (derive_server_handshake_secrets ks h_hello (\<lambda>_. False) [] common) (\<lambda>(ksh, common1, _).
     bnd (set_handshake_decrypter ksh None common1) (\<lambda>common2.
     bnd (sign_server_finish ksh h_before) (\<lambda>server_tag.
     bnd (into_traffic_with_client_finished_pending ksh h_after (\<lambda>_. False) [] common2) (\<lambda>(ksp, common3, _).
     bnd (sign_client_finish ksp h_client common3) (\<lambda>(traffic, client_tag, common4).
     Ret ((server_tag, client_tag), traffic, co_record_layer common1, co_record_layer common2, co_record_layer common3,
          co_record_layer common4))))))))"

section \<open>Lemmas\<close>

lemma rfc_aead_key_len: "aead_key_len alg \<le> AEAD_KEY_MAX_LEN"
  by (cases alg) (simp_all add: AEAD_KEY_MAX_LEN_def)

lemma hash_len_iv: "rfc5869 p hmac hl \<Longrightarrow> 12 \<le> 255 * hl"
  by (simp add: rfc5869_def hash_len_ok_def)

lemma rfc_okm: "rfc5869 p hmac hl \<Longrightarrow> hk_expander_for_okm p okm = okm"
  by (simp add: rfc5869_def)

lemma derive_traffic_key_rfc:
  "rfc5869 p hmac hl \<Longrightarrow> derive_traffic_key p prk (aead_key_len alg) = Ret (rfc_expand_label hmac hl prk (lit ''key'') [] (aead_key_len alg))"
  by (simp add: derive_traffic_key_def expand_label_aead_key_rfc rfc_aead_key_len)

lemma derive_traffic_iv_rfc:
  "rfc5869 p hmac hl \<Longrightarrow> derive_traffic_iv p prk = Ret (rfc_iv hmac hl prk)"
  by (simp add: derive_traffic_iv_def expand_label_array_rfc hash_len_iv rfc_iv_def)

lemma rfc_key_length: "rfc5869 p hmac hl \<Longrightarrow> length (rfc_key hmac hl suite secret) = aead_key_len (t13_aead suite)"
  by (simp add: rfc_key_def rfc_expand_label_length rfc5869_def)

lemma rfc_iv_length: "rfc5869 p hmac hl \<Longrightarrow> length (rfc_iv hmac hl secret) = 12"
  by (simp add: rfc_iv_def rfc_expand_label_length rfc5869_def)

lemma set_encrypter_rfc:
  assumes "rfc5869 (ks_hkdf ks) hmac hl"
  shows "set_encrypter ks secret common =
    Ret (common \<lparr>co_record_layer := set_message_encrypter (co_record_layer common)
      (Tls13MessageEncrypter (rfc_key hmac hl (ks_suite ks) secret) (rfc_iv hmac hl secret))\<rparr>)"
  using rfc_key_length [OF assms, of "ks_suite ks" secret]
  by (simp add: set_encrypter_def Let_def rfc_okm [OF assms] derive_traffic_key_rfc [OF assms] derive_traffic_iv_rfc [OF assms]
      rfc_key_def aead_encrypter_def)

lemma derive_decrypter_rfc:
  assumes "rfc5869 (ks_hkdf ks) hmac hl"
  shows "derive_decrypter ks secret =
    Ret (Tls13MessageDecrypter (rfc_key hmac hl (ks_suite ks) secret) (rfc_iv hmac hl secret))"
  using rfc_key_length [OF assms, of "ks_suite ks" secret]
  by (simp add: derive_decrypter_def Let_def rfc_okm [OF assms] derive_traffic_key_rfc [OF assms] derive_traffic_iv_rfc [OF assms]
      rfc_key_def aead_decrypter_def)

lemma ks_derive_rfc:
  "rfc5869 (ks_hkdf ks) hmac hl \<Longrightarrow>
    ks_derive ks kind hash = Ret (rfc_expand_label hmac hl (ks_current ks) (secret_kind_bytes kind) hash hl)"
  by (simp add: ks_derive_def expand_label_block_rfc)

lemma sign_verify_data_rfc:
  "rfc5869 (ks_hkdf ks) hmac hl \<Longrightarrow> sign_verify_data ks base hash = Ret (rfc_finished hmac hl base hash)"
  by (simp add: sign_verify_data_def Let_def expand_label_block_rfc rfc_okm rfc_finished_def rfc_secret_def)
    (simp add: rfc5869_def)

lemma derive_next_rfc:
  "rfc5869 (ks_hkdf ks) hmac hl \<Longrightarrow> derive_next ks base = Ret (rfc_secret hmac hl base ''traffic upd'' [])"
  by (simp add: derive_next_def expand_label_block_rfc rfc_okm rfc_secret_def)

lemma extract_rfc:
  assumes "rfc5869 p hmac hl"
  shows "hk_extract_from_secret p (Some salt) ikm = Ret (hmac salt ikm)"
    and "hk_extract_from_secret p None ikm = Ret (hmac (replicate hl 0) ikm)"
    and "hk_extract_from_zero_ikm p (Some salt) = Ret (hmac salt (replicate hl 0))"
    and "hk_extract_from_zero_ikm p None = Ret (hmac (replicate hl 0) (replicate hl 0))"
  using assms by (simp_all add: rfc5869_def)

lemmas rfc_schedule_simps = key_schedule_new_def new_with_empty_secret_def pre_handshake_into_handshake_def
  input_from_key_exchange_def extract_from_kx_shared_secret_def derive_for_empty_hash_def input_empty_def
  derive_logged_secret_def into_handshake_def derive_server_handshake_secrets_def set_handshake_decrypter_def
  sign_server_finish_def key_schedule_traffic_new_def quic_traffic_secrets_def set_decrypter_def
  into_traffic_with_client_finished_pending_def sign_client_finish_def

lemma server_schedule_rfc:
  fixes psk :: "bytes option" and suite :: tls13_suite and common :: common_state
    and dhe share h_hello h_before h_after h_client :: bytes
  assumes rfc: "rfc5869 (t13_hkdf suite) hmac hl" and kx: "kx share = Ret dhe" and tcp: "\<not> is_quic common"
  defines "e \<equiv> sc_hash (t13_common suite) []"
  defines "chs \<equiv> rfc_secret hmac hl (rfc_handshake hmac hl e psk dhe) ''c hs traffic'' h_hello"
    and "shs \<equiv> rfc_secret hmac hl (rfc_handshake hmac hl e psk dhe) ''s hs traffic'' h_hello"
    and "cap \<equiv> rfc_secret hmac hl (rfc_master hmac hl e psk dhe) ''c ap traffic'' h_after"
    and "sap \<equiv> rfc_secret hmac hl (rfc_master hmac hl e psk dhe) ''s ap traffic'' h_after"
  defines "enc \<equiv> (\<lambda>s. Tls13MessageEncrypter (rfc_key hmac hl suite s) (rfc_iv hmac hl s))"
    and "dec \<equiv> (\<lambda>s. Tls13MessageDecrypter (rfc_key hmac hl suite s) (rfc_iv hmac hl s))"
  defines "rl1 \<equiv> set_message_encrypter (co_record_layer common) (enc shs)"
  defines "rl2 \<equiv> set_message_decrypter rl1 (dec chs)"
  defines "rl3 \<equiv> set_message_encrypter rl2 (enc sap)"
  shows "server_schedule suite psk kx share h_hello h_before h_after h_client common =
    Ret ((rfc_finished hmac hl shs h_before, rfc_finished hmac hl chs h_client),
      \<lparr>kst_ks = \<lparr>ks_current = rfc_master hmac hl e psk dhe, ks_suite = suite\<rparr>, kst_client = cap, kst_server = sap,
       kst_exporter = rfc_secret hmac hl (rfc_master hmac hl e psk dhe) ''exp master'' h_after\<rparr>,
      rl1, rl2, rl3, set_message_decrypter rl3 (dec cap))"
proof -
  have q: "\<not> is_quic (common\<lparr>co_record_layer := rl\<rparr>)" for rl using tcp by (simp add: is_quic_def)
  show ?thesis
    using kx tcp q
    by (cases psk)
      (simp_all add: server_schedule_def rfc_schedule_simps extract_rfc [OF rfc] ks_derive_rfc [where hmac = hmac and hl = hl] rfc
        set_encrypter_rfc [where hmac = hmac and hl = hl] derive_decrypter_rfc [where hmac = hmac and hl = hl]
        sign_verify_data_rfc [where hmac = hmac and hl = hl] rfc_secret_def rfc_early_def rfc_handshake_def rfc_master_def
        e_def chs_def shs_def cap_def sap_def enc_def dec_def rl1_def rl2_def rl3_def)
qed

text \<open>With SHA-256 an expansion of at most 32 bytes is one block.\<close>

lemma rfc_expand_label_sha256:
  assumes "hkdf_laws c" and "0 < len" and "len \<le> 32"
  shows "rfc_expand_label (hmac_sha256 c) 32 secret label context len = hkdf_expand_label c secret label context len"
proof -
  have "hash_len_ok (hmac_sha256 c) 32" using assms(1) by (simp add: hash_len_ok_def hkdf_laws_def OKM_MAX_LEN_def)
  then show ?thesis using assms by (simp add: rfc_expand_label_def hkdf_expand_label_def hkdf_okm_one)
qed

lemma rfc_secrets_sha256:
  assumes "hkdf_laws c" and e: "sha256 c [] = e"
  shows "rfc_handshake (hmac_sha256 c) 32 e None dhe = handshake_secret_of c dhe"
    and "rfc_master (hmac_sha256 c) 32 e None dhe = master_secret_of c dhe"
    and "rfc_secret (hmac_sha256 c) 32 secret label (sha256 c msgs) = derive_secret c secret (lit label) msgs"
    and "rfc_finished (hmac_sha256 c) 32 secret (sha256 c msgs) = finished_of c secret msgs"
    and "rfc_iv (hmac_sha256 c) 32 secret = hkdf_expand_label c secret (lit ''iv'') [] 12"
  using assms
  by (simp_all add: rfc_handshake_def rfc_master_def rfc_early_def rfc_secret_def rfc_finished_def rfc_iv_def rfc_expand_label_sha256
      handshake_secret_of_def master_secret_of_def derive_secret_def finished_of_def flip: e)

lemma rfc_key_sha256:
  "hkdf_laws c \<Longrightarrow> t13_aead suite = Aes128GcmAead \<Longrightarrow>
    rfc_key (hmac_sha256 c) 32 suite secret = hkdf_expand_label c secret (lit ''key'') [] 16"
  by (simp add: rfc_key_def rfc_expand_label_sha256)

text \<open>HKDF over the HMAC of the sample primitives.\<close>

definition sample_ring :: ring_hkdf where
  "sample_ring = \<lparr>rh_extract = sample_mac,
     rh_expand = (\<lambda>prk info len. if len \<le> 255 * 32 then Some (hkdf_okm sample_mac 32 prk info len) else None),
     rh_len = 32, rh_hmac = sample_mac\<rparr>"

lemma sample_ring_laws: "ring_hkdf_laws sample_ring"
  using sample_hkdf_laws
  by (simp add: ring_hkdf_laws_def sample_ring_def hash_len_ok_def OKM_MAX_LEN_def hkdf_laws_def sample_prims_def)

subsection \<open>Key updates\<close>

lemma next_secret_rfc:
  assumes "rfc5869 (ks_hkdf (kst_ks ks)) hmac hl"
  shows "next_application_traffic_secret ks side =
    (case side of
       SideClient \<Rightarrow> Ret (rfc_secret hmac hl (kst_client ks) ''traffic upd'' [], ks \<lparr>kst_client := rfc_secret hmac hl (kst_client ks) ''traffic upd'' []\<rparr>)
     | SideServer \<Rightarrow> Ret (rfc_secret hmac hl (kst_server ks) ''traffic upd'' [], ks \<lparr>kst_server := rfc_secret hmac hl (kst_server ks) ''traffic upd'' []\<rparr>))"
  using assms by (cases side) (simp_all add: next_application_traffic_secret_def derive_next_rfc)

lemma key_update_small: "length (pm_payload (message_into_plain message_key_update_notify)) \<le> MAX_FRAGMENT_LEN"
  by (simp add: message_into_plain_def message_key_update_notify_def mp_handshake_def handshake_encode_def build_key_update_notify_def
      MAX_FRAGMENT_LEN_def length_prefixed_def len_bytes_def encode_u24_def u32_be_def)

text \<open>The secret a side sends with.\<close>

definition own_secret :: "key_schedule_traffic \<Rightarrow> side \<Rightarrow> bytes" where
  "own_secret ks side = (case side of SideClient \<Rightarrow> kst_client ks | SideServer \<Rightarrow> kst_server ks)"

lemma update_encrypter_rfc:
  assumes "aead_laws c" and rfc: "rfc5869 (ks_hkdf (kst_ks ks)) hmac hl" and s: "sealing common"
    and ex: "\<not> encrypt_exhausted (co_record_layer common)"
  defines "new \<equiv> rfc_secret hmac hl (own_secret ks (co_side common)) ''traffic upd'' []"
  shows "\<exists>ks' em. update_encrypter_and_notify c ks common = Some (Ret ks',
      common \<lparr>co_queued_key_update := Some (opaque_encode em),
              co_record_layer := set_message_encrypter (co_record_layer common)
                (Tls13MessageEncrypter (rfc_key hmac hl (ks_suite (kst_ks ks)) new) (rfc_iv hmac hl new))\<rparr>)
    \<and> own_secret ks' (co_side common) = new \<and> kst_ks ks' = kst_ks ks
    \<and> rl_encrypt c (rl_encrypter (co_record_layer common)) (message_into_plain message_key_update_notify)
        (rl_write_seq (co_record_layer common)) = Ret em"
proof -
  obtain em where em: "encrypt_outgoing c (co_record_layer common) (message_into_plain message_key_update_notify) =
      Ret (em, (co_record_layer common) \<lparr>rl_write_seq := rl_write_seq (co_record_layer common) + 1\<rparr>)"
    using encrypt_outgoing_sealing [OF assms(1) s key_update_small ex] by blast
  obtain ks' where ks': "next_application_traffic_secret ks (co_side common) = Ret (new, ks')" "own_secret ks' (co_side common) = new"
    "kst_ks ks' = kst_ks ks"
    using next_secret_rfc [OF rfc, of "co_side common"] by (cases "co_side common") (auto simp: own_secret_def new_def)
  have enq: "enqueue_key_update_notification c common = Some (Ret (), common
      \<lparr>co_record_layer := (co_record_layer common) \<lparr>rl_write_seq := rl_write_seq (co_record_layer common) + 1\<rparr>,
       co_queued_key_update := Some (opaque_encode em)\<rparr>)"
    by (simp add: enqueue_key_update_notification_def em)
  have "update_encrypter_and_notify c ks common = Some (Ret ks',
      common \<lparr>co_queued_key_update := Some (opaque_encode em),
              co_record_layer := set_message_encrypter (co_record_layer common)
                (Tls13MessageEncrypter (rfc_key hmac hl (ks_suite (kst_ks ks)) new) (rfc_iv hmac hl new))\<rparr>)"
    using ks'(1,3) set_encrypter_rfc [of "kst_ks ks'" hmac hl new] rfc
    by (simp add: update_encrypter_and_notify_def cbind_Some(1) [where m = "enqueue_key_update_notification c", OF enq]
        set_message_encrypter_def prepare_message_encrypter_def start_encrypting_def cret_def)
  then show ?thesis using em ks'(2,3) by (auto simp: encrypt_outgoing_Ret)
qed

text \<open>An alert that is sent after a key update was requested and before more data is written.\<close>

lemma alert_under_new_key:
  fixes key iv upd :: bytes
  assumes laws: "aead_laws c" and s: "sealing common" and enc: "length iv = 12"
  defines "new \<equiv> common \<lparr>co_queued_key_update := Some upd, co_record_layer := set_message_encrypter (co_record_layer common) (Tls13MessageEncrypter key iv)\<rparr>"
  shows "\<exists>em common'. send_close_notify c new = Some (Ret (), common')
    \<and> rl_encrypt c (Tls13MessageEncrypter key iv) (message_into_plain (build_alert AL_Warning AD_CloseNotify)) 0 = Ret em
    \<and> cvb_bytes (co_sendable_tls common') = cvb_bytes (co_sendable_tls common) @ opaque_encode em
    \<and> co_queued_key_update common' = Some upd"
proof -
  have rl: "rl_encrypter (co_record_layer new) = Tls13MessageEncrypter key iv" "rl_write_seq (co_record_layer new) = 0"
    "is_encrypting (co_record_layer new)"
    by (simp_all add: new_def set_message_encrypter_def prepare_message_encrypter_def start_encrypting_def is_encrypting_def)
  have sn: "sealing new" using s enc rl by (simp add: sealing_def) (simp add: new_def)
  define m where "m = message_into_plain (build_alert AL_Warning AD_CloseNotify)"
  have len: "length (pm_payload m) \<le> MAX_FRAGMENT_LEN"
    by (simp add: m_def message_into_plain_def build_alert_def alert_encode_def MAX_FRAGMENT_LEN_def)
  obtain em rl' where em: "encrypt_outgoing c (co_record_layer new) m = Ret (em, rl')"
    "send_fragments c [m] new = send_fragments c [] (queue_tls_message (new \<lparr>co_record_layer := rl'\<rparr>) em)"
    using send_fragments_step [OF laws sn len, of "[]"] seq_limits(2) [of "co_record_layer new"] rl(2)
    by (auto simp: SEQ_SOFT_LIMIT_def)
  have "send_close_notify c new = send_fragments c [m] new"
    using sn rl(3) alert_fragments [of "co_fragmenter new" AL_Warning AD_CloseNotify]
    by (simp add: send_close_notify_def send_warning_alert_def send_msg_def send_msg_using_def sealing_def m_def)
  then have "send_close_notify c new = Some (Ret (), queue_tls_message (new \<lparr>co_record_layer := rl'\<rparr>) em)"
    using em(2) by (simp add: send_fragments.simps)
  moreover have "rl_encrypt c (Tls13MessageEncrypter key iv) m 0 = Ret em"
    using em(1) rl(1,2) by (simp add: encrypt_outgoing_Ret)
  ultimately show ?thesis
    by (auto simp: m_def new_def queue_tls_message_def)
qed

section \<open>Properties\<close>

text \<open>C36. The two implementations of TLS 1.3 in the repository derive the same keys: for a shared secret and transcript
  hashes, the key schedule of the TLS library (suite AES-128-GCM with SHA-256) installs in the record layer exactly the
  write keys and IVs of the hand-written schedule, first those of the handshake and then those of the application data, for
  both directions, and computes the same two Finished tags.\<close>

theorem schedules_agree:
  assumes "hkdf_laws c" and "sha256 c [] = hash_empty"
    and "ring_hkdf_laws r" and "rh_hmac r = hmac_sha256 c" and "rh_len r = 32"
    and "kx share = Ret dhe" and "\<not> is_quic common"
  shows "\<exists>hs hs_secret ap server_fin client_fin traffic rl1 rl2 rl3 rl4.
    derive_handshake_keys c dhe (sha256 c hello) = Ret (hs, hs_secret)
    \<and> derive_application_keys c hs_secret (sha256 c flight) = Ret ap
    \<and> server_schedule (TLS13_AES_128_GCM_SHA256 (sha256 c) r) None kx share (sha256 c hello) (sha256 c unfinished)
        (sha256 c flight) (sha256 c client) common = Ret ((server_fin, client_fin), traffic, rl1, rl2, rl3, rl4)
    \<and> rl_encrypter rl1 = Tls13MessageEncrypter (server_write_key hs) (server_iv hs)
    \<and> rl_decrypter rl2 = Tls13MessageDecrypter (client_write_key hs) (client_iv hs)
    \<and> rl_encrypter rl3 = Tls13MessageEncrypter (server_write_key ap) (server_iv ap)
    \<and> rl_decrypter rl4 = Tls13MessageDecrypter (client_write_key ap) (client_iv ap)
    \<and> calculate_verify_data c (server_traffic_secret hs) (sha256 c unfinished) = Ret server_fin
    \<and> calculate_verify_data c (client_traffic_secret hs) (sha256 c client) = Ret client_fin"
proof -
  define suite where "suite = TLS13_AES_128_GCM_SHA256 (sha256 c) r"
  have suite: "t13_aead suite = Aes128GcmAead" "sc_hash (t13_common suite) [] = hash_empty"
    "rfc5869 (t13_hkdf suite) (hmac_sha256 c) 32"
    using ring_rfc5869 [OF assms(3)] assms(2,4,5) by (simp_all add: suite_def TLS13_AES_128_GCM_SHA256_def tls13_suite_ring_def)
  note keys = rfc_secrets_sha256 [OF assms(1,2)] rfc_key_sha256 [OF assms(1) suite(1)]
  show ?thesis
    unfolding suite_def [symmetric] server_schedule_rfc [of suite "hmac_sha256 c" 32 kx share dhe, OF suite(3) assms(6,7)] suite(2)
    by (simp add: handshake_keys_rfc [OF assms(1,2)] application_keys_rfc [OF assms(1,2)] verify_data_rfc [OF assms(1)] keys
        traffic_keys_def set_message_encrypter_def set_message_decrypter_def start_encrypting_def start_decrypting_def
        prepare_message_encrypter_def prepare_message_decrypter_def)
qed

theorem schedules_agree_witness:
  "\<exists>hs hs_secret ap server_fin client_fin traffic rl1 rl2 rl3 rl4.
    derive_handshake_keys sample_prims [7] (sha256 sample_prims [1]) = Ret (hs, hs_secret)
    \<and> derive_application_keys sample_prims hs_secret (sha256 sample_prims [1, 2, 3]) = Ret ap
    \<and> server_schedule (TLS13_AES_128_GCM_SHA256 (sha256 sample_prims) sample_ring) None (\<lambda>_. Ret [7]) [9] (sha256 sample_prims [1])
        (sha256 sample_prims [1, 2]) (sha256 sample_prims [1, 2, 3]) (sha256 sample_prims [1, 2, 3]) (common_state_new SideServer)
        = Ret ((server_fin, client_fin), traffic, rl1, rl2, rl3, rl4)
    \<and> rl_encrypter rl1 = Tls13MessageEncrypter (server_write_key hs) (server_iv hs)
    \<and> rl_decrypter rl4 = Tls13MessageDecrypter (client_write_key ap) (client_iv ap)"
proof -
  have "\<not> is_quic (common_state_new SideServer)" by (simp add: is_quic_def common_state_new_def)
  then show ?thesis
    using schedules_agree [of sample_prims sample_ring "\<lambda>_. Ret [7]" "[9]" "[7]" "common_state_new SideServer" "[1]" "[1, 2, 3]" "[1, 2]"
        "[1, 2, 3]"] sample_hkdf_laws sample_ring_laws
    by (simp add: sample_ring_def sample_prims_def) blast
qed

text \<open>C37. A requested key update is overtaken by an alert: the notification is sealed under the old key and kept aside until
  application data is written, the keys are switched at once, and a close alert that is sent in between is sealed under the new key and
  queued first. The peer, which still expects the old key, receives the alert before the notification that announces the new one.\<close>

theorem key_update_overtaken:
  assumes "aead_laws c" and "rfc5869 (t13_hkdf (ks_suite (kst_ks ks))) hmac hl" and "sealing common"
    and "\<not> encrypt_exhausted (co_record_layer common)"
  shows "\<exists>ks' switched closed upd close_alert.
    update_encrypter_and_notify c ks common = Some (Ret ks', switched)
    \<and> send_close_notify c switched = Some (Ret (), closed)
    \<and> rl_encrypt c (rl_encrypter (co_record_layer common)) (message_into_plain message_key_update_notify)
        (rl_write_seq (co_record_layer common)) = Ret upd
    \<and> rl_encrypt c
        (Tls13MessageEncrypter (rfc_key hmac hl (ks_suite (kst_ks ks)) (own_secret ks' (co_side common)))
           (rfc_iv hmac hl (own_secret ks' (co_side common))))
        (message_into_plain (build_alert AL_Warning AD_CloseNotify)) 0 = Ret close_alert
    \<and> cvb_bytes (co_sendable_tls (perhaps_write_key_update closed)) =
        cvb_bytes (co_sendable_tls common) @ opaque_encode close_alert @ opaque_encode upd"
proof -
  note iv = rfc_iv_length [OF assms(2)]
  obtain ks' upd where u: "update_encrypter_and_notify c ks common = Some (Ret ks',
      common \<lparr>co_queued_key_update := Some (opaque_encode upd),
              co_record_layer := set_message_encrypter (co_record_layer common)
                (Tls13MessageEncrypter (rfc_key hmac hl (ks_suite (kst_ks ks)) (own_secret ks' (co_side common)))
                   (rfc_iv hmac hl (own_secret ks' (co_side common))))\<rparr>)"
    "rl_encrypt c (rl_encrypter (co_record_layer common)) (message_into_plain message_key_update_notify)
        (rl_write_seq (co_record_layer common)) = Ret upd"
    using update_encrypter_rfc [OF assms] by auto
  obtain al closed where a: "send_close_notify c (common \<lparr>co_queued_key_update := Some (opaque_encode upd),
              co_record_layer := set_message_encrypter (co_record_layer common)
                (Tls13MessageEncrypter (rfc_key hmac hl (ks_suite (kst_ks ks)) (own_secret ks' (co_side common)))
                   (rfc_iv hmac hl (own_secret ks' (co_side common))))\<rparr>) = Some (Ret (), closed)"
    "rl_encrypt c (Tls13MessageEncrypter (rfc_key hmac hl (ks_suite (kst_ks ks)) (own_secret ks' (co_side common)))
           (rfc_iv hmac hl (own_secret ks' (co_side common)))) (message_into_plain (build_alert AL_Warning AD_CloseNotify)) 0 = Ret al"
    "cvb_bytes (co_sendable_tls closed) = cvb_bytes (co_sendable_tls common) @ opaque_encode al"
    "co_queued_key_update closed = Some (opaque_encode upd)"
    using alert_under_new_key [OF assms(1,3) iv] by blast
  have "cvb_bytes (co_sendable_tls (perhaps_write_key_update closed)) = cvb_bytes (co_sendable_tls closed) @ opaque_encode upd"
    using a(4) by (simp add: perhaps_write_key_update_def)
  then show ?thesis using u a by (metis append.assoc)
qed

text \<open>The schedule of a connection with the sample keys.\<close>

definition sample_traffic :: key_schedule_traffic where
  "sample_traffic = \<lparr>kst_ks = \<lparr>ks_current = [], ks_suite = TLS13_AES_128_GCM_SHA256 (sha256 sample_prims) sample_ring\<rparr>,
     kst_client = [1], kst_server = [2], kst_exporter = [3]\<rparr>"

lemma sample_traffic_rfc: "rfc5869 (t13_hkdf (ks_suite (kst_ks sample_traffic))) sample_mac 32"
  using ring_rfc5869 [OF sample_ring_laws]
  by (simp add: sample_traffic_def TLS13_AES_128_GCM_SHA256_def tls13_suite_ring_def) (simp add: sample_ring_def)

theorem key_update_overtaken_witness:
  "\<exists>ks' switched closed upd close_alert.
    update_encrypter_and_notify sample_prims sample_traffic (sample_common 7) = Some (Ret ks', switched)
    \<and> send_close_notify sample_prims switched = Some (Ret (), closed)
    \<and> cvb_bytes (co_sendable_tls (perhaps_write_key_update closed)) = opaque_encode close_alert @ opaque_encode upd"
proof -
  have "\<not> encrypt_exhausted (co_record_layer (sample_common 7))"
    by (simp add: encrypt_exhausted_def sample_common_def SEQ_HARD_LIMIT_def)
  moreover have "cvb_bytes (co_sendable_tls (sample_common 7)) = []"
    by (simp add: sample_common_def common_state_new_def cvb_new_def cvb_bytes_def)
  ultimately show ?thesis
    using key_update_overtaken [OF sample_aead_laws sample_traffic_rfc sample_common_sealing, of 7] by (metis append_Nil)
qed

end
