(* ===== verification/Rustls_Sessions.thy ===== *)
theory Rustls_Sessions
  imports Rustls_Common_State
begin

text \<open>
  What a TLS server keeps between connections: the bounded cache (\<open>rustls-reality/rustls/src/limited_cache.rs\<close>), the session storage over it
  (\<open>server/handy.rs\<close>), tickets sealed with a key (\<open>crypto/ring/ticketer.rs\<close>) and the ticketer that changes its keys (\<open>ticketer.rs\<close>), and the
  session value with its encoding and its age (\<open>msgs/persist.rs\<close>).

  A lock that is held by a thread that panics is not modelled: nothing that runs under one of these locks panics. The time is an argument of the calls
  that ask for it.
\<close>

section \<open>The bounded cache\<close>

text \<open>A map and the queue of its keys. The capacity is that of the queue, which its implementation enlarges when it is full.\<close>

record ('k, 'v) limited_cache =
  lc_map :: "'k \<rightharpoonup> 'v"
  lc_oldest :: "'k list"
  lc_capacity :: nat

definition lc_new :: "nat \<Rightarrow> ('k, 'v) limited_cache" where
  "lc_new capacity_order_of_magnitude = \<lparr>lc_map = Map.empty, lc_oldest = [], lc_capacity = capacity_order_of_magnitude\<rparr>"

text \<open>\<open>VecDeque::push_back\<close>: a full queue doubles its capacity, to four at least.\<close>

definition lc_push :: "'k \<Rightarrow> ('k, 'v) limited_cache \<Rightarrow> ('k, 'v) limited_cache" where
  "lc_push k self = self
     \<lparr>lc_oldest := lc_oldest self @ [k],
      lc_capacity := (if length (lc_oldest self) = lc_capacity self then max 4 (2 * lc_capacity self) else lc_capacity self)\<rparr>"

definition lc_evict :: "('k, 'v) limited_cache \<Rightarrow> ('k, 'v) limited_cache" where
  "lc_evict self =
     (if lc_capacity self = length (lc_oldest self) then
        (case lc_oldest self of
           [] \<Rightarrow> self
         | oldest_key # rest \<Rightarrow> self \<lparr>lc_oldest := rest, lc_map := (lc_map self)(oldest_key := None)\<rparr>)
      else self)"

definition get_or_insert_default_and_edit ::
  "'v \<Rightarrow> 'k \<Rightarrow> ('v \<Rightarrow> 'v) \<Rightarrow> ('k, 'v) limited_cache \<Rightarrow> ('k, 'v) limited_cache" where
  "get_or_insert_default_and_edit dflt k edit self =
     (case lc_map self k of
        Some v \<Rightarrow> self \<lparr>lc_map := (lc_map self)(k \<mapsto> edit v)\<rparr>
      | None \<Rightarrow> lc_evict ((lc_push k self) \<lparr>lc_map := (lc_map self)(k \<mapsto> edit dflt)\<rparr>))"

definition lc_insert :: "'k \<Rightarrow> 'v \<Rightarrow> ('k, 'v) limited_cache \<Rightarrow> ('k, 'v) limited_cache" where
  "lc_insert k v self =
     (case lc_map self k of
        Some _ \<Rightarrow> self \<lparr>lc_map := (lc_map self)(k \<mapsto> v)\<rparr>
      | None \<Rightarrow> lc_evict ((lc_push k self) \<lparr>lc_map := (lc_map self)(k \<mapsto> v)\<rparr>))"

definition lc_get :: "('k, 'v) limited_cache \<Rightarrow> 'k \<Rightarrow> 'v option" where
  "lc_get self k = lc_map self k"

definition lc_remove :: "'k \<Rightarrow> ('k, 'v) limited_cache \<Rightarrow> 'v option \<times> ('k, 'v) limited_cache" where
  "lc_remove k self =
     (case lc_map self k of
        Some v \<Rightarrow> (Some v, self \<lparr>lc_map := (lc_map self)(k := None), lc_oldest := remove1 k (lc_oldest self)\<rparr>)
      | None \<Rightarrow> (None, self))"

section \<open>Session storage\<close>

text \<open>The two implementations of \<open>StoresServerSessions\<close>.\<close>

datatype session_storage = NoServerSessionStorage | ServerSessionMemoryCache "(bytes, bytes) limited_cache"

definition memory_cache_new :: "nat \<Rightarrow> session_storage" where
  "memory_cache_new n = ServerSessionMemoryCache (lc_new n)"

fun storage_put :: "bytes \<Rightarrow> bytes \<Rightarrow> session_storage \<Rightarrow> bool \<times> session_storage" where
  "storage_put key val NoServerSessionStorage = (False, NoServerSessionStorage)"
| "storage_put key val (ServerSessionMemoryCache cache) = (True, ServerSessionMemoryCache (lc_insert key val cache))"

fun storage_get :: "bytes \<Rightarrow> session_storage \<Rightarrow> bytes option" where
  "storage_get key NoServerSessionStorage = None"
| "storage_get key (ServerSessionMemoryCache cache) = lc_get cache key"

fun storage_take :: "bytes \<Rightarrow> session_storage \<Rightarrow> bytes option \<times> session_storage" where
  "storage_take key NoServerSessionStorage = (None, NoServerSessionStorage)"
| "storage_take key (ServerSessionMemoryCache cache) =
     (case lc_remove key cache of (v, cache) \<Rightarrow> (v, ServerSessionMemoryCache cache))"

fun can_cache :: "session_storage \<Rightarrow> bool" where
  "can_cache NoServerSessionStorage = False"
| "can_cache (ServerSessionMemoryCache cache) = True"

section \<open>Tickets\<close>

text \<open>A ticketer with one key. The nonce is random and may fail to be; the AEAD of \<open>prims\<close> stands for ChaCha20-Poly1305.\<close>

record aead_ticketer =
  at_key :: bytes
  at_lifetime :: u32

definition make_ticket_generator :: "bytes option \<Rightarrow> aead_ticketer option" where
  "make_ticket_generator random = map_option (\<lambda>key. \<lparr>at_key = key, at_lifetime = 60 * 60 * 12\<rparr>) random"

definition ticket_encrypt :: "prims \<Rightarrow> aead_ticketer \<Rightarrow> bytes option \<Rightarrow> bytes \<Rightarrow> bytes option" where
  "ticket_encrypt c self random message =
     Option.bind random (\<lambda>nonce_buf.
     map_option (\<lambda>sealed. nonce_buf @ sealed) (aead_seal c (at_key self) nonce_buf [] message))"

definition ticket_decrypt :: "prims \<Rightarrow> aead_ticketer \<Rightarrow> bytes \<Rightarrow> bytes option" where
  "ticket_decrypt c self ciphertext =
     (if length ciphertext < NONCE_LEN then None
      else aead_open c (at_key self) (take NONCE_LEN ciphertext) [] (drop NONCE_LEN ciphertext))"

text \<open>The ticketer that changes its key.\<close>

record ticket_switcher =
  ts_next :: "aead_ticketer option"
  ts_current :: aead_ticketer
  ts_previous :: "aead_ticketer option"
  ts_next_switch_time :: u64

text \<open>\<open>saturating_add\<close> and its like on machine words.\<close>

definition saturating_add64 :: "u64 \<Rightarrow> u64 \<Rightarrow> u64" where
  "saturating_add64 a b = (if unat a + unat b < 2 ^ 64 then a + b else 0xffffffffffffffff)"

definition saturating_sub64 :: "u64 \<Rightarrow> u64 \<Rightarrow> u64" where
  "saturating_sub64 a b = (if a < b then 0 else a - b)"

definition saturating_mul32 :: "u32 \<Rightarrow> u32 \<Rightarrow> u32" where
  "saturating_mul32 a b = (if unat a * unat b < 2 ^ 32 then a * b else 0xffffffff)"

definition switcher_new :: "u32 \<Rightarrow> u64 \<Rightarrow> aead_ticketer option \<Rightarrow> aead_ticketer option \<Rightarrow> (rl_error, ticket_switcher) outcome" where
  "switcher_new lifetime now gen1 gen2 =
     bnd (ok_or FailedToGetRandomBytes gen1) (\<lambda>next.
     bnd (ok_or FailedToGetRandomBytes gen2) (\<lambda>current.
     Ret \<lparr>ts_next = Some next, ts_current = current, ts_previous = None,
          ts_next_switch_time = saturating_add64 now (ucast lifetime)\<rparr>))"

text \<open>\<open>maybe_roll\<close> takes the lock twice, and other threads may run between the two; so it is two steps. The first says how to go on.\<close>

datatype roll = RollReady | RollSwitched | RollRecovering

definition roll_start :: "u32 \<Rightarrow> u64 \<Rightarrow> ticket_switcher \<Rightarrow> roll \<times> ticket_switcher" where
  "roll_start lifetime now state =
     (if now \<le> ts_next_switch_time state then (RollReady, state)
      else
        (case ts_next state of
           Some next \<Rightarrow>
             (RollSwitched, state \<lparr>ts_next := None, ts_previous := Some (ts_current state), ts_current := next,
                ts_next_switch_time := saturating_add64 now (ucast lifetime)\<rparr>)
         | None \<Rightarrow> (RollRecovering, state)))"

text \<open>The second step has new ticketers, unless generating one failed; \<open>None\<close> as the result is a roll that is given up.\<close>

definition roll_finish ::
  "u32 \<Rightarrow> u64 \<Rightarrow> roll \<Rightarrow> aead_ticketer option \<Rightarrow> aead_ticketer option \<Rightarrow> ticket_switcher \<Rightarrow> bool \<times> ticket_switcher" where
  "roll_finish lifetime now how gen1 gen2 state =
     (case how of
        RollReady \<Rightarrow> (True, state)
      | RollSwitched \<Rightarrow>
          (case gen1 of
             Some next \<Rightarrow> (True, state \<lparr>ts_next := Some next\<rparr>)
           | None \<Rightarrow> (False, state))
      | RollRecovering \<Rightarrow>
          (case (gen1, gen2) of
             (Some next, Some new_current) \<Rightarrow>
               let state = state \<lparr>ts_next := Some next\<rparr> in
               (True, if now > ts_next_switch_time state
                      then state \<lparr>ts_previous := Some (ts_current state), ts_current := new_current,
                                  ts_next_switch_time := saturating_add64 now (ucast lifetime)\<rparr>
                      else state)
           | _ \<Rightarrow> (False, state)))"

definition maybe_roll ::
  "u32 \<Rightarrow> u64 \<Rightarrow> aead_ticketer option \<Rightarrow> aead_ticketer option \<Rightarrow> ticket_switcher \<Rightarrow> bool \<times> ticket_switcher" where
  "maybe_roll lifetime now gen1 gen2 state =
     (case roll_start lifetime now state of (how, state) \<Rightarrow> roll_finish lifetime now how gen1 gen2 state)"

text \<open>Encrypting and decrypting once the lock is held.\<close>

definition switcher_encrypt ::
  "prims \<Rightarrow> u32 \<Rightarrow> u64 \<Rightarrow> aead_ticketer option \<Rightarrow> aead_ticketer option \<Rightarrow> bytes option \<Rightarrow> bytes \<Rightarrow> ticket_switcher
     \<Rightarrow> bytes option \<times> ticket_switcher" where
  "switcher_encrypt c lifetime now gen1 gen2 random message state =
     (case maybe_roll lifetime now gen1 gen2 state of
        (held, state) \<Rightarrow> (if held then ticket_encrypt c (ts_current state) random message else None, state))"

definition decrypt_held :: "prims \<Rightarrow> bytes \<Rightarrow> ticket_switcher \<Rightarrow> bytes option" where
  "decrypt_held c ciphertext state =
     (case ticket_decrypt c (ts_current state) ciphertext of
        Some plain \<Rightarrow> Some plain
      | None \<Rightarrow> Option.bind (ts_previous state) (\<lambda>previous. ticket_decrypt c previous ciphertext))"

definition switcher_decrypt ::
  "prims \<Rightarrow> u32 \<Rightarrow> u64 \<Rightarrow> aead_ticketer option \<Rightarrow> aead_ticketer option \<Rightarrow> bytes \<Rightarrow> ticket_switcher \<Rightarrow> bytes option \<times> ticket_switcher" where
  "switcher_decrypt c lifetime now gen1 gen2 ciphertext state =
     (case maybe_roll lifetime now gen1 gen2 state of
        (held, state) \<Rightarrow> (if held then decrypt_held c ciphertext state else None, state))"

definition switcher_lifetime :: "u32 \<Rightarrow> u32" where
  "switcher_lifetime lifetime = lifetime * 2"

section \<open>The session value\<close>

record server_session_value =
  ss_sni :: "bytes option"
  ss_version :: rl_version
  ss_cipher_suite :: cipher_suite
  ss_master_secret :: bytes
  ss_extended_ms :: bool
  ss_client_cert_chain :: "bytes list option"
  ss_alpn :: "bytes option"
  ss_application_data :: bytes
  ss_creation_time_sec :: u64
  ss_age_obfuscation_offset :: u32
  ss_freshness :: "bool option"

text \<open>A byte that says whether the field follows; a byte other than 1 says that it does not.\<close>

definition optional_field_encode :: "('a \<Rightarrow> bytes) \<Rightarrow> 'a option \<Rightarrow> bytes" where
  "optional_field_encode enc x = (case x of Some y \<Rightarrow> 1 # enc y | None \<Rightarrow> [0])"

definition optional_field_read :: "'a rd \<Rightarrow> 'a option rd" where
  "optional_field_read rd r =
     rbind (rd_u8 r) (\<lambda>(has, r). if has = 1 then rd_map Some rd r else Some (Ret (None, r)))"

definition rd_u64 :: "u64 rd" where
  "rd_u64 r =
     Some (case reader_take 8 r of
             Some ([a, b, c, d, e, f, g, h], r') \<Rightarrow> Ret (push_bit 32 (ucast (be32 a b c d)) OR ucast (be32 e f g h), r')
           | _ \<Rightarrow> Err (MissingData (lit ''u64'')))"

definition dns_name_read :: "(bytes \<Rightarrow> bool) \<Rightarrow> bytes rd" where
  "dns_name_read dns = rd_check (\<lambda>name. \<not> dns name) InvalidServerName payload_u8_read"

definition ssv_encode :: "server_session_value \<Rightarrow> bytes" where
  "ssv_encode self =
     optional_field_encode payload_u8_encode (ss_sni self)
     @ vers_encode (ss_version self)
     @ u16_be (ss_cipher_suite self)
     @ payload_u8_encode (ss_master_secret self)
     @ [if ss_extended_ms self then 1 else 0]
     @ optional_field_encode certificate_chain_encode (ss_client_cert_chain self)
     @ optional_field_encode payload_u8_encode (ss_alpn self)
     @ payload_u16_encode (ss_application_data self)
     @ u64_be (ss_creation_time_sec self)
     @ u32_be (ss_age_obfuscation_offset self)"

definition ssv_read :: "(bytes \<Rightarrow> bool) \<Rightarrow> server_session_value rd" where
  "ssv_read dns r =
     rbind (optional_field_read (dns_name_read dns) r) (\<lambda>(sni, r).
     rbind (vers_read r) (\<lambda>(v, r).
     rbind (suite_read r) (\<lambda>(cs, r).
     rbind (payload_u8_read r) (\<lambda>(ms, r).
     rbind (rd_u8 r) (\<lambda>(ems, r).
     rbind (optional_field_read certificate_chain_read r) (\<lambda>(ccert, r).
     rbind (optional_field_read payload_u8_read r) (\<lambda>(alpn, r).
     rbind (payload_u16_read r) (\<lambda>(application_data, r).
     rbind (rd_u64 r) (\<lambda>(creation_time_sec, r).
     rbind (rd_u32 r) (\<lambda>(age_obfuscation_offset, r).
     Some (Ret (\<lparr>ss_sni = sni, ss_version = v, ss_cipher_suite = cs, ss_master_secret = ms, ss_extended_ms = (ems = 1),
                 ss_client_cert_chain = ccert, ss_alpn = alpn, ss_application_data = application_data,
                 ss_creation_time_sec = creation_time_sec, ss_age_obfuscation_offset = age_obfuscation_offset,
                 ss_freshness = None\<rparr>, r))))))))))))"

definition ssv_read_bytes :: "(bytes \<Rightarrow> bool) \<Rightarrow> bytes \<Rightarrow> (invalid_message, server_session_value) outcome option" where
  "ssv_read_bytes dns bs = map_option (\<lambda>res. bnd res (\<lambda>(x, r). Ret x)) (ssv_read dns (reader_init bs))"

definition ssv_new ::
  "bytes option \<Rightarrow> rl_version \<Rightarrow> cipher_suite \<Rightarrow> bytes \<Rightarrow> bytes list option \<Rightarrow> bytes option \<Rightarrow> bytes \<Rightarrow> u64 \<Rightarrow> u32 \<Rightarrow> server_session_value" where
  "ssv_new sni v cs ms client_cert_chain alpn application_data creation_time age_obfuscation_offset =
     \<lparr>ss_sni = sni, ss_version = v, ss_cipher_suite = cs, ss_master_secret = ms, ss_extended_ms = False,
      ss_client_cert_chain = client_cert_chain, ss_alpn = alpn, ss_application_data = application_data,
      ss_creation_time_sec = creation_time, ss_age_obfuscation_offset = age_obfuscation_offset, ss_freshness = None\<rparr>"

definition set_extended_ms_used :: "server_session_value \<Rightarrow> server_session_value" where
  "set_extended_ms_used self = self \<lparr>ss_extended_ms := True\<rparr>"

definition MAX_FRESHNESS_SKEW_MS :: u32 where
  "MAX_FRESHNESS_SKEW_MS = 60 * 1000"

definition set_freshness :: "u32 \<Rightarrow> u64 \<Rightarrow> server_session_value \<Rightarrow> server_session_value" where
  "set_freshness obfuscated_client_age_ms time_now self =
     (let client_age_ms = obfuscated_client_age_ms - ss_age_obfuscation_offset self;
          server_age_ms = saturating_mul32 (ucast (saturating_sub64 time_now (ss_creation_time_sec self))) 1000;
          age_difference = (if client_age_ms < server_age_ms then server_age_ms - client_age_ms else client_age_ms - server_age_ms) in
      self \<lparr>ss_freshness := Some (age_difference \<le> MAX_FRESHNESS_SKEW_MS)\<rparr>)"

definition is_fresh :: "server_session_value \<Rightarrow> bool" where
  "is_fresh self = (case ss_freshness self of Some b \<Rightarrow> b | None \<Rightarrow> False)"

section \<open>The cache as a list\<close>

text \<open>A sequence of calls on a storage, and what they return.\<close>

datatype storage_call = StPut bytes bytes | StGet bytes | StTake bytes

datatype storage_result = PutDone bool | Got "bytes option" | Taken "bytes option"

fun storage_step :: "session_storage \<Rightarrow> storage_call \<Rightarrow> storage_result \<times> session_storage" where
  "storage_step s (StPut k v) = (case storage_put k v s of (b, s) \<Rightarrow> (PutDone b, s))"
| "storage_step s (StGet k) = (Got (storage_get k s), s)"
| "storage_step s (StTake k) = (case storage_take k s of (v, s) \<Rightarrow> (Taken v, s))"

fun storage_calls :: "session_storage \<Rightarrow> storage_call list \<Rightarrow> storage_result list \<times> session_storage" where
  "storage_calls s [] = ([], s)"
| "storage_calls s (x # xs) =
     (case storage_step s x of (r, s) \<Rightarrow> case storage_calls s xs of (rs, s) \<Rightarrow> (r # rs, s))"

text \<open>The specification: a list of entries, the oldest first, that loses its first when it gets \<open>n\<close> long.\<close>

fun list_step :: "nat \<Rightarrow> (bytes \<times> bytes) list \<Rightarrow> storage_call \<Rightarrow> storage_result \<times> (bytes \<times> bytes) list" where
  "list_step n xs (StPut k v) =
     (PutDone True,
      if map_of xs k = None then (if Suc (length xs) = n then tl (xs @ [(k, v)]) else xs @ [(k, v)])
      else map (\<lambda>(a, b). (a, if a = k then v else b)) xs)"
| "list_step n xs (StGet k) = (Got (map_of xs k), xs)"
| "list_step n xs (StTake k) = (Taken (map_of xs k), filter (\<lambda>(a, b). a \<noteq> k) xs)"

fun list_calls :: "nat \<Rightarrow> (bytes \<times> bytes) list \<Rightarrow> storage_call list \<Rightarrow> storage_result list \<times> (bytes \<times> bytes) list" where
  "list_calls n s [] = ([], s)"
| "list_calls n s (x # xs) =
     (case list_step n s x of (r, s) \<Rightarrow> case list_calls n s xs of (rs, s) \<Rightarrow> (r # rs, s))"

definition lc_ok :: "nat \<Rightarrow> ('k, 'v) limited_cache \<Rightarrow> bool" where
  "lc_ok n self \<longleftrightarrow> distinct (lc_oldest self) \<and> set (lc_oldest self) = dom (lc_map self)
     \<and> (lc_capacity self = n \<and> length (lc_oldest self) < n \<or> lc_capacity self = 0 \<and> n = 4 \<and> lc_oldest self = [])"

definition lc_list :: "('k, 'v) limited_cache \<Rightarrow> ('k \<times> 'v) list" where
  "lc_list self = map (\<lambda>k. (k, the (lc_map self k))) (lc_oldest self)"

text \<open>The capacity a cache has once it is used.\<close>

definition lc_size :: "nat \<Rightarrow> nat" where
  "lc_size n = (if n = 0 then 4 else n)"

lemma lc_new_ok: "lc_ok (lc_size n) (lc_new n)" "lc_list (lc_new n) = []"
  by (auto simp: lc_ok_def lc_new_def lc_size_def lc_list_def)

lemma map_of_lc_list: "lc_ok n self \<Longrightarrow> map_of (lc_list self) k = lc_map self k"
proof -
  assume ok: "lc_ok n self"
  have "map_of (map (\<lambda>k. (k, the (m k))) ks) k = (if k \<in> set ks then Some (the (m k)) else None)" for ks and m :: "'a \<rightharpoonup> 'b"
    by (induction ks) auto
  then show ?thesis using ok by (auto simp: lc_list_def lc_ok_def domIff)
qed

lemma length_lc_list [simp]: "length (lc_list self) = length (lc_oldest self)"
  by (simp add: lc_list_def)

lemma lc_insert_list:
  assumes ok: "lc_ok n self"
  shows "lc_ok n (lc_insert k v self)"
    and "lc_list (lc_insert k v self) =
      (if map_of (lc_list self) k = None then (if Suc (length (lc_list self)) = n then tl (lc_list self @ [(k, v)]) else lc_list self @ [(k, v)])
       else map (\<lambda>(a, b). (a, if a = k then v else b)) (lc_list self))"
proof -
  have "lc_ok n (lc_insert k v self) \<and> lc_list (lc_insert k v self) =
      (if lc_map self k = None then (if Suc (length (lc_oldest self)) = n then tl (lc_list self @ [(k, v)]) else lc_list self @ [(k, v)])
       else map (\<lambda>(a, b). (a, if a = k then v else b)) (lc_list self))"
  proof (cases "lc_map self k")
    case (Some w)
    then have "k \<in> set (lc_oldest self)" using ok by (auto simp: lc_ok_def)
    then show ?thesis
      using Some ok by (auto simp: lc_insert_def lc_ok_def lc_list_def insert_absorb)
  next
    case None
    then have nk: "k \<notin> set (lc_oldest self)" using ok by (auto simp: lc_ok_def)
    have old: "map (\<lambda>a. (a, the (((lc_map self)(k \<mapsto> v)) a))) (lc_oldest self) = lc_list self"
      using nk by (auto simp: lc_list_def)
    show ?thesis
    proof (cases "Suc (length (lc_oldest self)) = n")
      case False
      then have "lc_insert k v self = (lc_push k self) \<lparr>lc_map := (lc_map self)(k \<mapsto> v)\<rparr>"
        using None ok by (auto simp: lc_insert_def lc_evict_def lc_push_def lc_ok_def)
      then show ?thesis using None False ok nk old by (auto simp: lc_ok_def lc_push_def lc_list_def)
    next
      case True
      then have cap: "lc_capacity self = n" using ok by (auto simp: lc_ok_def)
      show ?thesis
      proof (cases "lc_oldest self")
        case Nil
        then have i: "lc_insert k v self = (lc_push k self) \<lparr>lc_map := (lc_map self)(k := None), lc_oldest := []\<rparr>"
          using None True cap by (simp add: lc_insert_def lc_evict_def lc_push_def)
        have "dom ((lc_map self)(k := None)) = {}" using ok Nil by (auto simp: lc_ok_def)
        then show ?thesis using None True cap Nil by (simp add: i lc_ok_def lc_push_def lc_list_def)
      next
        case (Cons a ks)
        then have i: "lc_insert k v self = (lc_push k self) \<lparr>lc_map := (lc_map self)(k \<mapsto> v, a := None), lc_oldest := ks @ [k]\<rparr>"
          using None True cap by (auto simp: lc_insert_def lc_evict_def lc_push_def)
        have "a \<noteq> k" "a \<notin> set ks" "distinct ks" "k \<notin> set ks" "insert a (set ks) = dom (lc_map self)"
          using Cons nk ok by (auto simp: lc_ok_def)
        then show ?thesis using None True cap Cons by (auto simp: i lc_ok_def lc_push_def lc_list_def)
      qed
    qed
  qed
  then show "lc_ok n (lc_insert k v self)" and "lc_list (lc_insert k v self) =
      (if map_of (lc_list self) k = None then (if Suc (length (lc_list self)) = n then tl (lc_list self @ [(k, v)]) else lc_list self @ [(k, v)])
       else map (\<lambda>(a, b). (a, if a = k then v else b)) (lc_list self))"
    using map_of_lc_list [OF ok] by auto
qed

lemma lc_remove_list:
  assumes ok: "lc_ok n self" and r: "lc_remove k self = (v, self')"
  shows "lc_ok n self'" "v = map_of (lc_list self) k" "lc_list self' = filter (\<lambda>(a, b). a \<noteq> k) (lc_list self)"
proof -
  have rm: "filter (\<lambda>a. a \<noteq> k) (lc_oldest self) = remove1 k (lc_oldest self)"
    using ok by (simp add: lc_ok_def distinct_remove1_removeAll removeAll_filter_not_eq) (metis (full_types))
  have f: "filter (\<lambda>(a, b). a \<noteq> k) (lc_list self) = map (\<lambda>a. (a, the (lc_map self a))) (remove1 k (lc_oldest self))"
    by (simp add: lc_list_def filter_map comp_def rm)
  have d: "k \<notin> set (remove1 k (lc_oldest self))" using ok by (simp add: lc_ok_def)
  show "v = map_of (lc_list self) k" using r map_of_lc_list [OF ok] by (auto simp: lc_remove_def split: option.splits)
  show "lc_ok n self'"
  proof (cases "lc_map self k")
    case (Some w)
    then have "k \<in> set (lc_oldest self)" using ok by (auto simp: lc_ok_def)
    moreover from this have "length (remove1 k (lc_oldest self)) < length (lc_oldest self)"
      using length_pos_if_in_set by (fastforce simp: length_remove1)
    moreover have "set (remove1 k (lc_oldest self)) = dom (lc_map self) - {k}" "distinct (remove1 k (lc_oldest self))"
      using ok by (simp_all add: lc_ok_def set_remove1_eq)
    ultimately show ?thesis using ok r Some by (auto simp: lc_remove_def lc_ok_def split: if_splits)
  qed (use ok r in \<open>auto simp: lc_remove_def\<close>)
  show "lc_list self' = filter (\<lambda>(a, b). a \<noteq> k) (lc_list self)"
  proof (cases "lc_map self k")
    case None
    then have "k \<notin> set (lc_oldest self)" using ok by (auto simp: lc_ok_def)
    then show ?thesis using r None f by (simp add: lc_remove_def lc_list_def remove1_idem)
  next
    case (Some w)
    then show ?thesis using r d unfolding f by (auto simp: lc_remove_def lc_list_def)
  qed
qed

lemma storage_step_list:
  assumes "lc_ok n cache"
  shows "\<exists>cache'. storage_step (ServerSessionMemoryCache cache) x = (fst (list_step n (lc_list cache) x), ServerSessionMemoryCache cache')
    \<and> lc_ok n cache' \<and> lc_list cache' = snd (list_step n (lc_list cache) x)"
proof (cases x)
  case (StPut k v)
  then show ?thesis using lc_insert_list [OF assms, of k v] by auto
next
  case (StGet k)
  then show ?thesis using assms map_of_lc_list [OF assms] by (simp add: lc_get_def)
next
  case (StTake k)
  obtain v cache' where r: "lc_remove k cache = (v, cache')" by (cases "lc_remove k cache")
  then show ?thesis using StTake lc_remove_list [OF assms r] by simp
qed

lemma storage_calls_list:
  assumes "lc_ok n cache"
  shows "\<exists>cache'. storage_calls (ServerSessionMemoryCache cache) xs = (fst (list_calls n (lc_list cache) xs), ServerSessionMemoryCache cache')
    \<and> lc_ok n cache' \<and> lc_list cache' = snd (list_calls n (lc_list cache) xs)"
  using assms
proof (induction xs arbitrary: cache)
  case (Cons x xs)
  obtain c1 where c1: "storage_step (ServerSessionMemoryCache cache) x = (fst (list_step n (lc_list cache) x), ServerSessionMemoryCache c1)"
    "lc_ok n c1" "lc_list c1 = snd (list_step n (lc_list cache) x)"
    using storage_step_list [OF Cons.prems] by blast
  obtain c2 where "storage_calls (ServerSessionMemoryCache c1) xs = (fst (list_calls n (lc_list c1) xs), ServerSessionMemoryCache c2)"
    "lc_ok n c2" "lc_list c2 = snd (list_calls n (lc_list c1) xs)"
    using Cons.IH [OF c1(2)] by blast
  then show ?case using c1 by (auto split: prod.splits)
qed simp

lemma list_step_length: "0 < n \<Longrightarrow> length xs < n \<Longrightarrow> length (snd (list_step n xs x)) < n"
  by (cases x) (auto intro: le_less_trans [OF length_filter_le])

lemma list_calls_length: "0 < n \<Longrightarrow> length xs < n \<Longrightarrow> length (snd (list_calls n xs calls)) < n"
proof (induction calls arbitrary: xs)
  case (Cons x calls)
  show ?case
    using Cons.IH [OF Cons.prems(1) list_step_length [OF Cons.prems, of x]]
    by (cases "list_step n xs x"; cases "list_calls n (snd (list_step n xs x)) calls") auto
qed simp

text \<open>How often a key was put, and taken with success.\<close>

definition puts :: "bytes \<Rightarrow> storage_call list \<Rightarrow> nat" where
  "puts k calls = length (filter (\<lambda>x. case x of StPut a v \<Rightarrow> a = k | _ \<Rightarrow> False) calls)"

definition takes :: "bytes \<Rightarrow> storage_call list \<Rightarrow> storage_result list \<Rightarrow> nat" where
  "takes k calls results = length (filter (\<lambda>(x, r). x = StTake k \<and> r \<noteq> Taken None) (zip calls results))"

lemma takes_step:
  "(if \<exists>v. x = StTake k \<and> fst (list_step n xs x) = Taken (Some v) then 1 else 0) + (if map_of (snd (list_step n xs x)) k = None then 0 else 1)
   \<le> (case x of StPut a v \<Rightarrow> if a = k then 1 else 0 | _ \<Rightarrow> 0) + (if map_of xs k = None then 0 else (1 :: nat))"
proof (cases x)
  case (StPut a v)
  have tl: "map_of (tl ys) k = None \<or> map_of ys k \<noteq> None" for ys :: "(bytes \<times> bytes) list"
    by (cases ys) (auto split: if_splits)
  have upd: "map_of (map (\<lambda>(b, w). (b, if b = a then v else w)) xs) k = None \<longleftrightarrow> map_of xs k = None"
    by (induction xs) auto
  show ?thesis using StPut tl [of "xs @ [(a, v)]"] upd by (auto simp: map_add_def split: option.splits if_splits)
next
  case (StTake a)
  have "map_of (filter (\<lambda>(b, w). b \<noteq> a) xs) k = (if a = k then None else map_of xs k)"
    by (induction xs) auto
  then show ?thesis using StTake by auto
qed simp

lemma takes_bounded:
  "takes k calls (fst (list_calls n xs calls)) + (if map_of (snd (list_calls n xs calls)) k = None then 0 else 1)
   \<le> puts k calls + (if map_of xs k = None then 0 else (1 :: nat))"
proof (induction calls arbitrary: xs)
  case (Cons x calls)
  obtain r ys where s: "list_step n xs x = (r, ys)" by (cases "list_step n xs x")
  obtain rs zs where c: "list_calls n ys calls = (rs, zs)" by (cases "list_calls n ys calls")
  have t: "takes k (x # calls) (r # rs) = (if x = StTake k \<and> r \<noteq> Taken None then 1 else 0) + takes k calls rs"
    by (simp add: takes_def)
  have p: "puts k (x # calls) = (case x of StPut a v \<Rightarrow> if a = k then 1 else 0 | _ \<Rightarrow> 0) + puts k calls"
    by (simp add: puts_def split: storage_call.splits)
  have "x = StTake k \<and> r \<noteq> Taken None \<Longrightarrow> \<exists>v. x = StTake k \<and> r = Taken (Some v)"
    using s by (cases x) auto
  then show ?case
    using Cons.IH [of ys] takes_step [of x k n xs] s c t p by (auto split: if_splits)
qed (simp add: takes_def puts_def)

section \<open>The codec of a session value\<close>

lemma optional_field_codec:
  assumes "tls_codec ok enc rd"
  shows "tls_codec (\<lambda>x. case x of Some y \<Rightarrow> ok y | None \<Rightarrow> True) (optional_field_encode enc) (optional_field_read rd)"
proof -
  note u8 = exact_element.is_exact [OF u8_codec]
  show ?thesis
  proof (unfold_locales, goal_cases)
    case (1 r)
    show ?case
      unfolding optional_field_read_def
      by (rule rbind_returns [OF exact_returns [OF u8]]) (auto intro: rd_map_returns [OF tls_codec.returns [OF assms]])
  next
    case (2 r x r')
    then obtain b r1 where b: "rd_u8 r = Some (Ret (b, r1))"
      "(if b = 1 then rd_map Some rd r1 else Some (Ret (None, r1))) = Some (Ret (x, r'))"
      by (auto simp: optional_field_read_def rbind_Ret_iff)
    have u: "unread r = [b] @ unread r1" using exact_codec.exact [OF u8 b(1)] by simp
    show ?case
    proof (cases "b = 1")
      case True
      then obtain y where y: "x = Some y" "rd r1 = Some (Ret (y, r'))" using b(2) by (auto simp: rd_map_Ret)
      obtain bs where "ok y" "unread r1 = bs @ unread r'" "length (enc y) \<le> length bs" using tls_codec.sound [OF assms y(2)] by blast
      then show ?thesis using u y(1) by (auto simp: optional_field_encode_def intro!: exI [of _ "b # bs"])
    next
      case False
      then show ?thesis using b(2) u by (auto simp: optional_field_encode_def)
    qed
  next
    case (3 x r rest)
    show ?case
    proof (cases x)
      case None
      then obtain r1 where "rd_u8 r = Some (Ret (0, r1))" "unread r1 = rest"
        using exact_inverse [OF u8, where x = 0 and r = r and rest = rest] 3(2) by (auto simp: optional_field_encode_def)
      then show ?thesis using None by (simp add: optional_field_read_def)
    next
      case (Some y)
      then obtain r1 where r1: "rd_u8 r = Some (Ret (1, r1))" "unread r1 = enc y @ rest"
        using exact_inverse [OF u8, where x = 1 and r = r and rest = "enc y @ rest"] 3(2) by (auto simp: optional_field_encode_def)
      then obtain r2 where "rd r1 = Some (Ret (y, r2))" "unread r2 = rest"
        using tls_codec.inverse [OF assms _ r1(2)] 3(1) Some by auto
      then show ?thesis using Some r1 by (simp add: optional_field_read_def rd_map_Ret)
    qed
  qed
qed

lemma map_codec:
  assumes "tls_codec ok enc rd" "\<And>x. ok x \<Longrightarrow> ok' (f x) \<and> length (enc' (f x)) \<le> length (enc x)"
    and "\<And>y. ok' y \<Longrightarrow> \<exists>x. y = f x \<and> ok x \<and> enc' y = enc x"
  shows "tls_codec ok' enc' (rd_map f rd)"
proof (unfold_locales, goal_cases)
  case (1 r)
  show ?case by (rule rd_map_returns [OF tls_codec.returns [OF assms(1)]])
next
  case (2 r y r')
  then obtain x where x: "y = f x" "rd r = Some (Ret (x, r'))" by (auto simp: rd_map_Ret)
  show ?case using tls_codec.sound [OF assms(1) x(2)] assms(2) [of x] x(1) by force
next
  case (3 y r rest)
  then obtain x where x: "y = f x" "ok x" "enc' y = enc x" using assms(3) by blast
  then show ?case using tls_codec.inverse [OF assms(1) x(2), of r rest] 3(2) by (auto simp: rd_map_Ret)
qed

lemma u64_codec: "exact_codec (\<lambda>_. True) u64_be rd_u64"
proof -
  have r: "rd_u64 r = Some (case unread r of a # b # c # d # e # f # g # h # q \<Rightarrow>
        Ret (push_bit 32 (ucast (be32 a b c d)) OR ucast (be32 e f g h), r \<lparr>rd_cursor := rd_cursor r + 8\<rparr>)
      | _ \<Rightarrow> Err (MissingData (lit ''u64'')))" for r
    by (auto simp: rd_u64_def take_unread numeral_eq_Suc split: list.splits)
  have b: "u64_be (push_bit 32 (ucast (be32 a b c d)) OR ucast (be32 e f g h)) = [a, b, c, d, e, f, g, h]" for a b c d e f g h
  proof -
    have hi: "ucast (drop_bit (32 + n) (push_bit 32 (ucast x) OR ucast y :: u64)) = (ucast (drop_bit n x) :: u8)" for n and x y :: u32
      by (rule bit_word_eqI) (auto simp: bit_simps dest: bit_imp_le_length)
    have lo: "ucast (drop_bit n (push_bit 32 (ucast x) OR ucast y :: u64)) = (ucast (drop_bit n y) :: u8)" if "n \<le> 24" for n and x y :: u32
      by (rule bit_word_eqI) (use that in \<open>auto simp: bit_simps dest: bit_imp_le_length\<close>)
    show ?thesis
      using u32_be_be32 [of a b c d] u32_be_be32 [of e f g h] hi [of 24] hi [of 16] hi [of 8] hi [of 0] lo [of 24] lo [of 16] lo [of 8] lo [of 0]
      by (simp add: u64_be_def u32_be_def)
  qed
  have w: "push_bit 32 (ucast (be32 (ucast (drop_bit 56 w)) (ucast (drop_bit 48 w)) (ucast (drop_bit 40 w)) (ucast (drop_bit 32 w))))
      OR ucast (be32 (ucast (drop_bit 24 w)) (ucast (drop_bit 16 w)) (ucast (drop_bit 8 w)) (ucast w)) = w" for w :: u64
    using b [of "ucast (drop_bit 56 w)" "ucast (drop_bit 48 w)" "ucast (drop_bit 40 w)" "ucast (drop_bit 32 w)" "ucast (drop_bit 24 w)"
        "ucast (drop_bit 16 w)" "ucast (drop_bit 8 w)" "ucast w"]
    by (simp add: u64_be_inject [symmetric]) (simp add: u64_be_def)
  show ?thesis
  proof (rule exact_codecI, goal_cases)
    case (1 r)
    show ?case by (auto simp: r split: list.splits)
  next
    case (2 x r rest)
    then show ?case by (simp add: r u64_be_def w)
  next
    case (3 x r r')
    then obtain a b1 c d e f g h q where "unread r = a # b1 # c # d # e # f # g # h # q"
      "x = push_bit 32 (ucast (be32 a b1 c d)) OR ucast (be32 e f g h)" "r' = r \<lparr>rd_cursor := rd_cursor r + 8\<rparr>"
      by (auto simp: r split: list.splits)
    then show ?case by (simp add: b)
  qed
qed

definition ssv_ok :: "(bytes \<Rightarrow> bool) \<Rightarrow> server_session_value \<Rightarrow> bool" where
  "ssv_ok dns v \<longleftrightarrow> (case ss_sni v of Some n \<Rightarrow> short8 n \<and> dns n | None \<Rightarrow> True) \<and> vers_ok (ss_version v) \<and> short8 (ss_master_secret v)
     \<and> (case ss_client_cert_chain v of Some cs \<Rightarrow> vec_ok certificate_list short24 payload_u24_encode cs | None \<Rightarrow> True)
     \<and> (case ss_alpn v of Some a \<Rightarrow> short8 a | None \<Rightarrow> True) \<and> short16 (ss_application_data v) \<and> ss_freshness v = None"

abbreviation ssv_fields ::
  "(bytes \<Rightarrow> bool) \<Rightarrow>
     (((((((((bytes option \<times> rl_version) \<times> cipher_suite) \<times> bytes) \<times> u8) \<times> bytes list option) \<times> bytes option) \<times> bytes) \<times> u64) \<times> u32) rd" where
  "ssv_fields dns \<equiv>
     rd_pair (rd_pair (rd_pair (rd_pair (rd_pair (rd_pair (rd_pair (rd_pair (rd_pair
       (optional_field_read (dns_name_read dns)) vers_read) suite_read) payload_u8_read) rd_u8)
       (optional_field_read certificate_chain_read)) (optional_field_read payload_u8_read)) payload_u16_read) rd_u64) rd_u32"

definition ssv_of ::
  "((((((((bytes option \<times> rl_version) \<times> cipher_suite) \<times> bytes) \<times> u8) \<times> bytes list option) \<times> bytes option) \<times> bytes) \<times> u64) \<times> u32
     \<Rightarrow> server_session_value" where
  "ssv_of = (\<lambda>(((((((((sni, v), cs), ms), ems), ccert), alpn), app), t), age).
     \<lparr>ss_sni = sni, ss_version = v, ss_cipher_suite = cs, ss_master_secret = ms, ss_extended_ms = (ems = 1),
      ss_client_cert_chain = ccert, ss_alpn = alpn, ss_application_data = app,
      ss_creation_time_sec = t, ss_age_obfuscation_offset = age, ss_freshness = None\<rparr>)"

lemma ssv_read_map: "ssv_read dns = rd_map ssv_of (ssv_fields dns)"
proof
  show "ssv_read dns r = rd_map ssv_of (ssv_fields dns) r" for r
    unfolding ssv_read_def rd_map_def rd_pair_def rbind_def ssv_of_def
    by (simp split: option.splits outcome.splits prod.splits)
qed

lemma dns_name_codec: "exact_codec (\<lambda>n. short8 n \<and> dns n) payload_u8_encode (dns_name_read dns)"
  using check_exact [OF payload_u8_codec, of "\<lambda>n. \<not> dns n" InvalidServerName] by (simp add: dns_name_read_def)

lemma ssv_codec: "tls_codec (ssv_ok dns) ssv_encode (ssv_read dns)"
proof -
  note u8 = exact_element.is_exact [OF u8_codec] and u32 = exact_element.is_exact [OF u32_codec]
    and vers = exact_element.is_exact [OF vers_element] and suite = exact_element.is_exact [OF suite_element]
  note codec = exact_codec.is_codec
  let ?opt = "\<lambda>ok x. case x of Some y \<Rightarrow> ok y | None \<Rightarrow> True"
  note fields = pair_codec [OF pair_codec [OF pair_codec [OF pair_codec [OF pair_codec [OF pair_codec [OF pair_codec [OF pair_codec [OF pair_codec
    [OF optional_field_codec [OF codec [OF dns_name_codec [of dns]]] codec [OF vers]] codec [OF suite]] codec [OF payload_u8_codec]] codec [OF u8]]
    optional_field_codec [OF certificate_chain_codec]] optional_field_codec [OF codec [OF payload_u8_codec]]] codec [OF payload_u16_codec]]
    codec [OF u64_codec]] codec [OF u32]]
  show ?thesis
    unfolding ssv_read_map
  proof (rule map_codec [OF fields], goal_cases)
    case (1 x)
    then show ?case by (auto simp: ssv_of_def ssv_ok_def ssv_encode_def split: option.splits)
  next
    case (2 v)
    then show ?case
      by (intro exI [of _ "(((((((((ss_sni v, ss_version v), ss_cipher_suite v), ss_master_secret v), if ss_extended_ms v then 1 else 0),
          ss_client_cert_chain v), ss_alpn v), ss_application_data v), ss_creation_time_sec v), ss_age_obfuscation_offset v)"])
        (cases v, auto simp: ssv_of_def ssv_ok_def ssv_encode_def split: option.splits)
  qed
qed

lemma ssv_read_bytes_encode: "ssv_ok dns v \<Longrightarrow> ssv_read_bytes dns (ssv_encode v) = Some (Ret v)"
  using tls_codec.inverse [OF ssv_codec, of dns v "reader_init (ssv_encode v)" "[]"] by (auto simp: ssv_read_bytes_def)

lemma ssv_read_bytes_total: "\<exists>res. ssv_read_bytes dns bs = Some res \<and> res \<noteq> Panic"
  using tls_codec.returns [OF ssv_codec, of dns "reader_init bs"] by (auto simp: ssv_read_bytes_def bnd_Panic_iff)

section \<open>Tickets\<close>

lemma ticket_roundtrip:
  assumes "aead_laws c" "length nonce = NONCE_LEN" "ticket_encrypt c t (Some nonce) plain = Some ticket"
  shows "ticket_decrypt c t ticket = Some plain"
  using assms by (auto simp: ticket_encrypt_def ticket_decrypt_def aead_laws_def)

lemma switcher_encrypt_current:
  assumes "switcher_encrypt c lifetime now gen1 gen2 random plain s0 = (Some ticket, s)"
  shows "ticket_encrypt c (ts_current s) random plain = Some ticket"
  using assms by (auto simp: switcher_encrypt_def split: prod.splits if_splits)

section \<open>The age of a session\<close>

lemma saturating_sub64_unat: "unat (saturating_sub64 a b) = unat a - unat b"
  by (auto simp: saturating_sub64_def word_less_nat_alt unat_sub word_le_nat_alt not_less)

lemma saturating_mul32_unat: "unat (saturating_mul32 a b) = min (2 ^ 32 - 1) (unat a * unat b)"
proof (cases "unat a * unat b < 2 ^ 32")
  case True
  then show ?thesis by (simp add: saturating_mul32_def unat_word_ariths)
next
  case False
  then show ?thesis by (simp add: saturating_mul32_def min_def)
qed

section \<open>Properties\<close>


text \<open>A stored session is used once: in every sequence of calls on a storage, a key is taken with success at most as often as it was put. A
  stateful ticket is such a key, so a ticket can be redeemed once.\<close>

lemma session_taken_once:
  "takes key calls (fst (storage_calls (memory_cache_new n) calls)) \<le> puts key calls"
  using storage_calls_list [OF lc_new_ok(1) [of n], of calls] takes_bounded [of key calls "lc_size n" "[]"]
  by (auto simp: memory_cache_new_def lc_new_ok(2))

text \<open>C39. How long a ticket is accepted: if nothing is sealed or opened in between, a ticket is accepted at any later time, however long the lifetime of the keys has been over;
  it is refused once the keys have changed twice. (Other keys are assumed not to open it.)\<close>

theorem ticket_accepted_until_second_switch:
  assumes "aead_laws c" and "length nonce = NONCE_LEN"
    and issued: "switcher_encrypt c lifetime t0 gen1 gen2 (Some nonce) plain s0 = (Some ticket, s)"
    and others: "\<And>t. ts_next s = Some t \<Longrightarrow> ticket_decrypt c t ticket = None" "ticket_decrypt c n1 ticket = None" "ticket_decrypt c n2 ticket = None"
  shows "fst (switcher_decrypt c lifetime later (Some n1) (Some n2) ticket s) = Some plain
    \<and> (let s1 = snd (maybe_roll lifetime t1 (Some n1) (Some n2) s); s2 = snd (maybe_roll lifetime t2 (Some n3) (Some n4) s1) in
       ts_next_switch_time s < t1 \<longrightarrow> ts_next_switch_time s1 < t2 \<longrightarrow> decrypt_held c ticket s2 = None)"
proof -
  note cur = ticket_roundtrip [OF assms(1,2) switcher_encrypt_current [OF issued]]
  have "fst (switcher_decrypt c lifetime later (Some n1) (Some n2) ticket s) = Some plain"
    using cur others
    by (auto simp: switcher_decrypt_def maybe_roll_def roll_start_def roll_finish_def decrypt_held_def Let_def split: option.splits)
  moreover have "decrypt_held c ticket (snd (maybe_roll lifetime t2 (Some n3) (Some n4) (snd (maybe_roll lifetime t1 (Some n1) (Some n2) s)))) = None"
    if "ts_next_switch_time s < t1" "ts_next_switch_time (snd (maybe_roll lifetime t1 (Some n1) (Some n2) s)) < t2"
    using that others
    by (cases "ts_next s") (auto simp: maybe_roll_def roll_start_def roll_finish_def decrypt_held_def Let_def)
  ultimately show ?thesis by (simp add: Let_def)
qed

text \<open>A switcher with keys of 32 bytes.\<close>

definition sample_key :: "u8 \<Rightarrow> aead_ticketer" where
  "sample_key b = \<lparr>at_key = replicate 32 b, at_lifetime = 60 * 60 * 12\<rparr>"

definition sample_switcher :: ticket_switcher where
  "sample_switcher = \<lparr>ts_next = Some (sample_key 2), ts_current = sample_key 1, ts_previous = None, ts_next_switch_time = 21600\<rparr>"

theorem ticket_accepted_until_second_switch_witness:
  "\<exists>ticket. switcher_encrypt sample_prims 21600 100 None None (Some (replicate 12 0)) [5, 6, 7] sample_switcher = (Some ticket, sample_switcher)
    \<and> fst (switcher_decrypt sample_prims 21600 31536000 (Some (sample_key 3)) (Some (sample_key 4)) ticket sample_switcher) = Some [5, 6, 7]"
proof -
  define ticket where "ticket = replicate 12 0 @ [5, 6, 7] @ sample_tag (replicate 32 1) (replicate 12 0) [] [5, 6, 7]"
  have enc: "switcher_encrypt sample_prims 21600 100 None None (Some (replicate 12 0)) [5, 6, 7] sample_switcher = (Some ticket, sample_switcher)"
    by (simp add: switcher_encrypt_def maybe_roll_def roll_start_def roll_finish_def sample_switcher_def sample_key_def ticket_encrypt_def
        sample_prims_def ticket_def)
  have no: "ticket_decrypt sample_prims (sample_key b) ticket = None" if "b \<noteq> 1" for b
    using that by (simp add: ticket_decrypt_def sample_key_def sample_prims_def ticket_def sample_tag_def sample_mac_def NONCE_LEN_def numeral_eq_Suc)
  have "fst (switcher_decrypt sample_prims 21600 31536000 (Some (sample_key 3)) (Some (sample_key 4)) ticket sample_switcher) = Some [5, 6, 7]"
    using ticket_accepted_until_second_switch [OF sample_aead_laws _ enc, of "sample_key 3" "sample_key 4" 31536000] no
    by (simp add: NONCE_LEN_def sample_switcher_def)
  then show ?thesis using enc by blast
qed

text \<open>C40. Whether a session is fresh is computed on words that wrap and saturate. For a session that was created less than 4294967296 milliseconds ago
  and a client that reports its age as the protocol asks, the result is the intended one: the session is fresh if and only if the ages the client and the
  server have for it differ by at most 60 seconds.\<close>

theorem freshness_exact:
  fixes v :: server_session_value
  assumes "unat (ss_creation_time_sec v) \<le> unat now" and "(unat now - unat (ss_creation_time_sec v)) * 1000 < 2 ^ 32"
    and "client_age < 2 ^ 32" and "reported = word_of_nat client_age + ss_age_obfuscation_offset v"
  shows "is_fresh (set_freshness reported now v) \<longleftrightarrow>
    \<bar>int ((unat now - unat (ss_creation_time_sec v)) * 1000) - int client_age\<bar> \<le> 60000"
proof -
  define age where "age = unat now - unat (ss_creation_time_sec v)"
  define server :: u32 where "server = saturating_mul32 (ucast (saturating_sub64 now (ss_creation_time_sec v))) 1000"
  define client :: u32 where "client = word_of_nat client_age"
  have c: "unat client = client_age" using assms(3) by (simp add: client_def unat_of_nat)
  have "unat (ucast (saturating_sub64 now (ss_creation_time_sec v)) :: u32) = age mod 2 ^ 32"
    by (simp add: unsigned_ucast_eq unsigned_take_bit_eq take_bit_eq_mod saturating_sub64_unat age_def)
  then have s: "unat server = age * 1000"
    using assms(2) by (simp add: server_def saturating_mul32_unat age_def)
  have "reported - ss_age_obfuscation_offset v = client" using assms(4) by (simp add: client_def)
  then have "is_fresh (set_freshness reported now v) \<longleftrightarrow> (if client < server then server - client else client - server) \<le> MAX_FRESHNESS_SKEW_MS"
    by (simp add: is_fresh_def set_freshness_def Let_def server_def)
  also have "\<dots> \<longleftrightarrow> (if client_age < age * 1000 then age * 1000 - client_age else client_age - age * 1000) \<le> 60000"
    using c s by (auto simp: word_less_nat_alt word_le_nat_alt unat_sub MAX_FRESHNESS_SKEW_MS_def not_less)
  also have "\<dots> \<longleftrightarrow> \<bar>int (age * 1000) - int client_age\<bar> \<le> 60000" by auto
  finally show ?thesis by (simp add: age_def)
qed

theorem freshness_exact_witness:
  "is_fresh (set_freshness 7 1000060 (ssv_new None PV_TLSv1_3 0x1301 [] None None [] 1000000 0xffff8af0))
   \<and> \<not> is_fresh (set_freshness 7 1000160 (ssv_new None PV_TLSv1_3 0x1301 [] None None [] 1000000 0xffff8af0))"
  using freshness_exact [of "ssv_new None PV_TLSv1_3 0x1301 [] None None [] 1000000 0xffff8af0" 1000060 29975 7]
    freshness_exact [of "ssv_new None PV_TLSv1_3 0x1301 [] None None [] 1000000 0xffff8af0" 1000160 29975 7]
  by (simp add: ssv_new_def)

end
